(* ===== verification/Sorted_Map.thy ===== *)
theory Sorted_Map
  imports Prelude
begin

text \<open>
  \<open>std::collections::BTreeMap\<close> as the sources use it: an association list with strictly
  increasing keys.  \<open>bt_upsert k f\<close> is \<open>f(map.entry(k).or_default())\<close>, \<open>bt_remove\<close> is
  \<open>remove\<close>, \<open>bt_first\<close> and \<open>bt_last\<close> are \<open>first_key_value\<close> and \<open>last_key_value\<close>, and
  iteration is in list order.  The locale \<open>ordered_map\<close> is the interface that the order
  book relies on; it is interpreted on the association list at the end.
\<close>

type_synonym ('k, 'v) btree = "('k \<times> 'v) list"

definition bt_keys :: "('k, 'v) btree \<Rightarrow> 'k list" where
  "bt_keys m = map fst m"

definition bt_sorted :: "('k::linorder, 'v) btree \<Rightarrow> bool" where
  "bt_sorted m = sorted_wrt (<) (bt_keys m)"

fun bt_upsert :: "'k::linorder \<Rightarrow> ('v \<Rightarrow> 'v) \<Rightarrow> 'v \<Rightarrow> ('k, 'v) btree \<Rightarrow> ('k, 'v) btree" where
  "bt_upsert k f d [] = [(k, f d)]"
| "bt_upsert k f d ((k', v) # m) =
     (if k < k' then (k, f d) # (k', v) # m
      else if k = k' then (k, f v) # m
      else (k', v) # bt_upsert k f d m)"

fun bt_remove :: "'k::linorder \<Rightarrow> ('k, 'v) btree \<Rightarrow> ('k, 'v) btree" where
  "bt_remove k [] = []"
| "bt_remove k ((k', v) # m) = (if k = k' then m else (k', v) # bt_remove k m)"

definition bt_first :: "('k, 'v) btree \<Rightarrow> ('k \<times> 'v) option" where
  "bt_first m = (case m of [] \<Rightarrow> None | e # _ \<Rightarrow> Some e)"

definition bt_last :: "('k, 'v) btree \<Rightarrow> ('k \<times> 'v) option" where
  "bt_last m = (case rev m of [] \<Rightarrow> None | e # _ \<Rightarrow> Some e)"

lemma bt_sorted_Nil [simp]: "bt_sorted []"
  by (simp add: bt_sorted_def bt_keys_def)

lemma bt_sorted_Cons [simp]:
  "bt_sorted ((k, v) # m) \<longleftrightarrow> (\<forall>e \<in> set m. k < fst e) \<and> bt_sorted m"
  by (auto simp: bt_sorted_def bt_keys_def)

lemma bt_sorted_snoc:
  "bt_sorted (m @ [(k, v)]) \<longleftrightarrow> (\<forall>e \<in> set m. fst e < k) \<and> bt_sorted m"
  by (auto simp: bt_sorted_def bt_keys_def sorted_wrt_append)

lemma bt_sorted_distinct: "bt_sorted m \<Longrightarrow> distinct (map fst m)"
  by (induction m) force+

lemma set_bt_upsert:
  "e \<in> set (bt_upsert k f d m) \<Longrightarrow> e \<in> set m \<or> (fst e = k \<and> (\<exists>v. snd e = f v \<and> (v = d \<or> (k, v) \<in> set m)))"
  by (induction m) (auto split: if_splits)

lemma set_bt_remove: "set (bt_remove k m) \<subseteq> set m"
  by (induction m) (auto split: if_splits)

lemma bt_sorted_upsert: "bt_sorted m \<Longrightarrow> bt_sorted (bt_upsert k f d m)"
proof (induction m)
  case (Cons e m)
  then show ?case
    by (cases e) (force dest!: set_bt_upsert)
qed simp

lemma bt_sorted_remove: "bt_sorted m \<Longrightarrow> bt_sorted (bt_remove k m)"
  using set_bt_remove by (induction m) fastforce+

lemma map_of_bt_upsert:
  "bt_sorted m \<Longrightarrow>
    map_of (bt_upsert k f d m) = (map_of m)(k \<mapsto> f (case map_of m k of None \<Rightarrow> d | Some v \<Rightarrow> v))"
proof (induction m)
  case (Cons e m)
  obtain k' v where e: "e = (k', v)" by (cases e)
  have "map_of m k = None" if "k < k'"
    using that Cons.prems e by (auto simp: map_of_eq_None_iff)
  with Cons e show ?case by auto
qed simp

lemma map_of_bt_remove:
  "bt_sorted m \<Longrightarrow> map_of (bt_remove k m) = (map_of m)(k := None)"
proof (induction m)
  case (Cons e m)
  obtain k' v where e: "e = (k', v)" by (cases e)
  have "map_of m k' = None"
    using Cons.prems e by (auto simp: map_of_eq_None_iff)
  with Cons e show ?case by auto
qed simp

text \<open>Shape of the two ends, used where the order book pops its best level.\<close>

lemma bt_first_Some: "bt_first m = Some (k, v) \<longleftrightarrow> (\<exists>m'. m = (k, v) # m')"
  by (auto simp: bt_first_def split: list.splits)

lemma bt_last_Some: "bt_last m = Some (k, v) \<longleftrightarrow> (\<exists>m'. m = m' @ [(k, v)])"
  by (auto simp: bt_last_def split: list.splits)

lemma bt_ends_None [simp]: "bt_first m = None \<longleftrightarrow> m = []" "bt_last m = None \<longleftrightarrow> m = []"
  by (auto simp: bt_first_def bt_last_def split: list.splits)

lemma bt_remove_head [simp]: "bt_remove k ((k, v) # m) = m"
  by simp

lemma bt_upsert_head [simp]: "bt_upsert k f d ((k, v) # m) = (k, f v) # m"
  by simp

lemma bt_remove_last: "bt_sorted (m @ [(k, v)]) \<Longrightarrow> bt_remove k (m @ [(k, v)]) = m"
  by (induction m) (auto simp: bt_sorted_snoc)

lemma bt_upsert_last:
  "bt_sorted (m @ [(k, v)]) \<Longrightarrow> bt_upsert k f d (m @ [(k, v)]) = m @ [(k, f v)]"
  by (induction m) (auto simp: bt_sorted_snoc)

section \<open>The interface\<close>

locale ordered_map =
  fixes entries :: "'m \<Rightarrow> ('k::linorder \<times> 'v) list"
    and put :: "'k \<Rightarrow> 'v \<Rightarrow> 'm \<Rightarrow> 'm"
    and del :: "'k \<Rightarrow> 'm \<Rightarrow> 'm"
    and first_entry :: "'m \<Rightarrow> ('k \<times> 'v) option"
    and last_entry :: "'m \<Rightarrow> ('k \<times> 'v) option"
    and valid :: "'m \<Rightarrow> bool"
  assumes entries_sorted: "valid m \<Longrightarrow> sorted_wrt (<) (map fst (entries m))"
    and valid_put: "valid m \<Longrightarrow> valid (put k v m)"
    and valid_del: "valid m \<Longrightarrow> valid (del k m)"
    and lookup_put: "valid m \<Longrightarrow> map_of (entries (put k v m)) = (map_of (entries m))(k \<mapsto> v)"
    and lookup_del: "valid m \<Longrightarrow> map_of (entries (del k m)) = (map_of (entries m))(k := None)"
    and first_entry_Some: "first_entry m = Some e \<longleftrightarrow> (\<exists>es. entries m = e # es)"
    and last_entry_Some: "last_entry m = Some e \<longleftrightarrow> (\<exists>es. entries m = es @ [e])"
begin

lemma first_key_least:
  assumes "valid m" and "first_entry m = Some (k, v)" and "(k', v') \<in> set (entries m)"
  shows "k \<le> k'"
proof -
  from assms(2) obtain es where es: "entries m = (k, v) # es"
    by (auto simp: first_entry_Some)
  with entries_sorted [OF assms(1)] have "\<forall>e \<in> set es. k < fst e" by auto
  with es assms(3) show ?thesis by force
qed

lemma last_key_greatest:
  assumes "valid m" and "last_entry m = Some (k, v)" and "(k', v') \<in> set (entries m)"
  shows "k' \<le> k"
proof -
  from assms(2) obtain es where es: "entries m = es @ [(k, v)]"
    by (auto simp: last_entry_Some)
  with entries_sorted [OF assms(1)] have "\<forall>e \<in> set es. fst e < k"
    by (auto simp: sorted_wrt_append)
  with es assms(3) show ?thesis by force
qed

lemma keys_put: "valid m \<Longrightarrow> set (map fst (entries (put k v m))) = insert k (set (map fst (entries m)))"
  using lookup_put [of m k v] by (metis dom_fun_upd dom_map_of_conv_image_fst image_set option.discI)

lemma keys_del: "valid m \<Longrightarrow> set (map fst (entries (del k m))) = set (map fst (entries m)) - {k}"
  using lookup_del [of m k] by (metis dom_fun_upd dom_map_of_conv_image_fst image_set)

end

interpretation bt: ordered_map "\<lambda>m. m" "\<lambda>k v. bt_upsert k (\<lambda>_. v) v" bt_remove bt_first bt_last bt_sorted
proof unfold_locales
  show "sorted_wrt (<) (map fst m)" if "bt_sorted m" for m :: "('a, 'b) btree"
    using that by (simp add: bt_sorted_def bt_keys_def)
qed (auto simp: bt_sorted_upsert bt_sorted_remove map_of_bt_upsert map_of_bt_remove
    bt_first_Some bt_last_Some)

end
