(* ===== verification/Domain_Types.thy ===== *)
theory Domain_Types
  imports Sorted_Map
begin

text \<open>
  \<open>crates/domain\<close>: the error type, the identifier and money newtypes and the market
  specification (\<open>error.rs\<close>, \<open>newtype.rs\<close>, \<open>ids.rs\<close>, \<open>money.rs\<close>, \<open>market.rs\<close>).  A newtype is
  a datatype with one constructor around the machine word; the smart constructor
  \<open>non_zero_new\<close> is the one that the macro \<open>non_zero_newtype!\<close> expands to.
\<close>

section \<open>Errors\<close>

datatype domain_error =
    ZeroValue
  | SameMarketAssets
  | PriceNotTickAligned
  | QuantityNotLotAligned
  | ArithmeticOverflow
  | ArithmeticUnderflow
  | FillExceedsRemainingQuantity
  | OrderAlreadyTerminal
  | WrongOrderSide
  | OrderNotFound
  | NoMatchingOrder
  | AmountConversionOverflow
  | InsufficientAvailableBalance
  | InsufficientReservedBalance
  | SignedOrderMarketMismatch
  | SignedOrderWrongSide
  | SignedOrderExpired
  | SignedOrderSelfTrade
  | SignedOrderPricesDoNotCross
  | FillPriceOutsideSignedOrder
  | FillQuantityExceedsSignedOrder

section \<open>Newtypes\<close>

definition non_zero_new :: "('w::zero \<Rightarrow> 'a) \<Rightarrow> 'w \<Rightarrow> (domain_error, 'a) result" where
  "non_zero_new C v = (if v = 0 then Inl ZeroValue else Inr (C v))"

lemma non_zero_new_ok [checked_ok]: "non_zero_new C v = Inr x \<longleftrightarrow> v \<noteq> 0 \<and> x = C v"
  by (auto simp: non_zero_new_def)

lemma non_zero_new_err [checked_err]: "non_zero_new C v = Inl e \<longleftrightarrow> v = 0 \<and> e = ZeroValue"
  by (auto simp: non_zero_new_def)

datatype asset_id = AssetId (asset_id_get: u32)
datatype market_id = MarketId (market_id_get: u32)
datatype trader_id = TraderId (trader_id_get: u64)
datatype order_id = OrderId (order_id_get: u128)

datatype price = Price (price_get: u64)
datatype quantity = Quantity (quantity_get: u64)
datatype amount = Amount (amount_get: u64)
datatype tick_size = TickSize (tick_size_get: u64)
datatype lot_size = LotSize (lot_size_get: u64)

definition asset_id_new :: "u32 \<Rightarrow> (domain_error, asset_id) result" where
  "asset_id_new = non_zero_new AssetId"

definition market_id_new :: "u32 \<Rightarrow> (domain_error, market_id) result" where
  "market_id_new = non_zero_new MarketId"

definition trader_id_new :: "u64 \<Rightarrow> (domain_error, trader_id) result" where
  "trader_id_new = non_zero_new TraderId"

definition order_id_new :: "u128 \<Rightarrow> (domain_error, order_id) result" where
  "order_id_new = non_zero_new OrderId"

definition price_new :: "u64 \<Rightarrow> (domain_error, price) result" where
  "price_new = non_zero_new Price"

definition quantity_new :: "u64 \<Rightarrow> (domain_error, quantity) result" where
  "quantity_new = non_zero_new Quantity"

definition amount_new :: "u64 \<Rightarrow> (domain_error, amount) result" where
  "amount_new = non_zero_new Amount"

lemmas newtype_new_defs = asset_id_new_def market_id_new_def trader_id_new_def order_id_new_def
  price_new_def quantity_new_def amount_new_def

text \<open>The derived orderings of \<open>Price\<close> and \<open>Quantity\<close> compare the wrapped integers.\<close>

instantiation price :: linorder
begin
definition less_eq_price :: "price \<Rightarrow> price \<Rightarrow> bool" where
  "less_eq_price a b \<longleftrightarrow> price_get a \<le> price_get b"
definition less_price :: "price \<Rightarrow> price \<Rightarrow> bool" where
  "less_price a b \<longleftrightarrow> price_get a < price_get b"
instance
  by standard (auto simp: less_eq_price_def less_price_def intro: price.expand)
end

instantiation quantity :: linorder
begin
definition less_eq_quantity :: "quantity \<Rightarrow> quantity \<Rightarrow> bool" where
  "less_eq_quantity a b \<longleftrightarrow> quantity_get a \<le> quantity_get b"
definition less_quantity :: "quantity \<Rightarrow> quantity \<Rightarrow> bool" where
  "less_quantity a b \<longleftrightarrow> quantity_get a < quantity_get b"
instance
  by standard (auto simp: less_eq_quantity_def less_quantity_def intro: quantity.expand)
end

lemma price_less_eq_nat: "p \<le> q \<longleftrightarrow> unat (price_get p) \<le> unat (price_get q)"
  by (simp add: less_eq_price_def word_le_nat_alt)

lemma quantity_less_eq_nat: "p \<le> q \<longleftrightarrow> unat (quantity_get p) \<le> unat (quantity_get q)"
  by (simp add: less_eq_quantity_def word_le_nat_alt)

section \<open>Money\<close>

definition amount_checked_add :: "amount \<Rightarrow> amount \<Rightarrow> (domain_error, amount) result" where
  "amount_checked_add a b =
     and_then (ok_or (checked_add (amount_get a) (amount_get b)) ArithmeticOverflow) amount_new"

definition amount_checked_sub :: "amount \<Rightarrow> amount \<Rightarrow> (domain_error, amount) result" where
  "amount_checked_sub a b =
     and_then (ok_or (checked_sub (amount_get a) (amount_get b)) ArithmeticUnderflow) amount_new"

definition quote_cost :: "price \<Rightarrow> quantity \<Rightarrow> (domain_error, u128) result" where
  "quote_cost p q =
     ok_or (checked_mul (ucast (price_get p) :: u128) (ucast (quantity_get q))) ArithmeticOverflow"

text \<open>The widened product of two u64 values never overflows u128.\<close>

lemma quote_cost_total:
  "quote_cost p q = Inr (ucast (price_get p) * ucast (quantity_get q))"
  using u64_product_bound [of "price_get p" "quantity_get q"]
  by (simp add: quote_cost_def checked_mul_def)

lemma quote_cost_ok:
  "quote_cost p q = Inr c \<longleftrightarrow> unat c = unat (price_get p) * unat (quantity_get q)"
  by (simp add: quote_cost_def checked_ok)

section \<open>Markets\<close>

record market_spec =
  ms_base_asset :: asset_id
  ms_quote_asset :: asset_id
  ms_tick_size :: tick_size
  ms_lot_size :: lot_size

definition market_spec_new ::
  "asset_id \<Rightarrow> asset_id \<Rightarrow> tick_size \<Rightarrow> lot_size \<Rightarrow> (domain_error, market_spec) result" where
  "market_spec_new base quote tick lot =
     (if base = quote then Inl SameMarketAssets
      else Inr \<lparr>ms_base_asset = base, ms_quote_asset = quote,
                ms_tick_size = tick, ms_lot_size = lot\<rparr>)"

text \<open>\<open>u64::is_multiple_of\<close>: only zero is a multiple of zero.\<close>

definition is_multiple_of :: "u64 \<Rightarrow> u64 \<Rightarrow> bool" where
  "is_multiple_of a b = (if b = 0 then a = 0 else a mod b = 0)"

definition validate_price :: "market_spec \<Rightarrow> price \<Rightarrow> (domain_error, unit) result" where
  "validate_price m p =
     (if \<not> is_multiple_of (price_get p) (tick_size_get (ms_tick_size m))
      then Inl PriceNotTickAligned else Inr ())"

definition validate_quantity :: "market_spec \<Rightarrow> quantity \<Rightarrow> (domain_error, unit) result" where
  "validate_quantity m q =
     (if \<not> is_multiple_of (quantity_get q) (lot_size_get (ms_lot_size m))
      then Inl QuantityNotLotAligned else Inr ())"

lemma is_multiple_of_nat:
  "is_multiple_of a b \<longleftrightarrow> (\<exists>k. unat a = k * unat b)"
proof (cases "b = 0")
  case False
  then have "is_multiple_of a b \<longleftrightarrow> unat a mod unat b = 0"
    by (simp add: is_multiple_of_def unat_mod_distrib [symmetric] unat_eq_0)
  also have "\<dots> \<longleftrightarrow> (\<exists>k. unat a = k * unat b)"
    unfolding mod_eq_0_iff_dvd dvd_def by (simp only: mult.commute)
  finally show ?thesis .
qed (simp add: is_multiple_of_def unat_eq_0)

end
