(* ===== verification/Orders.thy ===== *)
theory Orders
  imports Domain_Types
begin

text \<open>
  \<open>crates/domain/src/order.rs\<close>: the order, its life cycle and the operations that move it.
  Methods on \<open>&mut self\<close> return their result together with the order they leave behind.
\<close>

datatype side = Bid | Ask

datatype order_status = Open | PartiallyFilled | Filled | Cancelled

datatype order_sequence = OrderSequence (order_sequence_get: u64)
datatype remaining_quantity = RemainingQuantity (remaining_get: u64)

definition order_sequence_new :: "u64 \<Rightarrow> (domain_error, order_sequence) result" where
  "order_sequence_new = non_zero_new OrderSequence"

definition remaining_is_zero :: "remaining_quantity \<Rightarrow> bool" where
  "remaining_is_zero r \<longleftrightarrow> remaining_get r = 0"

definition remaining_from_quantity :: "quantity \<Rightarrow> remaining_quantity" where
  "remaining_from_quantity q = RemainingQuantity (quantity_get q)"

record limit_order =
  order_ident :: order_id
  order_trader :: trader_id
  order_market :: market_id
  order_side :: side
  order_price :: price
  order_original :: quantity
  order_remaining :: remaining_quantity
  order_seq :: order_sequence
  order_state :: order_status

definition order_new ::
  "order_id \<Rightarrow> trader_id \<Rightarrow> market_id \<Rightarrow> side \<Rightarrow> price \<Rightarrow> quantity \<Rightarrow> order_sequence \<Rightarrow> limit_order"
where
  "order_new i t m s p q n =
     \<lparr>order_ident = i, order_trader = t, order_market = m, order_side = s, order_price = p,
      order_original = q, order_remaining = remaining_from_quantity q, order_seq = n,
      order_state = Open\<rparr>"

definition is_terminal :: "limit_order \<Rightarrow> bool" where
  "is_terminal x \<longleftrightarrow> order_state x = Filled \<or> order_state x = Cancelled"

definition apply_fill :: "limit_order \<Rightarrow> quantity \<Rightarrow> (domain_error, unit) result \<times> limit_order" where
  "apply_fill x q =
     (if is_terminal x then (Inl OrderAlreadyTerminal, x)
      else
        let fill = quantity_get q; remaining = remaining_get (order_remaining x)
        in if fill > remaining then (Inl FillExceedsRemainingQuantity, x)
           else
             let updated = remaining - fill
             in (Inr (), x\<lparr>order_remaining := RemainingQuantity updated,
                          order_state := (if updated = 0 then Filled else PartiallyFilled)\<rparr>))"

definition cancel_order :: "limit_order \<Rightarrow> (domain_error, unit) result \<times> limit_order" where
  "cancel_order x =
     (if is_terminal x then (Inl OrderAlreadyTerminal, x)
      else (Inr (), x\<lparr>order_state := Cancelled\<rparr>))"

section \<open>The quantities as natural numbers\<close>

definition rem_of :: "limit_order \<Rightarrow> nat" where
  "rem_of x = unat (remaining_get (order_remaining x))"

definition orig_of :: "limit_order \<Rightarrow> nat" where
  "orig_of x = unat (quantity_get (order_original x))"

definition qty :: "quantity \<Rightarrow> nat" where
  "qty q = unat (quantity_get q)"

lemma apply_fill_err:
  "fst (apply_fill x q) = Inl e \<longleftrightarrow>
     (is_terminal x \<and> e = OrderAlreadyTerminal) \<or>
     (\<not> is_terminal x \<and> rem_of x < qty q \<and> e = FillExceedsRemainingQuantity)"
  by (auto simp: apply_fill_def Let_def rem_of_def qty_def word_less_nat_alt)

lemma apply_fill_err_frame: "fst (apply_fill x q) = Inl e \<Longrightarrow> snd (apply_fill x q) = x"
  by (auto simp: apply_fill_def Let_def split: if_splits)

lemma apply_fill_ok:
  assumes "\<not> is_terminal x" and "qty q \<le> rem_of x"
  shows "apply_fill x q =
    (Inr (), x\<lparr>order_remaining := RemainingQuantity (remaining_get (order_remaining x) - quantity_get q),
              order_state := (if qty q = rem_of x then Filled else PartiallyFilled)\<rparr>)"
  using assms
  by (auto simp: apply_fill_def Let_def rem_of_def qty_def word_less_nat_alt word_unat_eq_iff
      unat_sub_exact word_le_nat_alt)

lemma apply_fill_rem:
  assumes "fst (apply_fill x q) = Inr u"
  shows "rem_of (snd (apply_fill x q)) + qty q = rem_of x"
proof -
  from assms have live: "\<not> is_terminal x" and le: "qty q \<le> rem_of x"
    by (auto simp: apply_fill_def Let_def rem_of_def qty_def word_less_nat_alt split: if_splits)
  then show ?thesis
    by (simp add: apply_fill_ok) (simp add: rem_of_def qty_def unat_sub_exact word_le_nat_alt)
qed

section \<open>Well-formed orders and their life cycle\<close>

text \<open>
  What the non-zero newtypes and the transitions maintain: identifiers and quantities are
  non-zero and the status agrees with the remaining quantity.
\<close>

definition order_wf :: "limit_order \<Rightarrow> bool" where
  "order_wf x \<longleftrightarrow>
     orig_of x \<noteq> 0 \<and> rem_of x \<le> orig_of x \<and>
     (case order_state x of
        Open \<Rightarrow> rem_of x = orig_of x
      | PartiallyFilled \<Rightarrow> rem_of x \<noteq> 0 \<and> rem_of x < orig_of x
      | Filled \<Rightarrow> rem_of x = 0
      | Cancelled \<Rightarrow> rem_of x \<noteq> 0)"

inductive order_step :: "limit_order \<Rightarrow> limit_order \<Rightarrow> bool" where
  fill: "qty q \<noteq> 0 \<Longrightarrow> apply_fill x q = (Inr (), y) \<Longrightarrow> order_step x y"
| cancel: "cancel_order x = (Inr (), y) \<Longrightarrow> order_step x y"

inductive_cases order_stepE: "order_step x y"

inductive order_run :: "limit_order \<Rightarrow> limit_order \<Rightarrow> bool" where
  start: "order_run x x"
| move: "order_run x y \<Longrightarrow> order_step y z \<Longrightarrow> order_run x z"

lemma order_new_wf: "quantity_get q \<noteq> 0 \<Longrightarrow> order_wf (order_new i t m s p q n)"
  by (simp add: order_wf_def order_new_def orig_of_def rem_of_def remaining_from_quantity_def)

lemma order_wf_live: "order_wf x \<Longrightarrow> \<not> is_terminal x \<Longrightarrow> rem_of x \<noteq> 0"
  by (cases "order_state x") (auto simp: order_wf_def is_terminal_def)

lemma apply_fill_wf:
  assumes "order_wf x" and "qty q \<noteq> 0" and "apply_fill x q = (Inr (), y)"
  shows "order_wf y"
proof -
  have rem: "rem_of y + qty q = rem_of x"
    using apply_fill_rem [of x q "()"] assms(3) by simp
  have y: "order_original y = order_original x"
    and st: "order_state y = (if rem_of y = 0 then Filled else PartiallyFilled)"
    using assms(3) by (auto simp: apply_fill_def Let_def rem_of_def unsigned_eq_0_iff split: if_splits)
  from assms(1) have "rem_of x \<le> orig_of x" "orig_of x \<noteq> 0" by (simp_all add: order_wf_def)
  with rem assms(2) st show ?thesis
    using y by (auto simp: order_wf_def orig_of_def)
qed

lemma cancel_order_wf: "order_wf x \<Longrightarrow> cancel_order x = (Inr (), y) \<Longrightarrow> order_wf y"
  using order_wf_live [of x]
  by (auto simp: cancel_order_def order_wf_def rem_of_def orig_of_def split: if_splits)

lemma order_step_wf: "order_step x y \<Longrightarrow> order_wf x \<Longrightarrow> order_wf y"
  by (induction rule: order_step.induct) (auto intro: apply_fill_wf cancel_order_wf)

lemma order_step_facts:
  assumes "order_step x y"
  shows "\<not> is_terminal x \<and> rem_of y \<le> rem_of x \<and>
    order_ident y = order_ident x \<and> order_trader y = order_trader x \<and>
    order_market y = order_market x \<and> order_side y = order_side x \<and>
    order_price y = order_price x \<and> order_original y = order_original x \<and>
    order_seq y = order_seq x \<and> order_state y \<noteq> Open"
  using assms
proof (cases rule: order_step.cases)
  case (fill q)
  with apply_fill_rem [of x q "()"] show ?thesis
    by (auto simp: apply_fill_def Let_def split: if_splits)
next
  case cancel
  then show ?thesis
    by (auto simp: cancel_order_def rem_of_def split: if_splits)
qed

lemma order_run_wf: "order_run x y \<Longrightarrow> order_wf x \<Longrightarrow> order_wf y"
  by (induction rule: order_run.induct) (auto intro: order_step_wf)

lemma order_run_frame:
  "order_run x y \<Longrightarrow>
    order_ident y = order_ident x \<and> order_trader y = order_trader x \<and>
    order_side y = order_side x \<and> order_price y = order_price x \<and>
    order_original y = order_original x \<and> rem_of y \<le> rem_of x"
  by (induction rule: order_run.induct) (auto dest!: order_step_facts)

lemma order_run_terminal:
  assumes "order_run x y" and "is_terminal x"
  shows "y = x"
  using assms
proof (induction rule: order_run.induct)
  case (move x y z)
  then show ?case by (auto dest: order_step_facts)
qed simp

section \<open>Guarantee of the life cycle\<close>

text \<open>However an order is filled and cancelled, its status agrees with its remaining quantity,
  which never exceeds the original one; its identity, trader, side, price and original
  quantity never change; and a filled or cancelled order never moves again.\<close>

lemma order_life_cycle:
  assumes "order_run (order_new i t m s p q n) x" and "quantity_get q \<noteq> 0"
  shows "order_wf x \<and> order_ident x = i \<and> order_trader x = t \<and> order_side x = s \<and>
    order_price x = p \<and> order_original x = q \<and> rem_of x \<le> qty q \<and>
    (is_terminal x \<longrightarrow> (\<forall>y. order_run x y \<longrightarrow> y = x))"
  using order_run_wf [OF assms(1) order_new_wf [OF assms(2)]] order_run_frame [OF assms(1)]
    order_run_terminal [of x]
  by (auto simp: order_new_def rem_of_def qty_def remaining_from_quantity_def)

lemma order_life_cycle_witness:
  "order_wf ((order_new (OrderId 1) (TraderId 2) (MarketId 3) Bid (Price 4) (Quantity 5) (OrderSequence 6))
     \<lparr>order_remaining := RemainingQuantity 2, order_state := PartiallyFilled\<rparr>)"
proof -
  let ?x = "order_new (OrderId 1) (TraderId 2) (MarketId 3) Bid (Price 4) (Quantity 5) (OrderSequence 6)"
  have "apply_fill ?x (Quantity 3) =
      (Inr (), ?x\<lparr>order_remaining := RemainingQuantity 2, order_state := PartiallyFilled\<rparr>)"
    by code_simp
  then have "order_step ?x (?x\<lparr>order_remaining := RemainingQuantity 2, order_state := PartiallyFilled\<rparr>)"
    by (intro order_step.fill [of "Quantity 3"]) (simp add: qty_def)
  then have "order_run ?x (?x\<lparr>order_remaining := RemainingQuantity 2, order_state := PartiallyFilled\<rparr>)"
    by (intro order_run.move [OF order_run.start])
  from order_life_cycle [OF this] show ?thesis by simp
qed

end
