(* ===== verification/Order_Book.thy ===== *)
theory Order_Book
  imports Orders
begin

text \<open>
  \<open>crates/domain/src/order_book.rs\<close>: one side of the book, a \<open>BTreeMap\<close> from price to the
  queue of resting orders at that price.  The abstract view \<open>book_queue\<close> is the list of all
  resting orders in price-time priority; the locale \<open>price_time_queue\<close> states what the
  matching engine relies on, and it is interpreted on the bid side and on the ask side.
\<close>

record order_book_side =
  book_side :: side
  book_levels :: "(price, limit_order list) btree"

definition book_new :: "side \<Rightarrow> order_book_side" where
  "book_new s = \<lparr>book_side = s, book_levels = []\<rparr>"

definition book_is_empty :: "order_book_side \<Rightarrow> bool" where
  "book_is_empty b \<longleftrightarrow> book_levels b = []"

definition price_level_count :: "order_book_side \<Rightarrow> nat" where
  "price_level_count b = length (book_levels b)"

definition push_back :: "limit_order \<Rightarrow> limit_order list \<Rightarrow> limit_order list" where
  "push_back x xs = xs @ [x]"

definition push_front :: "limit_order \<Rightarrow> limit_order list \<Rightarrow> limit_order list" where
  "push_front x xs = x # xs"

definition insert_with ::
  "(limit_order \<Rightarrow> limit_order list \<Rightarrow> limit_order list) \<Rightarrow> limit_order \<Rightarrow> order_book_side
    \<Rightarrow> (domain_error, unit) result \<times> order_book_side" where
  "insert_with push x b =
     (if order_side x \<noteq> book_side b then (Inl WrongOrderSide, b)
      else if is_terminal x then (Inl OrderAlreadyTerminal, b)
      else (Inr (), b\<lparr>book_levels := bt_upsert (order_price x) (push x) [] (book_levels b)\<rparr>))"

definition book_insert ::
  "limit_order \<Rightarrow> order_book_side \<Rightarrow> (domain_error, unit) result \<times> order_book_side" where
  "book_insert = insert_with push_back"

definition reinsert_front ::
  "limit_order \<Rightarrow> order_book_side \<Rightarrow> (domain_error, unit) result \<times> order_book_side" where
  "reinsert_front = insert_with push_front"

definition best_level :: "order_book_side \<Rightarrow> (price \<times> limit_order list) option" where
  "best_level b =
     (case book_side b of Bid \<Rightarrow> bt_last (book_levels b) | Ask \<Rightarrow> bt_first (book_levels b))"

definition best_price :: "order_book_side \<Rightarrow> price option" where
  "best_price b =
     (case book_side b of
        Bid \<Rightarrow> map_option fst (bt_last (book_levels b))
      | Ask \<Rightarrow> map_option fst (bt_first (book_levels b)))"

definition front :: "'a list \<Rightarrow> 'a option" where
  "front xs = (case xs of [] \<Rightarrow> None | x # _ \<Rightarrow> Some x)"

definition best_order :: "order_book_side \<Rightarrow> limit_order option" where
  "best_order b = Option.bind (best_level b) (\<lambda>(_, xs). front xs)"

definition pop_best_order :: "order_book_side \<Rightarrow> limit_order option \<times> order_book_side" where
  "pop_best_order b =
     (case best_price b of
        None \<Rightarrow> (None, b)
      | Some p \<Rightarrow>
          (case map_of (book_levels b) p of
             None \<Rightarrow> (None, b)
           | Some xs \<Rightarrow>
               (front xs,
                b\<lparr>book_levels :=
                    (if tl xs = [] then bt_remove p (book_levels b)
                     else bt_upsert p (\<lambda>_. tl xs) [] (book_levels b))\<rparr>)))"

text \<open>\<open>iter().position(..)\<close> followed by \<open>remove(index)\<close>.\<close>

fun remove_first :: "('a \<Rightarrow> bool) \<Rightarrow> 'a list \<Rightarrow> ('a \<times> 'a list) option" where
  "remove_first P [] = None"
| "remove_first P (x # xs) =
     (if P x then Some (x, xs) else map_option (\<lambda>(y, ys). (y, x # ys)) (remove_first P xs))"

text \<open>
  The loop of \<open>cancel\<close> over the levels.  When \<open>order.cancel()\<close> fails the order has already
  left its queue, and an empty level stays behind.
\<close>

fun cancel_in_levels ::
  "order_id \<Rightarrow> (price, limit_order list) btree
    \<Rightarrow> (domain_error, limit_order) result \<times> (price, limit_order list) btree" where
  "cancel_in_levels i [] = (Inl OrderNotFound, [])"
| "cancel_in_levels i ((p, xs) # m) =
     (case remove_first (\<lambda>x. order_ident x = i) xs of
        None \<Rightarrow> (let (r, m') = cancel_in_levels i m in (r, (p, xs) # m'))
      | Some (x, rest) \<Rightarrow>
          (case cancel_order x of
             (Inl e, _) \<Rightarrow> (Inl e, (p, rest) # m)
           | (Inr _, y) \<Rightarrow> (Inr y, if rest = [] then m else (p, rest) # m)))"

definition book_cancel ::
  "order_id \<Rightarrow> order_book_side \<Rightarrow> (domain_error, limit_order) result \<times> order_book_side" where
  "book_cancel i b =
     (let (r, m) = cancel_in_levels i (book_levels b) in (r, b\<lparr>book_levels := m\<rparr>))"

section \<open>Invariant and abstract view\<close>

definition resting :: "side \<Rightarrow> price \<Rightarrow> limit_order \<Rightarrow> bool" where
  "resting s p x \<longleftrightarrow>
     order_price x = p \<and> order_side x = s \<and> \<not> is_terminal x \<and> order_wf x"

definition level_wf :: "side \<Rightarrow> price \<times> limit_order list \<Rightarrow> bool" where
  "level_wf s l \<longleftrightarrow> snd l \<noteq> [] \<and> (\<forall>x \<in> set (snd l). resting s (fst l) x)"

definition levels_wf :: "side \<Rightarrow> (price, limit_order list) btree \<Rightarrow> bool" where
  "levels_wf s m \<longleftrightarrow> bt_sorted m \<and> (\<forall>l \<in> set m. level_wf s l)"

definition book_wf :: "side \<Rightarrow> order_book_side \<Rightarrow> bool" where
  "book_wf s b \<longleftrightarrow> book_side b = s \<and> levels_wf s (book_levels b)"

definition flat :: "(price, limit_order list) btree \<Rightarrow> limit_order list" where
  "flat m = concat (map snd m)"

definition book_queue :: "order_book_side \<Rightarrow> limit_order list" where
  "book_queue b =
     (case book_side b of Bid \<Rightarrow> flat (rev (book_levels b)) | Ask \<Rightarrow> flat (book_levels b))"

text \<open>\<open>better s p q\<close>: on side \<open>s\<close> an order at price \<open>p\<close> goes before any order at price \<open>q\<close>.\<close>

definition better :: "side \<Rightarrow> price \<Rightarrow> price \<Rightarrow> bool" where
  "better s p q = (case s of Bid \<Rightarrow> q < p | Ask \<Rightarrow> p < q)"

definition place_after :: "('a \<Rightarrow> bool) \<Rightarrow> 'a \<Rightarrow> 'a list \<Rightarrow> 'a list" where
  "place_after P x xs = takeWhile P xs @ x # dropWhile P xs"

lemma flat_simps [simp]:
  "flat [] = []" "flat ((p, xs) # m) = xs @ flat m" "flat (m @ m') = flat m @ flat m'"
  by (simp_all add: flat_def)

lemma set_place_after [simp]: "set (place_after P x xs) = insert x (set xs)"
  by (metis (no_types, lifting) Un_insert_right place_after_def list.simps(15) set_append
      takeWhile_dropWhile_id)

lemma length_place_after [simp]: "length (place_after P x xs) = Suc (length xs)"
  by (metis (no_types, lifting) add_Suc_right place_after_def length_Cons length_append
      takeWhile_dropWhile_id)

lemma place_after_all: "\<forall>y \<in> set xs. P y \<Longrightarrow> place_after P x (xs @ ys) = xs @ place_after P x ys"
  by (simp add: place_after_def takeWhile_append2 dropWhile_append2)

lemma place_after_none: "\<forall>y \<in> set ys. \<not> P y \<Longrightarrow> place_after P x ys = x # ys"
  by (cases ys) (simp_all add: place_after_def)

lemma place_after_every: "\<forall>y \<in> set ys. P y \<Longrightarrow> place_after P x ys = ys @ [x]"
  using place_after_all [of ys P x "[]"] by (simp add: place_after_def)

lemma place_after_stop:
  assumes "\<forall>y \<in> set ys. \<not> P y"
  shows "place_after P x (xs @ ys) = place_after P x xs @ ys"
proof (cases "\<forall>y \<in> set xs. P y")
  case True
  with assms show ?thesis by (simp add: place_after_all place_after_none place_after_every)
next
  case False
  then obtain y where "y \<in> set xs" "\<not> P y" by blast
  then show ?thesis by (simp add: place_after_def takeWhile_append1 dropWhile_append1)
qed

lemma place_after_Nil [simp]: "place_after P x [] = [x]"
  by (simp add: place_after_def)

section \<open>Levels as a priority list\<close>

lemma levels_wf_Cons:
  "levels_wf s ((p, xs) # m) \<longleftrightarrow>
     xs \<noteq> [] \<and> (\<forall>x \<in> set xs. resting s p x) \<and> (\<forall>l \<in> set m. p < fst l) \<and> levels_wf s m"
  by (auto simp: levels_wf_def level_wf_def)

lemma levels_wf_Nil [simp]: "levels_wf s []"
  by (simp add: levels_wf_def)

lemma set_flat: "x \<in> set (flat m) \<longleftrightarrow> (\<exists>l \<in> set m. x \<in> set (snd l))"
  by (auto simp: flat_def)

lemma set_flat_rev [simp]: "set (flat (rev m)) = set (flat m)"
  by (auto simp: flat_def)

lemma levels_wf_resting:
  "levels_wf s m \<Longrightarrow> x \<in> set (flat m) \<Longrightarrow> \<exists>l \<in> set m. resting s (fst l) x"
  by (auto simp: levels_wf_def level_wf_def set_flat)

lemma levels_wf_price_above:
  "levels_wf s ((p, xs) # m) \<Longrightarrow> x \<in> set (flat m) \<Longrightarrow> p < order_price x"
  by (auto simp: levels_wf_Cons resting_def dest!: levels_wf_resting)

lemma levels_wf_upsert:
  assumes "levels_wf s m" and "resting s p x" and "\<And>xs. set (push x xs) = insert x (set xs)"
  shows "levels_wf s (bt_upsert p (push x) [] m)"
proof -
  have ne: "push x xs \<noteq> []" for xs
    using assms(3) [of xs] by auto
  have "level_wf s l" if "l \<in> set (bt_upsert p (push x) [] m)" for l
    using set_bt_upsert [OF that] assms ne
    by (cases l) (fastforce simp: levels_wf_def level_wf_def)
  with assms(1) show ?thesis by (simp add: levels_wf_def bt_sorted_upsert)
qed

lemma flat_upsert_back:
  "levels_wf s m \<Longrightarrow>
    flat (bt_upsert p (push_back x) [] m) = place_after (\<lambda>y. order_price y \<le> p) x (flat m)"
proof (induction m)
  case (Cons l m)
  obtain k xs where l: "l = (k, xs)" by (cases l)
  from Cons.prems l have xs: "\<forall>y \<in> set xs. order_price y = k" and m: "levels_wf s m"
    and above: "\<forall>y \<in> set (flat m). k < order_price y"
    using levels_wf_price_above by (auto simp: levels_wf_Cons resting_def)
  consider "p < k" | "p = k" | "k < p" by fastforce
  then show ?case
  proof cases
    case 1
    with l xs above show ?thesis
      by (subst place_after_none) (auto simp: push_back_def)
  next
    case 2
    with l xs above show ?thesis
      by (auto simp: push_back_def place_after_all place_after_none not_le)
  next
    case 3
    with xs have "\<forall>y \<in> set xs. order_price y \<le> p" by auto
    with 3 l m Cons.IH show ?thesis
      by (auto simp: place_after_all)
  qed
qed (simp add: push_back_def)

lemma flat_upsert_front:
  "levels_wf s m \<Longrightarrow>
    flat (bt_upsert p (push_front x) [] m) = place_after (\<lambda>y. order_price y < p) x (flat m)"
proof (induction m)
  case (Cons l m)
  obtain k xs where l: "l = (k, xs)" by (cases l)
  from Cons.prems l have xs: "\<forall>y \<in> set xs. order_price y = k" and m: "levels_wf s m"
    and above: "\<forall>y \<in> set (flat m). k < order_price y"
    using levels_wf_price_above by (auto simp: levels_wf_Cons resting_def)
  show ?case
  proof (cases "k < p")
    case True
    with l xs m Cons.IH show ?thesis by (auto simp: place_after_all)
  next
    case False
    with l xs above show ?thesis
      by (subst place_after_none) (auto simp: push_front_def)
  qed
qed (simp add: push_front_def)

lemma flat_rev_upsert_back:
  "levels_wf s m \<Longrightarrow>
    flat (rev (bt_upsert p (push_back x) [] m)) =
      place_after (\<lambda>y. p \<le> order_price y) x (flat (rev m))"
proof (induction m)
  case (Cons l m)
  obtain k xs where l: "l = (k, xs)" by (cases l)
  from Cons.prems l have xs: "\<forall>y \<in> set xs. order_price y = k" and m: "levels_wf s m"
    and above: "\<forall>y \<in> set (flat (rev m)). k < order_price y"
    using levels_wf_price_above by (auto simp: levels_wf_Cons resting_def)
  show ?case
  proof (cases "p \<le> k")
    case True
    with l xs above show ?thesis
      by (subst place_after_every) (force simp: push_back_def)+
  next
    case False
    with l xs m Cons.IH show ?thesis by (auto simp: place_after_stop)
  qed
qed (simp add: push_back_def)

lemma flat_rev_upsert_front:
  "levels_wf s m \<Longrightarrow>
    flat (rev (bt_upsert p (push_front x) [] m)) =
      place_after (\<lambda>y. p < order_price y) x (flat (rev m))"
proof (induction m)
  case (Cons l m)
  obtain k xs where l: "l = (k, xs)" by (cases l)
  from Cons.prems l have xs: "\<forall>y \<in> set xs. order_price y = k" and m: "levels_wf s m"
    and above: "\<forall>y \<in> set (flat (rev m)). k < order_price y"
    using levels_wf_price_above by (auto simp: levels_wf_Cons resting_def)
  consider "p < k" | "p = k" | "k < p" by fastforce
  then show ?case
  proof cases
    case 1
    with l xs above show ?thesis
      by (subst place_after_every) (force simp: push_front_def)+
  next
    case 2
    with l xs above show ?thesis
      by (simp add: push_front_def place_after_all place_after_none)
  next
    case 3
    with l xs m Cons.IH show ?thesis by (auto simp: place_after_stop)
  qed
qed (simp add: push_front_def)

section \<open>Best order and pop\<close>

lemma levels_wf_snoc:
  "levels_wf s (m @ [(p, xs)]) \<longleftrightarrow>
     xs \<noteq> [] \<and> (\<forall>x \<in> set xs. resting s p x) \<and> (\<forall>l \<in> set m. fst l < p) \<and> levels_wf s m"
  by (auto simp: levels_wf_def level_wf_def bt_sorted_snoc)

lemma map_of_last: "bt_sorted (m @ [(p, v)]) \<Longrightarrow> map_of (m @ [(p, v)]) p = Some v"
  by (induction m) (auto simp: bt_sorted_snoc)

lemma pop_best_order_Ask:
  assumes "book_wf Ask b"
  shows "\<exists>b'. pop_best_order b = (front (book_queue b), b') \<and> book_wf Ask b' \<and>
    book_queue b' = tl (book_queue b)"
proof (cases "book_levels b")
  case Nil
  with assms show ?thesis
    by (simp add: pop_best_order_def best_price_def book_wf_def book_queue_def bt_first_def front_def)
next
  case (Cons l m)
  obtain p xs where l: "l = (p, xs)" by (cases l)
  from assms Cons l have wf: "levels_wf Ask ((p, xs) # m)" and s: "book_side b = Ask"
    by (simp_all add: book_wf_def)
  from wf obtain y ys where xs: "xs = y # ys" by (cases xs) (auto simp: levels_wf_Cons)
  have pop: "pop_best_order b = (Some y, b\<lparr>book_levels := (if ys = [] then m else (p, ys) # m)\<rparr>)"
    using Cons l s xs by (simp add: pop_best_order_def best_price_def bt_first_def front_def)
  moreover have "levels_wf Ask (if ys = [] then m else (p, ys) # m)"
    using wf xs by (auto simp: levels_wf_Cons)
  ultimately show ?thesis
    using Cons l s xs by (auto simp: book_wf_def book_queue_def front_def)
qed

lemma pop_best_order_Bid:
  assumes "book_wf Bid b"
  shows "\<exists>b'. pop_best_order b = (front (book_queue b), b') \<and> book_wf Bid b' \<and>
    book_queue b' = tl (book_queue b)"
proof (cases "book_levels b" rule: rev_cases)
  case Nil
  with assms show ?thesis
    by (simp add: pop_best_order_def best_price_def book_wf_def book_queue_def bt_last_def front_def)
next
  case (snoc m l)
  obtain p xs where l: "l = (p, xs)" by (cases l)
  from assms snoc l have wf: "levels_wf Bid (m @ [(p, xs)])" and s: "book_side b = Bid"
    by (simp_all add: book_wf_def)
  then have sorted: "bt_sorted (m @ [(p, xs)])" by (simp add: levels_wf_def)
  from wf obtain y ys where xs: "xs = y # ys" by (cases xs) (auto simp: levels_wf_snoc)
  have pop: "pop_best_order b =
      (Some y, b\<lparr>book_levels := (if ys = [] then m else m @ [(p, ys)])\<rparr>)"
    using snoc l s xs map_of_last [OF sorted] bt_remove_last [OF sorted]
      bt_upsert_last [OF sorted, of "\<lambda>_. ys" "[]"]
    by (cases "ys = []") (simp_all add: pop_best_order_def best_price_def bt_last_def front_def)
  moreover have "levels_wf Bid (if ys = [] then m else m @ [(p, ys)])"
    using wf xs by (auto simp: levels_wf_snoc)
  ultimately show ?thesis
    using snoc l s xs by (auto simp: book_wf_def book_queue_def front_def)
qed

lemma best_order_queue:
  assumes "book_wf s b"
  shows "best_order b = front (book_queue b)"
proof (cases s)
  case Ask
  with assms show ?thesis
    by (cases "book_levels b")
      (auto simp: best_order_def best_level_def book_wf_def book_queue_def bt_first_def front_def
        levels_wf_Cons split: list.splits)
next
  case Bid
  with assms show ?thesis
    by (cases "book_levels b" rule: rev_cases)
      (auto simp: best_order_def best_level_def book_wf_def book_queue_def bt_last_def front_def
        levels_wf_snoc split: list.splits)
qed

lemma book_wf_new [simp]: "book_wf s (book_new s)"
  by (simp add: book_wf_def book_new_def)

lemma book_queue_new [simp]: "book_queue (book_new s) = []"
  by (simp add: book_queue_def book_new_def split: side.split)

section \<open>The interface to the matching engine\<close>

text \<open>
  A book side is a priority queue of orders: \<open>insert\<close> puts an order behind every order that is
  at least as good, \<open>reinsert\<close> before every order that is no better, and \<open>best\<close> and \<open>pop\<close>
  look at the head.  Prices never get better along the queue.
\<close>

locale price_time_queue =
  fixes before :: "price \<Rightarrow> price \<Rightarrow> bool"
    and queue :: "'b \<Rightarrow> limit_order list"
    and accepts :: "limit_order \<Rightarrow> bool"
    and best :: "'b \<Rightarrow> limit_order option"
    and pop :: "'b \<Rightarrow> limit_order option \<times> 'b"
    and insert_back :: "limit_order \<Rightarrow> 'b \<Rightarrow> (domain_error, unit) result \<times> 'b"
    and insert_front :: "limit_order \<Rightarrow> 'b \<Rightarrow> (domain_error, unit) result \<times> 'b"
    and valid :: "'b \<Rightarrow> bool"
  assumes before_irrefl: "\<not> before p p"
    and before_trans: "before p q \<Longrightarrow> before q r \<Longrightarrow> before p r"
    and before_total: "before p q \<or> p = q \<or> before q p"
    and best_queue: "valid b \<Longrightarrow> best b = front (queue b)"
    and pop_queue: "valid b \<Longrightarrow>
      \<exists>b'. pop b = (front (queue b), b') \<and> valid b' \<and> queue b' = tl (queue b)"
    and insert_back_queue: "valid b \<Longrightarrow> accepts x \<Longrightarrow>
      \<exists>b'. insert_back x b = (Inr (), b') \<and> valid b' \<and>
        queue b' = place_after (\<lambda>y. \<not> before (order_price x) (order_price y)) x (queue b)"
    and insert_front_queue: "valid b \<Longrightarrow> accepts x \<Longrightarrow>
      \<exists>b'. insert_front x b = (Inr (), b') \<and> valid b' \<and>
        queue b' = place_after (\<lambda>y. before (order_price y) (order_price x)) x (queue b)"
    and queue_ordered: "valid b \<Longrightarrow>
      sorted_wrt (\<lambda>x y. \<not> before (order_price y) (order_price x)) (queue b)"
    and queue_accepted: "valid b \<Longrightarrow> x \<in> set (queue b) \<Longrightarrow> accepts x"
begin

text \<open>No resting order is better than the best one.\<close>

lemma best_is_best:
  assumes "valid b" and "best b = Some x" and "y \<in> set (queue b)"
  shows "\<not> before (order_price y) (order_price x)"
proof -
  from assms(1,2) obtain q where q: "queue b = x # q"
    by (auto simp: best_queue front_def split: list.splits)
  with queue_ordered [OF assms(1)] assms(3) show ?thesis
    by (auto simp: before_irrefl)
qed

text \<open>Putting the popped head back restores the queue, whatever happened to its quantity.\<close>

lemma pop_reinsert:
  assumes "valid b" and "queue b = x # q" and "accepts y" and "order_price y = order_price x"
  shows "\<exists>b' b''. pop b = (Some x, b') \<and> valid b' \<and> insert_front y b' = (Inr (), b'') \<and>
    valid b'' \<and> queue b'' = y # q"
proof -
  from pop_queue [OF assms(1)] assms(2) obtain b' where b': "pop b = (Some x, b')"
      "valid b'" "queue b' = q"
    by (auto simp: front_def)
  from insert_front_queue [OF b'(2) assms(3)] obtain b'' where b'':
      "insert_front y b' = (Inr (), b'')" "valid b''"
      "queue b'' = place_after (\<lambda>z. before (order_price z) (order_price y)) y q"
    using b'(3) by auto
  have "\<forall>z \<in> set q. \<not> before (order_price z) (order_price y)"
    using queue_ordered [OF assms(1)] assms(2,4) by simp
  then have "queue b'' = y # q" using b''(3) by (simp add: place_after_none)
  with b' b'' show ?thesis by blast
qed

text \<open>First in, first out among equal prices: a new order goes behind all of them.\<close>

lemma insert_back_fifo:
  assumes "valid b" and "accepts x" and "insert_back x b = (Inr (), b')"
  shows "\<exists>us vs. queue b = us @ vs \<and> queue b' = us @ x # vs \<and>
    (\<forall>u \<in> set us. \<not> before (order_price x) (order_price u)) \<and>
    (\<forall>v \<in> set vs. before (order_price x) (order_price v))"
proof -
  let ?P = "\<lambda>y. \<not> before (order_price x) (order_price y)"
  from insert_back_queue [OF assms(1,2)] assms(3)
  have q: "queue b' = takeWhile ?P (queue b) @ x # dropWhile ?P (queue b)"
    by (simp add: place_after_def)
  have sorted: "sorted_wrt (\<lambda>x y. \<not> before (order_price y) (order_price x)) (dropWhile ?P (queue b))"
    using queue_ordered [OF assms(1)] by (metis sorted_wrt_append takeWhile_dropWhile_id)
  have us: "\<forall>u \<in> set (takeWhile ?P (queue b)). ?P u"
    by (auto dest: set_takeWhileD)
  have split: "queue b = takeWhile ?P (queue b) @ dropWhile ?P (queue b)" by simp
  have vs: "\<forall>v \<in> set (dropWhile ?P (queue b)). before (order_price x) (order_price v)"
  proof (cases "dropWhile ?P (queue b)")
    case (Cons w ws)
    then have w: "before (order_price x) (order_price w)"
      by (simp add: dropWhile_eq_Cons_conv)
    have "before (order_price x) (order_price v)" if "\<not> before (order_price v) (order_price w)" for v
      using before_total [of "order_price w" "order_price v"] that w
        before_trans [of "order_price x" "order_price w" "order_price v"] by auto
    with w sorted Cons show ?thesis by auto
  next
    case Nil
    show ?thesis unfolding Nil by simp
  qed
  show ?thesis using split q us vs by blast
qed

end

definition book_accepts :: "side \<Rightarrow> limit_order \<Rightarrow> bool" where
  "book_accepts s x \<longleftrightarrow> order_side x = s \<and> \<not> is_terminal x \<and> order_wf x"

lemma insert_with_ok:
  assumes "book_wf s b" and "book_accepts s x" and "\<And>xs. set (push x xs) = insert x (set xs)"
  shows "insert_with push x b =
      (Inr (), b\<lparr>book_levels := bt_upsert (order_price x) (push x) [] (book_levels b)\<rparr>)"
    and "book_wf s (b\<lparr>book_levels := bt_upsert (order_price x) (push x) [] (book_levels b)\<rparr>)"
  using assms levels_wf_upsert [of s "book_levels b" "order_price x" x push]
  by (simp_all add: insert_with_def book_wf_def book_accepts_def resting_def)

lemma flat_ordered:
  "levels_wf s m \<Longrightarrow> sorted_wrt (\<lambda>x y. order_price x \<le> order_price y) (flat m)"
proof (induction m)
  case (Cons l m)
  obtain p xs where l: "l = (p, xs)" by (cases l)
  with Cons.prems have "\<forall>x \<in> set xs. order_price x = p"
    by (simp add: levels_wf_Cons resting_def)
  moreover from this have "sorted_wrt (\<lambda>x y. order_price x \<le> order_price y) xs"
    by (induction xs) auto
  ultimately show ?case
    using Cons l levels_wf_price_above [of s p xs m]
    by (auto simp: sorted_wrt_append levels_wf_Cons intro: less_imp_le)
qed simp

lemma flat_rev_ordered:
  "levels_wf s m \<Longrightarrow> sorted_wrt (\<lambda>x y. order_price y \<le> order_price x) (flat (rev m))"
proof (induction m)
  case (Cons l m)
  obtain p xs where l: "l = (p, xs)" by (cases l)
  with Cons.prems have "\<forall>x \<in> set xs. order_price x = p"
    by (simp add: levels_wf_Cons resting_def)
  moreover from this have "sorted_wrt (\<lambda>x y. order_price y \<le> order_price x) xs"
    by (induction xs) auto
  ultimately show ?case
    using Cons l levels_wf_price_above [of s p xs m]
    by (auto simp: sorted_wrt_append levels_wf_Cons intro: less_imp_le)
qed simp

lemma book_queue_accepted: "book_wf s b \<Longrightarrow> x \<in> set (book_queue b) \<Longrightarrow> book_accepts s x"
  by (cases s) (auto simp: book_wf_def book_queue_def book_accepts_def resting_def
      dest!: levels_wf_resting)

lemma set_push [simp]:
  "set (push_back x xs) = insert x (set xs)" "set (push_front x xs) = insert x (set xs)"
  by (simp_all add: push_back_def push_front_def)

interpretation ask: price_time_queue "better Ask" book_queue "book_accepts Ask" best_order
    pop_best_order book_insert reinsert_front "book_wf Ask"
proof unfold_locales
  fix b x assume wf: "book_wf Ask b" and x: "book_accepts Ask x"
  show "\<exists>b'. book_insert x b = (Inr (), b') \<and> book_wf Ask b' \<and>
      book_queue b' = place_after (\<lambda>y. \<not> better Ask (order_price x) (order_price y)) x (book_queue b)"
    using insert_with_ok [OF wf x, of push_back] wf
    by (simp add: book_insert_def book_wf_def book_queue_def better_def not_less flat_upsert_back)
  show "\<exists>b'. reinsert_front x b = (Inr (), b') \<and> book_wf Ask b' \<and>
      book_queue b' = place_after (\<lambda>y. better Ask (order_price y) (order_price x)) x (book_queue b)"
    using insert_with_ok [OF wf x, of push_front] wf
    by (simp add: reinsert_front_def book_wf_def book_queue_def better_def flat_upsert_front)
next
  fix b assume "book_wf Ask b"
  then show "sorted_wrt (\<lambda>x y. \<not> better Ask (order_price y) (order_price x)) (book_queue b)"
    by (simp add: book_wf_def book_queue_def better_def not_less flat_ordered [of Ask])
qed (auto simp: better_def best_order_queue pop_best_order_Ask book_queue_accepted)

interpretation bid: price_time_queue "better Bid" book_queue "book_accepts Bid" best_order
    pop_best_order book_insert reinsert_front "book_wf Bid"
proof unfold_locales
  fix b x assume wf: "book_wf Bid b" and x: "book_accepts Bid x"
  show "\<exists>b'. book_insert x b = (Inr (), b') \<and> book_wf Bid b' \<and>
      book_queue b' = place_after (\<lambda>y. \<not> better Bid (order_price x) (order_price y)) x (book_queue b)"
    using insert_with_ok [OF wf x, of push_back] wf
    by (simp add: book_insert_def book_wf_def book_queue_def better_def not_less flat_rev_upsert_back)
  show "\<exists>b'. reinsert_front x b = (Inr (), b') \<and> book_wf Bid b' \<and>
      book_queue b' = place_after (\<lambda>y. better Bid (order_price y) (order_price x)) x (book_queue b)"
    using insert_with_ok [OF wf x, of push_front] wf
    by (simp add: reinsert_front_def book_wf_def book_queue_def better_def flat_rev_upsert_front)
next
  fix b assume "book_wf Bid b"
  then show "sorted_wrt (\<lambda>x y. \<not> better Bid (order_price y) (order_price x)) (book_queue b)"
    by (simp add: book_wf_def book_queue_def better_def not_less flat_rev_ordered [of Bid])
qed (auto simp: better_def best_order_queue pop_best_order_Bid book_queue_accepted)

section \<open>Cancelling\<close>

lemma remove_first_None: "remove_first P xs = None \<longleftrightarrow> (\<forall>x \<in> set xs. \<not> P x)"
  by (induction xs) auto

lemma remove_first_Some:
  "remove_first P xs = Some (x, rest) \<Longrightarrow>
    P x \<and> (\<exists>us vs. xs = us @ x # vs \<and> rest = us @ vs \<and> (\<forall>u \<in> set us. \<not> P u))"
proof (induction xs arbitrary: rest)
  case (Cons a xs)
  show ?case
  proof (cases "P a")
    case True
    with Cons.prems have "xs = rest" "x = a" by simp_all
    with True show ?thesis by (intro conjI exI [of _ "[]"] exI [of _ xs]) auto
  next
    case False
    with Cons.prems obtain rest' where r: "remove_first P xs = Some (x, rest')" "rest = a # rest'"
      by auto
    from Cons.IH [OF r(1)] obtain us vs where "P x" "xs = us @ x # vs" "rest' = us @ vs"
        "\<forall>u \<in> set us. \<not> P u" by blast
    then have "P x" "a # xs = (a # us) @ x # vs" "rest = (a # us) @ vs"
        "\<forall>u \<in> set (a # us). \<not> P u"
      using False r(2) by simp_all
    then show ?thesis by blast
  qed
qed simp

lemma cancel_in_levels_missing:
  "\<forall>x \<in> set (flat m). order_ident x \<noteq> i \<Longrightarrow> cancel_in_levels i m = (Inl OrderNotFound, m)"
proof (induction m)
  case (Cons l m)
  then show ?case
    by (cases l) (auto simp: remove_first_None [THEN iffD2])
qed simp

lemma cancel_in_levels_found:
  assumes "levels_wf s m" and "\<exists>x \<in> set (flat m). order_ident x = i"
  shows "\<exists>A p us x vs B. m = A @ (p, us @ x # vs) # B \<and> order_ident x = i \<and>
    cancel_in_levels i m =
      (Inr (x\<lparr>order_state := Cancelled\<rparr>), A @ (if us @ vs = [] then B else (p, us @ vs) # B))"
  using assms
proof (induction m)
  case (Cons l m)
  obtain p xs where l: "l = (p, xs)" by (cases l)
  let ?P = "\<lambda>x. order_ident x = i"
  show ?case
  proof (cases "remove_first ?P xs")
    case None
    then have "\<forall>x \<in> set xs. \<not> ?P x" by (simp add: remove_first_None)
    with Cons.prems l have "levels_wf s m" "\<exists>x \<in> set (flat m). ?P x"
      by (auto simp: levels_wf_Cons)
    from Cons.IH [OF this] obtain A q us x vs B where
      IH: "m = A @ (q, us @ x # vs) # B" "?P x"
        "cancel_in_levels i m =
          (Inr (x\<lparr>order_state := Cancelled\<rparr>), A @ (if us @ vs = [] then B else (q, us @ vs) # B))"
      by blast
    then have "l # m = ((p, xs) # A) @ (q, us @ x # vs) # B"
        "cancel_in_levels i (l # m) = (Inr (x\<lparr>order_state := Cancelled\<rparr>),
          ((p, xs) # A) @ (if us @ vs = [] then B else (q, us @ vs) # B))"
      using None l by (simp_all only: append_Cons cancel_in_levels.simps option.case Let_def prod.case)
    with IH(2) show ?thesis by blast
  next
    case (Some y)
    obtain x rest where y: "y = (x, rest)" by (cases y)
    with remove_first_Some [of ?P xs x rest] Some obtain us vs where
      x: "?P x" "xs = us @ x # vs" "rest = us @ vs" by auto
    from Cons.prems(1) l x(2) have "\<not> is_terminal x" by (auto simp: levels_wf_Cons resting_def)
    then have "cancel_in_levels i (l # m) = (Inr (x\<lparr>order_state := Cancelled\<rparr>),
        [] @ (if us @ vs = [] then m else (p, us @ vs) # m))"
      using Some l y x(3) by (auto simp: cancel_order_def)
    moreover have "l # m = [] @ (p, us @ x # vs) # m" using l x(2) by simp
    ultimately show ?thesis using x(1) by blast
  qed
qed simp

lemma levels_wf_split:
  assumes "levels_wf s (A @ (p, us @ x # vs) # B)"
  shows "levels_wf s (A @ (if us @ vs = [] then B else (p, us @ vs) # B))"
  using assms
  by (induction A) (auto simp: levels_wf_Cons split: if_splits)

lemma book_cancel_found:
  assumes wf: "book_wf s b" and ex: "\<exists>x \<in> set (book_queue b). order_ident x = i"
  shows "\<exists>us x vs b'. book_queue b = us @ x # vs \<and> order_ident x = i \<and>
    book_cancel i b = (Inr (x\<lparr>order_state := Cancelled\<rparr>), b') \<and> book_wf s b' \<and>
    book_queue b' = us @ vs"
proof -
  let ?m = "book_levels b"
  from ex have "\<exists>x \<in> set (flat ?m). order_ident x = i"
    by (simp add: book_queue_def split: side.splits)
  with cancel_in_levels_found [of s ?m i] wf obtain A p us x vs B where
    m: "?m = A @ (p, us @ x # vs) # B" "order_ident x = i" and
    c: "cancel_in_levels i ?m =
      (Inr (x\<lparr>order_state := Cancelled\<rparr>), A @ (if us @ vs = [] then B else (p, us @ vs) # B))"
    by (auto simp: book_wf_def)
  let ?m' = "A @ (if us @ vs = [] then B else (p, us @ vs) # B)"
  have b: "book_cancel i b = (Inr (x\<lparr>order_state := Cancelled\<rparr>), b\<lparr>book_levels := ?m'\<rparr>)"
    unfolding book_cancel_def c by simp
  have wf': "book_wf s (b\<lparr>book_levels := ?m'\<rparr>)"
    using wf levels_wf_split [of s A p us x vs B] m(1) by (simp add: book_wf_def)
  show ?thesis
  proof (cases s)
    case Ask
    then have "book_queue b = (flat A @ us) @ x # vs @ flat B"
        "book_queue (b\<lparr>book_levels := ?m'\<rparr>) = (flat A @ us) @ vs @ flat B"
      using wf m(1) by (auto simp: book_wf_def book_queue_def)
    with b wf' m(2) show ?thesis by blast
  next
    case Bid
    then have "book_queue b = (flat (rev B) @ us) @ x # vs @ flat (rev A)"
        "book_queue (b\<lparr>book_levels := ?m'\<rparr>) = (flat (rev B) @ us) @ vs @ flat (rev A)"
      using wf m(1) by (auto simp: book_wf_def book_queue_def)
    with b wf' m(2) show ?thesis by blast
  qed
qed

lemma book_cancel_missing:
  "\<forall>x \<in> set (book_queue b). order_ident x \<noteq> i \<Longrightarrow> book_cancel i b = (Inl OrderNotFound, b)"
  using cancel_in_levels_missing [of "book_levels b" i]
  by (simp add: book_cancel_def book_queue_def split: side.splits)

section \<open>Guarantees of the book\<close>

text \<open>A new order goes behind every resting order that is at least as good and in front of every
  worse one, and nothing else in the queue moves: first in, first out at equal prices.\<close>

lemma book_insert_fifo:
  assumes "book_wf s b" and "order_side x = s" and "\<not> is_terminal x" and "order_wf x"
  shows "fst (book_insert x b) = Inr () \<and> book_wf s (snd (book_insert x b)) \<and>
    (\<exists>us vs. book_queue b = us @ vs \<and> book_queue (snd (book_insert x b)) = us @ x # vs \<and>
      (\<forall>u \<in> set us. \<not> better s (order_price x) (order_price u)) \<and>
      (\<forall>v \<in> set vs. better s (order_price x) (order_price v)))"
proof -
  from assms(2-4) have x: "book_accepts s x" by (simp add: book_accepts_def)
  obtain b' where b': "book_insert x b = (Inr (), b')" "book_wf s b'"
    using ask.insert_back_queue [of b x] bid.insert_back_queue [of b x] assms(1) x
    by (cases s) auto
  moreover have "\<exists>us vs. book_queue b = us @ vs \<and> book_queue b' = us @ x # vs \<and>
      (\<forall>u \<in> set us. \<not> better s (order_price x) (order_price u)) \<and>
      (\<forall>v \<in> set vs. better s (order_price x) (order_price v))"
    using ask.insert_back_fifo [of b x b'] bid.insert_back_fifo [of b x b'] assms(1) x b'(1)
    by (cases s) auto
  ultimately show ?thesis by simp
qed

text \<open>Cancelling removes the first resting order with the given identifier, returns it as
  cancelled and leaves the priority of all the others; without such an order it fails and
  changes nothing.\<close>

lemma book_cancel_exact:
  assumes "book_wf s b"
  shows "if \<exists>x \<in> set (book_queue b). order_ident x = i
    then \<exists>us x vs b'. book_queue b = us @ x # vs \<and> order_ident x = i \<and>
      book_cancel i b = (Inr (x\<lparr>order_state := Cancelled\<rparr>), b') \<and> book_wf s b' \<and>
      book_queue b' = us @ vs
    else book_cancel i b = (Inl OrderNotFound, b)"
  using book_cancel_found [OF assms, of i] book_cancel_missing [of b i] by auto

definition sample_rest :: "u128 \<Rightarrow> u64 \<Rightarrow> limit_order" where
  "sample_rest i p =
     order_new (OrderId i) (TraderId 7) (MarketId 1) Ask (Price p) (Quantity 3) (OrderSequence 1)"

definition sample_book :: order_book_side where
  "sample_book =
     \<lparr>book_side = Ask, book_levels = [(Price 100, [sample_rest 1 100]), (Price 102, [sample_rest 2 102])]\<rparr>"

lemma sample_rest_ok:
  "order_wf (sample_rest i p)" "\<not> is_terminal (sample_rest i p)" "order_side (sample_rest i p) = Ask"
  "order_price (sample_rest i p) = Price p" "order_ident (sample_rest i p) = OrderId i"
  by (simp_all add: sample_rest_def order_new_wf is_terminal_def) (simp_all add: order_new_def)

lemma sample_book_wf: "book_wf Ask sample_book"
  by (simp add: book_wf_def sample_book_def levels_wf_Cons resting_def sample_rest_ok less_price_def)

lemma book_insert_fifo_witness:
  "fst (book_insert (sample_rest 3 100) sample_book) = Inr () \<and>
   book_wf Ask (snd (book_insert (sample_rest 3 100) sample_book)) \<and>
   map order_ident (book_queue (snd (book_insert (sample_rest 3 100) sample_book))) =
     [OrderId 1, OrderId 3, OrderId 2]"
proof -
  have "map order_ident (book_queue (snd (book_insert (sample_rest 3 100) sample_book))) =
     [OrderId 1, OrderId 3, OrderId 2]" by code_simp
  with book_insert_fifo [OF sample_book_wf sample_rest_ok(3,2,1), of 3 100] show ?thesis by blast
qed

lemma book_cancel_exact_witness:
  "(\<exists>us x vs b'. book_queue sample_book = us @ x # vs \<and> order_ident x = OrderId 2 \<and>
      book_cancel (OrderId 2) sample_book = (Inr (x\<lparr>order_state := Cancelled\<rparr>), b') \<and>
      book_wf Ask b' \<and> book_queue b' = us @ vs) \<and>
   book_cancel (OrderId 9) sample_book = (Inl OrderNotFound, sample_book)"
proof -
  have q: "book_queue sample_book = [sample_rest 1 100, sample_rest 2 102]"
    by (simp add: sample_book_def book_queue_def)
  have "(\<exists>x \<in> set (book_queue sample_book). order_ident x = OrderId 2)"
      "\<not> (\<exists>x \<in> set (book_queue sample_book). order_ident x = OrderId 9)"
    by (simp_all add: q sample_rest_ok)
  with book_cancel_exact [OF sample_book_wf, of "OrderId 2"]
    book_cancel_exact [OF sample_book_wf, of "OrderId 9"] show ?thesis by presburger
qed

end
