(* ===== verification/Matching.thy ===== *)
theory Matching
  imports Order_Book
begin

text \<open>
  \<open>crates/domain/src/matching.rs\<close>: the matching engine.  The two loops \<open>match_bid\<close> and
  \<open>match_ask\<close> differ in the book they take from and in the crossing test; \<open>match_step\<close> is
  their body and \<open>match_loop\<close> the \<open>while\<close>.  The reference \<open>match_list\<close> is greedy matching
  on a list of makers in priority order.
\<close>

record fill =
  fill_maker_order :: order_id
  fill_taker_order :: order_id
  fill_maker_trader :: trader_id
  fill_taker_trader :: trader_id
  fill_price :: price
  fill_quantity :: quantity

definition fill_new :: "limit_order \<Rightarrow> limit_order \<Rightarrow> price \<Rightarrow> quantity \<Rightarrow> fill" where
  "fill_new maker taker p q =
     \<lparr>fill_maker_order = order_ident maker, fill_taker_order = order_ident taker,
      fill_maker_trader = order_trader maker, fill_taker_trader = order_trader taker,
      fill_price = p, fill_quantity = q\<rparr>"

definition fill_from_parts ::
  "order_id \<Rightarrow> order_id \<Rightarrow> trader_id \<Rightarrow> trader_id \<Rightarrow> price \<Rightarrow> quantity \<Rightarrow> fill" where
  "fill_from_parts mo tk mt tt p q =
     \<lparr>fill_maker_order = mo, fill_taker_order = tk, fill_maker_trader = mt,
      fill_taker_trader = tt, fill_price = p, fill_quantity = q\<rparr>"

record matching_engine =
  engine_bids :: order_book_side
  engine_asks :: order_book_side

definition engine_new :: matching_engine where
  "engine_new = \<lparr>engine_bids = book_new Bid, engine_asks = book_new Ask\<rparr>"

definition crosses_bid :: "limit_order \<Rightarrow> limit_order option \<Rightarrow> bool" where
  "crosses_bid taker best_ask =
     (case best_ask of None \<Rightarrow> False | Some ask \<Rightarrow> order_price ask \<le> order_price taker)"

definition crosses_ask :: "limit_order \<Rightarrow> limit_order option \<Rightarrow> bool" where
  "crosses_ask taker best_bid =
     (case best_bid of None \<Rightarrow> False | Some bid \<Rightarrow> order_price taker \<le> order_price bid)"

definition min_remaining_quantity ::
  "limit_order \<Rightarrow> limit_order \<Rightarrow> (domain_error, quantity) result" where
  "min_remaining_quantity lhs rhs =
     quantity_new (min (remaining_get (order_remaining lhs)) (remaining_get (order_remaining rhs)))"

definition match_step ::
  "order_book_side \<Rightarrow> limit_order \<Rightarrow> fill list
    \<Rightarrow> (domain_error, limit_order \<times> fill list) result \<times> order_book_side" where
  "match_step book taker fills =
     (case pop_best_order book of
        (None, book1) \<Rightarrow> (Inl NoMatchingOrder, book1)
      | (Some maker, book1) \<Rightarrow>
          (case min_remaining_quantity taker maker of
             Inl e \<Rightarrow> (Inl e, book1)
           | Inr q \<Rightarrow>
               let new_fill = fill_new maker taker (order_price maker) q in
               (case apply_fill maker q of
                  (Inl e, _) \<Rightarrow> (Inl e, book1)
                | (Inr _, maker') \<Rightarrow>
                    (case apply_fill taker q of
                       (Inl e, _) \<Rightarrow> (Inl e, book1)
                     | (Inr _, taker') \<Rightarrow>
                         if is_terminal maker' then (Inr (taker', fills @ [new_fill]), book1)
                         else
                           (case reinsert_front maker' book1 of
                              (Inl e, book2) \<Rightarrow> (Inl e, book2)
                            | (Inr _, book2) \<Rightarrow> (Inr (taker', fills @ [new_fill]), book2))))))"

lemma match_step_decreases:
  assumes "match_step book taker fills = (Inr (taker', fills'), book')"
  shows "rem_of taker' < rem_of taker"
proof -
  from assms have "\<exists>q. quantity_get q \<noteq> 0 \<and> apply_fill taker q = (Inr (), taker')"
    by (auto simp: match_step_def min_remaining_quantity_def quantity_new_def Let_def checked_ok
        split: option.splits sum.splits prod.splits if_splits) (metis quantity.sel)+
  then obtain q where
    q: "quantity_get q \<noteq> 0" and t: "apply_fill taker q = (Inr (), taker')" by blast
  from apply_fill_rem [of taker q "()"] t have "rem_of taker' + qty q = rem_of taker" by simp
  moreover from q have "0 < qty q" by (simp add: qty_def)
  ultimately show ?thesis by linarith
qed

function match_loop ::
  "(limit_order \<Rightarrow> limit_order option \<Rightarrow> bool) \<Rightarrow> order_book_side \<Rightarrow> limit_order \<Rightarrow> fill list
    \<Rightarrow> (domain_error, limit_order \<times> fill list) result \<times> order_book_side" where
  "match_loop crosses book taker fills =
     (if \<not> remaining_is_zero (order_remaining taker) \<and> crosses taker (best_order book) then
        (case match_step book taker fills of
           (Inl e, book') \<Rightarrow> (Inl e, book')
         | (Inr (taker', fills'), book') \<Rightarrow> match_loop crosses book' taker' fills')
      else (Inr (taker, fills), book))"
  by pat_completeness auto
termination
  by (relation "measure (\<lambda>(crosses, book, taker, fills). rem_of taker)")
    (auto dest!: match_step_decreases [OF sym])

declare match_loop.simps [simp del]

definition match_bid ::
  "limit_order \<Rightarrow> matching_engine \<Rightarrow> (domain_error, fill list) result \<times> matching_engine" where
  "match_bid taker e =
     (case match_loop crosses_bid (engine_asks e) taker [] of
        (Inl err, asks) \<Rightarrow> (Inl err, e\<lparr>engine_asks := asks\<rparr>)
      | (Inr (taker', fills), asks) \<Rightarrow>
          if \<not> is_terminal taker' then
            (case book_insert taker' (engine_bids e) of
               (Inl err, bids) \<Rightarrow> (Inl err, e\<lparr>engine_asks := asks, engine_bids := bids\<rparr>)
             | (Inr _, bids) \<Rightarrow> (Inr fills, e\<lparr>engine_asks := asks, engine_bids := bids\<rparr>))
          else (Inr fills, e\<lparr>engine_asks := asks\<rparr>))"

definition match_ask ::
  "limit_order \<Rightarrow> matching_engine \<Rightarrow> (domain_error, fill list) result \<times> matching_engine" where
  "match_ask taker e =
     (case match_loop crosses_ask (engine_bids e) taker [] of
        (Inl err, bids) \<Rightarrow> (Inl err, e\<lparr>engine_bids := bids\<rparr>)
      | (Inr (taker', fills), bids) \<Rightarrow>
          if \<not> is_terminal taker' then
            (case book_insert taker' (engine_asks e) of
               (Inl err, asks) \<Rightarrow> (Inl err, e\<lparr>engine_bids := bids, engine_asks := asks\<rparr>)
             | (Inr _, asks) \<Rightarrow> (Inr fills, e\<lparr>engine_bids := bids, engine_asks := asks\<rparr>))
          else (Inr fills, e\<lparr>engine_bids := bids\<rparr>))"

definition place_order ::
  "limit_order \<Rightarrow> matching_engine \<Rightarrow> (domain_error, fill list) result \<times> matching_engine" where
  "place_order x e =
     (if is_terminal x then (Inl OrderAlreadyTerminal, e)
      else (case order_side x of Bid \<Rightarrow> match_bid x e | Ask \<Rightarrow> match_ask x e))"

section \<open>The reference matcher\<close>

definition take_qty :: "limit_order \<Rightarrow> nat \<Rightarrow> limit_order" where
  "take_qty x n =
     x\<lparr>order_remaining := RemainingQuantity (of_nat (rem_of x - n)),
       order_state := (if n = rem_of x then Filled else PartiallyFilled)\<rparr>"

definition trade :: "limit_order \<Rightarrow> limit_order \<Rightarrow> nat \<Rightarrow> fill" where
  "trade maker taker n = fill_new maker taker (order_price maker) (Quantity (of_nat n))"

fun match_list ::
  "side \<Rightarrow> limit_order \<Rightarrow> limit_order list \<Rightarrow> limit_order \<times> fill list \<times> limit_order list" where
  "match_list s t [] = (t, [], [])"
| "match_list s t (m # ms) =
     (if rem_of t = 0 \<or> better s (order_price t) (order_price m) then (t, [], m # ms)
      else if rem_of m \<le> rem_of t then
        (let (t', fs, ms') = match_list s (take_qty t (rem_of m)) ms
         in (t', trade m t (rem_of m) # fs, ms'))
      else (take_qty t (rem_of t), [trade m t (rem_of t)], take_qty m (rem_of t) # ms))"

lemma rem_of_word_nat: "of_nat (rem_of x) = remaining_get (order_remaining x)"
  by (simp add: rem_of_def)

lemma rem_of_bound: "rem_of x < 2 ^ 64"
  using unsigned_less [of "remaining_get (order_remaining x)", where ?'a = nat]
  by (simp add: rem_of_def)

lemma rem_take_qty [simp]: "rem_of (take_qty x n) = rem_of x - n"
  using rem_of_bound [of x] by (simp add: take_qty_def rem_of_def unat_of_nat)

lemma take_qty_frame [simp]:
  "order_ident (take_qty x n) = order_ident x" "order_trader (take_qty x n) = order_trader x"
  "order_side (take_qty x n) = order_side x" "order_price (take_qty x n) = order_price x"
  "order_original (take_qty x n) = order_original x" "order_market (take_qty x n) = order_market x"
  "orig_of (take_qty x n) = orig_of x"
  by (simp_all add: take_qty_def orig_of_def)

lemma take_qty_state:
  "is_terminal (take_qty x n) \<longleftrightarrow> n = rem_of x" "order_state (take_qty x n) \<noteq> Cancelled"
  by (simp_all add: take_qty_def is_terminal_def)

lemma order_state_take_qty:
  "order_state (take_qty x n) = (if n = rem_of x then Filled else PartiallyFilled)"
  by (simp add: take_qty_def)

lemma take_qty_wf: "order_wf x \<Longrightarrow> 0 < n \<Longrightarrow> n \<le> rem_of x \<Longrightarrow> order_wf (take_qty x n)"
  by (auto simp: order_wf_def order_state_take_qty)

lemma apply_fill_take_qty:
  assumes "\<not> is_terminal x" and "n \<le> rem_of x"
  shows "apply_fill x (Quantity (of_nat n)) = (Inr (), take_qty x n)"
proof -
  have n: "qty (Quantity (of_nat n)) = n"
    using assms(2) rem_of_bound [of x] by (simp add: qty_def unat_of_nat)
  have "remaining_get (order_remaining x) - of_nat n = of_nat (rem_of x - n)"
    using assms(2) by (simp add: of_nat_diff rem_of_word_nat)
  with apply_fill_ok [OF assms(1), of "Quantity (of_nat n)"] assms(2) n show ?thesis
    by (simp add: take_qty_def)
qed

lemma min_remaining_quantity_nat:
  "min (rem_of t) (rem_of m) \<noteq> 0 \<Longrightarrow>
    min_remaining_quantity t m = Inr (Quantity (of_nat (min (rem_of t) (rem_of m))))"
  by (auto simp: min_remaining_quantity_def quantity_new_def non_zero_new_def min_def rem_of_def
      word_le_nat_alt unat_eq_0)

lemma book_pop_reinsert:
  assumes "book_wf s b" and "book_queue b = x # q" and "book_accepts s y"
    and "order_price y = order_price x"
  shows "\<exists>b' b''. pop_best_order b = (Some x, b') \<and> book_wf s b' \<and> book_queue b' = q \<and>
    reinsert_front y b' = (Inr (), b'') \<and> book_wf s b'' \<and> book_queue b'' = y # q"
proof (cases s)
  case Ask
  with ask.pop_reinsert [of b x q y] ask.pop_queue [of b] assms show ?thesis by auto
next
  case Bid
  with bid.pop_reinsert [of b x q y] bid.pop_queue [of b] assms show ?thesis by auto
qed

lemma book_pop:
  assumes "book_wf s b" and "book_queue b = x # q"
  shows "\<exists>b'. pop_best_order b = (Some x, b') \<and> book_wf s b' \<and> book_queue b' = q"
  using assms ask.pop_queue [of b] bid.pop_queue [of b] by (cases s) (auto simp: front_def)

text \<open>One iteration, when the head of the queue is filled completely and when it is not.\<close>

lemma match_step_full:
  assumes "book_wf s b" and "book_queue b = m # ms" and "order_wf t" and "\<not> is_terminal t"
    and "rem_of m \<le> rem_of t"
  shows "\<exists>b'. match_step b t fs = (Inr (take_qty t (rem_of m), fs @ [trade m t (rem_of m)]), b') \<and>
    book_wf s b' \<and> book_queue b' = ms"
proof -
  from book_queue_accepted [OF assms(1), of m] assms(2)
  have m: "\<not> is_terminal m" "order_wf m" by (simp_all add: book_accepts_def)
  then have pos: "rem_of m \<noteq> 0" by (simp add: order_wf_live)
  from book_pop [OF assms(1,2)] obtain b' where
    b': "pop_best_order b = (Some m, b')" "book_wf s b'" "book_queue b' = ms" by blast
  have "min_remaining_quantity t m = Inr (Quantity (of_nat (rem_of m)))"
    using min_remaining_quantity_nat [of t m] pos assms(5) by (simp add: min_absorb2)
  then show ?thesis
    using b' m assms(4,5)
    by (simp add: match_step_def apply_fill_take_qty take_qty_state trade_def)
qed

lemma match_step_partial:
  assumes "book_wf s b" and "book_queue b = m # ms" and "order_wf t" and "\<not> is_terminal t"
    and "rem_of t < rem_of m"
  shows "\<exists>b'. match_step b t fs = (Inr (take_qty t (rem_of t), fs @ [trade m t (rem_of t)]), b') \<and>
    book_wf s b' \<and> book_queue b' = take_qty m (rem_of t) # ms"
proof -
  let ?m = "take_qty m (rem_of t)"
  from book_queue_accepted [OF assms(1), of m] assms(2)
  have m: "\<not> is_terminal m" "order_wf m" "order_side m = s" by (simp_all add: book_accepts_def)
  from assms(3,4) have pos: "rem_of t \<noteq> 0" by (simp add: order_wf_live)
  with m assms(5) have "book_accepts s ?m"
    by (simp add: book_accepts_def take_qty_state take_qty_wf)
  from book_pop_reinsert [OF assms(1,2) this] obtain b' b'' where
    b: "pop_best_order b = (Some m, b')" "reinsert_front ?m b' = (Inr (), b'')"
      "book_wf s b''" "book_queue b'' = ?m # ms" by auto
  have "min_remaining_quantity t m = Inr (Quantity (of_nat (rem_of t)))"
    using min_remaining_quantity_nat [of t m] pos assms(5) by (simp add: min_absorb1)
  then show ?thesis
    using b m assms(4,5)
    by (simp add: match_step_def apply_fill_take_qty take_qty_state trade_def)
qed

end
