(* ===== verification/Engine.thy ===== *)
theory Engine
  imports Matching
begin

text \<open>
  Correctness of the matching engine of \<open>Matching\<close>: the loop over the price-level book
  refines the reference matcher on the priority list (locale \<open>taker_side\<close>, interpreted for
  bids and for asks), and the engine-level guarantees follow from facts about the list.
\<close>

section \<open>Facts about the reference matcher\<close>

definition fills_qty :: "fill list \<Rightarrow> nat" where
  "fills_qty fs = sum_list (map (\<lambda>f. qty (fill_quantity f)) fs)"

definition resting_qty :: "limit_order list \<Rightarrow> nat" where
  "resting_qty q = sum_list (map rem_of q)"

lemma qty_sums [simp]:
  "fills_qty [] = 0" "fills_qty (f # fs) = qty (fill_quantity f) + fills_qty fs"
  "fills_qty (fs @ gs) = fills_qty fs + fills_qty gs"
  "resting_qty [] = 0" "resting_qty (x # q) = rem_of x + resting_qty q"
  "resting_qty (q @ r) = resting_qty q + resting_qty r"
  by (simp_all add: fills_qty_def resting_qty_def)

lemma qty_trade [simp]: "n \<le> rem_of x \<Longrightarrow> qty (fill_quantity (trade m t n)) = n"
  if "x = m \<or> x = t"
  using rem_of_bound [of x] by (simp add: trade_def fill_new_def qty_def unat_of_nat)

lemma trade_sel [simp]:
  "fill_maker_order (trade m t n) = order_ident m" "fill_taker_order (trade m t n) = order_ident t"
  "fill_maker_trader (trade m t n) = order_trader m" "fill_taker_trader (trade m t n) = order_trader t"
  "fill_price (trade m t n) = order_price m"
  by (simp_all add: trade_def fill_new_def)

lemma resting_qty_place_after [simp]: "resting_qty (place_after P x q) = rem_of x + resting_qty q"
proof -
  have "resting_qty q = resting_qty (takeWhile P q @ dropWhile P q)" by simp
  then show ?thesis by (simp only: place_after_def qty_sums)
qed

text \<open>
  The rule that the facts below share: one case for each way an iteration can go.
\<close>

lemma match_list_induct [consumes 1, case_names empty stop full part]:
  assumes "match_list s t q = (t', fs, q')"
    and empty: "\<And>t. P t [] t [] []"
    and stop: "\<And>t m ms. rem_of t = 0 \<or> better s (order_price t) (order_price m) \<Longrightarrow>
      P t (m # ms) t [] (m # ms)"
    and full: "\<And>t m ms t' fs q'. rem_of t \<noteq> 0 \<Longrightarrow>
      \<not> better s (order_price t) (order_price m) \<Longrightarrow> rem_of m \<le> rem_of t \<Longrightarrow>
      P (take_qty t (rem_of m)) ms t' fs q' \<Longrightarrow>
      P t (m # ms) t' (trade m t (rem_of m) # fs) q'"
    and part: "\<And>t m ms. rem_of t \<noteq> 0 \<Longrightarrow> \<not> better s (order_price t) (order_price m) \<Longrightarrow>
      rem_of t < rem_of m \<Longrightarrow>
      P t (m # ms) (take_qty t (rem_of t)) [trade m t (rem_of t)] (take_qty m (rem_of t) # ms)"
  shows "P t q t' fs q'"
  using assms(1)
proof (induction q arbitrary: t t' fs q')
  case Nil
  then show ?case using empty by simp
next
  case (Cons m ms)
  consider "rem_of t = 0 \<or> better s (order_price t) (order_price m)"
    | "rem_of t \<noteq> 0" "\<not> better s (order_price t) (order_price m)" "rem_of m \<le> rem_of t"
    | "rem_of t \<noteq> 0" "\<not> better s (order_price t) (order_price m)" "rem_of t < rem_of m"
    by fastforce
  then show ?case
  proof cases
    case 1
    with Cons.prems stop show ?thesis by auto
  next
    case 2
    obtain t1 fs1 q1 where r: "match_list s (take_qty t (rem_of m)) ms = (t1, fs1, q1)"
      by (cases "match_list s (take_qty t (rem_of m)) ms") auto
    with 2 Cons.prems have "t' = t1" "fs = trade m t (rem_of m) # fs1" "q' = q1" by auto
    with full [OF 2 Cons.IH [OF r]] show ?thesis by simp
  next
    case 3
    with Cons.prems part show ?thesis by auto
  qed
qed

lemma match_list_frame:
  "match_list s t q = (t', fs, q') \<Longrightarrow>
    order_ident t' = order_ident t \<and> order_trader t' = order_trader t \<and>
    order_side t' = order_side t \<and> order_price t' = order_price t"
  by (induction rule: match_list_induct) simp_all

lemma match_list_conserves:
  "match_list s t q = (t', fs, q') \<Longrightarrow>
    rem_of t = rem_of t' + fills_qty fs \<and> resting_qty q = resting_qty q' + fills_qty fs"
proof (induction rule: match_list_induct)
  case (full t m ms t' fs q')
  then show ?case using qty_trade [of m m t "rem_of m"] by auto
next
  case (part t m ms)
  then show ?case using qty_trade [of t m t "rem_of t"] by auto
qed simp_all

lemma live_iff_rem:
  "order_wf t \<Longrightarrow> order_state t \<noteq> Cancelled \<Longrightarrow> is_terminal t \<longleftrightarrow> rem_of t = 0"
  by (cases "order_state t") (auto simp: is_terminal_def order_wf_def)

lemma match_list_taker:
  "match_list s t q = (t', fs, q') \<Longrightarrow> order_wf t \<Longrightarrow> order_state t \<noteq> Cancelled \<Longrightarrow>
    \<forall>m \<in> set q. rem_of m \<noteq> 0 \<Longrightarrow> order_wf t' \<and> order_state t' \<noteq> Cancelled"
  by (induction rule: match_list_induct) (auto simp: take_qty_wf take_qty_state)

text \<open>What is left of the makers: only the head may have changed, and only its quantity.\<close>

lemma match_list_left_prices:
  "match_list s t q = (t', fs, q') \<Longrightarrow> order_price ` set q' \<subseteq> order_price ` set q"
  by (induction rule: match_list_induct) auto

text \<open>The makers are taken in priority order, each at its own price.\<close>

lemma match_list_priority:
  "match_list s t q = (t', fs, q') \<Longrightarrow>
    length fs \<le> length q \<and> map fill_maker_order fs = map order_ident (take (length fs) q) \<and>
    map fill_price fs = map order_price (take (length fs) q)"
  by (induction rule: match_list_induct) simp_all

lemma match_list_fills:
  "match_list s t q = (t', fs, q') \<Longrightarrow> \<forall>m \<in> set q. rem_of m \<noteq> 0 \<Longrightarrow> f \<in> set fs \<Longrightarrow>
    qty (fill_quantity f) \<noteq> 0 \<and> fill_taker_order f = order_ident t \<and>
    fill_taker_trader f = order_trader t \<and> \<not> better s (order_price t) (fill_price f)"
proof (induction rule: match_list_induct)
  case (full t m ms t' fs q')
  then show ?case using qty_trade [of m m t "rem_of m"] by auto
next
  case (part t m ms)
  then show ?case using qty_trade [of t m t "rem_of t"] by auto
qed simp_all

lemma better_behind:
  "better s p q \<Longrightarrow> \<not> better s r q \<Longrightarrow> better s p r"
  by (cases s) (auto simp: better_def)

lemma match_list_exhausts:
  "match_list s t q = (t', fs, q') \<Longrightarrow>
    sorted_wrt (\<lambda>x y. \<not> better s (order_price y) (order_price x)) q \<Longrightarrow>
    rem_of t' = 0 \<or> (\<forall>m \<in> set q'. better s (order_price t) (order_price m))"
  by (induction rule: match_list_induct) (auto intro: better_behind)

section \<open>The loop refines the reference\<close>

locale taker_side =
  fixes maker_side :: side
    and crosses :: "limit_order \<Rightarrow> limit_order option \<Rightarrow> bool"
  assumes crosses_None: "\<not> crosses t None"
    and crosses_Some: "crosses t (Some m) \<longleftrightarrow> \<not> better maker_side (order_price t) (order_price m)"
begin

lemma loop_stops:
  assumes "book_wf maker_side b" and "rem_of t = 0 \<or> book_queue b = [] \<or>
    better maker_side (order_price t) (order_price (hd (book_queue b)))"
  shows "match_loop crosses b t fs = (Inr (t, fs), b)"
  using assms best_order_queue [OF assms(1)]
  by (subst match_loop.simps)
    (auto simp: remaining_is_zero_def rem_of_def unat_eq_0 front_def crosses_None crosses_Some
      split: list.splits)

lemma loop_goes_on:
  assumes "book_wf maker_side b" and "book_queue b = m # ms" and "rem_of t \<noteq> 0"
    and "\<not> better maker_side (order_price t) (order_price m)"
    and "match_step b t fs = (Inr (t', fs'), b')"
  shows "match_loop crosses b t fs = match_loop crosses b' t' fs'"
  using assms best_order_queue [OF assms(1)]
  by (subst match_loop.simps)
    (simp add: remaining_is_zero_def rem_of_def unat_eq_0 front_def crosses_Some)

lemma loop_refines:
  assumes "book_wf maker_side b" and "order_wf t" and "order_state t \<noteq> Cancelled"
    and "match_list maker_side t (book_queue b) = (t', fs', q')"
  shows "\<exists>b'. match_loop crosses b t fs = (Inr (t', fs @ fs'), b') \<and> book_wf maker_side b' \<and>
    book_queue b' = q'"
  using assms
proof (induction "book_queue b" arbitrary: b t fs fs')
  case Nil
  then show ?case using loop_stops [of b t fs] by auto
next
  case (Cons m ms)
  note queue = Cons.hyps(2) [symmetric]
  show ?case
  proof (cases "rem_of t = 0 \<or> better maker_side (order_price t) (order_price m)")
    case True
    then have "match_loop crosses b t fs = (Inr (t, fs), b)"
      using loop_stops [OF Cons.prems(1)] by (simp add: queue)
    with Cons.prems(1,4) True show ?thesis by (auto simp: queue)
  next
    case False
    have live: "\<not> is_terminal t"
      using Cons.prems(2,3) False by (auto simp: is_terminal_def order_wf_def)
    show ?thesis
    proof (cases "rem_of m \<le> rem_of t")
      case full: True
      from match_step_full [OF Cons.prems(1) queue Cons.prems(2) live full, of fs] obtain b1 where
        step: "match_step b t fs = (Inr (take_qty t (rem_of m), fs @ [trade m t (rem_of m)]), b1)"
        and b1: "book_wf maker_side b1" "book_queue b1 = ms" by blast
      have "rem_of m \<noteq> 0"
        using book_queue_accepted [OF Cons.prems(1), of m] queue
        by (simp add: book_accepts_def order_wf_live)
      then have t1: "order_wf (take_qty t (rem_of m))" "order_state (take_qty t (rem_of m)) \<noteq> Cancelled"
        using Cons.prems(2) full by (simp_all add: take_qty_wf take_qty_state)
      from Cons.prems(4) queue False full obtain fs1 where
        r: "match_list maker_side (take_qty t (rem_of m)) ms = (t', fs1, q')"
        and fs': "fs' = trade m t (rem_of m) # fs1"
        by (auto split: prod.splits)
      from Cons.hyps(1) [of b1 "take_qty t (rem_of m)" fs1 "fs @ [trade m t (rem_of m)]"]
        b1 t1 r obtain b' where
        "match_loop crosses b1 (take_qty t (rem_of m)) (fs @ [trade m t (rem_of m)]) =
          (Inr (t', (fs @ [trade m t (rem_of m)]) @ fs1), b')"
        "book_wf maker_side b'" "book_queue b' = q'" by auto
      with loop_goes_on [OF Cons.prems(1) queue _ _ step] False fs' show ?thesis by simp
    next
      case part: False
      then have lt: "rem_of t < rem_of m" by simp
      from match_step_partial [OF Cons.prems(1) queue Cons.prems(2) live lt, of fs] obtain b1 where
        step: "match_step b t fs = (Inr (take_qty t (rem_of t), fs @ [trade m t (rem_of t)]), b1)"
        and b1: "book_wf maker_side b1" "book_queue b1 = take_qty m (rem_of t) # ms" by blast
      have "match_loop crosses b t fs =
          (Inr (take_qty t (rem_of t), fs @ [trade m t (rem_of t)]), b1)"
        using loop_goes_on [OF Cons.prems(1) queue _ _ step] False
          loop_stops [OF b1(1), of "take_qty t (rem_of t)"] by simp
      with b1 Cons.prems(4) queue False lt show ?thesis by auto
    qed
  qed
qed

end

interpretation bid_taker: taker_side Ask crosses_bid
  by unfold_locales (auto simp: crosses_bid_def better_def not_less)

interpretation ask_taker: taker_side Bid crosses_ask
  by unfold_locales (auto simp: crosses_ask_def better_def not_less)

section \<open>The engine\<close>

fun opposite :: "side \<Rightarrow> side" where
  "opposite Bid = Ask"
| "opposite Ask = Bid"

definition engine_book :: "side \<Rightarrow> matching_engine \<Rightarrow> order_book_side" where
  "engine_book s e = (case s of Bid \<Rightarrow> engine_bids e | Ask \<Rightarrow> engine_asks e)"

definition engine_queue :: "side \<Rightarrow> matching_engine \<Rightarrow> limit_order list" where
  "engine_queue s e = book_queue (engine_book s e)"

definition engine_wf :: "matching_engine \<Rightarrow> bool" where
  "engine_wf e \<longleftrightarrow> book_wf Bid (engine_bids e) \<and> book_wf Ask (engine_asks e)"

definition uncrossed :: "matching_engine \<Rightarrow> bool" where
  "uncrossed e \<longleftrightarrow>
     (\<forall>b \<in> set (engine_queue Bid e). \<forall>a \<in> set (engine_queue Ask e). order_price b < order_price a)"

lemma engine_wf_book: "engine_wf e \<Longrightarrow> book_wf s (engine_book s e)"
  by (cases s) (simp_all add: engine_wf_def engine_book_def)

lemma engine_queue_accepted: "engine_wf e \<Longrightarrow> x \<in> set (engine_queue s e) \<Longrightarrow> book_accepts s x"
  by (auto simp: engine_queue_def intro: book_queue_accepted engine_wf_book)

lemma engine_queue_live: "engine_wf e \<Longrightarrow> x \<in> set (engine_queue s e) \<Longrightarrow> rem_of x \<noteq> 0"
  by (drule (1) engine_queue_accepted) (simp add: book_accepts_def order_wf_live)

lemma engine_queue_ordered:
  assumes "engine_wf e"
  shows "sorted_wrt (\<lambda>x y. \<not> better s (order_price y) (order_price x)) (engine_queue s e)"
  using assms ask.queue_ordered [of "engine_asks e"] bid.queue_ordered [of "engine_bids e"]
  by (cases s) (simp_all add: engine_queue_def engine_book_def engine_wf_def)

text \<open>Where the rest of a taker goes: behind every order that is at least as good.\<close>

definition rest_taker :: "side \<Rightarrow> limit_order \<Rightarrow> limit_order list \<Rightarrow> limit_order list" where
  "rest_taker s t q =
     (if rem_of t = 0 then q
      else place_after (\<lambda>y. \<not> better s (order_price t) (order_price y)) t q)"

lemma book_insert_queue:
  assumes "book_wf s b" and "book_accepts s t"
  shows "\<exists>b'. book_insert t b = (Inr (), b') \<and> book_wf s b' \<and>
    book_queue b' = place_after (\<lambda>y. \<not> better s (order_price t) (order_price y)) t (book_queue b)"
  using ask.insert_back_queue [of b t] bid.insert_back_queue [of b t] assms by (cases s) auto

lemma rest_taker_book:
  assumes "book_wf s b" and "order_wf t" and "order_state t \<noteq> Cancelled" and "order_side t = s"
  shows "(rem_of t = 0 \<longleftrightarrow> is_terminal t) \<and> (\<not> is_terminal t \<longrightarrow>
    (\<exists>b'. book_insert t b = (Inr (), b') \<and> book_wf s b' \<and> book_queue b' = rest_taker s t (book_queue b)))"
  using assms book_insert_queue [OF assms(1), of t]
  by (auto simp: live_iff_rem rest_taker_def book_accepts_def)

text \<open>The engine refines the reference matcher.\<close>

lemma place_order_reference:
  assumes wf: "engine_wf e" and x: "order_wf x" "\<not> is_terminal x"
    and m: "match_list (opposite (order_side x)) x (engine_queue (opposite (order_side x)) e) = (t', fs, q')"
  shows "\<exists>e'. place_order x e = (Inr fs, e') \<and> engine_wf e' \<and>
    engine_queue (opposite (order_side x)) e' = q' \<and>
    engine_queue (order_side x) e' = rest_taker (order_side x) t' (engine_queue (order_side x) e)"
proof -
  from x(2) have live: "order_state x \<noteq> Cancelled" by (simp add: is_terminal_def)
  have t': "order_wf t'" "order_state t' \<noteq> Cancelled" "order_side t' = order_side x"
    using match_list_taker [OF m x(1) live] match_list_frame [OF m] engine_queue_live [OF wf]
    by auto
  show ?thesis
  proof (cases "order_side x")
    case Bid
    have wfs: "book_wf Ask (engine_asks e)" "book_wf Bid (engine_bids e)"
      using wf by (simp_all add: engine_wf_def)
    from bid_taker.loop_refines [OF wfs(1) x(1) live, of t' fs q' "[]"] m Bid obtain b' where
      b': "match_loop crosses_bid (engine_asks e) x [] = (Inr (t', fs), b')" "book_wf Ask b'"
        "book_queue b' = q'"
      by (auto simp: engine_queue_def engine_book_def)
    from rest_taker_book [OF wfs(2) t'(1,2)] t'(3) Bid
    show ?thesis
      using b' wfs x(2) Bid
      by (cases "is_terminal t'")
        (auto simp: place_order_def match_bid_def engine_wf_def engine_queue_def engine_book_def
          rest_taker_def)
  next
    case Ask
    have wfs: "book_wf Bid (engine_bids e)" "book_wf Ask (engine_asks e)"
      using wf by (simp_all add: engine_wf_def)
    from ask_taker.loop_refines [OF wfs(1) x(1) live, of t' fs q' "[]"] m Ask obtain b' where
      b': "match_loop crosses_ask (engine_bids e) x [] = (Inr (t', fs), b')" "book_wf Bid b'"
        "book_queue b' = q'"
      by (auto simp: engine_queue_def engine_book_def)
    from rest_taker_book [OF wfs(2) t'(1,2)] t'(3) Ask
    show ?thesis
      using b' wfs x(2) Ask
      by (cases "is_terminal t'")
        (auto simp: place_order_def match_ask_def engine_wf_def engine_queue_def engine_book_def
          rest_taker_def)
  qed
qed

lemma place_order_cases:
  assumes "engine_wf e" and "order_wf x" and "\<not> is_terminal x"
  obtains t' fs q' e' where
    "match_list (opposite (order_side x)) x (engine_queue (opposite (order_side x)) e) = (t', fs, q')"
    "place_order x e = (Inr fs, e')" "engine_wf e'"
    "engine_queue (opposite (order_side x)) e' = q'"
    "engine_queue (order_side x) e' = rest_taker (order_side x) t' (engine_queue (order_side x) e)"
proof -
  obtain t' fs q' where m:
    "match_list (opposite (order_side x)) x (engine_queue (opposite (order_side x)) e) = (t', fs, q')"
    by (metis prod_cases3)
  from place_order_reference [OF assms m] m that show thesis by blast
qed

lemma resting_qty_rest_taker: "resting_qty (rest_taker s t q) = rem_of t + resting_qty q"
  by (simp add: rest_taker_def)

lemma place_order_uncrossed_lemma:
  assumes "engine_wf e" and "order_wf x" and "\<not> is_terminal x" and "uncrossed e"
  shows "uncrossed (snd (place_order x e))"
proof -
  let ?s = "order_side x"
  obtain t' fs q' e' where
    m: "match_list (opposite ?s) x (engine_queue (opposite ?s) e) = (t', fs, q')" and
    e': "place_order x e = (Inr fs, e')" "engine_wf e'" "engine_queue (opposite ?s) e' = q'"
      "engine_queue ?s e' = rest_taker ?s t' (engine_queue ?s e)"
    by (rule place_order_cases [OF assms(1,2,3)])
  have p: "order_price t' = order_price x" using match_list_frame [OF m] by simp
  have left: "\<forall>y \<in> set q'. \<exists>z \<in> set (engine_queue (opposite ?s) e). order_price y = order_price z"
    using match_list_left_prices [OF m] by force
  have ex: "rem_of t' = 0 \<or> (\<forall>y \<in> set q'. better (opposite ?s) (order_price x) (order_price y))"
    using match_list_exhausts [OF m engine_queue_ordered [OF assms(1)]] .
  have crossing: "better (opposite ?s) (order_price x) (order_price y)"
    if "rem_of t' \<noteq> 0" "y \<in> set (engine_queue (opposite ?s) e')" for y
    using ex that e'(3) by blast
  have old: "better (opposite ?s) (order_price z) (order_price y)"
    if "z \<in> set (engine_queue ?s e)" "y \<in> set (engine_queue (opposite ?s) e')" for y z
    using left that e'(3) assms(4) by (cases ?s) (fastforce simp: uncrossed_def better_def)+
  have "better (opposite ?s) (order_price z) (order_price y)"
    if "z \<in> set (engine_queue ?s e')" "y \<in> set (engine_queue (opposite ?s) e')" for y z
    using that crossing old p e'(4) by (auto simp: rest_taker_def split: if_splits)
  then show ?thesis
    using e'(1) by (cases ?s) (auto simp: uncrossed_def better_def)
qed

section \<open>Reachable engines\<close>

inductive engine_reach :: "matching_engine \<Rightarrow> bool" where
  start: "engine_reach engine_new"
| place: "engine_reach e \<Longrightarrow> order_wf x \<Longrightarrow> engine_reach (snd (place_order x e))"

lemma engine_new_ok: "engine_wf engine_new" "uncrossed engine_new"
  "engine_queue s engine_new = []"
  by (cases s; simp add: engine_wf_def engine_new_def book_wf_def book_new_def uncrossed_def
      engine_queue_def engine_book_def book_queue_def)+

lemma place_order_terminal: "is_terminal x \<Longrightarrow> place_order x e = (Inl OrderAlreadyTerminal, e)"
  by (simp add: place_order_def)

lemma place_order_wf:
  assumes "engine_wf e" and "order_wf x"
  shows "engine_wf (snd (place_order x e))"
proof (cases "is_terminal x")
  case True
  with assms show ?thesis by (simp add: place_order_terminal)
next
  case False
  show ?thesis by (rule place_order_cases [OF assms False]) simp
qed

lemma engine_reach_wf: "engine_reach e \<Longrightarrow> engine_wf e"
  by (induction rule: engine_reach.induct) (simp_all add: engine_new_ok place_order_wf)

section \<open>Guarantees of the engine\<close>

text \<open>C1: Placing a live, well-formed order never fails; the fills, what is left of the other side
  of the book and where the rest of the order goes are those of greedy matching on the list of
  resting orders in price-time priority.\<close>

lemma place_order_refines:
  assumes "engine_wf e" and "order_wf x" and "\<not> is_terminal x"
  shows "case match_list (opposite (order_side x)) x (engine_queue (opposite (order_side x)) e) of
    (t', fs, q') \<Rightarrow>
      fst (place_order x e) = Inr fs \<and>
      engine_queue (opposite (order_side x)) (snd (place_order x e)) = q' \<and>
      engine_queue (order_side x) (snd (place_order x e)) =
        rest_taker (order_side x) t' (engine_queue (order_side x) e)"
  by (rule place_order_cases [OF assms]) simp

text \<open>C2: In every engine that a sequence of well-formed orders can build, both sides are well formed
  (levels sorted and non-empty, every resting order live, on its side and at its price) and the
  book is never crossed: the best bid is below the best ask.\<close>

lemma engine_never_crossed: "engine_reach e \<Longrightarrow> engine_wf e \<and> uncrossed e"
proof (induction rule: engine_reach.induct)
  case (place e x)
  then show ?case
    by (cases "is_terminal x")
      (auto simp: place_order_terminal intro: place_order_wf place_order_uncrossed_lemma)
qed (simp add: engine_new_ok)

text \<open>C3: No quantity is created or lost: the other side of the book loses exactly what the fills
  trade, and the order's own side gains exactly what they leave.\<close>

lemma place_order_conserves:
  assumes "engine_wf e" and "order_wf x" and "place_order x e = (Inr fs, e')"
  shows "resting_qty (engine_queue (opposite (order_side x)) e) =
      resting_qty (engine_queue (opposite (order_side x)) e') + fills_qty fs \<and>
    resting_qty (engine_queue (order_side x) e) + rem_of x =
      resting_qty (engine_queue (order_side x) e') + fills_qty fs"
proof -
  from assms(3) have live: "\<not> is_terminal x" by (auto simp: place_order_terminal)
  show ?thesis
    using assms(3)
    by (rule_tac place_order_cases [OF assms(1,2) live])
      (auto dest!: match_list_conserves simp: resting_qty_rest_taker)
qed

text \<open>C4: Price-time priority: the makers are the first orders of the other side in priority order,
  every fill is at its maker's price, which is never worse for the taker than its limit, and
  no fill is empty.\<close>

lemma place_order_priority:
  assumes "engine_wf e" and "order_wf x" and "place_order x e = (Inr fs, e')"
  shows "map fill_maker_order fs =
      map order_ident (take (length fs) (engine_queue (opposite (order_side x)) e)) \<and>
    map fill_price fs =
      map order_price (take (length fs) (engine_queue (opposite (order_side x)) e)) \<and>
    (\<forall>f \<in> set fs. qty (fill_quantity f) \<noteq> 0 \<and> fill_taker_order f = order_ident x \<and>
      fill_taker_trader f = order_trader x \<and>
      (case order_side x of Bid \<Rightarrow> fill_price f \<le> order_price x
                          | Ask \<Rightarrow> order_price x \<le> fill_price f))"
proof -
  from assms(3) have live: "\<not> is_terminal x" by (auto simp: place_order_terminal)
  obtain t' fs' q' e'' where
    m: "match_list (opposite (order_side x)) x (engine_queue (opposite (order_side x)) e) = (t', fs', q')"
    and p: "place_order x e = (Inr fs', e'')"
    by (rule place_order_cases [OF assms(1,2) live])
  from p assms(3) have fs: "fs' = fs" by simp
  have pos: "\<forall>m \<in> set (engine_queue (opposite (order_side x)) e). rem_of m \<noteq> 0"
    using engine_queue_live [OF assms(1)] by blast
  show ?thesis
    using match_list_priority [OF m] match_list_fills [OF m pos] fs
    by (cases "order_side x") (auto simp: better_def not_less)
qed


section \<open>Properties that partial fills keep\<close>

definition resting_orders :: "matching_engine \<Rightarrow> limit_order set" where
  "resting_orders e = set (engine_queue Bid e) \<union> set (engine_queue Ask e)"

lemma resting_orders_side:
  "resting_orders e = set (engine_queue s e) \<union> set (engine_queue (opposite s) e)"
  by (cases s) (auto simp: resting_orders_def)

lemma match_list_all:
  assumes "match_list s t q = (t', fs, q')" and "\<And>x n. P x \<Longrightarrow> P (take_qty x n)"
    and "P t" and "\<forall>x \<in> set q. P x"
  shows "P t' \<and> (\<forall>x \<in> set q'. P x)"
  using assms(1,3,4) by (induction rule: match_list_induct) (auto intro: assms(2))

lemma match_list_makers:
  "match_list s t q = (t', fs, q') \<Longrightarrow> f \<in> set fs \<Longrightarrow>
     \<exists>m \<in> set q. fill_maker_order f = order_ident m \<and> fill_maker_trader f = order_trader m \<and>
       fill_price f = order_price m"
  by (induction rule: match_list_induct) auto

lemma place_order_all:
  assumes "engine_wf e" and "order_wf x" and "place_order x e = (Inr fs, e')"
    and keep: "\<And>y n. P y \<Longrightarrow> P (take_qty y n)" and "P x" and "\<forall>y \<in> resting_orders e. P y"
  shows "\<forall>y \<in> resting_orders e'. P y"
    and "f \<in> set fs \<Longrightarrow> \<exists>m. P m \<and> fill_maker_order f = order_ident m \<and>
      fill_maker_trader f = order_trader m \<and> fill_price f = order_price m"
proof -
  let ?s = "order_side x"
  from assms(3) have live: "\<not> is_terminal x" by (auto simp: place_order_terminal)
  obtain t' fs' q' e'' where
    m: "match_list (opposite ?s) x (engine_queue (opposite ?s) e) = (t', fs', q')" and
    p: "place_order x e = (Inr fs', e'')" "engine_queue (opposite ?s) e'' = q'"
      "engine_queue ?s e'' = rest_taker ?s t' (engine_queue ?s e)"
    by (rule place_order_cases [OF assms(1,2) live])
  from p(1) assms(3) have eq: "fs' = fs" "e'' = e'" by simp_all
  have q: "\<forall>y \<in> set (engine_queue (opposite ?s) e). P y" "\<forall>y \<in> set (engine_queue ?s e). P y"
    using assms(6) by (simp_all add: resting_orders_side [of e ?s])
  from match_list_all [OF m, of P] keep assms(5) q(1) have "P t'" "\<forall>y \<in> set q'. P y" by blast+
  with q(2) p(2,3) eq show "\<forall>y \<in> resting_orders e'. P y"
    by (auto simp: resting_orders_side [of e' ?s] rest_taker_def split: if_splits)
  show "f \<in> set fs \<Longrightarrow> \<exists>m. P m \<and> fill_maker_order f = order_ident m \<and>
      fill_maker_trader f = order_trader m \<and> fill_price f = order_price m"
    using match_list_makers [OF m, of f] q(1) eq by blast
qed

section \<open>Concrete engines\<close>

definition lit_order :: "u128 \<Rightarrow> u64 \<Rightarrow> side \<Rightarrow> u64 \<Rightarrow> u64 \<Rightarrow> limit_order" where
  "lit_order i t s p q =
     order_new (OrderId i) (TraderId t) (MarketId 1) s (Price p) (Quantity q) (OrderSequence 1)"

definition two_asks :: matching_engine where
  "two_asks =
     snd (place_order (lit_order 2 11 Ask 101 5) (snd (place_order (lit_order 1 10 Ask 100 4) engine_new)))"

lemma lit_order_ok: "q \<noteq> 0 \<Longrightarrow> order_wf (lit_order i t s p q)" "\<not> is_terminal (lit_order i t s p q)"
  by (simp_all add: lit_order_def order_new_wf is_terminal_def) (simp add: order_new_def)

lemma two_asks_reach: "engine_reach two_asks"
  unfolding two_asks_def by (intro engine_reach.intros lit_order_ok) simp_all

lemma two_asks_wf: "engine_wf two_asks"
  by (rule engine_reach_wf [OF two_asks_reach])

definition crossing_bid :: limit_order where
  "crossing_bid = lit_order 3 12 Bid 105 6"

definition crossing_fills :: "fill list" where
  "crossing_fills =
     [\<lparr>fill_maker_order = OrderId 1, fill_taker_order = OrderId 3, fill_maker_trader = TraderId 10,
       fill_taker_trader = TraderId 12, fill_price = Price 100, fill_quantity = Quantity 4\<rparr>,
      \<lparr>fill_maker_order = OrderId 2, fill_taker_order = OrderId 3, fill_maker_trader = TraderId 11,
       fill_taker_trader = TraderId 12, fill_price = Price 101, fill_quantity = Quantity 2\<rparr>]"

lemma crossing_bid_ok: "order_wf crossing_bid" "\<not> is_terminal crossing_bid"
  by (simp_all add: crossing_bid_def lit_order_ok)

lemma crossing_bid_placed:
  "place_order crossing_bid two_asks = (Inr crossing_fills, snd (place_order crossing_bid two_asks))"
  by code_simp

lemma place_order_refines_witness:
  "case match_list Ask crossing_bid (engine_queue Ask two_asks) of
    (t', fs, q') \<Rightarrow>
      fst (place_order crossing_bid two_asks) = Inr fs \<and>
      engine_queue Ask (snd (place_order crossing_bid two_asks)) = q' \<and>
      engine_queue Bid (snd (place_order crossing_bid two_asks)) =
        rest_taker Bid t' (engine_queue Bid two_asks)"
  using place_order_refines [OF two_asks_wf crossing_bid_ok]
  by (simp add: crossing_bid_def lit_order_def order_new_def)

lemma engine_never_crossed_witness: "engine_wf two_asks \<and> uncrossed two_asks"
  by (rule engine_never_crossed [OF two_asks_reach])

lemma place_order_conserves_witness:
  "resting_qty (engine_queue Ask two_asks) =
    resting_qty (engine_queue Ask (snd (place_order crossing_bid two_asks))) + 6"
  using place_order_conserves [OF two_asks_wf crossing_bid_ok(1) crossing_bid_placed]
  by (simp add: crossing_bid_def lit_order_def order_new_def crossing_fills_def qty_def)

lemma place_order_priority_witness:
  "map fill_maker_order crossing_fills = map order_ident (take 2 (engine_queue Ask two_asks)) \<and>
   map fill_price crossing_fills = map order_price (take 2 (engine_queue Ask two_asks))"
  using place_order_priority [OF two_asks_wf crossing_bid_ok(1) crossing_bid_placed]
  by (simp add: crossing_bid_def lit_order_def order_new_def crossing_fills_def numeral_2_eq_2)

end
