(* ===== verification/Signed_Orders.thy ===== *)
theory Signed_Orders
  imports Orders
begin

text \<open>
  \<open>crates/domain/src/signed_order.rs\<close>: order intents, their signing preimage, and the check
  that two signed orders may settle against each other.  The hash function SHA-256 is code of
  another package and is the parameter \<open>sha\<close>; nothing is assumed about it.
\<close>

type_synonym bytes32 = "256 word"
type_synonym bytes64 = "512 word"

datatype order_nonce = OrderNonce (order_nonce_get: u64)
datatype order_expiry_slot = OrderExpirySlot (order_expiry_slot_get: u64)
datatype order_hash = OrderHash (order_hash_bytes: bytes32)

definition order_nonce_new :: "u64 \<Rightarrow> (domain_error, order_nonce) result" where
  "order_nonce_new = non_zero_new OrderNonce"

definition order_expiry_slot_new :: "u64 \<Rightarrow> (domain_error, order_expiry_slot) result" where
  "order_expiry_slot_new = non_zero_new OrderExpirySlot"

record order_intent =
  oi_order :: order_id
  oi_trader :: trader_id
  oi_market :: market_id
  oi_side :: side
  oi_price :: price
  oi_quantity :: quantity
  oi_nonce :: order_nonce
  oi_expiry_slot :: order_expiry_slot

fun side_tag :: "side \<Rightarrow> u8" where
  "side_tag Bid = 0"
| "side_tag Ask = 1"

definition ascii :: "string \<Rightarrow> u8 list" where
  "ascii = map of_char"

definition signing_preimage :: "order_intent \<Rightarrow> u8 list" where
  "signing_preimage i =
     ascii ''solana-spot-exchange-lab/order/v1'' @
     le_bytes 16 (order_id_get (oi_order i)) @
     le_bytes 8 (trader_id_get (oi_trader i)) @
     le_bytes 4 (market_id_get (oi_market i)) @
     [side_tag (oi_side i)] @
     le_bytes 8 (price_get (oi_price i)) @
     le_bytes 8 (quantity_get (oi_quantity i)) @
     le_bytes 8 (order_nonce_get (oi_nonce i)) @
     le_bytes 8 (order_expiry_slot_get (oi_expiry_slot i))"

definition intent_hash :: "(u8 list \<Rightarrow> bytes32) \<Rightarrow> order_intent \<Rightarrow> order_hash" where
  "intent_hash sha i = OrderHash (sha (signing_preimage i))"

definition is_expired :: "order_intent \<Rightarrow> u64 \<Rightarrow> bool" where
  "is_expired i current_slot \<longleftrightarrow> current_slot > order_expiry_slot_get (oi_expiry_slot i)"

record signed_order =
  so_intent :: order_intent
  so_signer :: bytes32
  so_signature :: bytes64

definition signed_order_hash :: "(u8 list \<Rightarrow> bytes32) \<Rightarrow> signed_order \<Rightarrow> order_hash" where
  "signed_order_hash sha o1 = intent_hash sha (so_intent o1)"

record signed_fill =
  sf_buyer_order_hash :: order_hash
  sf_seller_order_hash :: order_hash
  sf_buyer :: trader_id
  sf_seller :: trader_id
  sf_market :: market_id
  sf_price :: price
  sf_quantity :: quantity
  sf_quote_amount :: u128

definition validate_signed_fill ::
  "(u8 list \<Rightarrow> bytes32) \<Rightarrow> signed_order \<Rightarrow> signed_order \<Rightarrow> price \<Rightarrow> quantity \<Rightarrow> u64
    \<Rightarrow> (domain_error, signed_fill) result" where
  "validate_signed_fill sha bid ask p q current_slot =
     (let b = so_intent bid; a = so_intent ask in
      if oi_side b \<noteq> Bid \<or> oi_side a \<noteq> Ask then Inl SignedOrderWrongSide
      else if oi_market b \<noteq> oi_market a then Inl SignedOrderMarketMismatch
      else if oi_trader b = oi_trader a then Inl SignedOrderSelfTrade
      else if is_expired b current_slot \<or> is_expired a current_slot then Inl SignedOrderExpired
      else if oi_price b < oi_price a then Inl SignedOrderPricesDoNotCross
      else if p > oi_price b \<or> p < oi_price a then Inl FillPriceOutsideSignedOrder
      else if q > oi_quantity b \<or> q > oi_quantity a then Inl FillQuantityExceedsSignedOrder
      else and_then (quote_cost p q) (\<lambda>quote.
        Inr \<lparr>sf_buyer_order_hash = signed_order_hash sha bid,
             sf_seller_order_hash = signed_order_hash sha ask,
             sf_buyer = oi_trader b, sf_seller = oi_trader a, sf_market = oi_market b,
             sf_price = p, sf_quantity = q, sf_quote_amount = quote\<rparr>))"

section \<open>The preimage determines the intent\<close>

lemma side_tag_inject [simp]: "side_tag a = side_tag b \<longleftrightarrow> a = b"
  by (cases a; cases b) simp_all

lemma length_ascii [simp]: "length (ascii s) = length s"
  by (simp add: ascii_def)

text \<open>The bytes a trader signs determine the order: two intents with the same preimage are equal,
  so a signature for one order cannot be used for another.  Every preimage has 94 bytes.\<close>

lemma signing_preimage_injective:
  "(signing_preimage i = signing_preimage j \<longleftrightarrow> i = j) \<and> length (signing_preimage i) = 94"
proof
  have "i = j" if "signing_preimage i = signing_preimage j"
    using that
    by (simp add: signing_preimage_def le_bytes_inject)
      (auto simp: order_id.expand trader_id.expand market_id.expand price.expand quantity.expand
        order_nonce.expand order_expiry_slot.expand)
  then show "signing_preimage i = signing_preimage j \<longleftrightarrow> i = j" by auto
qed (simp add: signing_preimage_def)

section \<open>Validation of a signed fill\<close>

text \<open>Two signed orders settle at a price and quantity exactly when they are a bid and an ask of
  the same market, of different traders, both unexpired, and the price and the quantity are
  within both orders; the quote amount is then the exact product.\<close>

lemma validate_signed_fill_exact:
  "(\<exists>f. validate_signed_fill sha bid ask p q slot = Inr f) =
     (oi_side (so_intent bid) = Bid \<and> oi_side (so_intent ask) = Ask \<and>
      oi_market (so_intent bid) = oi_market (so_intent ask) \<and>
      oi_trader (so_intent bid) \<noteq> oi_trader (so_intent ask) \<and>
      slot \<le> order_expiry_slot_get (oi_expiry_slot (so_intent bid)) \<and>
      slot \<le> order_expiry_slot_get (oi_expiry_slot (so_intent ask)) \<and>
      oi_price (so_intent ask) \<le> p \<and> p \<le> oi_price (so_intent bid) \<and>
      q \<le> oi_quantity (so_intent bid) \<and> q \<le> oi_quantity (so_intent ask)) \<and>
   (case validate_signed_fill sha bid ask p q slot of
      Inl e \<Rightarrow> e \<in> {SignedOrderWrongSide, SignedOrderMarketMismatch, SignedOrderSelfTrade,
        SignedOrderExpired, SignedOrderPricesDoNotCross, FillPriceOutsideSignedOrder,
        FillQuantityExceedsSignedOrder}
    | Inr f \<Rightarrow> sf_price f = p \<and> sf_quantity f = q \<and>
        unat (sf_quote_amount f) = unat (price_get p) * unat (quantity_get q) \<and>
        sf_buyer f = oi_trader (so_intent bid) \<and> sf_seller f = oi_trader (so_intent ask))"
proof -
  have "unat (ucast (price_get p) * ucast (quantity_get q) :: u128) =
      unat (price_get p) * unat (quantity_get q)"
    using quote_cost_total [of p q] by (simp only: quote_cost_ok)
  then show ?thesis
    by (auto simp: validate_signed_fill_def Let_def quote_cost_total is_expired_def not_less)
qed

end
