(* ===== verification/Balances.thy ===== *)
theory Balances
  imports Orders
begin

text \<open>
  \<open>crates/domain/src/reservation.rs\<close>: balances with an available and a reserved part, the
  reservation an order needs, and the balance sheet.  The locale \<open>escrow\<close> states what the
  sheet promises its clients; it is interpreted on the sheet's own operations.
\<close>

section \<open>Balances\<close>

datatype balance_amount = BalanceAmount (balance_amount_get: u64)

definition ba_zero :: balance_amount where
  "ba_zero = BalanceAmount 0"

definition ba_from_u128 :: "u128 \<Rightarrow> (domain_error, balance_amount) result" where
  "ba_from_u128 v =
     (if unat v < 2 ^ 64 then Inr (BalanceAmount (ucast v)) else Inl AmountConversionOverflow)"

lemma ba_from_u128_code [code]:
  "ba_from_u128 v =
     (if uint v < 2 ^ 64 then Inr (BalanceAmount (ucast v)) else Inl AmountConversionOverflow)"
proof -
  have "unat v < 2 ^ 64 \<longleftrightarrow> int (unat v) < int (2 ^ 64)" by (simp only: of_nat_less_iff)
  then show ?thesis by (simp add: ba_from_u128_def)
qed

definition ba_checked_add ::
  "balance_amount \<Rightarrow> balance_amount \<Rightarrow> (domain_error, balance_amount) result" where
  "ba_checked_add a b =
     ok_or (map_option BalanceAmount (checked_add (balance_amount_get a) (balance_amount_get b)))
       ArithmeticOverflow"

definition ba_checked_sub ::
  "balance_amount \<Rightarrow> balance_amount \<Rightarrow> (domain_error, balance_amount) result" where
  "ba_checked_sub a b =
     ok_or (map_option BalanceAmount (checked_sub (balance_amount_get a) (balance_amount_get b)))
       ArithmeticUnderflow"

definition amt :: "balance_amount \<Rightarrow> nat" where
  "amt a = unat (balance_amount_get a)"

record balance =
  bal_available :: balance_amount
  bal_reserved :: balance_amount

definition balance_default :: balance where
  "balance_default = \<lparr>bal_available = ba_zero, bal_reserved = ba_zero\<rparr>"

definition balance_credit_available ::
  "balance_amount \<Rightarrow> balance \<Rightarrow> (domain_error, unit) result \<times> balance" where
  "balance_credit_available a b =
     (case ba_checked_add (bal_available b) a of
        Inl e \<Rightarrow> (Inl e, b)
      | Inr v \<Rightarrow> (Inr (), b\<lparr>bal_available := v\<rparr>))"

definition balance_reserve ::
  "balance_amount \<Rightarrow> balance \<Rightarrow> (domain_error, unit) result \<times> balance" where
  "balance_reserve a b =
     (if balance_amount_get (bal_available b) < balance_amount_get a
      then (Inl InsufficientAvailableBalance, b)
      else
        (case ba_checked_sub (bal_available b) a of
           Inl e \<Rightarrow> (Inl e, b)
         | Inr v \<Rightarrow>
             let b1 = b\<lparr>bal_available := v\<rparr> in
             (case ba_checked_add (bal_reserved b1) a of
                Inl e \<Rightarrow> (Inl e, b1)
              | Inr w \<Rightarrow> (Inr (), b1\<lparr>bal_reserved := w\<rparr>))))"

definition balance_release ::
  "balance_amount \<Rightarrow> balance \<Rightarrow> (domain_error, unit) result \<times> balance" where
  "balance_release a b =
     (if balance_amount_get (bal_reserved b) < balance_amount_get a
      then (Inl InsufficientReservedBalance, b)
      else
        (case ba_checked_sub (bal_reserved b) a of
           Inl e \<Rightarrow> (Inl e, b)
         | Inr v \<Rightarrow>
             let b1 = b\<lparr>bal_reserved := v\<rparr> in
             (case ba_checked_add (bal_available b1) a of
                Inl e \<Rightarrow> (Inl e, b1)
              | Inr w \<Rightarrow> (Inr (), b1\<lparr>bal_available := w\<rparr>))))"

definition balance_debit_reserved ::
  "balance_amount \<Rightarrow> balance \<Rightarrow> (domain_error, unit) result \<times> balance" where
  "balance_debit_reserved a b =
     (if balance_amount_get (bal_reserved b) < balance_amount_get a
      then (Inl InsufficientReservedBalance, b)
      else
        (case ba_checked_sub (bal_reserved b) a of
           Inl e \<Rightarrow> (Inl e, b)
         | Inr v \<Rightarrow> (Inr (), b\<lparr>bal_reserved := v\<rparr>)))"

section \<open>Reservations and the balance sheet\<close>

record reservation =
  res_trader :: trader_id
  res_asset :: asset_id
  res_amount :: balance_amount

definition reservation_new :: "trader_id \<Rightarrow> asset_id \<Rightarrow> balance_amount \<Rightarrow> reservation" where
  "reservation_new t a v = \<lparr>res_trader = t, res_asset = a, res_amount = v\<rparr>"

definition reservation_for_order ::
  "limit_order \<Rightarrow> market_spec \<Rightarrow> (domain_error, reservation) result" where
  "reservation_for_order x m =
     and_then
       (case order_side x of
          Bid \<Rightarrow>
            and_then (quote_cost (order_price x) (order_original x)) (\<lambda>cost.
            and_then (ba_from_u128 cost) (\<lambda>v. Inr (ms_quote_asset m, v)))
        | Ask \<Rightarrow> Inr (ms_base_asset m, BalanceAmount (quantity_get (order_original x))))
       (\<lambda>(asset, v). Inr (reservation_new (order_trader x) asset v))"

type_synonym balance_sheet = "trader_id \<times> asset_id \<Rightarrow> balance option"

definition sheet_new :: balance_sheet where
  "sheet_new = (\<lambda>_. None)"

definition sheet_balance :: "balance_sheet \<Rightarrow> trader_id \<Rightarrow> asset_id \<Rightarrow> balance" where
  "sheet_balance s t a = (case s (t, a) of None \<Rightarrow> balance_default | Some b \<Rightarrow> b)"

text \<open>\<open>balance_mut(..).operation(..)\<close>: the entry is created even when the operation fails.\<close>

definition with_balance_mut ::
  "trader_id \<Rightarrow> asset_id \<Rightarrow> (balance \<Rightarrow> (domain_error, unit) result \<times> balance) \<Rightarrow> balance_sheet
    \<Rightarrow> (domain_error, unit) result \<times> balance_sheet" where
  "with_balance_mut t a f s =
     (let (r, b) = f (sheet_balance s t a) in (r, s((t, a) \<mapsto> b)))"

definition sheet_credit_available ::
  "trader_id \<Rightarrow> asset_id \<Rightarrow> balance_amount \<Rightarrow> balance_sheet
    \<Rightarrow> (domain_error, unit) result \<times> balance_sheet" where
  "sheet_credit_available t a v = with_balance_mut t a (balance_credit_available v)"

definition sheet_reserve ::
  "reservation \<Rightarrow> balance_sheet \<Rightarrow> (domain_error, unit) result \<times> balance_sheet" where
  "sheet_reserve r = with_balance_mut (res_trader r) (res_asset r) (balance_reserve (res_amount r))"

definition sheet_release ::
  "reservation \<Rightarrow> balance_sheet \<Rightarrow> (domain_error, unit) result \<times> balance_sheet" where
  "sheet_release r = with_balance_mut (res_trader r) (res_asset r) (balance_release (res_amount r))"

definition sheet_debit_reserved ::
  "reservation \<Rightarrow> balance_sheet \<Rightarrow> (domain_error, unit) result \<times> balance_sheet" where
  "sheet_debit_reserved r =
     with_balance_mut (res_trader r) (res_asset r) (balance_debit_reserved (res_amount r))"

section \<open>The operations on natural numbers\<close>

definition avail :: "balance_sheet \<Rightarrow> trader_id \<times> asset_id \<Rightarrow> nat" where
  "avail s k = amt (bal_available (sheet_balance s (fst k) (snd k)))"

definition held :: "balance_sheet \<Rightarrow> trader_id \<times> asset_id \<Rightarrow> nat" where
  "held s k = amt (bal_reserved (sheet_balance s (fst k) (snd k)))"

lemma ba_checked_add_ok [checked_ok]: "ba_checked_add a b = Inr c \<longleftrightarrow> amt c = amt a + amt b"
  by (cases c) (auto simp: ba_checked_add_def amt_def checked_ok)

lemma ba_checked_add_err [checked_err]:
  "ba_checked_add a b = Inl e \<longleftrightarrow> 2 ^ 64 \<le> amt a + amt b \<and> e = ArithmeticOverflow"
  by (auto simp: ba_checked_add_def amt_def checked_err)

lemma ba_checked_sub_ok [checked_ok]: "ba_checked_sub a b = Inr c \<longleftrightarrow> amt a = amt b + amt c"
  by (cases c) (auto simp: ba_checked_sub_def amt_def checked_ok)

lemma ba_checked_sub_err [checked_err]:
  "ba_checked_sub a b = Inl e \<longleftrightarrow> amt a < amt b \<and> e = ArithmeticUnderflow"
  by (auto simp: ba_checked_sub_def amt_def checked_err)

lemma amt_less: "balance_amount_get a < balance_amount_get b \<longleftrightarrow> amt a < amt b"
  by (simp add: amt_def word_less_nat_alt)

lemma amt_zero [simp]: "amt ba_zero = 0"
  by (simp add: amt_def ba_zero_def)

lemma amt_bound: "amt a < 2 ^ 64"
  using unsigned_less [of "balance_amount_get a", where ?'a = nat] by (simp add: amt_def)

text \<open>The four operations, each as one equation on sums of natural numbers.\<close>

definition sum_amount :: "balance_amount \<Rightarrow> balance_amount \<Rightarrow> balance_amount" where
  "sum_amount a b = BalanceAmount (balance_amount_get a + balance_amount_get b)"

definition diff_amount :: "balance_amount \<Rightarrow> balance_amount \<Rightarrow> balance_amount" where
  "diff_amount a b = BalanceAmount (balance_amount_get a - balance_amount_get b)"

lemma amt_sum [simp]: "amt a + amt b < 2 ^ 64 \<Longrightarrow> amt (sum_amount a b) = amt a + amt b"
  by (simp add: amt_def sum_amount_def unat_add_exact)

lemma amt_diff [simp]: "amt b \<le> amt a \<Longrightarrow> amt (diff_amount a b) = amt a - amt b"
  by (simp add: amt_def diff_amount_def unat_sub_exact word_le_nat_alt)

lemma ba_checked_add_if:
  "ba_checked_add a b = (if amt a + amt b < 2 ^ 64 then Inr (sum_amount a b) else Inl ArithmeticOverflow)"
  by (simp add: ba_checked_add_def checked_add_def amt_def sum_amount_def)

lemma ba_checked_sub_if:
  "ba_checked_sub a b = (if amt b \<le> amt a then Inr (diff_amount a b) else Inl ArithmeticUnderflow)"
  by (simp add: ba_checked_sub_def checked_sub_def amt_def diff_amount_def word_le_nat_alt)

lemma balance_credit_eq:
  "balance_credit_available a b =
     (if amt (bal_available b) + amt a < 2 ^ 64
      then (Inr (), b\<lparr>bal_available := sum_amount (bal_available b) a\<rparr>)
      else (Inl ArithmeticOverflow, b))"
  by (simp add: balance_credit_available_def ba_checked_add_if)

lemma balance_reserve_eq:
  "balance_reserve a b =
     (if amt (bal_available b) < amt a then (Inl InsufficientAvailableBalance, b)
      else let b1 = b\<lparr>bal_available := diff_amount (bal_available b) a\<rparr> in
        if amt (bal_reserved b) + amt a < 2 ^ 64
        then (Inr (), b1\<lparr>bal_reserved := sum_amount (bal_reserved b) a\<rparr>)
        else (Inl ArithmeticOverflow, b1))"
  by (simp add: balance_reserve_def amt_less ba_checked_sub_if ba_checked_add_if Let_def)

lemma balance_release_eq:
  "balance_release a b =
     (if amt (bal_reserved b) < amt a then (Inl InsufficientReservedBalance, b)
      else let b1 = b\<lparr>bal_reserved := diff_amount (bal_reserved b) a\<rparr> in
        if amt (bal_available b) + amt a < 2 ^ 64
        then (Inr (), b1\<lparr>bal_available := sum_amount (bal_available b) a\<rparr>)
        else (Inl ArithmeticOverflow, b1))"
  by (simp add: balance_release_def amt_less ba_checked_sub_if ba_checked_add_if Let_def)

lemma balance_debit_eq:
  "balance_debit_reserved a b =
     (if amt (bal_reserved b) < amt a then (Inl InsufficientReservedBalance, b)
      else (Inr (), b\<lparr>bal_reserved := diff_amount (bal_reserved b) a\<rparr>))"
  by (simp add: balance_debit_reserved_def amt_less ba_checked_sub_if)

lemmas balance_eqs = balance_credit_eq balance_reserve_eq balance_release_eq balance_debit_eq

lemmas sheet_defs = sheet_credit_available_def sheet_reserve_def sheet_release_def
  sheet_debit_reserved_def with_balance_mut_def

lemma sheet_balance_upd [simp]:
  "sheet_balance (s(k \<mapsto> b)) t a = (if k = (t, a) then b else sheet_balance s t a)"
  by (simp add: sheet_balance_def)

definition res_key :: "reservation \<Rightarrow> trader_id \<times> asset_id" where
  "res_key r = (res_trader r, res_asset r)"

section \<open>The contract of the sheet\<close>

locale escrow =
  fixes free :: "'s \<Rightarrow> 'k \<Rightarrow> nat"
    and locked :: "'s \<Rightarrow> 'k \<Rightarrow> nat"
    and credit :: "'k \<Rightarrow> 'v \<Rightarrow> 's \<Rightarrow> ('e, unit) result \<times> 's"
    and lock :: "'k \<Rightarrow> 'v \<Rightarrow> 's \<Rightarrow> ('e, unit) result \<times> 's"
    and unlock :: "'k \<Rightarrow> 'v \<Rightarrow> 's \<Rightarrow> ('e, unit) result \<times> 's"
    and spend :: "'k \<Rightarrow> 'v \<Rightarrow> 's \<Rightarrow> ('e, unit) result \<times> 's"
    and val :: "'v \<Rightarrow> nat"
    and cap :: nat
  assumes credit_ok: "credit k v s = (Inr u, s') \<Longrightarrow>
      free s' = (free s)(k := free s k + val v) \<and> locked s' = locked s"
    and lock_ok: "lock k v s = (Inr u, s') \<Longrightarrow> val v \<le> free s k \<and>
      free s' = (free s)(k := free s k - val v) \<and> locked s' = (locked s)(k := locked s k + val v)"
    and unlock_ok: "unlock k v s = (Inr u, s') \<Longrightarrow> val v \<le> locked s k \<and>
      free s' = (free s)(k := free s k + val v) \<and> locked s' = (locked s)(k := locked s k - val v)"
    and spend_ok: "spend k v s = (Inr u, s') \<Longrightarrow> val v \<le> locked s k \<and>
      free s' = free s \<and> locked s' = (locked s)(k := locked s k - val v)"
    and lock_succeeds: "val v \<le> free s k \<Longrightarrow> locked s k + val v < cap \<Longrightarrow> \<exists>s'. lock k v s = (Inr (), s')"
begin

definition funds :: "'s \<Rightarrow> 'k \<Rightarrow> nat" where
  "funds s k = free s k + locked s k"

lemma funds_credit: "credit k v s = (Inr u, s') \<Longrightarrow> funds s' = (funds s)(k := funds s k + val v)"
  by (drule credit_ok) (auto simp: funds_def)

lemma funds_lock: "lock k v s = (Inr u, s') \<Longrightarrow> funds s' = funds s"
  by (drule lock_ok) (auto simp: funds_def)

lemma funds_unlock: "unlock k v s = (Inr u, s') \<Longrightarrow> funds s' = funds s"
  by (drule unlock_ok) (auto simp: funds_def)

lemma funds_spend:
  "spend k v s = (Inr u, s') \<Longrightarrow> val v \<le> funds s k \<and> funds s' = (funds s)(k := funds s k - val v)"
  by (drule spend_ok) (auto simp: funds_def)

text \<open>Locking and unlocking the same value gives the same split back.\<close>

lemma lock_unlock:
  assumes "lock k v s = (Inr u, s1)" and "unlock k v s1 = (Inr u', s2)"
  shows "free s2 = free s \<and> locked s2 = locked s"
  using lock_ok [OF assms(1)] unlock_ok [OF assms(2)] by auto

end

definition keyed :: "trader_id \<times> asset_id \<Rightarrow> balance_amount \<Rightarrow> reservation" where
  "keyed k v = reservation_new (fst k) (snd k) v"

lemma keyed_sel [simp]:
  "res_trader (keyed k v) = fst k" "res_asset (keyed k v) = snd k" "res_amount (keyed k v) = v"
  by (simp_all add: keyed_def reservation_new_def)

lemma keyed_reservation [simp]: "keyed (res_key r) (res_amount r) = r"
  by (simp add: keyed_def res_key_def reservation_new_def)

interpretation sheet: escrow avail held "\<lambda>k. sheet_credit_available (fst k) (snd k)"
  "\<lambda>k v. sheet_reserve (keyed k v)" "\<lambda>k v. sheet_release (keyed k v)"
  "\<lambda>k v. sheet_debit_reserved (keyed k v)" amt "2 ^ 64"
proof unfold_locales
  fix k v s u s'
  assume "sheet_credit_available (fst k) (snd k) v s = (Inr u, s')"
  then show "avail s' = (avail s)(k := avail s k + amt v) \<and> held s' = held s"
    by (cases k) (auto simp: sheet_defs balance_eqs avail_def held_def split: if_splits intro!: ext)
next
  fix k v s u s'
  assume "sheet_reserve (keyed k v) s = (Inr u, s')"
  then show "amt v \<le> avail s k \<and> avail s' = (avail s)(k := avail s k - amt v) \<and>
      held s' = (held s)(k := held s k + amt v)"
    by (cases k) (auto simp: sheet_defs balance_eqs avail_def held_def Let_def split: if_splits intro!: ext)
next
  fix k v s u s'
  assume "sheet_release (keyed k v) s = (Inr u, s')"
  then show "amt v \<le> held s k \<and> avail s' = (avail s)(k := avail s k + amt v) \<and>
      held s' = (held s)(k := held s k - amt v)"
    by (cases k) (auto simp: sheet_defs balance_eqs avail_def held_def Let_def split: if_splits intro!: ext)
next
  fix k v s u s'
  assume "sheet_debit_reserved (keyed k v) s = (Inr u, s')"
  then show "amt v \<le> held s k \<and> avail s' = avail s \<and> held s' = (held s)(k := held s k - amt v)"
    by (cases k) (auto simp: sheet_defs balance_eqs avail_def held_def Let_def split: if_splits intro!: ext)
next
  fix k v s
  assume "amt v \<le> avail s k" and "held s k + amt v < 2 ^ 64"
  then show "\<exists>s'. sheet_reserve (keyed k v) s = (Inr (), s')"
    by (simp add: sheet_defs balance_eqs avail_def held_def Let_def)
qed

section \<open>What an order costs\<close>

definition pays_with :: "limit_order \<Rightarrow> market_spec \<Rightarrow> asset_id" where
  "pays_with x m = (case order_side x of Bid \<Rightarrow> ms_quote_asset m | Ask \<Rightarrow> ms_base_asset m)"

definition cost_of :: "limit_order \<Rightarrow> nat \<Rightarrow> nat" where
  "cost_of x n = (case order_side x of Bid \<Rightarrow> unat (price_get (order_price x)) * n | Ask \<Rightarrow> n)"

lemma unat_ucast_u128_u64: "unat (w :: u128) < 2 ^ 64 \<Longrightarrow> unat (ucast w :: u64) = unat w"
  by (simp add: unsigned_ucast_eq take_bit_nat_eq_self)

lemma reservation_for_order_ok:
  "reservation_for_order x m = Inr r \<Longrightarrow>
     res_trader r = order_trader x \<and> res_asset r = pays_with x m \<and>
     amt (res_amount r) = cost_of x (orig_of x)"
  by (cases "order_side x")
    (auto simp: reservation_for_order_def quote_cost_ok checked_ok ba_from_u128_def pays_with_def
      cost_of_def reservation_new_def amt_def orig_of_def unat_ucast_u128_u64 split: if_splits)

lemma reservation_for_order_err:
  "reservation_for_order x m = Inl e \<longleftrightarrow>
     order_side x = Bid \<and> 2 ^ 64 \<le> cost_of x (orig_of x) \<and> e = AmountConversionOverflow"
proof (cases "order_side x")
  case Bid
  let ?c = "ucast (price_get (order_price x)) * ucast (quantity_get (order_original x)) :: u128"
  have c: "unat ?c = cost_of x (orig_of x)"
    using quote_cost_ok [of "order_price x" "order_original x" ?c] Bid
    by (simp add: quote_cost_total cost_of_def orig_of_def)
  show ?thesis
    by (auto simp: reservation_for_order_def quote_cost_total ba_from_u128_def Bid c not_less)
qed (simp add: reservation_for_order_def)

section \<open>Runs of operations\<close>

datatype sheet_op =
    Credit trader_id asset_id balance_amount
  | Reserve reservation
  | Release reservation
  | Debit reservation

fun sheet_op_run :: "sheet_op \<Rightarrow> balance_sheet \<Rightarrow> (domain_error, unit) result \<times> balance_sheet" where
  "sheet_op_run (Credit t a v) s = sheet_credit_available t a v s"
| "sheet_op_run (Reserve r) s = sheet_reserve r s"
| "sheet_op_run (Release r) s = sheet_release r s"
| "sheet_op_run (Debit r) s = sheet_debit_reserved r s"

fun sheet_ops_run ::
  "sheet_op list \<Rightarrow> balance_sheet \<Rightarrow> (domain_error, unit) result \<times> balance_sheet" where
  "sheet_ops_run [] s = (Inr (), s)"
| "sheet_ops_run (x # xs) s =
     (case sheet_op_run x s of
        (Inl e, s') \<Rightarrow> (Inl e, s')
      | (Inr _, s') \<Rightarrow> sheet_ops_run xs s')"

fun op_credits :: "trader_id \<times> asset_id \<Rightarrow> sheet_op \<Rightarrow> nat" where
  "op_credits k (Credit t a v) = (if k = (t, a) then amt v else 0)"
| "op_credits k _ = 0"

fun op_debits :: "trader_id \<times> asset_id \<Rightarrow> sheet_op \<Rightarrow> nat" where
  "op_debits k (Debit r) = (if k = res_key r then amt (res_amount r) else 0)"
| "op_debits k _ = 0"

lemma sheet_op_funds:
  assumes "sheet_op_run x s = (Inr u, s')"
  shows "sheet.funds s' k + op_debits k x = sheet.funds s k + op_credits k x"
proof (cases x)
  case (Credit t a v)
  with assms sheet.funds_credit [of "(t, a)" v s u s'] show ?thesis by auto
next
  case (Reserve r)
  with assms sheet.funds_lock [of "res_key r" "res_amount r" s u s'] show ?thesis by simp
next
  case (Release r)
  with assms sheet.funds_unlock [of "res_key r" "res_amount r" s u s'] show ?thesis by simp
next
  case (Debit r)
  with assms sheet.funds_spend [of "res_key r" "res_amount r" s u s'] show ?thesis by auto
qed

section \<open>Guarantees of the sheet\<close>

text \<open>Money is neither created nor lost: however credits, reservations, releases and debits follow
  one another, in every account what is available plus what is reserved is what was credited
  minus what was debited.\<close>

lemma sheet_ops_conserve:
  assumes "sheet_ops_run xs s = (Inr u, s')"
  shows "avail s' k + held s' k + sum_list (map (op_debits k) xs) =
    avail s k + held s k + sum_list (map (op_credits k) xs)"
  using assms
proof (induction xs arbitrary: s)
  case (Cons x xs)
  then obtain u1 s1 where 1: "sheet_op_run x s = (Inr u1, s1)" and r: "sheet_ops_run xs s1 = (Inr u, s')"
    by (auto split: prod.splits sum.splits)
  show ?case
    using Cons.IH [OF r] sheet_op_funds [OF 1, of k] by (simp add: sheet.funds_def)
qed simp

text \<open>A reservation succeeds exactly when the available balance covers it and the reserved one
  does not overflow; it then moves the amount; a refusal for lack of funds changes no balance.\<close>

lemma sheet_reserve_exact:
  "case sheet_reserve r s of
     (Inr _, s') \<Rightarrow> amt (res_amount r) \<le> avail s (res_key r) \<and>
       avail s' = (avail s)(res_key r := avail s (res_key r) - amt (res_amount r)) \<and>
       held s' = (held s)(res_key r := held s (res_key r) + amt (res_amount r))
   | (Inl e, s') \<Rightarrow>
       if avail s (res_key r) < amt (res_amount r)
       then e = InsufficientAvailableBalance \<and> avail s' = avail s \<and> held s' = held s
       else e = ArithmeticOverflow \<and> 2 ^ 64 \<le> held s (res_key r) + amt (res_amount r)"
proof (cases "sheet_reserve r s")
  case (Pair res s')
  show ?thesis
  proof (cases res)
    case (Inr u)
    with Pair sheet.lock_ok [of "res_key r" "res_amount r" s u s'] show ?thesis by simp
  next
    case (Inl e)
    with Pair show ?thesis
      by (cases r) (auto simp: sheet_defs balance_eqs avail_def held_def res_key_def Let_def
          split: if_splits intro!: ext)
  qed
qed

text \<open>A reservation that fails because the reserved balance would overflow has already lowered
  the available balance: the operation is not atomic, its callers have to work on a copy.\<close>

lemma balance_reserve_overflow_loses:
  assumes "amt a \<le> amt (bal_available b)" and "2 ^ 64 \<le> amt (bal_reserved b) + amt a"
  shows "fst (balance_reserve a b) = Inl ArithmeticOverflow \<and>
    amt (bal_available (snd (balance_reserve a b))) + amt a = amt (bal_available b) \<and>
    bal_reserved (snd (balance_reserve a b)) = bal_reserved b"
  using assms by (simp add: balance_reserve_eq Let_def)

lemma balance_reserve_overflow_loses_witness:
  "balance_reserve (BalanceAmount 5) \<lparr>bal_available = BalanceAmount 9, bal_reserved = BalanceAmount 18446744073709551615\<rparr> =
     (Inl ArithmeticOverflow, \<lparr>bal_available = BalanceAmount 4, bal_reserved = BalanceAmount 18446744073709551615\<rparr>) \<and>
   fst (balance_reserve (BalanceAmount 5)
     \<lparr>bal_available = BalanceAmount 9, bal_reserved = BalanceAmount 18446744073709551615\<rparr>) = Inl ArithmeticOverflow"
proof -
  have "amt (BalanceAmount 18446744073709551615) = 2 ^ 64 - 1" by (simp add: amt_def)
  then have "2 ^ 64 \<le> amt (BalanceAmount 18446744073709551615) + amt (BalanceAmount 5)" by (simp add: amt_def)
  then have "fst (balance_reserve (BalanceAmount 5)
     \<lparr>bal_available = BalanceAmount 9, bal_reserved = BalanceAmount 18446744073709551615\<rparr>) = Inl ArithmeticOverflow"
    using balance_reserve_overflow_loses [of "BalanceAmount 5"
      "\<lparr>bal_available = BalanceAmount 9, bal_reserved = BalanceAmount 18446744073709551615\<rparr>"]
    by (simp add: amt_def)
  then show ?thesis by (simp add: balance_reserve_eq Let_def diff_amount_def amt_def split: if_splits)
qed

lemma sheet_ops_conserve_witness:
  "avail (snd (sheet_ops_run
      [Credit (TraderId 1) (AssetId 2) (BalanceAmount 10),
       Reserve (reservation_new (TraderId 1) (AssetId 2) (BalanceAmount 7)),
       Debit (reservation_new (TraderId 1) (AssetId 2) (BalanceAmount 4))] sheet_new)) (TraderId 1, AssetId 2) +
   held (snd (sheet_ops_run
      [Credit (TraderId 1) (AssetId 2) (BalanceAmount 10),
       Reserve (reservation_new (TraderId 1) (AssetId 2) (BalanceAmount 7)),
       Debit (reservation_new (TraderId 1) (AssetId 2) (BalanceAmount 4))] sheet_new)) (TraderId 1, AssetId 2)
   = 6"
proof -
  let ?xs = "[Credit (TraderId 1) (AssetId 2) (BalanceAmount 10),
       Reserve (reservation_new (TraderId 1) (AssetId 2) (BalanceAmount 7)),
       Debit (reservation_new (TraderId 1) (AssetId 2) (BalanceAmount 4))]"
  have "sheet_ops_run ?xs sheet_new = (Inr (), snd (sheet_ops_run ?xs sheet_new))"
    by (simp add: sheet_defs balance_eqs Let_def reservation_new_def sheet_new_def
        sheet_balance_def balance_default_def amt_def ba_zero_def sum_amount_def diff_amount_def)
  from sheet_ops_conserve [OF this, of "(TraderId 1, AssetId 2)"] show ?thesis
    by (simp add: avail_def held_def sheet_new_def sheet_balance_def balance_default_def amt_def
        ba_zero_def res_key_def reservation_new_def)
qed

end
