(* ===== verification/Exchange_App.thy ===== *)
theory Exchange_App
  imports Engine Balances
begin

text \<open>
  \<open>crates/application\<close>: the exchange as an event-sourced state machine (\<open>lib.rs\<close>), its events
  and errors (\<open>event.rs\<close>, \<open>error.rs\<close>) and the settlement requests it emits (\<open>settlement.rs\<close>).
  A command first computes its event on an unchanged application and then applies it.
\<close>

datatype app_error =
    DomainError domain_error
  | DuplicateCommand
  | ReplayMismatch
  | ActorClosed
  | JournalAppendFailed

datatype command_id = CommandId (command_id_get: u128)

definition command_id_new :: "u128 \<Rightarrow> (app_error, command_id) result" where
  "command_id_new v = (if v = 0 then Inl (DomainError ZeroValue) else Inr (CommandId v))"

datatype event =
    DepositCredited command_id trader_id asset_id balance_amount
  | OrderPlaced command_id limit_order "fill list"

fun event_command_id :: "event \<Rightarrow> command_id" where
  "event_command_id (DepositCredited c _ _ _) = c"
| "event_command_id (OrderPlaced c _ _) = c"

record exchange_app =
  app_market :: market_spec
  app_balances :: balance_sheet
  app_matching :: matching_engine
  app_events :: "event list"
  app_seen :: "command_id set"

definition app_new :: "market_spec \<Rightarrow> exchange_app" where
  "app_new m = \<lparr>app_market = m, app_balances = sheet_new, app_matching = engine_new,
                app_events = [], app_seen = {}\<rparr>"

definition reject_duplicate :: "command_id \<Rightarrow> exchange_app \<Rightarrow> (app_error, unit) result" where
  "reject_duplicate c app = (if c \<in> app_seen app then Inl DuplicateCommand else Inr ())"

definition record_applied_event ::
  "event \<Rightarrow> exchange_app \<Rightarrow> (app_error, unit) result \<times> exchange_app" where
  "record_applied_event ev app =
     (if event_command_id ev \<in> app_seen app then (Inl DuplicateCommand, app)
      else (Inr (), app\<lparr>app_seen := insert (event_command_id ev) (app_seen app),
                       app_events := app_events app @ [ev]\<rparr>))"

text \<open>The balances and the engine are cloned, and stored back only when both steps succeed.\<close>

definition place_order_in_domain ::
  "limit_order \<Rightarrow> exchange_app \<Rightarrow> (app_error, fill list) result \<times> exchange_app" where
  "place_order_in_domain x app =
     (if is_terminal x then (Inl (DomainError OrderAlreadyTerminal), app)
      else
        (case reservation_for_order x (app_market app) of
           Inl e \<Rightarrow> (Inl (DomainError e), app)
         | Inr r \<Rightarrow>
             (case sheet_reserve r (app_balances app) of
                (Inl e, _) \<Rightarrow> (Inl (DomainError e), app)
              | (Inr _, balances) \<Rightarrow>
                  (case place_order x (app_matching app) of
                     (Inl e, _) \<Rightarrow> (Inl (DomainError e), app)
                   | (Inr fills, matching) \<Rightarrow>
                       (Inr fills, app\<lparr>app_balances := balances, app_matching := matching\<rparr>)))))"

definition apply_event :: "event \<Rightarrow> exchange_app \<Rightarrow> (app_error, unit) result \<times> exchange_app" where
  "apply_event ev app =
     (case reject_duplicate (event_command_id ev) app of
        Inl e \<Rightarrow> (Inl e, app)
      | Inr _ \<Rightarrow>
          (case ev of
             DepositCredited c t a v \<Rightarrow>
               (case sheet_credit_available t a v (app_balances app) of
                  (Inl e, balances) \<Rightarrow> (Inl (DomainError e), app\<lparr>app_balances := balances\<rparr>)
                | (Inr _, balances) \<Rightarrow> record_applied_event ev (app\<lparr>app_balances := balances\<rparr>))
           | OrderPlaced c x fills \<Rightarrow>
               (case place_order_in_domain x app of
                  (Inl e, app1) \<Rightarrow> (Inl e, app1)
                | (Inr replayed, app1) \<Rightarrow>
                    if replayed \<noteq> fills then (Inl ReplayMismatch, app1)
                    else record_applied_event ev app1)))"

definition credit_deposit_event ::
  "command_id \<Rightarrow> trader_id \<Rightarrow> asset_id \<Rightarrow> balance_amount \<Rightarrow> exchange_app
    \<Rightarrow> (app_error, event) result" where
  "credit_deposit_event c t a v app =
     and_then (reject_duplicate c app) (\<lambda>_. Inr (DepositCredited c t a v))"

definition credit_deposit ::
  "command_id \<Rightarrow> trader_id \<Rightarrow> asset_id \<Rightarrow> balance_amount \<Rightarrow> exchange_app
    \<Rightarrow> (app_error, unit) result \<times> exchange_app" where
  "credit_deposit c t a v app =
     (case credit_deposit_event c t a v app of
        Inl e \<Rightarrow> (Inl e, app)
      | Inr ev \<Rightarrow> apply_event ev app)"

definition place_order_event ::
  "command_id \<Rightarrow> limit_order \<Rightarrow> exchange_app \<Rightarrow> (app_error, event \<times> fill list) result" where
  "place_order_event c x app =
     and_then (reject_duplicate c app) (\<lambda>_.
     and_then (fst (place_order_in_domain x app)) (\<lambda>fills.
       Inr (OrderPlaced c x fills, fills)))"

definition app_place_order ::
  "command_id \<Rightarrow> limit_order \<Rightarrow> exchange_app \<Rightarrow> (app_error, fill list) result \<times> exchange_app" where
  "app_place_order c x app =
     (case place_order_event c x app of
        Inl e \<Rightarrow> (Inl e, app)
      | Inr (ev, fills) \<Rightarrow>
          (case apply_event ev app of
             (Inl e, app1) \<Rightarrow> (Inl e, app1)
           | (Inr _, app1) \<Rightarrow> (Inr fills, app1)))"

fun apply_events :: "event list \<Rightarrow> exchange_app \<Rightarrow> (app_error, exchange_app) result" where
  "apply_events [] app = Inr app"
| "apply_events (ev # evs) app =
     (case apply_event ev app of
        (Inl e, _) \<Rightarrow> Inl e
      | (Inr _, app1) \<Rightarrow> apply_events evs app1)"

definition replay :: "market_spec \<Rightarrow> event list \<Rightarrow> (app_error, exchange_app) result" where
  "replay m evs = apply_events evs (app_new m)"

section \<open>Settlement requests\<close>

record settlement_intent =
  si_market :: market_id
  si_buyer :: trader_id
  si_seller :: trader_id
  si_maker_order :: order_id
  si_taker_order :: order_id
  si_price :: price
  si_quantity :: quantity

definition intent_from_fill :: "limit_order \<Rightarrow> fill \<Rightarrow> settlement_intent" where
  "intent_from_fill taker f =
     (let (buyer, seller) =
        (case order_side taker of
           Bid \<Rightarrow> (fill_taker_trader f, fill_maker_trader f)
         | Ask \<Rightarrow> (fill_maker_trader f, fill_taker_trader f))
      in \<lparr>si_market = order_market taker, si_buyer = buyer, si_seller = seller,
          si_maker_order = fill_maker_order f, si_taker_order = fill_taker_order f,
          si_price = fill_price f, si_quantity = fill_quantity f\<rparr>)"

record settlement_batch =
  sb_command :: command_id
  sb_intents :: "settlement_intent list"

definition batch_from_order_fills ::
  "command_id \<Rightarrow> limit_order \<Rightarrow> fill list \<Rightarrow> settlement_batch" where
  "batch_from_order_fills c taker fills =
     \<lparr>sb_command = c, sb_intents = map (intent_from_fill taker) fills\<rparr>"

section \<open>Commands and events\<close>

lemma credit_err_frame:
  assumes "sheet_credit_available t a v s = (Inl e, s')"
  shows "s' = s"
proof -
  let ?b = "sheet_balance s t a"
  from assms have over: "\<not> amt (bal_available ?b) + amt v < 2 ^ 64" and s': "s' = s((t, a) \<mapsto> ?b)"
    by (simp_all add: sheet_defs balance_credit_eq split: if_splits)
  have "s (t, a) \<noteq> None"
    using over amt_bound [of v] by (cases "s (t, a)") (simp_all add: sheet_balance_def balance_default_def)
  then have "s (t, a) = Some ?b" by (auto simp: sheet_balance_def)
  then show ?thesis unfolding s' by (rule fun_upd_idem)
qed

lemma place_in_domain_err: "place_order_in_domain x app = (Inl e, app1) \<Longrightarrow> app1 = app"
  by (auto simp: place_order_in_domain_def split: if_splits sum.splits prod.splits)

lemma place_in_domain_ok:
  assumes "place_order_in_domain x app = (Inr fs, app1)"
  shows "\<exists>r s' e'. \<not> is_terminal x \<and> reservation_for_order x (app_market app) = Inr r \<and>
    sheet_reserve r (app_balances app) = (Inr (), s') \<and>
    place_order x (app_matching app) = (Inr fs, e') \<and>
    app1 = app\<lparr>app_balances := s', app_matching := e'\<rparr>"
  using assms
  by (auto simp: place_order_in_domain_def split: if_splits sum.splits prod.splits)

lemma place_in_domain_frame:
  "place_order_in_domain x app = (r, app1) \<Longrightarrow>
     app_seen app1 = app_seen app \<and> app_events app1 = app_events app \<and> app_market app1 = app_market app"
  by (auto simp: place_order_in_domain_def split: if_splits sum.splits prod.splits)

lemma record_ok:
  "record_applied_event ev app = (Inr u, app') \<longleftrightarrow>
     event_command_id ev \<notin> app_seen app \<and>
     app' = app\<lparr>app_seen := insert (event_command_id ev) (app_seen app),
                app_events := app_events app @ [ev]\<rparr>"
  by (auto simp: record_applied_event_def)

lemma apply_deposit_ok:
  "apply_event (DepositCredited c t a v) app = (Inr u, app') \<longleftrightarrow>
     (\<exists>s'. c \<notin> app_seen app \<and> sheet_credit_available t a v (app_balances app) = (Inr (), s') \<and>
       app' = app\<lparr>app_balances := s', app_seen := insert c (app_seen app),
                  app_events := app_events app @ [DepositCredited c t a v]\<rparr>)"
  by (simp add: apply_event_def reject_duplicate_def record_ok split: sum.split prod.split)

lemma apply_order_ok:
  "apply_event (OrderPlaced c x fs) app = (Inr u, app') \<longleftrightarrow>
     (\<exists>app1. c \<notin> app_seen app \<and> place_order_in_domain x app = (Inr fs, app1) \<and>
       app' = app1\<lparr>app_seen := insert c (app_seen app), app_events := app_events app @ [OrderPlaced c x fs]\<rparr>)"
proof (cases "place_order_in_domain x app")
  case (Pair r app1)
  with place_in_domain_frame [OF Pair] show ?thesis
    by (cases r) (auto simp: apply_event_def reject_duplicate_def record_ok)
qed

lemma apply_event_ok:
  assumes "apply_event ev app = (Inr u, app')"
  shows "event_command_id ev \<notin> app_seen app \<and> app_events app' = app_events app @ [ev] \<and>
    app_seen app' = insert (event_command_id ev) (app_seen app) \<and> app_market app' = app_market app"
proof (cases ev)
  case (DepositCredited c t a v)
  with assms show ?thesis by (auto simp: apply_deposit_ok)
next
  case (OrderPlaced c x fs)
  with assms obtain app1 where "c \<notin> app_seen app" "place_order_in_domain x app = (Inr fs, app1)"
    "app' = app1\<lparr>app_seen := insert c (app_seen app), app_events := app_events app @ [ev]\<rparr>"
    by (auto simp: apply_order_ok)
  with place_in_domain_frame [of x app "Inr fs" app1] OrderPlaced show ?thesis by simp
qed

text \<open>A simulated order always applies: the event repeats the simulation.\<close>

lemma place_order_event_applies:
  assumes "place_order_event c x app = Inr (ev, fs)"
  shows "\<exists>app1. place_order_in_domain x app = (Inr fs, app1) \<and> ev = OrderPlaced c x fs \<and>
    apply_event ev app = (Inr (), app1\<lparr>app_seen := insert c (app_seen app),
      app_events := app_events app @ [ev]\<rparr>)"
proof -
  obtain r app1 where p: "place_order_in_domain x app = (r, app1)" by (cases "place_order_in_domain x app")
  with assms have "r = Inr fs" "ev = OrderPlaced c x fs" "c \<notin> app_seen app"
    by (auto simp: place_order_event_def reject_duplicate_def checked_ok split: if_splits)
  with p place_in_domain_frame [OF p] show ?thesis
    by (simp add: apply_event_def reject_duplicate_def record_applied_event_def)
qed

lemma app_place_order_cases:
  obtains (rejected) e where "app_place_order c x app = (Inl e, app)"
  | (placed) fs app' where "app_place_order c x app = (Inr fs, app')"
      "apply_event (OrderPlaced c x fs) app = (Inr (), app')"
proof (cases "place_order_event c x app")
  case (Inl e)
  then show ?thesis using rejected by (simp add: app_place_order_def)
next
  case (Inr p)
  obtain ev fs where p: "p = (ev, fs)" by (cases p)
  with place_order_event_applies [of c x app ev fs] Inr placed show ?thesis
    by (auto simp: app_place_order_def)
qed

lemma credit_deposit_cases:
  obtains (rejected) e where "credit_deposit c t a v app = (Inl e, app)"
  | (credited) app' where "credit_deposit c t a v app = (Inr (), app')"
      "apply_event (DepositCredited c t a v) app = (Inr (), app')"
proof (cases "credit_deposit c t a v app")
  case (Pair r app')
  show ?thesis
  proof (cases r)
    case (Inr u)
    with Pair credited show ?thesis
      by (auto simp: credit_deposit_def credit_deposit_event_def reject_duplicate_def split: if_splits)
  next
    case (Inl e)
    with Pair have "app' = app"
      by (auto simp: credit_deposit_def credit_deposit_event_def reject_duplicate_def
          apply_event_def record_applied_event_def
          split: if_splits sum.splits prod.splits dest!: credit_err_frame)
    with Pair Inl rejected show ?thesis by simp
  qed
qed

section \<open>Event sourcing\<close>

text \<open>
  The contract of an event-sourced state: applying an event either fails or appends exactly
  that event to the log.  Any state built by successful events is then rebuilt by its log.
\<close>

locale event_sourced =
  fixes step :: "'ev \<Rightarrow> 's \<Rightarrow> ('e, unit) result \<times> 's"
    and log :: "'s \<Rightarrow> 'ev list"
    and rebuild :: "'ev list \<Rightarrow> 's \<Rightarrow> ('e, 's) result"
    and fresh :: "'s \<Rightarrow> bool"
  assumes step_logs: "step ev s = (Inr u, s') \<Longrightarrow> log s' = log s @ [ev]"
    and rebuild_Nil: "rebuild [] s = Inr s"
    and rebuild_Cons: "rebuild (ev # evs) s =
      (case step ev s of (Inl e, _) \<Rightarrow> Inl e | (Inr _, s1) \<Rightarrow> rebuild evs s1)"
    and fresh_log: "fresh s \<Longrightarrow> log s = []"
begin

lemma rebuild_append:
  "rebuild (evs @ evs') s = and_then (rebuild evs s) (rebuild evs')"
  by (induction evs arbitrary: s) (auto simp: rebuild_Nil rebuild_Cons split: sum.split prod.split)

lemma rebuild_one: "step ev s = (Inr u, s') \<Longrightarrow> rebuild [ev] s = Inr s'"
  by (simp add: rebuild_Nil rebuild_Cons)

lemma rebuild_step:
  assumes "rebuild (log s) s0 = Inr s" and "step ev s = (Inr u, s')"
  shows "rebuild (log s') s0 = Inr s'"
  using assms by (simp add: step_logs [OF assms(2)] rebuild_append rebuild_one [OF assms(2)])

lemma rebuild_logs: "rebuild evs s = Inr s' \<Longrightarrow> log s' = log s @ evs"
  by (induction evs arbitrary: s)
    (auto simp: rebuild_Nil rebuild_Cons split: sum.splits prod.splits dest: step_logs)

text \<open>An event that fails on the state its journal leads to makes the journal unreadable for ever.\<close>

lemma rebuild_poisoned:
  assumes "rebuild evs s0 = Inr s" and "step ev s = (Inl e, s')"
  shows "rebuild (evs @ ev # evs') s0 = Inl e"
  using assms by (simp add: rebuild_append rebuild_Cons)

end

interpretation app: event_sourced apply_event app_events apply_events "\<lambda>app. \<exists>m. app = app_new m"
  by unfold_locales (auto simp: app_new_def dest: apply_event_ok)

section \<open>Reachable applications\<close>

inductive app_reach :: "market_spec \<Rightarrow> exchange_app \<Rightarrow> bool" for m where
  start: "app_reach m (app_new m)"
| deposit: "app_reach m app \<Longrightarrow> credit_deposit c t a v app = (r, app') \<Longrightarrow> app_reach m app'"
| order: "app_reach m app \<Longrightarrow> order_wf x \<Longrightarrow> app_place_order c x app = (r', app') \<Longrightarrow> app_reach m app'"

lemma credit_deposit_effect:
  assumes "credit_deposit c t a v app = (r, app')"
  shows "app' = app \<or> apply_event (DepositCredited c t a v) app = (Inr (), app')"
  by (rule credit_deposit_cases [of c t a v app]) (use assms in simp_all)

lemma app_place_order_effect:
  assumes "app_place_order c x app = (r, app')"
  shows "app' = app \<or> (\<exists>fs. apply_event (OrderPlaced c x fs) app = (Inr (), app'))"
  by (rule app_place_order_cases [of c x app]) (use assms in auto)

text \<open>Every reachable application is reached by applying events to the empty one.\<close>

lemma app_reach_induct [consumes 1, case_names start deposit order]:
  assumes reach: "app_reach m app"
    and start: "P (app_new m)"
    and deposit: "\<And>app c t a v app'. app_reach m app \<Longrightarrow> P app \<Longrightarrow>
      apply_event (DepositCredited c t a v) app = (Inr (), app') \<Longrightarrow> P app'"
    and order: "\<And>app c x fs app'. app_reach m app \<Longrightarrow> P app \<Longrightarrow> order_wf x \<Longrightarrow>
      apply_event (OrderPlaced c x fs) app = (Inr (), app') \<Longrightarrow> P app'"
  shows "P app"
  using reach
proof (induction rule: app_reach.induct)
  case start
  show ?case by (rule assms(2))
next
  case (deposit app c t a v r app')
  from credit_deposit_effect [OF deposit(2)] show ?case
    using deposit(3) assms(3) [OF deposit(1) deposit(3)] by blast
next
  case (order app x c r' app')
  from app_place_order_effect [OF order(3)] show ?case
    using order(4) assms(4) [OF order(1) order(4) order(2)] by blast
qed

lemma app_reach_market: "app_reach m app \<Longrightarrow> app_market app = m"
  by (induction rule: app_reach_induct) (auto simp: app_new_def dest: apply_event_ok)

lemma app_reach_log: "app_reach m app \<Longrightarrow> apply_events (app_events app) (app_new m) = Inr app"
proof (induction rule: app_reach_induct)
  case start
  then show ?case by (simp add: app_new_def)
qed (auto intro: app.rebuild_step)

lemma app_reach_seen:
  "app_reach m app \<Longrightarrow>
     app_seen app = event_command_id ` set (app_events app) \<and>
     distinct (map event_command_id (app_events app))"
proof (induction rule: app_reach_induct)
  case (deposit app c t a v app')
  then show ?case by (auto dest!: apply_event_ok)
next
  case (order app c x fs app')
  then show ?case by (auto dest!: apply_event_ok)
qed (simp add: app_new_def)

lemma app_reach_engine: "app_reach m app \<Longrightarrow> engine_reach (app_matching app)"
proof (induction rule: app_reach_induct)
  case (deposit app c t a v app')
  then show ?case by (auto simp: apply_deposit_ok)
next
  case (order app c x fs app')
  then obtain app1 where "place_order_in_domain x app = (Inr fs, app1)"
      "app_matching app' = app_matching app1" by (auto simp: apply_order_ok)
  with place_in_domain_ok [of x app fs app1] obtain e' where
    "place_order x (app_matching app) = (Inr fs, e')" "app_matching app' = e'" by auto
  with engine_reach.place [OF order(4) order(2)] show ?case by simp
qed (simp add: app_new_def engine_reach.start)

section \<open>Solvency\<close>

text \<open>What the resting orders of one list can still cost an account.\<close>

definition owed :: "market_spec \<Rightarrow> trader_id \<times> asset_id \<Rightarrow> limit_order list \<Rightarrow> nat" where
  "owed m k q =
     sum_list (map (\<lambda>x. if (order_trader x, pays_with x m) = k then cost_of x (rem_of x) else 0) q)"

lemma owed_simps [simp]:
  "owed m k [] = 0"
  "owed m k (x # q) =
     (if (order_trader x, pays_with x m) = k then cost_of x (rem_of x) else 0) + owed m k q"
  "owed m k (q @ r) = owed m k q + owed m k r"
  by (simp_all add: owed_def)

lemma cost_of_mono: "n \<le> n' \<Longrightarrow> cost_of x n \<le> cost_of x n'"
  by (simp add: cost_of_def split: side.split)

lemma cost_take_qty [simp]: "cost_of (take_qty x n) = cost_of x" "pays_with (take_qty x n) = pays_with x"
  by (auto simp: cost_of_def pays_with_def fun_eq_iff split: side.split)

lemma match_list_owed: "match_list s t q = (t', fs, q') \<Longrightarrow> owed m k q' \<le> owed m k q"
  by (induction rule: match_list_induct) (auto simp: cost_of_mono intro: add_mono trans_le_add2)

lemma owed_rest_taker:
  "owed m k (rest_taker s t q) \<le>
     (if (order_trader t, pays_with t m) = k then cost_of t (rem_of t) else 0) + owed m k q"
proof -
  have "owed m k (place_after P t q) =
      (if (order_trader t, pays_with t m) = k then cost_of t (rem_of t) else 0) + owed m k q" for P
  proof -
    have "owed m k q = owed m k (takeWhile P q) + owed m k (dropWhile P q)"
      by (metis owed_simps(3) takeWhile_dropWhile_id)
    then show ?thesis by (simp add: place_after_def)
  qed
  then show ?thesis by (simp add: rest_taker_def)
qed

definition engine_owed :: "market_spec \<Rightarrow> trader_id \<times> asset_id \<Rightarrow> matching_engine \<Rightarrow> nat" where
  "engine_owed m k e = owed m k (engine_queue Bid e) + owed m k (engine_queue Ask e)"

lemma engine_owed_side:
  "engine_owed m k e = owed m k (engine_queue s e) + owed m k (engine_queue (opposite s) e)"
  by (cases s) (simp_all add: engine_owed_def)

lemma place_order_owed:
  assumes "engine_wf e" and "order_wf x" and "place_order x e = (Inr fs, e')"
  shows "engine_owed m k e' \<le>
    (if (order_trader x, pays_with x m) = k then cost_of x (orig_of x) else 0) + engine_owed m k e"
proof -
  from assms(3) have live: "\<not> is_terminal x" by (auto simp: place_order_terminal)
  obtain t' fs' q' e'' where
    m: "match_list (opposite (order_side x)) x (engine_queue (opposite (order_side x)) e) = (t', fs', q')"
    and p: "place_order x e = (Inr fs', e'')"
      "engine_queue (opposite (order_side x)) e'' = q'"
      "engine_queue (order_side x) e'' = rest_taker (order_side x) t' (engine_queue (order_side x) e)"
    by (rule place_order_cases [OF assms(1,2) live])
  from match_list_frame [OF m] have t': "order_trader t' = order_trader x" "pays_with t' = pays_with x"
      "cost_of t' = cost_of x"
    by (auto simp: pays_with_def cost_of_def fun_eq_iff split: side.split)
  have "rem_of t' \<le> orig_of x"
    using match_list_conserves [OF m] assms(2) by (simp add: order_wf_def)
  then have c: "cost_of x (rem_of t') \<le> cost_of x (orig_of x)" by (rule cost_of_mono)
  have e'': "e'' = e'" using p(1) assms(3) by simp
  have "owed m k (engine_queue (opposite (order_side x)) e') \<le>
      owed m k (engine_queue (opposite (order_side x)) e)"
    using match_list_owed [OF m, of m k] p(2) e'' by simp
  moreover have "owed m k (engine_queue (order_side x) e') \<le>
      (if (order_trader x, pays_with x m) = k then cost_of x (orig_of x) else 0) +
        owed m k (engine_queue (order_side x) e)"
    using owed_rest_taker [of m k "order_side x" t' "engine_queue (order_side x) e"] p(3) e'' t' c
    by (cases "(order_trader x, pays_with x m) = k") simp_all
  ultimately show ?thesis
    unfolding engine_owed_side [of m k _ "order_side x"] by linarith
qed

fun deposit_of :: "trader_id \<times> asset_id \<Rightarrow> event \<Rightarrow> nat" where
  "deposit_of k (DepositCredited c t a v) = (if k = (t, a) then amt v else 0)"
| "deposit_of k (OrderPlaced c x fs) = 0"

lemma apply_order_effect:
  assumes "apply_event (OrderPlaced c x fs) app = (Inr (), app')"
  shows "\<exists>r. reservation_for_order x (app_market app) = Inr r \<and>
    avail (app_balances app') = (avail (app_balances app))
      (res_key r := avail (app_balances app) (res_key r) - amt (res_amount r)) \<and>
    amt (res_amount r) \<le> avail (app_balances app) (res_key r) \<and>
    held (app_balances app') = (held (app_balances app))
      (res_key r := held (app_balances app) (res_key r) + amt (res_amount r)) \<and>
    place_order x (app_matching app) = (Inr fs, app_matching app')"
proof -
  from assms obtain app1 where 1: "place_order_in_domain x app = (Inr fs, app1)"
    and app': "app_balances app' = app_balances app1" "app_matching app' = app_matching app1"
    by (auto simp: apply_order_ok)
  from place_in_domain_ok [OF 1] obtain r s' e' where
    r: "reservation_for_order x (app_market app) = Inr r"
    and s': "sheet_reserve r (app_balances app) = (Inr (), s')"
    and e': "place_order x (app_matching app) = (Inr fs, e')"
    and app1: "app1 = app\<lparr>app_balances := s', app_matching := e'\<rparr>" by blast
  show ?thesis
    using r e' app' app1 sheet.lock_ok [of "res_key r" "res_amount r" "app_balances app" "()" s'] s'
    by simp
qed

text \<open>In every application that commands can build, what an account has available plus what it
  has reserved is exactly the sum of its journaled deposits.\<close>

lemma app_funds_are_deposits:
  assumes "app_reach m app"
  shows "avail (app_balances app) k + held (app_balances app) k =
    sum_list (map (deposit_of k) (app_events app))"
  using assms
proof (induction rule: app_reach_induct)
  case start
  then show ?case
    by (simp add: app_new_def avail_def held_def sheet_new_def sheet_balance_def balance_default_def)
next
  case (deposit app c t a v app')
  then obtain s' where "sheet_credit_available t a v (app_balances app) = (Inr (), s')"
      "app_balances app' = s'" "app_events app' = app_events app @ [DepositCredited c t a v]"
    by (auto simp: apply_deposit_ok)
  with deposit(3) sheet.credit_ok [of "(t, a)" v "app_balances app" "()" s'] show ?case by auto
next
  case (order app c x fs app')
  from apply_event_ok [OF order(3)] have "app_events app' = app_events app @ [OrderPlaced c x fs]" by simp
  with apply_order_effect [OF order(3)] order(4) show ?case by auto
qed

text \<open>C26: Every resting order is covered: in each account the reserved balance is at least what all
  resting orders of the trader that pay with that asset can still cost.\<close>

lemma app_orders_covered:
  assumes "app_reach m app"
  shows "engine_owed m k (app_matching app) \<le> held (app_balances app) k"
  using assms
proof (induction rule: app_reach_induct)
  case start
  then show ?case by (simp add: app_new_def engine_owed_def engine_new_ok)
next
  case (deposit app c t a v app')
  then obtain s' where "sheet_credit_available t a v (app_balances app) = (Inr (), s')"
      "app_balances app' = s'" "app_matching app' = app_matching app"
    by (auto simp: apply_deposit_ok)
  with deposit(3) sheet.credit_ok [of "(t, a)" v "app_balances app" "()" s'] show ?case by auto
next
  case (order app c x fs app')
  from apply_order_effect [OF order(3)] obtain r where
    r: "reservation_for_order x (app_market app) = Inr r"
    and h: "held (app_balances app') = (held (app_balances app))
      (res_key r := held (app_balances app) (res_key r) + amt (res_amount r))"
    and p: "place_order x (app_matching app) = (Inr fs, app_matching app')" by blast
  have "res_key r = (order_trader x, pays_with x m)" "amt (res_amount r) = cost_of x (orig_of x)"
    using reservation_for_order_ok [OF r] app_reach_market [OF order(1)] by (simp_all add: res_key_def)
  with place_order_owed [OF engine_reach_wf [OF app_reach_engine [OF order(1)]] order(2) p, of m k]
    order(4) h show ?case by auto
qed

section \<open>Commands and the journal\<close>

text \<open>A command is atomic and takes effect at most once: when it fails the application is exactly
  as before, when it succeeds its identifier was new and exactly its event is appended.\<close>

lemma commands_atomic:
  "(case credit_deposit c t a v app of
      (Inl _, app') \<Rightarrow> app' = app
    | (Inr _, app') \<Rightarrow> c \<notin> app_seen app \<and> app_seen app' = insert c (app_seen app) \<and>
        app_events app' = app_events app @ [DepositCredited c t a v]) \<and>
   (case app_place_order c x app of
      (Inl _, app') \<Rightarrow> app' = app
    | (Inr fs, app') \<Rightarrow> c \<notin> app_seen app \<and> app_seen app' = insert c (app_seen app) \<and>
        app_events app' = app_events app @ [OrderPlaced c x fs])"
proof
  show "case credit_deposit c t a v app of
      (Inl _, app') \<Rightarrow> app' = app
    | (Inr _, app') \<Rightarrow> c \<notin> app_seen app \<and> app_seen app' = insert c (app_seen app) \<and>
        app_events app' = app_events app @ [DepositCredited c t a v]"
    by (rule credit_deposit_cases [of c t a v app]) (auto dest: apply_event_ok)
  show "case app_place_order c x app of
      (Inl _, app') \<Rightarrow> app' = app
    | (Inr fs, app') \<Rightarrow> c \<notin> app_seen app \<and> app_seen app' = insert c (app_seen app) \<and>
        app_events app' = app_events app @ [OrderPlaced c x fs]"
    by (rule app_place_order_cases [of c x app]) (auto dest: apply_event_ok)
qed

text \<open>C11: The journal is the state: replaying the events of any application that commands can build
  gives that application back, no command identifier occurs twice in them, and the set of
  seen commands is the set of their identifiers.\<close>

lemma replay_rebuilds:
  assumes "app_reach m app"
  shows "replay m (app_events app) = Inr app \<and>
    app_seen app = event_command_id ` set (app_events app) \<and>
    distinct (map event_command_id (app_events app))"
  using app_reach_log [OF assms] app_reach_seen [OF assms] by (simp add: replay_def)

text \<open>An order event that was computed on an application always applies to it, with the same
  fills, so journaling it before applying it is safe.\<close>

lemma order_events_apply:
  assumes "app_reach m app" and "place_order_event c x app = Inr (ev, fs)"
  shows "ev = OrderPlaced c x fs \<and> (\<exists>app'. apply_event ev app = (Inr (), app') \<and>
    replay m (app_events app @ [ev]) = Inr app')"
proof -
  from place_order_event_applies [OF assms(2)] obtain app' where
    ev: "ev = OrderPlaced c x fs" and a: "apply_event ev app = (Inr (), app')" by blast
  have "replay m (app_events app @ [ev]) = Inr app'"
    using app_reach_log [OF assms(1)] app.rebuild_one [OF a]
    by (simp add: replay_def app.rebuild_append)
  with ev a show ?thesis by blast
qed

text \<open>C27: A deposit event is not simulated: when the deposit would overflow the available balance the
  event is issued all the same, it does not apply, and a journal that has it at this place
  can never be replayed again, whatever follows.\<close>

lemma deposit_event_poisons:
  assumes "app_reach m app" and "c \<notin> app_seen app"
    and "2 ^ 64 \<le> avail (app_balances app) (t, a) + amt v"
  shows "credit_deposit_event c t a v app = Inr (DepositCredited c t a v) \<and>
    apply_event (DepositCredited c t a v) app = (Inl (DomainError ArithmeticOverflow), app) \<and>
    replay m (app_events app @ DepositCredited c t a v # evs) = Inl (DomainError ArithmeticOverflow)"
proof -
  obtain s' where s': "sheet_credit_available t a v (app_balances app) = (Inl ArithmeticOverflow, s')"
    using assms(3) by (simp add: sheet_defs balance_eqs avail_def)
  have a: "apply_event (DepositCredited c t a v) app = (Inl (DomainError ArithmeticOverflow), app)"
    using assms(2) s' credit_err_frame [OF s'] by (simp add: apply_event_def reject_duplicate_def)
  have "apply_events (app_events app @ DepositCredited c t a v # evs) (app_new m) =
      Inl (DomainError ArithmeticOverflow)"
    by (rule app.rebuild_poisoned [OF app_reach_log [OF assms(1)] a])
  with a assms(2) show ?thesis
    by (simp add: credit_deposit_event_def reject_duplicate_def replay_def)
qed

text \<open>The settlement batch of an order has one intent per fill, in order; in each the buyer is the
  trader of the bid, and the maker, the price and the quantity are those of the fill.\<close>

lemma settlement_batch_faithful:
  "sb_command (batch_from_order_fills c x fs) = c \<and>
   map si_price (sb_intents (batch_from_order_fills c x fs)) = map fill_price fs \<and>
   map si_quantity (sb_intents (batch_from_order_fills c x fs)) = map fill_quantity fs \<and>
   map si_maker_order (sb_intents (batch_from_order_fills c x fs)) = map fill_maker_order fs \<and>
   map si_buyer (sb_intents (batch_from_order_fills c x fs)) =
     map (\<lambda>f. if order_side x = Bid then fill_taker_trader f else fill_maker_trader f) fs \<and>
   map si_seller (sb_intents (batch_from_order_fills c x fs)) =
     map (\<lambda>f. if order_side x = Bid then fill_maker_trader f else fill_taker_trader f) fs"
  by (cases "order_side x") (simp_all add: batch_from_order_fills_def intent_from_fill_def o_def)

section \<open>A concrete exchange\<close>

definition demo_market :: market_spec where
  "demo_market = \<lparr>ms_base_asset = AssetId 1, ms_quote_asset = AssetId 2,
                  ms_tick_size = TickSize 1, ms_lot_size = LotSize 1\<rparr>"

definition demo_app :: exchange_app where
  "demo_app =
     snd (app_place_order (CommandId 3) (lit_order 1 10 Ask 100 4)
       (snd (credit_deposit (CommandId 2) (TraderId 12) (AssetId 2) (BalanceAmount 1000)
         (snd (credit_deposit (CommandId 1) (TraderId 10) (AssetId 1) (BalanceAmount 10)
           (app_new demo_market))))))"

lemma demo_app_reach: "app_reach demo_market demo_app"
  unfolding demo_app_def
  by (rule app_reach.order [OF app_reach.deposit [OF app_reach.deposit [OF app_reach.start
        prod.collapse [symmetric]] prod.collapse [symmetric]] lit_order_ok(1) prod.collapse [symmetric]])
    simp

lemma demo_app_events:
  "app_events demo_app =
     [DepositCredited (CommandId 1) (TraderId 10) (AssetId 1) (BalanceAmount 10),
      DepositCredited (CommandId 2) (TraderId 12) (AssetId 2) (BalanceAmount 1000),
      OrderPlaced (CommandId 3) (lit_order 1 10 Ask 100 4) []]"
  by code_simp

lemma demo_balances:
  "sheet_balance (app_balances demo_app) (TraderId 10) (AssetId 1) =
     \<lparr>bal_available = BalanceAmount 6, bal_reserved = BalanceAmount 4\<rparr>"
  by code_simp

lemma demo_seen: "CommandId 4 \<notin> app_seen demo_app"
  by code_simp

lemma demo_order:
  "place_order_event (CommandId 4) (lit_order 2 12 Bid 105 3) demo_app =
     Inr (OrderPlaced (CommandId 4) (lit_order 2 12 Bid 105 3)
       [trade (lit_order 1 10 Ask 100 4) (lit_order 2 12 Bid 105 3) 3],
       [trade (lit_order 1 10 Ask 100 4) (lit_order 2 12 Bid 105 3) 3])"
  by code_simp

lemma replay_rebuilds_witness:
  "replay demo_market
     [DepositCredited (CommandId 1) (TraderId 10) (AssetId 1) (BalanceAmount 10),
      DepositCredited (CommandId 2) (TraderId 12) (AssetId 2) (BalanceAmount 1000),
      OrderPlaced (CommandId 3) (lit_order 1 10 Ask 100 4) []] = Inr demo_app"
  using replay_rebuilds [OF demo_app_reach] by (simp add: demo_app_events)

lemma app_funds_are_deposits_witness:
  "avail (app_balances demo_app) (TraderId 10, AssetId 1) +
   held (app_balances demo_app) (TraderId 10, AssetId 1) = 10"
  using app_funds_are_deposits [OF demo_app_reach, of "(TraderId 10, AssetId 1)"]
  by (simp add: demo_app_events amt_def)

lemma app_orders_covered_witness:
  "engine_owed demo_market (TraderId 10, AssetId 1) (app_matching demo_app) \<le> 4"
  using app_orders_covered [OF demo_app_reach, of "(TraderId 10, AssetId 1)"]
  by (simp add: held_def demo_balances amt_def)

lemma order_events_apply_witness:
  "\<exists>app'. apply_event (OrderPlaced (CommandId 4) (lit_order 2 12 Bid 105 3)
     [trade (lit_order 1 10 Ask 100 4) (lit_order 2 12 Bid 105 3) 3]) demo_app = (Inr (), app')"
  using order_events_apply [OF demo_app_reach demo_order] by blast

lemma deposit_event_poisons_witness:
  "credit_deposit_event (CommandId 4) (TraderId 10) (AssetId 1) (BalanceAmount 18446744073709551615)
     demo_app = Inr (DepositCredited (CommandId 4) (TraderId 10) (AssetId 1)
       (BalanceAmount 18446744073709551615)) \<and>
   replay demo_market (app_events demo_app @ [DepositCredited (CommandId 4) (TraderId 10) (AssetId 1)
     (BalanceAmount 18446744073709551615)]) = Inl (DomainError ArithmeticOverflow)"
proof -
  have "2 ^ 64 \<le> avail (app_balances demo_app) (TraderId 10, AssetId 1) +
      amt (BalanceAmount 18446744073709551615)"
    by (simp add: avail_def demo_balances amt_def)
  from deposit_event_poisons [OF demo_app_reach demo_seen this] show ?thesis by blast
qed

end
