(* ===== verification/Persistence.thy ===== *)
theory Persistence
  imports Exchange_App
begin

text \<open>
  \<open>crates/persistence\<close>: the record format of the event journal (\<open>record.rs\<close>) and the journal
  and settlement outbox tables (\<open>postgres.rs\<close> with the schema of \<open>migrations/\<close>).
  \<open>serde_json\<close> is code of another package: the conversions of the payload structs to and from
  JSON are the fields of \<open>serde\<close>, and \<open>serde_ok\<close> states that reading back what was written
  gives the same payload.  Writing may fail.
\<close>

section \<open>Payloads\<close>

datatype persistence_error =
    PApplication app_error
  | PDomain domain_error
  | Serde string
  | Sql string
  | UnknownEventType string

record deposit_payload =
  dp_trader :: u64
  dp_asset :: u32
  dp_amount :: u64

datatype side_payload = BidPayload | AskPayload

fun side_to_payload :: "side \<Rightarrow> side_payload" where
  "side_to_payload Bid = BidPayload"
| "side_to_payload Ask = AskPayload"

fun side_of_payload :: "side_payload \<Rightarrow> side" where
  "side_of_payload BidPayload = Bid"
| "side_of_payload AskPayload = Ask"

record order_payload =
  op_order :: u128
  op_trader :: u64
  op_market :: u32
  op_side :: side_payload
  op_price :: u64
  op_original :: u64
  op_sequence :: u64

record fill_payload =
  fp_maker_order :: u128
  fp_taker_order :: u128
  fp_maker_trader :: u64
  fp_taker_trader :: u64
  fp_price :: u64
  fp_quantity :: u64

record order_placed_payload =
  opp_order :: order_payload
  opp_fills :: "fill_payload list"

definition payload_of_order :: "limit_order \<Rightarrow> order_payload" where
  "payload_of_order x =
     \<lparr>op_order = order_id_get (order_ident x), op_trader = trader_id_get (order_trader x),
      op_market = market_id_get (order_market x), op_side = side_to_payload (order_side x),
      op_price = price_get (order_price x), op_original = quantity_get (order_original x),
      op_sequence = order_sequence_get (order_seq x)\<rparr>"

definition order_of_payload :: "order_payload \<Rightarrow> (domain_error, limit_order) result" where
  "order_of_payload p =
     and_then (order_id_new (op_order p)) (\<lambda>i.
     and_then (trader_id_new (op_trader p)) (\<lambda>t.
     and_then (market_id_new (op_market p)) (\<lambda>m.
     and_then (price_new (op_price p)) (\<lambda>pr.
     and_then (quantity_new (op_original p)) (\<lambda>q.
     and_then (order_sequence_new (op_sequence p)) (\<lambda>n.
       Inr (order_new i t m (side_of_payload (op_side p)) pr q n)))))))"

definition payload_of_fill :: "fill \<Rightarrow> fill_payload" where
  "payload_of_fill f =
     \<lparr>fp_maker_order = order_id_get (fill_maker_order f), fp_taker_order = order_id_get (fill_taker_order f),
      fp_maker_trader = trader_id_get (fill_maker_trader f),
      fp_taker_trader = trader_id_get (fill_taker_trader f),
      fp_price = price_get (fill_price f), fp_quantity = quantity_get (fill_quantity f)\<rparr>"

definition fill_of_payload :: "fill_payload \<Rightarrow> (domain_error, fill) result" where
  "fill_of_payload p =
     and_then (order_id_new (fp_maker_order p)) (\<lambda>mo.
     and_then (order_id_new (fp_taker_order p)) (\<lambda>tk.
     and_then (trader_id_new (fp_maker_trader p)) (\<lambda>mt.
     and_then (trader_id_new (fp_taker_trader p)) (\<lambda>tt.
     and_then (price_new (fp_price p)) (\<lambda>pr.
     and_then (quantity_new (fp_quantity p)) (\<lambda>q.
       Inr (fill_from_parts mo tk mt tt pr q)))))))"

section \<open>Event records\<close>

record 'j serde =
  ser_deposit :: "deposit_payload \<Rightarrow> (string, 'j) result"
  de_deposit :: "'j \<Rightarrow> (string, deposit_payload) result"
  ser_order :: "order_placed_payload \<Rightarrow> (string, 'j) result"
  de_order :: "'j \<Rightarrow> (string, order_placed_payload) result"

definition serde_ok :: "'j serde \<Rightarrow> bool" where
  "serde_ok S \<longleftrightarrow>
     (\<forall>p v. ser_deposit S p = Inr v \<longrightarrow> de_deposit S v = Inr p) \<and>
     (\<forall>p v. ser_order S p = Inr v \<longrightarrow> de_order S v = Inr p)"

record 'j event_record =
  er_command :: command_id
  er_type :: string
  er_payload :: 'j

definition record_of_event :: "'j serde \<Rightarrow> event \<Rightarrow> (persistence_error, 'j event_record) result" where
  "record_of_event S ev =
     (case ev of
        DepositCredited c t a v \<Rightarrow>
          and_then (map_err Serde (ser_deposit S
            \<lparr>dp_trader = trader_id_get t, dp_asset = asset_id_get a, dp_amount = balance_amount_get v\<rparr>))
            (\<lambda>j. Inr \<lparr>er_command = c, er_type = ''deposit_credited'', er_payload = j\<rparr>)
      | OrderPlaced c x fs \<Rightarrow>
          and_then (map_err Serde (ser_order S
            \<lparr>opp_order = payload_of_order x, opp_fills = map payload_of_fill fs\<rparr>))
            (\<lambda>j. Inr \<lparr>er_command = c, er_type = ''order_placed'', er_payload = j\<rparr>))"

definition event_of_record :: "'j serde \<Rightarrow> 'j event_record \<Rightarrow> (persistence_error, event) result" where
  "event_of_record S r =
     (if er_type r = ''deposit_credited'' then
        and_then (map_err Serde (de_deposit S (er_payload r))) (\<lambda>p.
        and_then (map_err PDomain (trader_id_new (dp_trader p))) (\<lambda>t.
        and_then (map_err PDomain (asset_id_new (dp_asset p))) (\<lambda>a.
          Inr (DepositCredited (er_command r) t a (BalanceAmount (dp_amount p))))))
      else if er_type r = ''order_placed'' then
        and_then (map_err Serde (de_order S (er_payload r))) (\<lambda>p.
        and_then (map_err PDomain (order_of_payload (opp_order p))) (\<lambda>x.
        and_then (map_err PDomain (collect_results (map fill_of_payload (opp_fills p)))) (\<lambda>fs.
          Inr (OrderPlaced (er_command r) x fs))))
      else Inl (UnknownEventType (er_type r)))"

text \<open>What the non-zero types of the source guarantee, and that an order is as \<open>Order::new\<close> makes it.\<close>

definition order_ids_ok :: "limit_order \<Rightarrow> bool" where
  "order_ids_ok x \<longleftrightarrow>
     order_id_get (order_ident x) \<noteq> 0 \<and> trader_id_get (order_trader x) \<noteq> 0 \<and>
     market_id_get (order_market x) \<noteq> 0 \<and> price_get (order_price x) \<noteq> 0 \<and>
     quantity_get (order_original x) \<noteq> 0 \<and> order_sequence_get (order_seq x) \<noteq> 0"

definition fresh_order :: "limit_order \<Rightarrow> bool" where
  "fresh_order x \<longleftrightarrow>
     x = order_new (order_ident x) (order_trader x) (order_market x) (order_side x) (order_price x)
           (order_original x) (order_seq x)"

definition fill_ok :: "fill \<Rightarrow> bool" where
  "fill_ok f \<longleftrightarrow>
     order_id_get (fill_maker_order f) \<noteq> 0 \<and> order_id_get (fill_taker_order f) \<noteq> 0 \<and>
     trader_id_get (fill_maker_trader f) \<noteq> 0 \<and> trader_id_get (fill_taker_trader f) \<noteq> 0 \<and>
     price_get (fill_price f) \<noteq> 0 \<and> quantity_get (fill_quantity f) \<noteq> 0"

fun storable :: "event \<Rightarrow> bool" where
  "storable (DepositCredited c t a v) \<longleftrightarrow>
     command_id_get c \<noteq> 0 \<and> trader_id_get t \<noteq> 0 \<and> asset_id_get a \<noteq> 0"
| "storable (OrderPlaced c x fs) \<longleftrightarrow>
     command_id_get c \<noteq> 0 \<and> order_ids_ok x \<and> fresh_order x \<and> (\<forall>f \<in> set fs. fill_ok f)"

lemma side_payload_roundtrip [simp]: "side_of_payload (side_to_payload s) = s"
  by (cases s) simp_all

lemma order_payload_roundtrip:
  "order_ids_ok x \<Longrightarrow> fresh_order x \<Longrightarrow> order_of_payload (payload_of_order x) = Inr x"
  by (simp add: order_of_payload_def payload_of_order_def newtype_new_defs order_sequence_new_def
      non_zero_new_def order_ids_ok_def fresh_order_def)

lemma fill_payload_roundtrip: "fill_ok f \<Longrightarrow> fill_of_payload (payload_of_fill f) = Inr f"
  by (simp add: fill_of_payload_def payload_of_fill_def newtype_new_defs non_zero_new_def fill_ok_def
      fill_from_parts_def)

lemma fills_payload_roundtrip:
  "\<forall>f \<in> set fs. fill_ok f \<Longrightarrow> collect_results (map (fill_of_payload \<circ> payload_of_fill) fs) = Inr fs"
  by (induction fs) (simp_all add: fill_payload_roundtrip)

lemma event_roundtrip:
  assumes "serde_ok S" and "storable ev" and "record_of_event S ev = Inr r"
  shows "event_of_record S r = Inr ev \<and> er_command r = event_command_id ev"
proof (cases ev)
  case (DepositCredited c t a v)
  with assms(3) obtain j where
    "ser_deposit S \<lparr>dp_trader = trader_id_get t, dp_asset = asset_id_get a,
      dp_amount = balance_amount_get v\<rparr> = Inr j"
    and r: "r = \<lparr>er_command = c, er_type = ''deposit_credited'', er_payload = j\<rparr>"
    by (auto simp: record_of_event_def checked_ok)
  with assms(1) have "de_deposit S j = Inr \<lparr>dp_trader = trader_id_get t, dp_asset = asset_id_get a,
      dp_amount = balance_amount_get v\<rparr>" by (simp add: serde_ok_def)
  with r assms(2) DepositCredited show ?thesis
    by (simp add: event_of_record_def newtype_new_defs non_zero_new_def)
next
  case (OrderPlaced c x fs)
  with assms(3) obtain j where
    "ser_order S \<lparr>opp_order = payload_of_order x, opp_fills = map payload_of_fill fs\<rparr> = Inr j"
    and r: "r = \<lparr>er_command = c, er_type = ''order_placed'', er_payload = j\<rparr>"
    by (auto simp: record_of_event_def checked_ok)
  with assms(1) have
    "de_order S j = Inr \<lparr>opp_order = payload_of_order x, opp_fills = map payload_of_fill fs\<rparr>"
    by (simp add: serde_ok_def)
  with r assms(2) OrderPlaced show ?thesis
    by (simp add: event_of_record_def order_payload_roundtrip fills_payload_roundtrip)
qed

section \<open>The journal table\<close>

text \<open>
  The rows in \<open>event_id\<close> order.  \<open>fault\<close> is the failure of the database, if any; the insert
  fails too when the unique column \<open>command_id\<close> already has the value.  A statement that reports
  an error has not changed the table: a connection that is lost after the commit and before the
  answer, which reports an error for a row that is there, is not modelled.
\<close>

definition journal_append ::
  "'j serde \<Rightarrow> string option \<Rightarrow> event \<Rightarrow> 'j event_record list
    \<Rightarrow> (persistence_error, unit) result \<times> 'j event_record list" where
  "journal_append S fault ev rows =
     (case record_of_event S ev of
        Inl e \<Rightarrow> (Inl e, rows)
      | Inr r \<Rightarrow>
          (case fault of
             Some msg \<Rightarrow> (Inl (Sql msg), rows)
           | None \<Rightarrow>
               if er_command r \<in> er_command ` set rows
               then (Inl (Sql ''duplicate key value violates unique constraint''), rows)
               else (Inr (), rows @ [r])))"

definition journal_read_all ::
  "'j serde \<Rightarrow> 'j event_record list \<Rightarrow> (persistence_error, event list) result" where
  "journal_read_all S rows =
     collect_results (map (\<lambda>r.
       and_then (map_err PApplication (command_id_new (command_id_get (er_command r)))) (\<lambda>c.
         event_of_record S (r\<lparr>er_command := c\<rparr>))) rows)"

text \<open>Every row stands for an event, and no command identifier occurs twice.\<close>

definition journal_wf :: "'j serde \<Rightarrow> 'j event_record list \<Rightarrow> event list \<Rightarrow> bool" where
  "journal_wf S rows evs \<longleftrightarrow>
     list_all2 (\<lambda>r ev. storable ev \<and> record_of_event S ev = Inr r) rows evs"

lemma journal_wf_read:
  assumes "serde_ok S" and "journal_wf S rows evs"
  shows "journal_read_all S rows = Inr evs \<and> map er_command rows = map event_command_id evs"
  using assms(2) unfolding journal_wf_def
proof (induction rule: list_all2_induct)
  case (Cons r rows ev evs)
  then have r: "event_of_record S r = Inr ev" "er_command r = event_command_id ev"
    using event_roundtrip [OF assms(1), of ev r] by auto
  have "command_id_get (event_command_id ev) \<noteq> 0" using Cons.hyps by (cases ev) auto
  moreover have same: "r\<lparr>er_command := event_command_id ev\<rparr> = r" using r(2) by (cases r) simp
  have "event_of_record S (r\<lparr>er_command := event_command_id ev\<rparr>) = Inr ev"
    unfolding same by (rule r(1))
  ultimately have "and_then (map_err PApplication (command_id_new (command_id_get (er_command r))))
      (\<lambda>c. event_of_record S (r\<lparr>er_command := c\<rparr>)) = Inr ev"
    using r(2) by (simp add: command_id_new_def)
  with Cons.IH r(2) show ?case by (simp add: journal_read_all_def)
qed (simp add: journal_read_all_def)

lemma journal_append_wf:
  assumes "journal_wf S rows evs" and "storable ev"
    and "journal_append S fault ev rows = (Inr u, rows')"
  shows "journal_wf S rows' (evs @ [ev])"
  using assms
  by (auto simp: journal_append_def journal_wf_def list_all2_appendI split: sum.splits option.splits if_splits)

lemma journal_append_err: "journal_append S fault ev rows = (Inl e, rows') \<Longrightarrow> rows' = rows"
  by (auto simp: journal_append_def split: sum.splits option.splits if_splits)

end
