(* ===== verification/Runtime_Actor.thy ===== *)
theory Runtime_Actor
  imports Persistence
begin

text \<open>
  \<open>crates/runtime/src/lib.rs\<close>: the market actor, which handles the commands of its mailbox one
  after the other; it journals the event of a command before it applies it.  The journal is a
  parameter: its \<open>append\<close> is the method of the trait \<open>EventJournal\<close>.  Logging is left out.  The
  locale \<open>durable_journal\<close> is the contract the actor relies on; it is interpreted on the
  Postgres journal of \<open>Persistence\<close>.
\<close>

record runtime_metrics =
  commands_received :: u64
  commands_accepted :: u64
  commands_rejected :: u64
  append_failures :: u64
  apply_after_append_failures :: u64

definition metrics_default :: runtime_metrics where
  "metrics_default = \<lparr>commands_received = 0, commands_accepted = 0, commands_rejected = 0,
                      append_failures = 0, apply_after_append_failures = 0\<rparr>"

definition record_command_received :: "runtime_metrics \<Rightarrow> runtime_metrics" where
  "record_command_received m = m\<lparr>commands_received := commands_received m + 1\<rparr>"

definition record_command_accepted :: "runtime_metrics \<Rightarrow> runtime_metrics" where
  "record_command_accepted m = m\<lparr>commands_accepted := commands_accepted m + 1\<rparr>"

definition record_command_rejected :: "runtime_metrics \<Rightarrow> runtime_metrics" where
  "record_command_rejected m = m\<lparr>commands_rejected := commands_rejected m + 1\<rparr>"

definition record_journal_append_failure :: "runtime_metrics \<Rightarrow> runtime_metrics" where
  "record_journal_append_failure m = m\<lparr>append_failures := append_failures m + 1\<rparr>"

definition record_apply_after_append_failure :: "runtime_metrics \<Rightarrow> runtime_metrics" where
  "record_apply_after_append_failure m =
     m\<lparr>apply_after_append_failures := apply_after_append_failures m + 1\<rparr>"

datatype market_reply =
    ReplyDepositCredited
  | ReplyOrderPlaced "fill list"
  | ReplySnapshot nat
  | ReplyShutdown

datatype market_command =
    CmdCreditDeposit "string option" command_id trader_id asset_id balance_amount
  | CmdPlaceOrder "string option" command_id limit_order
  | CmdSnapshot "string option"
  | CmdShutdown "string option"

record 'j actor =
  act_app :: exchange_app
  act_journal :: 'j
  act_metrics :: runtime_metrics

type_synonym 'j journal_append = "event \<Rightarrow> 'j \<Rightarrow> (app_error, unit) result \<times> 'j"

definition noop_append :: "event \<Rightarrow> 'j \<Rightarrow> (app_error, unit) result \<times> 'j" where
  "noop_append ev j = (Inr (), j)"

definition persist_and_apply ::
  "'j journal_append \<Rightarrow> event \<Rightarrow> market_reply \<Rightarrow> 'j actor
    \<Rightarrow> ((app_error, market_reply) result \<times> bool) \<times> 'j actor" where
  "persist_and_apply put ev success a =
     (case put ev (act_journal a) of
        (Inl _, j) \<Rightarrow>
          ((Inl JournalAppendFailed, False),
           a\<lparr>act_journal := j, act_metrics := record_journal_append_failure (act_metrics a)\<rparr>)
      | (Inr _, j) \<Rightarrow>
          (case apply_event ev (act_app a) of
             (Inr _, app) \<Rightarrow> ((Inr success, False), a\<lparr>act_journal := j, act_app := app\<rparr>)
           | (Inl e, app) \<Rightarrow>
               ((Inl e, True),
                a\<lparr>act_journal := j, act_app := app,
                  act_metrics := record_apply_after_append_failure (act_metrics a)\<rparr>)))"

definition settle_metrics ::
  "((app_error, market_reply) result \<times> bool) \<times> 'j actor
    \<Rightarrow> ((app_error, market_reply) result \<times> bool) \<times> 'j actor" where
  "settle_metrics out =
     (case out of ((reply, stop), a) \<Rightarrow>
        ((reply, stop),
         a\<lparr>act_metrics := (case reply of Inr _ \<Rightarrow> record_command_accepted (act_metrics a)
                                      | Inl _ \<Rightarrow> record_command_rejected (act_metrics a))\<rparr>))"

definition handle_command ::
  "'j journal_append \<Rightarrow> market_command \<Rightarrow> 'j actor
    \<Rightarrow> ((app_error, market_reply) result \<times> bool) \<times> 'j actor" where
  "handle_command put cmd a =
     (case cmd of
        CmdCreditDeposit rid c t as v \<Rightarrow>
          (case credit_deposit_event c t as v (act_app a) of
             Inr ev \<Rightarrow> settle_metrics (persist_and_apply put ev ReplyDepositCredited a)
           | Inl e \<Rightarrow>
               ((Inl e, False), a\<lparr>act_metrics := record_command_rejected (act_metrics a)\<rparr>))
      | CmdPlaceOrder rid c x \<Rightarrow>
          (case place_order_event c x (act_app a) of
             Inr (ev, fs) \<Rightarrow> settle_metrics (persist_and_apply put ev (ReplyOrderPlaced fs) a)
           | Inl e \<Rightarrow>
               ((Inl e, False), a\<lparr>act_metrics := record_command_rejected (act_metrics a)\<rparr>))
      | CmdSnapshot rid \<Rightarrow>
          ((Inr (ReplySnapshot (length (app_events (act_app a)))), False),
           a\<lparr>act_metrics := record_command_accepted (act_metrics a)\<rparr>)
      | CmdShutdown rid \<Rightarrow>
          ((Inr ReplyShutdown, True), a\<lparr>act_metrics := record_command_accepted (act_metrics a)\<rparr>))"

text \<open>The calls of the handle after the actor has stopped fail with \<open>ActorClosed\<close>.\<close>

fun run_market_actor ::
  "'j journal_append \<Rightarrow> market_command list \<Rightarrow> 'j actor
    \<Rightarrow> ((app_error, market_reply) result list \<times> bool) \<times> 'j actor" where
  "run_market_actor put [] a = (([], False), a)"
| "run_market_actor put (cmd # cmds) a =
     (case handle_command put cmd (a\<lparr>act_metrics := record_command_received (act_metrics a)\<rparr>) of
        ((reply, stop), a1) \<Rightarrow>
          if stop then ((reply # map (\<lambda>_. Inl ActorClosed) cmds, True), a1)
          else
            (case run_market_actor put cmds a1 of
               ((replies, stop'), a2) \<Rightarrow> ((reply # replies, stop'), a2)))"

definition spawn_from_app :: "exchange_app \<Rightarrow> 'j \<Rightarrow> 'j actor" where
  "spawn_from_app app j = \<lparr>act_app = app, act_journal = j, act_metrics = metrics_default\<rparr>"

fun command_ok :: "market_command \<Rightarrow> bool" where
  "command_ok (CmdCreditDeposit rid c t a v) \<longleftrightarrow>
     command_id_get c \<noteq> 0 \<and> trader_id_get t \<noteq> 0 \<and> asset_id_get a \<noteq> 0"
| "command_ok (CmdPlaceOrder rid c x) \<longleftrightarrow> command_id_get c \<noteq> 0 \<and> order_ids_ok x \<and> fresh_order x"
| "command_ok _ \<longleftrightarrow> True"

section \<open>Events of a healthy application can be stored\<close>

definition app_orders_ok :: "exchange_app \<Rightarrow> bool" where
  "app_orders_ok app \<longleftrightarrow> (\<forall>x \<in> resting_orders (app_matching app). order_ids_ok x)"

lemma fresh_order_wf: "order_ids_ok x \<Longrightarrow> fresh_order x \<Longrightarrow> order_wf x"
  unfolding fresh_order_def order_ids_ok_def by (metis order_new_wf)

lemma order_ids_take [simp]: "order_ids_ok (take_qty x n) = order_ids_ok x"
  by (simp add: order_ids_ok_def) (simp add: take_qty_def)

lemma place_order_fill_ok:
  assumes "engine_wf e" and "order_wf x" and "place_order x e = (Inr fs, e')"
    and "order_ids_ok x" and "\<forall>y \<in> resting_orders e. order_ids_ok y" and "f \<in> set fs"
  shows "fill_ok f"
proof -
  let ?s = "order_side x"
  from assms(3) have live: "\<not> is_terminal x" by (auto simp: place_order_terminal)
  obtain t' fs' q' e'' where
    m: "match_list (opposite ?s) x (engine_queue (opposite ?s) e) = (t', fs', q')"
    and p: "place_order x e = (Inr fs', e'')"
    by (rule place_order_cases [OF assms(1,2) live])
  have "qty (fill_quantity f) \<noteq> 0" "fill_taker_order f = order_ident x" "fill_taker_trader f = order_trader x"
    using match_list_fills [OF m, of f] engine_queue_live [OF assms(1)] p assms(3,6) by auto
  moreover from place_order_all(2) [OF assms(1-3), of order_ids_ok f] assms(4-6)
  obtain y where "order_ids_ok y" "fill_maker_order f = order_ident y"
      "fill_maker_trader f = order_trader y" "fill_price f = order_price y" by auto
  ultimately show ?thesis
    using assms(4) by (simp add: fill_ok_def order_ids_ok_def qty_def unat_eq_0)
qed

lemma place_order_event_storable:
  assumes "app_reach m app" and "app_orders_ok app" and "command_id_get c \<noteq> 0"
    and "order_ids_ok x" and "fresh_order x" and "place_order_event c x app = Inr (ev, fs)"
  shows "storable ev \<and> (\<exists>app'. apply_event ev app = (Inr (), app') \<and> app_reach m app' \<and> app_orders_ok app')"
proof -
  have wf: "order_wf x" using fresh_order_wf assms(4,5) by blast
  from place_order_event_applies [OF assms(6)] obtain app1 where
    1: "place_order_in_domain x app = (Inr fs, app1)" and ev: "ev = OrderPlaced c x fs"
    and a: "apply_event ev app = (Inr (), app1\<lparr>app_seen := insert c (app_seen app),
      app_events := app_events app @ [ev]\<rparr>)" by blast
  from place_in_domain_ok [OF 1] obtain e' where
    p: "place_order x (app_matching app) = (Inr fs, e')" and e': "app_matching app1 = e'" by auto
  have e: "engine_wf (app_matching app)" by (rule engine_reach_wf [OF app_reach_engine [OF assms(1)]])
  have "storable ev"
    using place_order_fill_ok [OF e wf p assms(4)] assms(2-5) ev by (auto simp: app_orders_ok_def)
  moreover have "app_orders_ok app1"
    using place_order_all(1) [OF e wf p, of order_ids_ok] assms(2,4) e' by (simp add: app_orders_ok_def)
  moreover have "app_place_order c x app = (Inr fs, app1\<lparr>app_seen := insert c (app_seen app),
      app_events := app_events app @ [ev]\<rparr>)"
    using assms(6) a by (simp add: app_place_order_def)
  ultimately show ?thesis
    using a app_reach.order [OF assms(1) wf] by (fastforce simp: app_orders_ok_def)
qed

section \<open>The contract of a journal\<close>

locale durable_journal =
  fixes put :: "event \<Rightarrow> 'j \<Rightarrow> (app_error, unit) result \<times> 'j"
    and holds :: "'j \<Rightarrow> event list \<Rightarrow> bool"
  assumes put_ok: "holds j evs \<Longrightarrow> storable ev \<Longrightarrow> put ev j = (Inr u, j') \<Longrightarrow> holds j' (evs @ [ev])"
    and put_err: "holds j evs \<Longrightarrow> put ev j = (Inl e, j') \<Longrightarrow> holds j' evs"
begin

definition in_sync :: "market_spec \<Rightarrow> 'j actor \<Rightarrow> bool" where
  "in_sync m a \<longleftrightarrow> app_reach m (act_app a) \<and> app_orders_ok (act_app a) \<and>
     holds (act_journal a) (app_events (act_app a))"

text \<open>The journal is ahead of the application by one deposit event that does not apply.\<close>

definition poisoned :: "market_spec \<Rightarrow> 'j actor \<Rightarrow> bool" where
  "poisoned m a \<longleftrightarrow> app_reach m (act_app a) \<and>
     (\<exists>c t as v e. holds (act_journal a) (app_events (act_app a) @ [DepositCredited c t as v]) \<and>
       apply_event (DepositCredited c t as v) (act_app a) = (Inl e, act_app a))"

lemma persist_order:
  assumes "in_sync m a" and "storable ev" and "apply_event ev (act_app a) = (Inr (), app')"
    and "app_reach m app'" and "app_orders_ok app'"
    and "persist_and_apply put ev ok a = ((reply, stop), a')"
  shows "in_sync m a' \<and> \<not> stop"
proof (cases "put ev (act_journal a)")
  case (Pair r j)
  have logged: "app_events app' = app_events (act_app a) @ [ev]" using apply_event_ok [OF assms(3)] by simp
  from assms(1) have h: "holds (act_journal a) (app_events (act_app a))" by (simp add: in_sync_def)
  show ?thesis
  proof (cases r)
    case (Inl e)
    with Pair assms(1,6) put_err [OF h, of ev e j] show ?thesis
      by (auto simp: persist_and_apply_def in_sync_def)
  next
    case (Inr u)
    with Pair assms put_ok [OF h assms(2), of u j] logged show ?thesis
      by (auto simp: persist_and_apply_def in_sync_def)
  qed
qed

lemma persist_deposit:
  assumes "in_sync m a" and "storable (DepositCredited c t as v)"
    and "credit_deposit_event c t as v (act_app a) = Inr (DepositCredited c t as v)"
    and "persist_and_apply put (DepositCredited c t as v) ok a = ((reply, stop), a')"
  shows "if stop then poisoned m a' \<and> act_app a' = act_app a \<and> (\<exists>e. reply = Inl e) else in_sync m a'"
proof -
  let ?ev = "DepositCredited c t as v"
  from assms(1) have h: "holds (act_journal a) (app_events (act_app a))"
    and reach: "app_reach m (act_app a)" by (simp_all add: in_sync_def)
  consider (rej) e where "credit_deposit c t as v (act_app a) = (Inl e, act_app a)"
    | (credited) app' where "credit_deposit c t as v (act_app a) = (Inr (), app')"
      "apply_event ?ev (act_app a) = (Inr (), app')"
    by (rule credit_deposit_cases [of c t as v "act_app a"])
  then show ?thesis
  proof cases
    case credited
    have "app_reach m app'" by (rule app_reach.deposit [OF reach credited(1)])
    moreover have "app_orders_ok app'"
      using assms(1) credited(2) by (auto simp: in_sync_def app_orders_ok_def apply_deposit_ok)
    ultimately show ?thesis
      using persist_order [OF assms(1,2) credited(2) _ _ assms(4)] by simp
  next
    case rej
    with assms(3) have a: "apply_event ?ev (act_app a) = (Inl e, act_app a)"
      by (simp add: credit_deposit_def)
    obtain r j where p: "put ?ev (act_journal a) = (r, j)" by (cases "put ?ev (act_journal a)")
    show ?thesis
    proof (cases r)
      case (Inl e')
      with p assms(1,4) put_err [OF h, of ?ev e' j] show ?thesis
        by (auto simp: persist_and_apply_def in_sync_def)
    next
      case (Inr u)
      with p have "holds j (app_events (act_app a) @ [?ev])" using put_ok [OF h assms(2)] by simp
      then have "\<exists>c t as v e. holds j (app_events (act_app a) @ [DepositCredited c t as v]) \<and>
          apply_event (DepositCredited c t as v) (act_app a) = (Inl e, act_app a)"
        using a by blast
      moreover from p Inr a assms(4) have "reply = Inl e" "stop" "act_app a' = act_app a"
          "act_journal a' = j"
        by (auto simp: persist_and_apply_def)
      ultimately show ?thesis using reach by (simp add: poisoned_def)
    qed
  qed
qed

lemma settle_frame:
  "settle_metrics out = ((reply, stop), a') \<Longrightarrow>
     \<exists>a. out = ((reply, stop), a) \<and> act_app a' = act_app a \<and> act_journal a' = act_journal a"
  by (auto simp: settle_metrics_def split: prod.splits)

lemma in_sync_metrics [simp]: "in_sync m (a\<lparr>act_metrics := x\<rparr>) = in_sync m a"
  by (simp add: in_sync_def)

lemma handle_keeps:
  assumes "in_sync m a" and "command_ok cmd" and "handle_command put cmd a = ((reply, stop), a')"
  shows "in_sync m a' \<or> (stop \<and> poisoned m a' \<and> (\<exists>e. reply = Inl e))"
proof (cases cmd)
  case (CmdCreditDeposit rid c t as v)
  show ?thesis
  proof (cases "credit_deposit_event c t as v (act_app a)")
    case (Inl e)
    with CmdCreditDeposit assms show ?thesis by (auto simp: handle_command_def)
  next
    case (Inr ev)
    then have ev: "ev = DepositCredited c t as v"
      by (auto simp: credit_deposit_event_def checked_ok)
    have st: "storable ev" using CmdCreditDeposit assms(2) ev by simp
    from CmdCreditDeposit Inr assms(3)
    have "settle_metrics (persist_and_apply put ev ReplyDepositCredited a) = ((reply, stop), a')"
      by (simp add: handle_command_def)
    from settle_frame [OF this] obtain a1 where
      1: "persist_and_apply put ev ReplyDepositCredited a = ((reply, stop), a1)"
      and eq: "act_app a' = act_app a1" "act_journal a' = act_journal a1" by blast
    from persist_deposit [OF assms(1) st [unfolded ev] Inr [unfolded ev] 1 [unfolded ev]] eq
    show ?thesis by (auto simp: in_sync_def poisoned_def split: if_splits)
  qed
next
  case (CmdPlaceOrder rid c x)
  show ?thesis
  proof (cases "place_order_event c x (act_app a)")
    case (Inl e)
    with CmdPlaceOrder assms show ?thesis by (auto simp: handle_command_def)
  next
    case (Inr p)
    obtain ev fs where p: "p = (ev, fs)" by (cases p)
    from CmdPlaceOrder Inr p assms(3)
    have "settle_metrics (persist_and_apply put ev (ReplyOrderPlaced fs) a) = ((reply, stop), a')"
      by (simp add: handle_command_def)
    from settle_frame [OF this] obtain a1 where
      1: "persist_and_apply put ev (ReplyOrderPlaced fs) a = ((reply, stop), a1)"
      and eq: "act_app a' = act_app a1" "act_journal a' = act_journal a1" by blast
    have "storable ev \<and> (\<exists>app'. apply_event ev (act_app a) = (Inr (), app') \<and>
        app_reach m app' \<and> app_orders_ok app')"
      using place_order_event_storable [of m "act_app a" c x ev fs] assms(1,2) CmdPlaceOrder Inr p
      by (simp add: in_sync_def)
    then obtain app' where st: "storable ev" and
      a: "apply_event ev (act_app a) = (Inr (), app')" "app_reach m app'" "app_orders_ok app'" by blast
    from persist_order [OF assms(1) st a 1] eq show ?thesis by (simp add: in_sync_def)
  qed
next
  case (CmdSnapshot rid)
  with assms show ?thesis by (auto simp: handle_command_def)
next
  case (CmdShutdown rid)
  with assms show ?thesis by (auto simp: handle_command_def)
qed

lemma run_keeps:
  assumes "in_sync m a" and "\<forall>cmd \<in> set cmds. command_ok cmd"
    and "run_market_actor put cmds a = ((replies, stop), a')"
  shows "in_sync m a' \<or> (stop \<and> poisoned m a')"
  using assms
proof (induction cmds arbitrary: a replies stop)
  case (Cons cmd cmds)
  let ?a = "a\<lparr>act_metrics := record_command_received (act_metrics a)\<rparr>"
  obtain reply1 stop1 a1 where h: "handle_command put cmd ?a = ((reply1, stop1), a1)"
    by (metis surj_pair)
  have k: "in_sync m a1 \<or> (stop1 \<and> poisoned m a1)"
    using handle_keeps [OF _ _ h, of m] Cons.prems(1,2) by auto
  show ?case
  proof (cases stop1)
    case True
    with h k Cons.prems(3) show ?thesis by auto
  next
    case False
    then obtain replies2 stop2 a2 where r: "run_market_actor put cmds a1 = ((replies2, stop2), a2)"
      by (metis surj_pair)
    with h False Cons.prems(3) have "a2 = a'" "stop2 = stop" by auto
    with Cons.IH [of a1 replies2 stop2] r False k Cons.prems(2) show ?thesis by simp
  qed
qed simp

end

section \<open>The Postgres journal of the service\<close>

text \<open>
  \<open>PostgresRuntimeJournal\<close>: every failure becomes \<open>JournalAppendFailed\<close>.  The state is the table
  and the faults that the database will show, one for each statement.
\<close>

record 'j pg_journal =
  pg_rows :: "'j event_record list"
  pg_faults :: "string option list"

definition next_fault :: "string option list \<Rightarrow> string option" where
  "next_fault fs = (case fs of [] \<Rightarrow> None | f # _ \<Rightarrow> f)"

definition pg_append :: "'j serde \<Rightarrow> event \<Rightarrow> 'j pg_journal \<Rightarrow> (app_error, unit) result \<times> 'j pg_journal" where
  "pg_append S ev j =
     (case journal_append S (next_fault (pg_faults j)) ev (pg_rows j) of
        (r, rows) \<Rightarrow>
          (map_err (\<lambda>_. JournalAppendFailed) r,
           j\<lparr>pg_rows := rows, pg_faults := tl (pg_faults j)\<rparr>))"

definition pg_holds :: "'j serde \<Rightarrow> 'j pg_journal \<Rightarrow> event list \<Rightarrow> bool" where
  "pg_holds S j evs \<longleftrightarrow> journal_wf S (pg_rows j) evs"

interpretation pg: durable_journal "pg_append S" "pg_holds S" for S
proof unfold_locales
  fix j evs ev u j'
  assume "pg_holds S j evs" "storable ev" "pg_append S ev j = (Inr u, j')"
  then show "pg_holds S j' (evs @ [ev])"
    by (auto simp: pg_holds_def pg_append_def checked_ok split: prod.splits dest: journal_append_wf)
next
  fix j evs ev e j'
  assume "pg_holds S j evs" "pg_append S ev j = (Inl e, j')"
  then show "pg_holds S j' evs"
    by (auto simp: pg_holds_def pg_append_def checked_err split: prod.splits dest!: journal_append_err)
qed

section \<open>Guarantees of the actor\<close>


lemma settle_metrics_count:
  "settle_metrics ((reply, stop), a) = (rs, a') \<Longrightarrow>
     commands_accepted (act_metrics a') + commands_rejected (act_metrics a') =
       commands_accepted (act_metrics a) + commands_rejected (act_metrics a) + 1 \<and>
     commands_received (act_metrics a') = commands_received (act_metrics a)"
  by (auto simp: settle_metrics_def record_command_accepted_def record_command_rejected_def
      split: sum.splits)

lemma persist_metrics_frame:
  "persist_and_apply put ev ok a = (rs, a') \<Longrightarrow>
     commands_accepted (act_metrics a') = commands_accepted (act_metrics a) \<and>
     commands_rejected (act_metrics a') = commands_rejected (act_metrics a) \<and>
     commands_received (act_metrics a') = commands_received (act_metrics a)"
  by (auto simp: persist_and_apply_def record_journal_append_failure_def
      record_apply_after_append_failure_def split: prod.splits sum.splits)

lemma settled_persist_count:
  assumes "settle_metrics (persist_and_apply put ev ok a) = (rs, a')"
  shows "commands_accepted (act_metrics a') + commands_rejected (act_metrics a') =
       commands_accepted (act_metrics a) + commands_rejected (act_metrics a) + 1 \<and>
     commands_received (act_metrics a') = commands_received (act_metrics a)"
proof -
  obtain reply stop a1 where p: "persist_and_apply put ev ok a = ((reply, stop), a1)"
    by (metis surj_pair)
  with assms have s: "settle_metrics ((reply, stop), a1) = (rs, a')" by simp
  show ?thesis
    using settle_metrics_count [OF s] persist_metrics_frame [OF p] by simp
qed

lemma handle_command_count:
  assumes "handle_command put cmd a = (rs, a')"
  shows "commands_accepted (act_metrics a') + commands_rejected (act_metrics a') =
       commands_accepted (act_metrics a) + commands_rejected (act_metrics a) + 1 \<and>
     commands_received (act_metrics a') = commands_received (act_metrics a)"
proof (cases cmd)
  case (CmdCreditDeposit rid c t as v)
  with assms show ?thesis
    by (cases "credit_deposit_event c t as v (act_app a)")
      (auto simp: handle_command_def record_command_rejected_def dest: settled_persist_count)
next
  case (CmdPlaceOrder rid c x)
  with assms show ?thesis
    by (cases "place_order_event c x (act_app a)")
      (auto simp: handle_command_def record_command_rejected_def dest: settled_persist_count)
qed (use assms in \<open>auto simp: handle_command_def record_command_accepted_def\<close>)

text \<open>Every command gets exactly one reply, and the counters add up: what was received is what was
  accepted plus what was rejected, with any journal.\<close>

lemma actor_accounts_for_commands:
  assumes "run_market_actor put cmds a = ((replies, stop), a')"
    and "commands_received (act_metrics a) =
      commands_accepted (act_metrics a) + commands_rejected (act_metrics a)"
  shows "length replies = length cmds \<and>
    commands_received (act_metrics a') =
      commands_accepted (act_metrics a') + commands_rejected (act_metrics a') \<and>
    (\<not> stop \<longrightarrow> commands_received (act_metrics a') =
      commands_received (act_metrics a) + of_nat (length cmds))"
  using assms
proof (induction cmds arbitrary: a replies stop)
  case (Cons cmd cmds)
  let ?a = "a\<lparr>act_metrics := record_command_received (act_metrics a)\<rparr>"
  obtain reply1 stop1 a1 where h: "handle_command put cmd ?a = ((reply1, stop1), a1)"
    by (metis surj_pair)
  have c1: "commands_received (act_metrics a1) = commands_received (act_metrics a) + 1"
    and c2: "commands_received (act_metrics a1) =
        commands_accepted (act_metrics a1) + commands_rejected (act_metrics a1)"
    using handle_command_count [OF h] Cons.prems(2) by (simp_all add: record_command_received_def)
  show ?case
  proof (cases stop1)
    case True
    with h c2 Cons.prems(1) show ?thesis by auto
  next
    case False
    then obtain replies2 stop2 a2 where r: "run_market_actor put cmds a1 = ((replies2, stop2), a2)"
      by (metis surj_pair)
    with h False Cons.prems(1) have "a2 = a'" "stop2 = stop" "replies = reply1 # replies2" by auto
    moreover from Cons.IH [OF r [unfolded calculation] c2]
    have "length replies2 = length cmds \<and>
      commands_received (act_metrics a') =
        commands_accepted (act_metrics a') + commands_rejected (act_metrics a') \<and>
      (\<not> stop \<longrightarrow> commands_received (act_metrics a') =
        commands_received (act_metrics a1) + of_nat (length cmds))" .
    ultimately show ?thesis using c1 by (auto simp: add.assoc)
  qed
qed simp

section \<open>A concrete run\<close>

text \<open>The conversion to JSON, stood for by the payloads themselves.\<close>

definition plain_serde :: "(deposit_payload + order_placed_payload) serde" where
  "plain_serde = \<lparr>ser_deposit = (\<lambda>p. Inr (Inl p)),
     de_deposit = (\<lambda>v. case v of Inl p \<Rightarrow> Inr p | Inr _ \<Rightarrow> Inl ''type''),
     ser_order = (\<lambda>p. Inr (Inr p)),
     de_order = (\<lambda>v. case v of Inr p \<Rightarrow> Inr p | Inl _ \<Rightarrow> Inl ''type'')\<rparr>"

lemma plain_serde_ok: "serde_ok plain_serde"
  by (simp add: serde_ok_def plain_serde_def)

definition demo_commands :: "market_command list" where
  "demo_commands =
     [CmdCreditDeposit None (CommandId 1) (TraderId 10) (AssetId 1) (BalanceAmount 10),
      CmdPlaceOrder None (CommandId 2) (lit_order 1 10 Ask 100 4),
      CmdCreditDeposit None (CommandId 2) (TraderId 10) (AssetId 1) (BalanceAmount 1)]"

definition demo_actor :: "(deposit_payload + order_placed_payload) pg_journal actor" where
  "demo_actor = spawn_from_app (app_new demo_market) \<lparr>pg_rows = [], pg_faults = []\<rparr>"

lemma demo_commands_ok: "\<forall>cmd \<in> set demo_commands. command_ok cmd"
  by (simp add: demo_commands_def order_ids_ok_def fresh_order_def lit_order_def) (simp add: order_new_def)

lemma demo_run:
  "fst (run_market_actor (pg_append plain_serde) demo_commands demo_actor) =
     ([Inr ReplyDepositCredited, Inr (ReplyOrderPlaced []), Inl DuplicateCommand], False)"
  by code_simp

lemma demo_run_pair:
  "run_market_actor (pg_append plain_serde) demo_commands demo_actor =
     (([Inr ReplyDepositCredited, Inr (ReplyOrderPlaced []), Inl DuplicateCommand], False),
      snd (run_market_actor (pg_append plain_serde) demo_commands demo_actor))"
  using demo_run by (metis prod.collapse)


lemma actor_accounts_for_commands_witness:
  "commands_received (act_metrics
     (snd (run_market_actor (pg_append plain_serde) demo_commands demo_actor))) = 3"
proof -
  have m: "act_metrics demo_actor = metrics_default" by (simp add: demo_actor_def spawn_from_app_def)
  have "length demo_commands = 3" by (simp add: demo_commands_def)
  with actor_accounts_for_commands [OF demo_run_pair] show ?thesis
    by (auto simp: m metrics_default_def)
qed

end
