(* ===== verification/Anchor_Base.thy ===== *)
theory Anchor_Base
  imports Prelude
begin

text \<open>
  What the on-chain programs use of the Anchor framework and of the Solana runtime, which are
  code of other packages.  Address derivation is a parameter (\<open>anchor_env\<close>); nothing is assumed
  about it.  Accounts are a map from addresses to typed account contents, one datatype for
  each program.  A handler returns the new map or an error: the runtime rolls a failed
  transaction back.
\<close>

type_synonym pubkey = "256 word"
type_synonym bytes32 = "256 word"
type_synonym bytes64 = "512 word"
type_synonym 'a accounts = "pubkey \<Rightarrow> 'a option"

text \<open>
  \<open>find_pda\<close> is \<open>Pubkey::find_program_address\<close> of the program, \<open>create_pda\<close> is
  \<open>Pubkey::create_program_address\<close> with the bump appended to the seeds.  Anchor 1.0 refuses a
  transaction that passes one account twice as mutable; earlier releases do not
  (\<open>rejects_duplicates\<close>).
\<close>

record anchor_env =
  find_pda :: "u8 list list \<Rightarrow> pubkey \<times> u8"
  create_pda :: "u8 list list \<Rightarrow> u8 \<Rightarrow> pubkey option"
  rejects_duplicates :: bool

datatype 'e program_error =
    Custom 'e
  | AccountNotSigner
  | AccountLoad
  | AccountInUse
  | ConstraintSeeds
  | ConstraintHasOne
  | ConstraintRaw
  | ConstraintAddress
  | ConstraintClose
  | DuplicateMutableAccount
  | CpiFailed
  | SysvarMissing
  | InvalidAccountData
  | InvalidInstructionData
  | LibraryFailed
  | Panicked

definition ascii_bytes :: "string \<Rightarrow> u8 list" where
  "ascii_bytes = map of_char"

definition key_bytes :: "pubkey \<Rightarrow> u8 list" where
  "key_bytes = le_bytes 32"

definition u64_bytes :: "u64 \<Rightarrow> u8 list" where
  "u64_bytes = le_bytes 8"

lemma length_bytes [simp]:
  "length (ascii_bytes s) = length s" "length (key_bytes k) = 32" "length (u64_bytes w) = 8"
  by (simp_all add: ascii_bytes_def key_bytes_def u64_bytes_def)

lemma bytes_inject [simp]:
  "key_bytes k = key_bytes l \<longleftrightarrow> k = l" "u64_bytes v = u64_bytes w \<longleftrightarrow> v = w"
  by (simp_all add: key_bytes_def u64_bytes_def le_bytes_inject)

text \<open>The address that is found is the one of its bump.\<close>

definition finds_its_bump :: "anchor_env \<Rightarrow> bool" where
  "finds_its_bump env \<longleftrightarrow>
     (\<forall>seeds. create_pda env seeds (snd (find_pda env seeds)) = Some (fst (find_pda env seeds)))"

section \<open>Account constraints\<close>

definition need_signer :: "pubkey \<Rightarrow> pubkey list \<Rightarrow> ('e program_error, unit) result" where
  "need_signer k signers = ensure (k \<in> set signers) AccountNotSigner"

text \<open>\<open>seeds = .., bump = b\<close> and \<open>seeds = .., bump\<close>.\<close>

definition check_seeds_bump ::
  "anchor_env \<Rightarrow> pubkey \<Rightarrow> u8 list list \<Rightarrow> u8 \<Rightarrow> ('e program_error, unit) result" where
  "check_seeds_bump env k seeds b = ensure (create_pda env seeds b = Some k) ConstraintSeeds"

definition check_seeds ::
  "anchor_env \<Rightarrow> pubkey \<Rightarrow> u8 list list \<Rightarrow> ('e program_error, u8) result" where
  "check_seeds env k seeds =
     (case find_pda env seeds of (p, b) \<Rightarrow> if k = p then Inr b else Inl ConstraintSeeds)"

definition load :: "('a \<Rightarrow> 'b option) \<Rightarrow> 'a accounts \<Rightarrow> pubkey \<Rightarrow> ('e program_error, 'b) result" where
  "load sel accs k = ok_or (Option.bind (accs k) sel) AccountLoad"

text \<open>\<open>init\<close> creates the account, \<open>init_if_needed\<close> loads it when it is there already.\<close>

definition init_fresh :: "'a accounts \<Rightarrow> pubkey \<Rightarrow> 'b \<Rightarrow> ('e program_error, 'b) result" where
  "init_fresh accs k zeroed = (case accs k of None \<Rightarrow> Inr zeroed | Some _ \<Rightarrow> Inl AccountInUse)"

text \<open>Two \<open>init\<close> accounts of one instruction: the second creation meets the first.\<close>

definition init_both :: "'a accounts \<Rightarrow> pubkey \<Rightarrow> pubkey \<Rightarrow> ('e program_error, unit) result" where
  "init_both accs k l =
     and_then (init_fresh accs k ()) (\<lambda>_.
     and_then (init_fresh accs l ()) (\<lambda>_. ensure (k \<noteq> l) AccountInUse))"

definition init_needed ::
  "('a \<Rightarrow> 'b option) \<Rightarrow> 'a accounts \<Rightarrow> pubkey \<Rightarrow> 'b \<Rightarrow> ('e program_error, 'b) result" where
  "init_needed sel accs k zeroed =
     (case accs k of None \<Rightarrow> Inr zeroed | Some a \<Rightarrow> ok_or (sel a) AccountLoad)"

text \<open>
  The mutable accounts of an instruction are pairwise different.  The lists name accounts under
  \<open>init\<close> and \<open>init_if_needed\<close> too, which the check of the library may leave out.  An account under
  \<open>init\<close> does not exist before the instruction, so it differs from every account that is loaded;
  the two fill states of a signed fill are the only pair under \<open>init_if_needed\<close>, and they have one
  address only if a bid and an ask have one hash.
\<close>

definition check_distinct_mut :: "anchor_env \<Rightarrow> pubkey list \<Rightarrow> ('e program_error, unit) result" where
  "check_distinct_mut env ks = ensure (rejects_duplicates env \<longrightarrow> distinct ks) DuplicateMutableAccount"

definition require :: "bool \<Rightarrow> 'e \<Rightarrow> ('e program_error, unit) result" where
  "require b e = ensure b (Custom e)"

definition require_some :: "'a option \<Rightarrow> 'e \<Rightarrow> ('e program_error, 'a) result" where
  "require_some v e = ok_or v (Custom e)"

lemma need_signer_ok [checked_ok]: "need_signer k ss = Inr u \<longleftrightarrow> k \<in> set ss"
  by (simp add: need_signer_def checked_ok)

lemma check_seeds_bump_ok [checked_ok]:
  "check_seeds_bump env k seeds b = Inr u \<longleftrightarrow> create_pda env seeds b = Some k"
  by (simp add: check_seeds_bump_def checked_ok)

lemma check_seeds_ok [checked_ok]:
  "check_seeds env k seeds = Inr b \<longleftrightarrow> find_pda env seeds = (k, b)"
  by (cases "find_pda env seeds") (auto simp: check_seeds_def)

lemma load_ok [checked_ok]: "load sel accs k = Inr x \<longleftrightarrow> (\<exists>a. accs k = Some a \<and> sel a = Some x)"
  by (cases "accs k") (simp_all add: load_def checked_ok)

lemma init_fresh_ok [checked_ok]: "init_fresh accs k z = Inr x \<longleftrightarrow> accs k = None \<and> x = z"
  by (auto simp: init_fresh_def split: option.splits)

lemma init_both_ok [checked_ok]:
  "init_both accs k l = Inr u \<longleftrightarrow> accs k = None \<and> accs l = None \<and> k \<noteq> l"
  by (auto simp: init_both_def checked_ok)

lemma init_needed_ok [checked_ok]:
  "init_needed sel accs k z = Inr x \<longleftrightarrow>
     (accs k = None \<and> x = z) \<or> (\<exists>a. accs k = Some a \<and> sel a = Some x)"
  by (auto simp: init_needed_def checked_ok split: option.splits)

lemma check_distinct_mut_ok [checked_ok]:
  "check_distinct_mut env ks = Inr u \<longleftrightarrow> (rejects_duplicates env \<longrightarrow> distinct ks)"
  by (simp add: check_distinct_mut_def checked_ok)

lemma require_ok [checked_ok]: "require b e = Inr u \<longleftrightarrow> b"
  by (simp add: require_def checked_ok)

lemma require_some_ok [checked_ok]: "require_some v e = Inr x \<longleftrightarrow> v = Some x"
  by (simp add: require_some_def checked_ok)

lemma require_simps [simp]:
  "require True e = Inr ()" "require False e = Inl (Custom e)"
  "require_some (Some x) e = Inr x" "require_some None e = Inl (Custom e)"
  by (simp_all add: require_def require_some_def)

section \<open>Sums over all accounts\<close>

lemma sum_change_one:
  fixes f g :: "pubkey \<Rightarrow> nat"
  assumes "\<And>j. j \<noteq> k \<Longrightarrow> f j = g j"
  shows "(\<Sum>j\<in>UNIV. f j) + g k = (\<Sum>j\<in>UNIV. g j) + f k"
proof -
  have "sum f (UNIV - {k}) = sum g (UNIV - {k})" using assms by (intro sum.cong) auto
  moreover have "sum f UNIV = f k + sum f (UNIV - {k})" "sum g UNIV = g k + sum g (UNIV - {k})"
    by (simp_all add: sum.remove [of UNIV k])
  ultimately show ?thesis by simp
qed

definition account_sum :: "('a option \<Rightarrow> nat) \<Rightarrow> 'a accounts \<Rightarrow> nat" where
  "account_sum f accs = (\<Sum>k\<in>UNIV. f (accs k))"

lemma account_sum_change:
  assumes "\<And>j. j \<noteq> k \<Longrightarrow> f (accs' j) = f (accs j)"
  shows "account_sum f accs' + f (accs k) = account_sum f accs + f (accs' k)"
  unfolding account_sum_def using assms by (rule sum_change_one)

lemma account_sum_upd: "account_sum f (accs(k := v)) + f (accs k) = account_sum f accs + f v"
  using account_sum_change [of k f "accs(k := v)" accs] by simp

lemma account_sum_cong: "(\<And>k. f (accs' k) = f (accs k)) \<Longrightarrow> account_sum f accs' = account_sum f accs"
  by (simp add: account_sum_def)

section \<open>Runs of transactions\<close>

text \<open>A failed transaction is rolled back: the store stays as it was.\<close>

fun run_transactions :: "('i \<Rightarrow> 's \<Rightarrow> ('e, 's) result) \<Rightarrow> 'i list \<Rightarrow> 's \<Rightarrow> 's" where
  "run_transactions exec [] s = s"
| "run_transactions exec (i # rest) s =
     run_transactions exec rest (case exec i s of Inl _ \<Rightarrow> s | Inr s' \<Rightarrow> s')"

lemma run_transactions_append:
  "run_transactions exec (xs @ ys) s = run_transactions exec ys (run_transactions exec xs s)"
  by (induction xs arbitrary: s) simp_all

text \<open>The transactions of a run that succeed.\<close>

fun accepted :: "('i \<Rightarrow> 's \<Rightarrow> ('e, 's) result) \<Rightarrow> 'i list \<Rightarrow> 's \<Rightarrow> 'i list" where
  "accepted exec [] s = []"
| "accepted exec (i # rest) s =
     (case exec i s of Inl _ \<Rightarrow> accepted exec rest s | Inr s' \<Rightarrow> i # accepted exec rest s')"

text \<open>What a program promises of single transactions, and what follows for whole runs.\<close>

locale stable_program =
  fixes exec :: "'i \<Rightarrow> 's \<Rightarrow> ('e, 's) result" and inv :: "'s \<Rightarrow> bool"
  assumes exec_inv: "inv s \<Longrightarrow> exec i s = Inr s' \<Longrightarrow> inv s'"
begin

lemma run_inv: "inv s \<Longrightarrow> inv (run_transactions exec txs s)"
  by (induction txs arbitrary: s) (auto intro: exec_inv split: sum.split)

text \<open>A quantity to which every accepted transaction adds its share.\<close>

lemma run_adds:
  assumes "\<And>i s s'. inv s \<Longrightarrow> exec i s = Inr s' \<Longrightarrow> f s' = f s + share i" and "inv s"
  shows "f (run_transactions exec txs s) = f s + (sum_list (map share (accepted exec txs s)) :: nat)"
  using assms(2)
proof (induction txs arbitrary: s)
  case (Cons i txs)
  show ?case
  proof (cases "exec i s")
    case (Inl e)
    then show ?thesis using Cons by simp
  next
    case (Inr t)
    then show ?thesis using Cons.IH [of t] exec_inv [OF Cons.prems Inr] assms(1) [OF Cons.prems Inr] by simp
  qed
qed simp

end

locale evolving_program = stable_program +
  fixes evolves_to :: "'s \<Rightarrow> 's \<Rightarrow> bool"
  assumes evolves_refl: "evolves_to s s"
    and evolves_trans: "evolves_to s t \<Longrightarrow> evolves_to t u \<Longrightarrow> evolves_to s u"
    and exec_evolves: "inv s \<Longrightarrow> exec i s = Inr s' \<Longrightarrow> evolves_to s s'"
begin

lemma run_evolves: "inv s \<Longrightarrow> evolves_to s (run_transactions exec txs s)"
proof (induction txs arbitrary: s)
  case Nil
  show ?case by (simp add: evolves_refl)
next
  case (Cons i txs)
  show ?case
  proof (cases "exec i s")
    case (Inl e)
    then show ?thesis using Cons by simp
  next
    case (Inr t)
    then show ?thesis
      using Cons.IH [of t] exec_inv [OF Cons.prems Inr] exec_evolves [OF Cons.prems Inr]
      by (auto intro: evolves_trans)
  qed
qed

end

end
