(* ===== verification/Settlement_Program.thy ===== *)
theory Settlement_Program
  imports Anchor_Base
begin

text \<open>
  \<open>programs/spot-settlement\<close>: the account layouts and errors (\<open>state.rs\<close>, \<open>error.rs\<close>) and the
  instructions \<open>initialize_protocol\<close>, \<open>initialize_market\<close>, \<open>deposit\<close> and \<open>withdraw\<close>.  Each
  handler is the account validation its \<open>Accounts\<close> struct declares followed by the body of the
  handler.  The token program is a parameter.
\<close>

section \<open>State\<close>

datatype custody_asset = CustodyBase | CustodyQuote

datatype settlement_error =
    SameMarketMints
  | SameMarketVaults
  | UnauthorizedAdmin
  | UnauthorizedSettlementAuthority
  | MarketPaused
  | InvalidSettlementAmount
  | InvalidSignedOrder
  | ChainOrderExpired
  | ChainPricesDoNotCross
  | ChainFillPriceOutside
  | ChainFillQuantityExceeds
  | InvalidEd25519Instruction
  | OrderHashMismatch
  | OrderCancelled
  | OrderFillStateMismatch
  | InvalidDepositAmount
  | InvalidWithdrawAmount
  | InvalidDepositMint
  | InvalidDepositSource
  | InvalidWithdrawMint
  | InvalidWithdrawDestination
  | InvalidMarketVault
  | InvalidMarketVaultAuthority
  | ChainInsufficientBalance
  | SettlementBalanceOverflow
  | DepositBalanceOverflow

record protocol_config =
  pc_admin :: pubkey
  pc_bump :: u8

record market_config =
  mc_protocol_config :: pubkey
  mc_admin :: pubkey
  mc_settlement_authority :: pubkey
  mc_base_mint :: pubkey
  mc_quote_mint :: pubkey
  mc_base_vault :: pubkey
  mc_quote_vault :: pubkey
  mc_vault_authority :: pubkey
  mc_vault_authority_bump :: u8
  mc_paused :: bool
  mc_bump :: u8

record trader_balance =
  tb_market :: pubkey
  tb_trader :: pubkey
  tb_base :: u64
  tb_quote :: u64
  tb_bump :: u8

record settlement_receipt =
  sr_market :: pubkey
  sr_settlement_id :: u64
  sr_buyer :: pubkey
  sr_seller :: pubkey
  sr_buyer_order_hash :: bytes32
  sr_seller_order_hash :: bytes32
  sr_base_amount :: u64
  sr_quote_amount :: u64
  sr_bump :: u8

record order_fill_state =
  fs_market :: pubkey
  fs_order_hash :: bytes32
  fs_filled :: u64
  fs_cancelled :: bool
  fs_bump :: u8

text \<open>What the program reads of token accounts and mints.\<close>

record token_account =
  ta_mint :: pubkey
  ta_owner :: pubkey
  ta_amount :: u64

record mint_account =
  mint_decimals :: u8

datatype spot_account =
    ProtocolAcc protocol_config
  | MarketAcc market_config
  | BalanceAcc trader_balance
  | ReceiptAcc settlement_receipt
  | FillStateAcc order_fill_state
  | TokenAcc token_account
  | MintAcc mint_account

fun as_protocol :: "spot_account \<Rightarrow> protocol_config option" where
  "as_protocol (ProtocolAcc x) = Some x" | "as_protocol _ = None"
fun as_market :: "spot_account \<Rightarrow> market_config option" where
  "as_market (MarketAcc x) = Some x" | "as_market _ = None"
fun as_balance :: "spot_account \<Rightarrow> trader_balance option" where
  "as_balance (BalanceAcc x) = Some x" | "as_balance _ = None"
fun as_fill_state :: "spot_account \<Rightarrow> order_fill_state option" where
  "as_fill_state (FillStateAcc x) = Some x" | "as_fill_state _ = None"
fun as_token :: "spot_account \<Rightarrow> token_account option" where
  "as_token (TokenAcc x) = Some x" | "as_token _ = None"
fun as_mint :: "spot_account \<Rightarrow> mint_account option" where
  "as_mint (MintAcc x) = Some x" | "as_mint _ = None"

type_synonym spot_store = "spot_account accounts"
type_synonym spot_result = "(settlement_error program_error, spot_store) result"

definition zero_balance :: trader_balance where
  "zero_balance = \<lparr>tb_market = 0, tb_trader = 0, tb_base = 0, tb_quote = 0, tb_bump = 0\<rparr>"

definition zero_fill_state :: order_fill_state where
  "zero_fill_state =
     \<lparr>fs_market = 0, fs_order_hash = 0, fs_filled = 0, fs_cancelled = False, fs_bump = 0\<rparr>"

section \<open>Seeds\<close>

definition protocol_seeds :: "u8 list list" where
  "protocol_seeds = [ascii_bytes ''protocol'']"

definition market_seeds :: "pubkey \<Rightarrow> pubkey \<Rightarrow> u8 list list" where
  "market_seeds base quote = [ascii_bytes ''market'', key_bytes base, key_bytes quote]"

definition order_fill_seeds :: "pubkey \<Rightarrow> bytes32 \<Rightarrow> u8 list list" where
  "order_fill_seeds market h = [ascii_bytes ''order_fill'', key_bytes market, le_bytes 32 h]"

definition receipt_seeds :: "pubkey \<Rightarrow> u64 \<Rightarrow> u8 list list" where
  "receipt_seeds market i = [ascii_bytes ''settlement'', key_bytes market, u64_bytes i]"

definition balance_seeds :: "pubkey \<Rightarrow> pubkey \<Rightarrow> u8 list list" where
  "balance_seeds market trader = [ascii_bytes ''trader_balance'', key_bytes market, key_bytes trader]"

definition vault_authority_seeds :: "pubkey \<Rightarrow> u8 list list" where
  "vault_authority_seeds market = [ascii_bytes ''vault_authority'', key_bytes market]"

section \<open>Initialisation\<close>

record initialize_protocol_accounts =
  ip_admin :: pubkey
  ip_protocol_config :: pubkey

definition initialize_protocol ::
  "anchor_env \<Rightarrow> pubkey list \<Rightarrow> initialize_protocol_accounts \<Rightarrow> spot_store \<Rightarrow> spot_result" where
  "initialize_protocol env signers ctx accs =
     and_then (need_signer (ip_admin ctx) signers) (\<lambda>_.
     and_then (check_seeds env (ip_protocol_config ctx) protocol_seeds) (\<lambda>bump.
     and_then (init_fresh accs (ip_protocol_config ctx) ()) (\<lambda>_.
       Inr (accs(ip_protocol_config ctx \<mapsto>
         ProtocolAcc \<lparr>pc_admin = ip_admin ctx, pc_bump = bump\<rparr>)))))"

record initialize_market_accounts =
  im_admin :: pubkey
  im_protocol_config :: pubkey
  im_market_config :: pubkey
  im_base_mint :: pubkey
  im_quote_mint :: pubkey
  im_base_vault :: pubkey
  im_quote_vault :: pubkey
  im_vault_authority :: pubkey
  im_settlement_authority :: pubkey

definition initialize_market ::
  "anchor_env \<Rightarrow> pubkey list \<Rightarrow> initialize_market_accounts \<Rightarrow> spot_store \<Rightarrow> spot_result" where
  "initialize_market env signers ctx accs =
     and_then (need_signer (im_admin ctx) signers) (\<lambda>_.
     and_then (load as_protocol accs (im_protocol_config ctx)) (\<lambda>pc.
     and_then (check_seeds_bump env (im_protocol_config ctx) protocol_seeds (pc_bump pc)) (\<lambda>_.
     and_then (require (pc_admin pc = im_admin ctx) UnauthorizedAdmin) (\<lambda>_.
     and_then (check_seeds env (im_market_config ctx)
       (market_seeds (im_base_mint ctx) (im_quote_mint ctx))) (\<lambda>bump.
     and_then (init_fresh accs (im_market_config ctx) ()) (\<lambda>_.
     and_then (check_seeds env (im_vault_authority ctx)
       (vault_authority_seeds (im_market_config ctx))) (\<lambda>va_bump.
     and_then (require (im_base_mint ctx \<noteq> im_quote_mint ctx) SameMarketMints) (\<lambda>_.
     and_then (require (im_base_vault ctx \<noteq> im_quote_vault ctx) SameMarketVaults) (\<lambda>_.
       Inr (accs(im_market_config ctx \<mapsto> MarketAcc
         \<lparr>mc_protocol_config = im_protocol_config ctx, mc_admin = im_admin ctx,
          mc_settlement_authority = im_settlement_authority ctx,
          mc_base_mint = im_base_mint ctx, mc_quote_mint = im_quote_mint ctx,
          mc_base_vault = im_base_vault ctx, mc_quote_vault = im_quote_vault ctx,
          mc_vault_authority = im_vault_authority ctx, mc_vault_authority_bump = va_bump,
          mc_paused = False, mc_bump = bump\<rparr>)))))))))))"

section \<open>Custody\<close>

text \<open>
  A call of the token program's \<open>transfer_checked\<close>.  \<open>tc_signers\<close> are the keys that signed the
  transaction or for which the program signs with seeds.
\<close>

record transfer_call =
  tc_from :: pubkey
  tc_mint :: pubkey
  tc_to :: pubkey
  tc_authority :: pubkey
  tc_signers :: "pubkey list"
  tc_amount :: u64
  tc_decimals :: u8

type_synonym token_program = "transfer_call \<Rightarrow> spot_store \<Rightarrow> spot_store option"

definition expected_mint :: "custody_asset \<Rightarrow> market_config \<Rightarrow> pubkey" where
  "expected_mint asset m = (case asset of CustodyBase \<Rightarrow> mc_base_mint m | CustodyQuote \<Rightarrow> mc_quote_mint m)"

definition expected_vault :: "custody_asset \<Rightarrow> market_config \<Rightarrow> pubkey" where
  "expected_vault asset m = (case asset of CustodyBase \<Rightarrow> mc_base_vault m | CustodyQuote \<Rightarrow> mc_quote_vault m)"

definition load_market ::
  "anchor_env \<Rightarrow> spot_store \<Rightarrow> pubkey \<Rightarrow> (settlement_error program_error, market_config) result" where
  "load_market env accs k =
     and_then (load as_market accs k) (\<lambda>m.
     and_then (check_seeds_bump env k (market_seeds (mc_base_mint m) (mc_quote_mint m)) (mc_bump m))
       (\<lambda>_. Inr m))"

record deposit_accounts =
  dp_trader_key :: pubkey
  dp_market :: pubkey
  dp_balance :: pubkey
  dp_source :: pubkey
  dp_vault :: pubkey
  dp_mint :: pubkey

definition credit_balance ::
  "custody_asset \<Rightarrow> u64 \<Rightarrow> trader_balance \<Rightarrow> (settlement_error program_error, trader_balance) result" where
  "credit_balance asset amount b =
     (case asset of
        CustodyBase \<Rightarrow>
          and_then (require_some (checked_add (tb_base b) amount) DepositBalanceOverflow)
            (\<lambda>v. Inr (b\<lparr>tb_base := v\<rparr>))
      | CustodyQuote \<Rightarrow>
          and_then (require_some (checked_add (tb_quote b) amount) DepositBalanceOverflow)
            (\<lambda>v. Inr (b\<lparr>tb_quote := v\<rparr>)))"

definition debit_balance ::
  "custody_asset \<Rightarrow> u64 \<Rightarrow> trader_balance \<Rightarrow> (settlement_error program_error, trader_balance) result" where
  "debit_balance asset amount b =
     (case asset of
        CustodyBase \<Rightarrow>
          and_then (require_some (checked_sub (tb_base b) amount) ChainInsufficientBalance)
            (\<lambda>v. Inr (b\<lparr>tb_base := v\<rparr>))
      | CustodyQuote \<Rightarrow>
          and_then (require_some (checked_sub (tb_quote b) amount) ChainInsufficientBalance)
            (\<lambda>v. Inr (b\<lparr>tb_quote := v\<rparr>)))"

definition deposit ::
  "anchor_env \<Rightarrow> token_program \<Rightarrow> pubkey list \<Rightarrow> deposit_accounts \<Rightarrow> custody_asset \<Rightarrow> u64
    \<Rightarrow> spot_store \<Rightarrow> spot_result" where
  "deposit env tp signers ctx asset amount accs =
     and_then (need_signer (dp_trader_key ctx) signers) (\<lambda>_.
     and_then (load_market env accs (dp_market ctx)) (\<lambda>market.
     and_then (check_seeds env (dp_balance ctx)
       (balance_seeds (dp_market ctx) (dp_trader_key ctx))) (\<lambda>bump.
     and_then (init_needed as_balance accs (dp_balance ctx) zero_balance) (\<lambda>balance.
     and_then (load as_token accs (dp_source ctx)) (\<lambda>source.
     and_then (load as_token accs (dp_vault ctx)) (\<lambda>vault.
     and_then (load as_mint accs (dp_mint ctx)) (\<lambda>mint.
     and_then (check_distinct_mut env [dp_balance ctx, dp_source ctx, dp_vault ctx]) (\<lambda>_.
     and_then (require (\<not> mc_paused market) MarketPaused) (\<lambda>_.
     and_then (require (amount > 0) InvalidDepositAmount) (\<lambda>_.
     and_then (require (dp_mint ctx = expected_mint asset market) InvalidDepositMint) (\<lambda>_.
     and_then (require (ta_mint source = expected_mint asset market) InvalidDepositSource) (\<lambda>_.
     and_then (require (ta_owner source = dp_trader_key ctx) InvalidDepositSource) (\<lambda>_.
     and_then (require (dp_vault ctx = expected_vault asset market) InvalidMarketVault) (\<lambda>_.
     and_then (require (ta_mint vault = expected_mint asset market) InvalidMarketVault) (\<lambda>_.
     and_then (require (ta_owner vault = mc_vault_authority market) InvalidMarketVaultAuthority) (\<lambda>_.
     and_then (ok_or (tp \<lparr>tc_from = dp_source ctx, tc_mint = dp_mint ctx, tc_to = dp_vault ctx,
         tc_authority = dp_trader_key ctx, tc_signers = signers, tc_amount = amount,
         tc_decimals = mint_decimals mint\<rparr> accs) CpiFailed) (\<lambda>accs1.
     let balance1 =
       (if tb_market balance = 0
        then balance\<lparr>tb_market := dp_market ctx, tb_trader := dp_trader_key ctx, tb_bump := bump\<rparr>
        else balance) in
     and_then (credit_balance asset amount balance1) (\<lambda>balance2.
       Inr (accs1(dp_balance ctx \<mapsto> BalanceAcc balance2))))))))))))))))))))"

record withdraw_accounts =
  wd_trader :: pubkey
  wd_market :: pubkey
  wd_balance :: pubkey
  wd_vault :: pubkey
  wd_destination :: pubkey
  wd_mint :: pubkey
  wd_vault_authority :: pubkey

definition load_own_balance ::
  "settlement_error program_error \<Rightarrow> anchor_env \<Rightarrow> spot_store \<Rightarrow> pubkey \<Rightarrow> pubkey \<Rightarrow> pubkey
    \<Rightarrow> (settlement_error program_error, trader_balance) result" where
  "load_own_balance err env accs market trader k =
     and_then (load as_balance accs k) (\<lambda>b.
     and_then (check_seeds_bump env k (balance_seeds market trader) (tb_bump b)) (\<lambda>_.
     and_then (ensure (tb_market b = market) err) (\<lambda>_.
     and_then (ensure (tb_trader b = trader) err) (\<lambda>_. Inr b))))"

definition withdraw ::
  "anchor_env \<Rightarrow> token_program \<Rightarrow> pubkey list \<Rightarrow> withdraw_accounts \<Rightarrow> custody_asset \<Rightarrow> u64
    \<Rightarrow> spot_store \<Rightarrow> spot_result" where
  "withdraw env tp signers ctx asset amount accs =
     and_then (need_signer (wd_trader ctx) signers) (\<lambda>_.
     and_then (load_market env accs (wd_market ctx)) (\<lambda>market.
     and_then (load_own_balance ConstraintHasOne env accs (wd_market ctx) (wd_trader ctx) (wd_balance ctx)) (\<lambda>balance.
     and_then (load as_token accs (wd_vault ctx)) (\<lambda>vault.
     and_then (load as_token accs (wd_destination ctx)) (\<lambda>destination.
     and_then (load as_mint accs (wd_mint ctx)) (\<lambda>mint.
     and_then (check_seeds_bump env (wd_vault_authority ctx)
       (vault_authority_seeds (wd_market ctx)) (mc_vault_authority_bump market)) (\<lambda>_.
     and_then (check_distinct_mut env [wd_balance ctx, wd_vault ctx, wd_destination ctx]) (\<lambda>_.
     and_then (require (\<not> mc_paused market) MarketPaused) (\<lambda>_.
     and_then (require (amount > 0) InvalidWithdrawAmount) (\<lambda>_.
     and_then (require (wd_mint ctx = expected_mint asset market) InvalidWithdrawMint) (\<lambda>_.
     and_then (require (ta_mint destination = expected_mint asset market) InvalidWithdrawDestination) (\<lambda>_.
     and_then (require (ta_owner destination = wd_trader ctx) InvalidWithdrawDestination) (\<lambda>_.
     and_then (require (wd_vault ctx = expected_vault asset market) InvalidMarketVault) (\<lambda>_.
     and_then (require (ta_mint vault = expected_mint asset market) InvalidMarketVault) (\<lambda>_.
     and_then (require (ta_owner vault = mc_vault_authority market) InvalidMarketVaultAuthority) (\<lambda>_.
     and_then (require (wd_vault_authority ctx = mc_vault_authority market)
       InvalidMarketVaultAuthority) (\<lambda>_.
     and_then (debit_balance asset amount balance) (\<lambda>balance1.
     and_then (ok_or (create_pda env (vault_authority_seeds (wd_market ctx))
       (mc_vault_authority_bump market)) CpiFailed) (\<lambda>pda_signer.
     and_then (ok_or (tp \<lparr>tc_from = wd_vault ctx, tc_mint = wd_mint ctx, tc_to = wd_destination ctx,
         tc_authority = wd_vault_authority ctx, tc_signers = signers @ [pda_signer],
         tc_amount = amount, tc_decimals = mint_decimals mint\<rparr> accs) CpiFailed) (\<lambda>accs1.
       Inr (accs1(wd_balance ctx \<mapsto> BalanceAcc balance1))))))))))))))))))))))"

end
