(* ===== verification/Settlement_Fills.thy ===== *)
theory Settlement_Fills
  imports Settlement_Program
begin

text \<open>
  \<open>programs/spot-settlement/src/instructions/settlement.rs\<close>: the instructions \<open>settle_fill\<close>,
  \<open>settle_signed_fill\<close> and \<open>cancel_signed_order\<close>.  SHA-256, the clock, the instructions sysvar
  and the address of the ed25519 program are fields of \<open>chain_env\<close>.
\<close>

section \<open>Signed orders on chain\<close>

datatype signed_side = SignedBid | SignedAsk

record signed_payload =
  sp_order_id :: u64
  sp_market :: pubkey
  sp_trader :: pubkey
  sp_side :: signed_side
  sp_price :: u64
  sp_quantity :: u64
  sp_nonce :: u64
  sp_expiry_slot :: u64

definition signed_side_tag :: "signed_side \<Rightarrow> u8" where
  "signed_side_tag s = (case s of SignedBid \<Rightarrow> 0 | SignedAsk \<Rightarrow> 1)"

definition payload_preimage :: "signed_payload \<Rightarrow> u8 list" where
  "payload_preimage p =
     ascii_bytes ''solana-spot-exchange-lab/order/v1'' @
     u64_bytes (sp_order_id p) @ key_bytes (sp_trader p) @ key_bytes (sp_market p) @
     [signed_side_tag (sp_side p)] @
     u64_bytes (sp_price p) @ u64_bytes (sp_quantity p) @ u64_bytes (sp_nonce p) @
     u64_bytes (sp_expiry_slot p)"

record signed_fill_args =
  sa_settlement_id :: u64
  sa_fill_price :: u64
  sa_fill_quantity :: u64
  sa_buyer_order_hash :: bytes32
  sa_seller_order_hash :: bytes32
  sa_buyer_order :: signed_payload
  sa_buyer_signature :: bytes64
  sa_seller_order :: signed_payload
  sa_seller_signature :: bytes64

record instruction =
  ins_program :: pubkey
  ins_accounts :: "pubkey list"
  ins_data :: "u8 list"

record chain_env =
  ce_sha256 :: "u8 list \<Rightarrow> bytes32"
  ce_slot :: u64
  ce_ed25519_program :: pubkey
  ce_instructions_sysvar :: pubkey
  ce_relative_instruction :: "int \<Rightarrow> instruction option"

section \<open>Helpers\<close>

definition validate_signed_payload ::
  "signed_payload \<Rightarrow> pubkey \<Rightarrow> pubkey \<Rightarrow> signed_side \<Rightarrow> (settlement_error program_error, unit) result" where
  "validate_signed_payload p market trader s =
     and_then (require (sp_market p = market) InvalidSignedOrder) (\<lambda>_.
     and_then (require (sp_trader p = trader) InvalidSignedOrder) (\<lambda>_.
     and_then (require (sp_side p = s) InvalidSignedOrder) (\<lambda>_.
     and_then (require (sp_order_id p > 0) InvalidSignedOrder) (\<lambda>_.
     and_then (require (sp_price p > 0) InvalidSignedOrder) (\<lambda>_.
     and_then (require (sp_quantity p > 0) InvalidSignedOrder) (\<lambda>_.
     and_then (require (sp_nonce p > 0) InvalidSignedOrder) (\<lambda>_.
     require (sp_expiry_slot p > 0) InvalidSignedOrder)))))))"

definition validate_cancel_payload ::
  "signed_payload \<Rightarrow> pubkey \<Rightarrow> pubkey \<Rightarrow> (settlement_error program_error, unit) result" where
  "validate_cancel_payload p market trader =
     and_then (require (sp_market p = market) InvalidSignedOrder) (\<lambda>_.
     and_then (require (sp_trader p = trader) InvalidSignedOrder) (\<lambda>_.
     and_then (require (sp_order_id p > 0) InvalidSignedOrder) (\<lambda>_.
     and_then (require (sp_price p > 0) InvalidSignedOrder) (\<lambda>_.
     and_then (require (sp_quantity p > 0) InvalidSignedOrder) (\<lambda>_.
     and_then (require (sp_nonce p > 0) InvalidSignedOrder) (\<lambda>_.
     require (sp_expiry_slot p > 0) InvalidSignedOrder))))))"

definition validate_fill_rules ::
  "signed_fill_args \<Rightarrow> u64 \<Rightarrow> (settlement_error program_error, unit) result" where
  "validate_fill_rules a slot =
     (let b = sa_buyer_order a; s = sa_seller_order a in
      and_then (require (sp_trader b \<noteq> sp_trader s) InvalidSignedOrder) (\<lambda>_.
      and_then (require (slot \<le> sp_expiry_slot b \<and> slot \<le> sp_expiry_slot s) ChainOrderExpired) (\<lambda>_.
      and_then (require (sp_price b \<ge> sp_price s) ChainPricesDoNotCross) (\<lambda>_.
      and_then (require (sa_fill_price a \<le> sp_price b \<and> sa_fill_price a \<ge> sp_price s)
        ChainFillPriceOutside) (\<lambda>_.
      require (sa_fill_quantity a \<le> sp_quantity b \<and> sa_fill_quantity a \<le> sp_quantity s)
        ChainFillQuantityExceeds)))))"

text \<open>\<open>data.get(a..a + n)\<close>\<close>

definition slice :: "u8 list \<Rightarrow> nat \<Rightarrow> nat \<Rightarrow> u8 list option" where
  "slice data a n = (if a + n \<le> length data then Some (take n (drop a data)) else None)"

definition u16_of_le :: "u8 list \<Rightarrow> u16" where
  "u16_of_le bs = ucast (bs ! 0) + 256 * ucast (bs ! 1)"

definition read_u16 :: "u8 list \<Rightarrow> nat \<Rightarrow> (settlement_error program_error, u16) result" where
  "read_u16 data offset =
     and_then (require_some (slice data offset 2) InvalidEd25519Instruction) (\<lambda>bs. Inr (u16_of_le bs))"

definition require_slice_eq ::
  "u8 list \<Rightarrow> u16 \<Rightarrow> u8 list \<Rightarrow> (settlement_error program_error, unit) result" where
  "require_slice_eq data offset expected =
     and_then (require_some (slice data (unat offset) (length expected)) InvalidEd25519Instruction)
       (\<lambda>actual. require (actual = expected) InvalidEd25519Instruction)"

definition verify_ed25519_instruction ::
  "pubkey \<Rightarrow> instruction \<Rightarrow> u8 list \<Rightarrow> u8 list \<Rightarrow> u8 list
    \<Rightarrow> (settlement_error program_error, unit) result" where
  "verify_ed25519_instruction ed ins pubkey signature message =
     (let data = ins_data ins in
      and_then (require (ins_program ins = ed) InvalidEd25519Instruction) (\<lambda>_.
      and_then (require (ins_accounts ins = []) InvalidEd25519Instruction) (\<lambda>_.
      and_then (require (length data \<ge> 16 \<and> data ! 0 = 1) InvalidEd25519Instruction) (\<lambda>_.
      and_then (read_u16 data 2) (\<lambda>signature_offset.
      and_then (read_u16 data 4) (\<lambda>signature_index.
      and_then (read_u16 data 6) (\<lambda>pubkey_offset.
      and_then (read_u16 data 8) (\<lambda>pubkey_index.
      and_then (read_u16 data 10) (\<lambda>message_offset.
      and_then (read_u16 data 12) (\<lambda>message_size.
      and_then (read_u16 data 14) (\<lambda>message_index.
      and_then (require (signature_index = - 1 \<and> pubkey_index = - 1 \<and> message_index = - 1)
        InvalidEd25519Instruction) (\<lambda>_.
      and_then (require_slice_eq data signature_offset signature) (\<lambda>_.
      and_then (require_slice_eq data pubkey_offset pubkey) (\<lambda>_.
      and_then (require_slice_eq data message_offset message) (\<lambda>_.
      require (unat message_size = length message) InvalidEd25519Instruction)))))))))))))))"

definition verify_previous_ed25519 ::
  "chain_env \<Rightarrow> int \<Rightarrow> pubkey \<Rightarrow> bytes64 \<Rightarrow> u8 list \<Rightarrow> (settlement_error program_error, unit) result" where
  "verify_previous_ed25519 ce index pubkey signature message =
     and_then (ok_or (ce_relative_instruction ce index) SysvarMissing) (\<lambda>ins.
       verify_ed25519_instruction (ce_ed25519_program ce) ins (key_bytes pubkey)
         (le_bytes 64 signature) message)"

definition initialize_fill_state ::
  "pubkey \<Rightarrow> bytes32 \<Rightarrow> u8 \<Rightarrow> order_fill_state \<Rightarrow> (settlement_error program_error, order_fill_state) result"
where
  "initialize_fill_state market h bump f =
     (let f1 = (if fs_market f = 0
                then \<lparr>fs_market = market, fs_order_hash = h, fs_filled = 0, fs_cancelled = False,
                      fs_bump = bump\<rparr>
                else f) in
      and_then (require (fs_market f1 = market \<and> fs_order_hash f1 = h) OrderFillStateMismatch)
        (\<lambda>_. Inr f1))"

definition apply_fill_state ::
  "u64 \<Rightarrow> u64 \<Rightarrow> order_fill_state \<Rightarrow> (settlement_error program_error, order_fill_state) result" where
  "apply_fill_state order_quantity fill_quantity f =
     and_then (require (\<not> fs_cancelled f) OrderCancelled) (\<lambda>_.
     and_then (require_some (checked_add (fs_filled f) fill_quantity) SettlementBalanceOverflow) (\<lambda>n.
     and_then (require (n \<le> order_quantity) ChainFillQuantityExceeds) (\<lambda>_.
       Inr (f\<lparr>fs_filled := n\<rparr>))))"

definition quote_amount_u64 :: "u64 \<Rightarrow> u64 \<Rightarrow> (settlement_error program_error, u64) result" where
  "quote_amount_u64 p q =
     and_then (require_some (checked_mul (ucast p :: u128) (ucast q)) SettlementBalanceOverflow) (\<lambda>v.
       if uint v < 2 ^ 64 then Inr (ucast v) else Inl (Custom SettlementBalanceOverflow))"

definition apply_balance_settlement ::
  "u64 \<Rightarrow> u64 \<Rightarrow> trader_balance \<Rightarrow> trader_balance
    \<Rightarrow> (settlement_error program_error, trader_balance \<times> trader_balance) result" where
  "apply_balance_settlement base quote buyer seller =
     and_then (require_some (checked_sub (tb_quote buyer) quote) ChainInsufficientBalance) (\<lambda>bq.
     and_then (require_some (checked_add (tb_base buyer) base) SettlementBalanceOverflow) (\<lambda>bb.
     and_then (require_some (checked_sub (tb_base seller) base) ChainInsufficientBalance) (\<lambda>sb.
     and_then (require_some (checked_add (tb_quote seller) quote) SettlementBalanceOverflow) (\<lambda>sq.
       Inr (buyer\<lparr>tb_quote := bq, tb_base := bb\<rparr>, seller\<lparr>tb_base := sb, tb_quote := sq\<rparr>)))))"

section \<open>Instructions\<close>

definition load_settling_market ::
  "anchor_env \<Rightarrow> spot_store \<Rightarrow> pubkey \<Rightarrow> pubkey
    \<Rightarrow> (settlement_error program_error, market_config) result" where
  "load_settling_market env accs authority k =
     and_then (load_market env accs k) (\<lambda>m.
     and_then (require (mc_settlement_authority m = authority) UnauthorizedSettlementAuthority)
       (\<lambda>_. Inr m))"

record settle_fill_accounts =
  sf_authority :: pubkey
  sf_market_config :: pubkey
  sf_buyer_key :: pubkey
  sf_seller_key :: pubkey
  sf_buyer_balance :: pubkey
  sf_seller_balance :: pubkey
  sf_receipt :: pubkey
  sf_payer :: pubkey

definition settle_fill ::
  "anchor_env \<Rightarrow> pubkey list \<Rightarrow> settle_fill_accounts \<Rightarrow> u64 \<Rightarrow> u64 \<Rightarrow> u64 \<Rightarrow> spot_store \<Rightarrow> spot_result"
where
  "settle_fill env signers ctx settlement_id base quote accs =
     and_then (need_signer (sf_authority ctx) signers) (\<lambda>_.
     and_then (load_settling_market env accs (sf_authority ctx) (sf_market_config ctx)) (\<lambda>market.
     and_then (load_own_balance ConstraintRaw env accs (sf_market_config ctx) (sf_buyer_key ctx)
       (sf_buyer_balance ctx)) (\<lambda>buyer.
     and_then (load_own_balance ConstraintRaw env accs (sf_market_config ctx) (sf_seller_key ctx)
       (sf_seller_balance ctx)) (\<lambda>seller.
     and_then (check_seeds env (sf_receipt ctx)
       (receipt_seeds (sf_market_config ctx) settlement_id)) (\<lambda>bump.
     and_then (init_fresh accs (sf_receipt ctx) ()) (\<lambda>_.
     and_then (need_signer (sf_payer ctx) signers) (\<lambda>_.
     and_then (check_distinct_mut env
       [sf_buyer_balance ctx, sf_seller_balance ctx, sf_receipt ctx]) (\<lambda>_.
     and_then (require (\<not> mc_paused market) MarketPaused) (\<lambda>_.
     and_then (require (base > 0) InvalidSettlementAmount) (\<lambda>_.
     and_then (require (quote > 0) InvalidSettlementAmount) (\<lambda>_.
     and_then (apply_balance_settlement base quote buyer seller) (\<lambda>(buyer1, seller1).
       Inr (accs(sf_buyer_balance ctx \<mapsto> BalanceAcc buyer1,
                 sf_seller_balance ctx \<mapsto> BalanceAcc seller1,
                 sf_receipt ctx \<mapsto> ReceiptAcc
                   \<lparr>sr_market = sf_market_config ctx, sr_settlement_id = settlement_id,
                    sr_buyer = sf_buyer_key ctx, sr_seller = sf_seller_key ctx,
                    sr_buyer_order_hash = 0, sr_seller_order_hash = 0,
                    sr_base_amount = base, sr_quote_amount = quote, sr_bump = bump\<rparr>))))))))))))))"

record settle_signed_accounts = settle_fill_accounts +
  ss_buyer_fill_state :: pubkey
  ss_seller_fill_state :: pubkey
  ss_instructions_sysvar :: pubkey

definition settle_signed_fill ::
  "anchor_env \<Rightarrow> chain_env \<Rightarrow> pubkey list \<Rightarrow> settle_signed_accounts \<Rightarrow> u64 \<Rightarrow> bytes32 \<Rightarrow> bytes32
    \<Rightarrow> signed_fill_args \<Rightarrow> spot_store \<Rightarrow> spot_result" where
  "settle_signed_fill env ce signers ctx settlement_id buyer_hash seller_hash a accs =
     and_then (need_signer (sf_authority ctx) signers) (\<lambda>_.
     and_then (load_settling_market env accs (sf_authority ctx) (sf_market_config ctx)) (\<lambda>market.
     and_then (load_own_balance ConstraintRaw env accs (sf_market_config ctx) (sf_buyer_key ctx)
       (sf_buyer_balance ctx)) (\<lambda>buyer.
     and_then (load_own_balance ConstraintRaw env accs (sf_market_config ctx) (sf_seller_key ctx)
       (sf_seller_balance ctx)) (\<lambda>seller.
     and_then (check_seeds env (ss_buyer_fill_state ctx)
       (order_fill_seeds (sf_market_config ctx) buyer_hash)) (\<lambda>bfs_bump.
     and_then (init_needed as_fill_state accs (ss_buyer_fill_state ctx) zero_fill_state) (\<lambda>bfs.
     and_then (check_seeds env (ss_seller_fill_state ctx)
       (order_fill_seeds (sf_market_config ctx) seller_hash)) (\<lambda>sfs_bump.
     and_then (init_needed as_fill_state accs (ss_seller_fill_state ctx) zero_fill_state) (\<lambda>sfs.
     and_then (check_seeds env (sf_receipt ctx)
       (receipt_seeds (sf_market_config ctx) settlement_id)) (\<lambda>bump.
     and_then (init_fresh accs (sf_receipt ctx) ()) (\<lambda>_.
     and_then (need_signer (sf_payer ctx) signers) (\<lambda>_.
     and_then (ensure (ss_instructions_sysvar ctx = ce_instructions_sysvar ce) ConstraintAddress) (\<lambda>_.
     and_then (check_distinct_mut env
       [sf_buyer_balance ctx, sf_seller_balance ctx, ss_buyer_fill_state ctx,
        ss_seller_fill_state ctx, sf_receipt ctx]) (\<lambda>_.
     and_then (require (\<not> mc_paused market) MarketPaused) (\<lambda>_.
     and_then (require (sa_fill_price a > 0) InvalidSettlementAmount) (\<lambda>_.
     and_then (require (sa_fill_quantity a > 0) InvalidSettlementAmount) (\<lambda>_.
     and_then (require (sa_settlement_id a = settlement_id \<and> sa_buyer_order_hash a = buyer_hash \<and>
       sa_seller_order_hash a = seller_hash) InvalidSignedOrder) (\<lambda>_.
     and_then (validate_signed_payload (sa_buyer_order a) (sf_market_config ctx) (sf_buyer_key ctx)
       SignedBid) (\<lambda>_.
     and_then (validate_signed_payload (sa_seller_order a) (sf_market_config ctx) (sf_seller_key ctx)
       SignedAsk) (\<lambda>_.
     and_then (validate_fill_rules a (ce_slot ce)) (\<lambda>_.
     let buyer_preimage = payload_preimage (sa_buyer_order a);
         seller_preimage = payload_preimage (sa_seller_order a) in
     and_then (require (ce_sha256 ce buyer_preimage = sa_buyer_order_hash a) OrderHashMismatch) (\<lambda>_.
     and_then (require (ce_sha256 ce seller_preimage = sa_seller_order_hash a) OrderHashMismatch) (\<lambda>_.
     and_then (verify_previous_ed25519 ce (- 2) (sf_buyer_key ctx) (sa_buyer_signature a)
       buyer_preimage) (\<lambda>_.
     and_then (verify_previous_ed25519 ce (- 1) (sf_seller_key ctx) (sa_seller_signature a)
       seller_preimage) (\<lambda>_.
     and_then (initialize_fill_state (sf_market_config ctx) (sa_buyer_order_hash a) bfs_bump bfs) (\<lambda>bfs1.
     and_then (initialize_fill_state (sf_market_config ctx) (sa_seller_order_hash a) sfs_bump sfs) (\<lambda>sfs1.
     and_then (apply_fill_state (sp_quantity (sa_buyer_order a)) (sa_fill_quantity a) bfs1) (\<lambda>bfs2.
     and_then (apply_fill_state (sp_quantity (sa_seller_order a)) (sa_fill_quantity a) sfs1) (\<lambda>sfs2.
     and_then (quote_amount_u64 (sa_fill_price a) (sa_fill_quantity a)) (\<lambda>quote.
     and_then (apply_balance_settlement (sa_fill_quantity a) quote buyer seller) (\<lambda>(buyer1, seller1).
       Inr (accs(sf_buyer_balance ctx \<mapsto> BalanceAcc buyer1,
                 sf_seller_balance ctx \<mapsto> BalanceAcc seller1,
                 ss_buyer_fill_state ctx \<mapsto> FillStateAcc bfs2,
                 ss_seller_fill_state ctx \<mapsto> FillStateAcc sfs2,
                 sf_receipt ctx \<mapsto> ReceiptAcc
                   \<lparr>sr_market = sf_market_config ctx, sr_settlement_id = sa_settlement_id a,
                    sr_buyer = sf_buyer_key ctx, sr_seller = sf_seller_key ctx,
                    sr_buyer_order_hash = sa_buyer_order_hash a,
                    sr_seller_order_hash = sa_seller_order_hash a,
                    sr_base_amount = sa_fill_quantity a, sr_quote_amount = quote,
                    sr_bump = bump\<rparr>))))))))))))))))))))))))))))))))"

record cancel_signed_accounts =
  cs_trader :: pubkey
  cs_market :: pubkey
  cs_fill_state :: pubkey
  cs_payer :: pubkey

definition cancel_signed_order ::
  "anchor_env \<Rightarrow> chain_env \<Rightarrow> pubkey list \<Rightarrow> cancel_signed_accounts \<Rightarrow> bytes32 \<Rightarrow> signed_payload
    \<Rightarrow> spot_store \<Rightarrow> spot_result" where
  "cancel_signed_order env ce signers ctx order_hash p accs =
     and_then (need_signer (cs_trader ctx) signers) (\<lambda>_.
     and_then (load_market env accs (cs_market ctx)) (\<lambda>market.
     and_then (check_seeds env (cs_fill_state ctx) (order_fill_seeds (cs_market ctx) order_hash)) (\<lambda>bump.
     and_then (init_needed as_fill_state accs (cs_fill_state ctx) zero_fill_state) (\<lambda>f.
     and_then (need_signer (cs_payer ctx) signers) (\<lambda>_.
     and_then (require (\<not> mc_paused market) MarketPaused) (\<lambda>_.
     and_then (validate_cancel_payload p (cs_market ctx) (cs_trader ctx)) (\<lambda>_.
     and_then (require (ce_sha256 ce (payload_preimage p) = order_hash) OrderHashMismatch) (\<lambda>_.
     and_then (initialize_fill_state (cs_market ctx) order_hash bump f) (\<lambda>f1.
       Inr (accs(cs_fill_state ctx \<mapsto> FillStateAcc (f1\<lparr>fs_cancelled := True\<rparr>))))))))))))"

end
