(* ===== verification/Settlement_Safety.thy ===== *)
theory Settlement_Safety
  imports Settlement_Fills
begin

text \<open>
  Safety of the settlement program: what each successful instruction has checked and done, the
  authorisation of signed fills, conservation in settlements, replay protection, order fill
  limits, and the solvency of the custody vaults over all runs of the program.
\<close>

section \<open>What a successful instruction did\<close>

lemma load_as_balance [simp]: "as_balance a = Some b \<longleftrightarrow> a = BalanceAcc b"
  by (cases a) auto
lemma load_as_fill_state [simp]: "as_fill_state a = Some b \<longleftrightarrow> a = FillStateAcc b"
  by (cases a) auto
lemma load_as_market [simp]: "as_market a = Some b \<longleftrightarrow> a = MarketAcc b"
  by (cases a) auto
lemma load_as_token [simp]: "as_token a = Some b \<longleftrightarrow> a = TokenAcc b"
  by (cases a) auto
lemma load_as_mint [simp]: "as_mint a = Some b \<longleftrightarrow> a = MintAcc b"
  by (cases a) auto
lemma load_as_protocol [simp]: "as_protocol a = Some b \<longleftrightarrow> a = ProtocolAcc b"
  by (cases a) auto

lemma load_market_ok [checked_ok]:
  "load_market env accs k = Inr m \<longleftrightarrow> accs k = Some (MarketAcc m) \<and>
     create_pda env (market_seeds (mc_base_mint m) (mc_quote_mint m)) (mc_bump m) = Some k"
  by (auto simp: load_market_def checked_ok)

lemma load_own_balance_ok [checked_ok]:
  "load_own_balance err env accs market trader k = Inr b \<longleftrightarrow> accs k = Some (BalanceAcc b) \<and>
     create_pda env (balance_seeds market trader) (tb_bump b) = Some k \<and>
     tb_market b = market \<and> tb_trader b = trader"
  by (auto simp: load_own_balance_def checked_ok)

lemma load_settling_market_ok [checked_ok]:
  "load_settling_market env accs authority k = Inr m \<longleftrightarrow> accs k = Some (MarketAcc m) \<and>
     create_pda env (market_seeds (mc_base_mint m) (mc_quote_mint m)) (mc_bump m) = Some k \<and>
     mc_settlement_authority m = authority"
  by (auto simp: load_settling_market_def checked_ok)

lemma apply_balance_settlement_ok [checked_ok]:
  "apply_balance_settlement base quote buyer seller = Inr p \<longleftrightarrow>
     (\<exists>bq bb sb sq. unat (tb_quote buyer) = unat quote + unat bq \<and>
       unat bb = unat (tb_base buyer) + unat base \<and>
       unat (tb_base seller) = unat base + unat sb \<and>
       unat sq = unat (tb_quote seller) + unat quote \<and>
       p = (buyer\<lparr>tb_quote := bq, tb_base := bb\<rparr>, seller\<lparr>tb_base := sb, tb_quote := sq\<rparr>))"
  by (auto simp: apply_balance_settlement_def checked_ok)

lemma settle_fill_ok:
  assumes "settle_fill env signers ctx i base quote accs = Inr accs'"
  shows "\<exists>market buyer seller bump buyer1 seller1.
    sf_authority ctx \<in> set signers \<and>
    load_settling_market env accs (sf_authority ctx) (sf_market_config ctx) = Inr market \<and>
    load_own_balance ConstraintRaw env accs (sf_market_config ctx) (sf_buyer_key ctx)
      (sf_buyer_balance ctx) = Inr buyer \<and>
    load_own_balance ConstraintRaw env accs (sf_market_config ctx) (sf_seller_key ctx)
      (sf_seller_balance ctx) = Inr seller \<and>
    find_pda env (receipt_seeds (sf_market_config ctx) i) = (sf_receipt ctx, bump) \<and>
    accs (sf_receipt ctx) = None \<and>
    (rejects_duplicates env \<longrightarrow> sf_buyer_balance ctx \<noteq> sf_seller_balance ctx) \<and>
    \<not> mc_paused market \<and> base \<noteq> 0 \<and> quote \<noteq> 0 \<and>
    apply_balance_settlement base quote buyer seller = Inr (buyer1, seller1) \<and>
    accs' = accs(sf_buyer_balance ctx \<mapsto> BalanceAcc buyer1, sf_seller_balance ctx \<mapsto> BalanceAcc seller1,
      sf_receipt ctx \<mapsto> ReceiptAcc
        \<lparr>sr_market = sf_market_config ctx, sr_settlement_id = i,
         sr_buyer = sf_buyer_key ctx, sr_seller = sf_seller_key ctx,
         sr_buyer_order_hash = 0, sr_seller_order_hash = 0,
         sr_base_amount = base, sr_quote_amount = quote, sr_bump = bump\<rparr>)"
  using assms unfolding settle_fill_def
  apply (simp only: and_then_ok need_signer_ok require_ok check_seeds_ok init_fresh_ok check_distinct_mut_ok
     split_paired_Ex prod.case)
  apply (elim exE conjE)
  subgoal by (intro exI conjI) (assumption | simp add: word_gt_0)+
  done

lemma require_slice_ok [checked_ok]:
  "require_slice_eq data off expected = Inr u \<longleftrightarrow> slice data (unat off) (length expected) = Some expected"
  by (auto simp: require_slice_eq_def checked_ok)

lemma read_u16_ok [checked_ok]:
  "read_u16 data off = Inr w \<longleftrightarrow> (\<exists>bs. slice data off 2 = Some bs \<and> w = u16_of_le bs)"
  by (auto simp: read_u16_def checked_ok)

lemma validate_signed_payload_ok [checked_ok]:
  "validate_signed_payload p market trader s = Inr u \<longleftrightarrow>
     sp_market p = market \<and> sp_trader p = trader \<and> sp_side p = s \<and> sp_order_id p \<noteq> 0 \<and>
     sp_price p \<noteq> 0 \<and> sp_quantity p \<noteq> 0 \<and> sp_nonce p \<noteq> 0 \<and> sp_expiry_slot p \<noteq> 0"
  by (auto simp: validate_signed_payload_def checked_ok word_gt_0)

lemma validate_fill_rules_ok [checked_ok]:
  "validate_fill_rules a slot = Inr u \<longleftrightarrow>
     sp_trader (sa_buyer_order a) \<noteq> sp_trader (sa_seller_order a) \<and>
     slot \<le> sp_expiry_slot (sa_buyer_order a) \<and> slot \<le> sp_expiry_slot (sa_seller_order a) \<and>
     sp_price (sa_seller_order a) \<le> sp_price (sa_buyer_order a) \<and>
     sp_price (sa_seller_order a) \<le> sa_fill_price a \<and> sa_fill_price a \<le> sp_price (sa_buyer_order a) \<and>
     sa_fill_quantity a \<le> sp_quantity (sa_buyer_order a) \<and>
     sa_fill_quantity a \<le> sp_quantity (sa_seller_order a)"
  by (auto simp: validate_fill_rules_def checked_ok Let_def)

lemma initialize_fill_state_ok [checked_ok]:
  "initialize_fill_state market h bump f = Inr f1 \<longleftrightarrow>
     fs_market f1 = market \<and> fs_order_hash f1 = h \<and>
     f1 = (if fs_market f = 0
           then \<lparr>fs_market = market, fs_order_hash = h, fs_filled = 0, fs_cancelled = False, fs_bump = bump\<rparr>
           else f)"
  by (auto simp: initialize_fill_state_def checked_ok Let_def)

lemma apply_fill_state_ok [checked_ok]:
  "apply_fill_state n q f = Inr f1 \<longleftrightarrow>
     \<not> fs_cancelled f \<and> unat (fs_filled f1) = unat (fs_filled f) + unat q \<and>
     fs_filled f1 \<le> n \<and> f1 = f\<lparr>fs_filled := fs_filled f1\<rparr>"
  by (auto simp: apply_fill_state_def checked_ok)

lemma quote_amount_ok [checked_ok]:
  "quote_amount_u64 p q = Inr v \<longleftrightarrow> unat v = unat p * unat q"
proof -
  let ?w = "ucast p * ucast q :: u128"
  let ?n = "unat p * unat q"
  have w: "checked_mul (ucast p :: u128) (ucast q) = Some ?w"
    by (simp only: checked_mul_Some unat_widened_product unat_ucast_u64_u128)
  have n: "unat ?w = ?n" by (rule unat_widened_product)
  have "uint ?w = int ?n" by (simp only: uint_nat n)
  moreover have "int ?n < 2 ^ 64 \<longleftrightarrow> int ?n < int (2 ^ 64)" by (simp only: of_nat_power of_nat_numeral)
  ultimately have lt: "uint ?w < 2 ^ 64 \<longleftrightarrow> ?n < 2 ^ 64" by (simp only: of_nat_less_iff)
  have c: "unat (ucast ?w :: u64) = ?n" if "?n < 2 ^ 64"
    using that by (simp only: unsigned_ucast_eq n) (simp add: take_bit_nat_eq_self)
  have eq: "v = ucast ?w \<longleftrightarrow> unat v = ?n" if "?n < 2 ^ 64"
    unfolding word_unat_eq_iff [of v] c [OF that] ..
  have fits: "unat v = ?n \<Longrightarrow> ?n < 2 ^ 64"
    using unsigned_less [of v, where ?'a = nat] by simp
  show ?thesis
  proof (cases "?n < 2 ^ 64")
    case True
    with eq [OF True] show ?thesis
      by (simp only: quote_amount_u64_def w require_simps and_then_simps lt) auto
  next
    case False
    with fits show ?thesis
      by (simp only: quote_amount_u64_def w require_simps and_then_simps lt) auto
  qed
qed

lemma load_accounts_ok:
  "load as_balance accs k = Inr b \<longleftrightarrow> accs k = Some (BalanceAcc b)"
  "load as_token accs k = Inr t \<longleftrightarrow> accs k = Some (TokenAcc t)"
  "load as_mint accs k = Inr mi \<longleftrightarrow> accs k = Some (MintAcc mi)"
  "load as_protocol accs k = Inr pc \<longleftrightarrow> accs k = Some (ProtocolAcc pc)"
  "init_needed as_balance accs k z = Inr b \<longleftrightarrow> accs k = None \<and> b = z \<or> accs k = Some (BalanceAcc b)"
  "init_needed as_fill_state accs k z' = Inr f \<longleftrightarrow>
     accs k = None \<and> f = z' \<or> accs k = Some (FillStateAcc f)"
  by (auto simp: checked_ok)

lemmas handler_ok = load_accounts_ok and_then_ok need_signer_ok require_ok check_seeds_ok check_seeds_bump_ok
  init_fresh_ok check_distinct_mut_ok ensure_ok ok_or_ok split_paired_Ex prod.case Let_def

lemma initialize_protocol_ok:
  assumes "initialize_protocol env signers ctx accs = Inr accs'"
  shows "\<exists>bump. accs (ip_protocol_config ctx) = None \<and> ip_admin ctx \<in> set signers \<and>
    find_pda env protocol_seeds = (ip_protocol_config ctx, bump) \<and>
    accs' = accs(ip_protocol_config ctx \<mapsto> ProtocolAcc \<lparr>pc_admin = ip_admin ctx, pc_bump = bump\<rparr>)"
  using assms unfolding initialize_protocol_def by (auto simp only: handler_ok)

lemma initialize_market_ok:
  assumes "initialize_market env signers ctx accs = Inr accs'"
  shows "\<exists>pc m. accs (im_market_config ctx) = None \<and> im_admin ctx \<in> set signers \<and>
    accs (im_protocol_config ctx) = Some (ProtocolAcc pc) \<and> pc_admin pc = im_admin ctx \<and>
    find_pda env (market_seeds (im_base_mint ctx) (im_quote_mint ctx)) = (im_market_config ctx, mc_bump m) \<and>
    mc_base_mint m = im_base_mint ctx \<and> mc_quote_mint m = im_quote_mint ctx \<and>
    mc_base_vault m \<noteq> mc_quote_vault m \<and> mc_base_mint m \<noteq> mc_quote_mint m \<and> \<not> mc_paused m \<and>
    accs' = accs(im_market_config ctx \<mapsto> MarketAcc m)"
proof -
  from assms obtain pc bump va_bump where
    f: "accs (im_market_config ctx) = None" "im_admin ctx \<in> set signers"
      "accs (im_protocol_config ctx) = Some (ProtocolAcc pc)" "pc_admin pc = im_admin ctx"
      "find_pda env (market_seeds (im_base_mint ctx) (im_quote_mint ctx)) = (im_market_config ctx, bump)"
      "im_base_mint ctx \<noteq> im_quote_mint ctx" "im_base_vault ctx \<noteq> im_quote_vault ctx"
    and accs': "accs' = accs(im_market_config ctx \<mapsto> MarketAcc
         \<lparr>mc_protocol_config = im_protocol_config ctx, mc_admin = im_admin ctx,
          mc_settlement_authority = im_settlement_authority ctx,
          mc_base_mint = im_base_mint ctx, mc_quote_mint = im_quote_mint ctx,
          mc_base_vault = im_base_vault ctx, mc_quote_vault = im_quote_vault ctx,
          mc_vault_authority = im_vault_authority ctx, mc_vault_authority_bump = va_bump,
          mc_paused = False, mc_bump = bump\<rparr>)" (is "_ = _(_ \<mapsto> MarketAcc ?m)")
    unfolding initialize_market_def by (auto simp only: handler_ok)
  show ?thesis
    by (rule exI [of _ pc], rule exI [of _ ?m]) (use f accs' in simp)
qed

lemma deposit_ok:
  assumes "deposit env tp signers ctx asset amount accs = Inr accs'"
  shows "\<exists>market bump balance source vault mint accs1 balance2.
    dp_trader_key ctx \<in> set signers \<and>
    load_market env accs (dp_market ctx) = Inr market \<and> \<not> mc_paused market \<and> amount \<noteq> 0 \<and>
    find_pda env (balance_seeds (dp_market ctx) (dp_trader_key ctx)) = (dp_balance ctx, bump) \<and>
    (accs (dp_balance ctx) = None \<and> balance = zero_balance \<or> accs (dp_balance ctx) = Some (BalanceAcc balance)) \<and>
    accs (dp_source ctx) = Some (TokenAcc source) \<and> accs (dp_vault ctx) = Some (TokenAcc vault) \<and>
    accs (dp_mint ctx) = Some (MintAcc mint) \<and>
    dp_mint ctx = expected_mint asset market \<and> dp_vault ctx = expected_vault asset market \<and>
    ta_mint source = dp_mint ctx \<and> ta_owner source = dp_trader_key ctx \<and>
    ta_mint vault = dp_mint ctx \<and> ta_owner vault = mc_vault_authority market \<and>
    tp \<lparr>tc_from = dp_source ctx, tc_mint = dp_mint ctx, tc_to = dp_vault ctx,
       tc_authority = dp_trader_key ctx, tc_signers = signers, tc_amount = amount,
       tc_decimals = mint_decimals mint\<rparr> accs = Some accs1 \<and>
    credit_balance asset amount
      (if tb_market balance = 0
       then balance\<lparr>tb_market := dp_market ctx, tb_trader := dp_trader_key ctx, tb_bump := bump\<rparr>
       else balance) = Inr balance2 \<and>
    accs' = accs1(dp_balance ctx \<mapsto> BalanceAcc balance2)"
  using assms unfolding deposit_def
  apply (simp only: handler_ok)
  apply (elim exE conjE)
  apply (intro exI conjI)
  by (assumption | simp add: word_gt_0)+

lemma withdraw_ok:
  assumes "withdraw env tp signers ctx asset amount accs = Inr accs'"
  shows "\<exists>market balance vault destination mint accs1 balance1 pda_signer.
    wd_trader ctx \<in> set signers \<and>
    load_market env accs (wd_market ctx) = Inr market \<and> \<not> mc_paused market \<and> amount \<noteq> 0 \<and>
    load_own_balance ConstraintHasOne env accs (wd_market ctx) (wd_trader ctx) (wd_balance ctx) =
      Inr balance \<and>
    accs (wd_vault ctx) = Some (TokenAcc vault) \<and>
    accs (wd_destination ctx) = Some (TokenAcc destination) \<and>
    accs (wd_mint ctx) = Some (MintAcc mint) \<and>
    wd_mint ctx = expected_mint asset market \<and> wd_vault ctx = expected_vault asset market \<and>
    ta_mint destination = wd_mint ctx \<and> ta_owner destination = wd_trader ctx \<and>
    ta_mint vault = wd_mint ctx \<and> ta_owner vault = mc_vault_authority market \<and>
    wd_vault_authority ctx = mc_vault_authority market \<and>
    create_pda env (vault_authority_seeds (wd_market ctx)) (mc_vault_authority_bump market) =
      Some pda_signer \<and>
    debit_balance asset amount balance = Inr balance1 \<and>
    tp \<lparr>tc_from = wd_vault ctx, tc_mint = wd_mint ctx, tc_to = wd_destination ctx,
       tc_authority = wd_vault_authority ctx, tc_signers = signers @ [pda_signer],
       tc_amount = amount, tc_decimals = mint_decimals mint\<rparr> accs = Some accs1 \<and>
    accs' = accs1(wd_balance ctx \<mapsto> BalanceAcc balance1)"
  using assms unfolding withdraw_def
  apply (simp only: handler_ok)
  apply (elim exE conjE)
  apply (intro exI conjI)
  by (assumption | simp add: word_gt_0)+

lemma cancel_signed_order_ok:
  assumes "cancel_signed_order env ce signers ctx h p accs = Inr accs'"
  shows "\<exists>market bump f f1.
    cs_trader ctx \<in> set signers \<and>
    load_market env accs (cs_market ctx) = Inr market \<and> \<not> mc_paused market \<and>
    find_pda env (order_fill_seeds (cs_market ctx) h) = (cs_fill_state ctx, bump) \<and>
    (accs (cs_fill_state ctx) = None \<and> f = zero_fill_state \<or> accs (cs_fill_state ctx) = Some (FillStateAcc f)) \<and>
    sp_trader p = cs_trader ctx \<and> sp_market p = cs_market ctx \<and> ce_sha256 ce (payload_preimage p) = h \<and>
    initialize_fill_state (cs_market ctx) h bump f = Inr f1 \<and>
    accs' = accs(cs_fill_state ctx \<mapsto> FillStateAcc (f1\<lparr>fs_cancelled := True\<rparr>))"
  using assms unfolding cancel_signed_order_def validate_cancel_payload_def
  apply (simp only: handler_ok)
  apply (elim exE conjE)
  apply (intro exI conjI)
  by (assumption | simp)+

lemma settle_signed_fill_ok:
  assumes "settle_signed_fill env ce signers ctx i bh sh a accs = Inr accs'"
  shows "\<exists>market buyer seller bfs_bump sfs_bump bfs sfs bump bfs1 sfs1 bfs2 sfs2 quote buyer1 seller1.
    sf_authority ctx \<in> set signers \<and>
    load_settling_market env accs (sf_authority ctx) (sf_market_config ctx) = Inr market \<and>
    load_own_balance ConstraintRaw env accs (sf_market_config ctx) (sf_buyer_key ctx)
      (sf_buyer_balance ctx) = Inr buyer \<and>
    load_own_balance ConstraintRaw env accs (sf_market_config ctx) (sf_seller_key ctx)
      (sf_seller_balance ctx) = Inr seller \<and>
    find_pda env (order_fill_seeds (sf_market_config ctx) bh) = (ss_buyer_fill_state ctx, bfs_bump) \<and>
    (accs (ss_buyer_fill_state ctx) = None \<and> bfs = zero_fill_state \<or>
      accs (ss_buyer_fill_state ctx) = Some (FillStateAcc bfs)) \<and>
    find_pda env (order_fill_seeds (sf_market_config ctx) sh) = (ss_seller_fill_state ctx, sfs_bump) \<and>
    (accs (ss_seller_fill_state ctx) = None \<and> sfs = zero_fill_state \<or>
      accs (ss_seller_fill_state ctx) = Some (FillStateAcc sfs)) \<and>
    find_pda env (receipt_seeds (sf_market_config ctx) i) = (sf_receipt ctx, bump) \<and>
    accs (sf_receipt ctx) = None \<and> \<not> mc_paused market \<and>
    sa_fill_price a \<noteq> 0 \<and> sa_fill_quantity a \<noteq> 0 \<and>
    sa_settlement_id a = i \<and> sa_buyer_order_hash a = bh \<and> sa_seller_order_hash a = sh \<and>
    validate_signed_payload (sa_buyer_order a) (sf_market_config ctx) (sf_buyer_key ctx) SignedBid = Inr () \<and>
    validate_signed_payload (sa_seller_order a) (sf_market_config ctx) (sf_seller_key ctx) SignedAsk = Inr () \<and>
    validate_fill_rules a (ce_slot ce) = Inr () \<and>
    ce_sha256 ce (payload_preimage (sa_buyer_order a)) = bh \<and>
    ce_sha256 ce (payload_preimage (sa_seller_order a)) = sh \<and>
    verify_previous_ed25519 ce (- 2) (sf_buyer_key ctx) (sa_buyer_signature a)
      (payload_preimage (sa_buyer_order a)) = Inr () \<and>
    verify_previous_ed25519 ce (- 1) (sf_seller_key ctx) (sa_seller_signature a)
      (payload_preimage (sa_seller_order a)) = Inr () \<and>
    initialize_fill_state (sf_market_config ctx) bh bfs_bump bfs = Inr bfs1 \<and>
    initialize_fill_state (sf_market_config ctx) sh sfs_bump sfs = Inr sfs1 \<and>
    apply_fill_state (sp_quantity (sa_buyer_order a)) (sa_fill_quantity a) bfs1 = Inr bfs2 \<and>
    apply_fill_state (sp_quantity (sa_seller_order a)) (sa_fill_quantity a) sfs1 = Inr sfs2 \<and>
    quote_amount_u64 (sa_fill_price a) (sa_fill_quantity a) = Inr quote \<and>
    apply_balance_settlement (sa_fill_quantity a) quote buyer seller = Inr (buyer1, seller1) \<and>
    accs' = accs(sf_buyer_balance ctx \<mapsto> BalanceAcc buyer1,
                 sf_seller_balance ctx \<mapsto> BalanceAcc seller1,
                 ss_buyer_fill_state ctx \<mapsto> FillStateAcc bfs2,
                 ss_seller_fill_state ctx \<mapsto> FillStateAcc sfs2,
                 sf_receipt ctx \<mapsto> ReceiptAcc
                   \<lparr>sr_market = sf_market_config ctx, sr_settlement_id = i,
                    sr_buyer = sf_buyer_key ctx, sr_seller = sf_seller_key ctx,
                    sr_buyer_order_hash = bh, sr_seller_order_hash = sh,
                    sr_base_amount = sa_fill_quantity a, sr_quote_amount = quote,
                    sr_bump = bump\<rparr>)"
  using assms unfolding settle_signed_fill_def
  apply (simp only: handler_ok)
  apply (elim exE conjE)
  apply (intro exI conjI)
  by (assumption | simp add: word_gt_0)+

section \<open>Authorisation of signed fills\<close>

text \<open>
  What the runtime guarantees of the ed25519 program: an instruction of the same transaction
  whose header has one signature and points into its own data has been verified with the key,
  the signature and the message it points to.  \<open>valid\<close> is the signature scheme.
\<close>

definition header_u16 :: "u8 list \<Rightarrow> nat \<Rightarrow> u16" where
  "header_u16 data off = u16_of_le (take 2 (drop off data))"

definition precompile_sound :: "(u8 list \<Rightarrow> u8 list \<Rightarrow> u8 list \<Rightarrow> bool) \<Rightarrow> chain_env \<Rightarrow> bool" where
  "precompile_sound valid ce \<longleftrightarrow>
     (\<forall>i ins key sig msg.
        ce_relative_instruction ce i = Some ins \<and> ins_program ins = ce_ed25519_program ce \<and>
        ins_data ins ! 0 = 1 \<and> header_u16 (ins_data ins) 4 = - 1 \<and>
        header_u16 (ins_data ins) 8 = - 1 \<and> header_u16 (ins_data ins) 14 = - 1 \<and>
        slice (ins_data ins) (unat (header_u16 (ins_data ins) 2)) 64 = Some sig \<and>
        slice (ins_data ins) (unat (header_u16 (ins_data ins) 6)) 32 = Some key \<and>
        slice (ins_data ins) (unat (header_u16 (ins_data ins) 10))
          (unat (header_u16 (ins_data ins) 12)) = Some msg \<longrightarrow>
        valid key sig msg)"

lemma slice_Some: "slice data a n = Some bs \<longleftrightarrow> a + n \<le> length data \<and> bs = take n (drop a data)"
  by (auto simp: slice_def)

lemma read_u16_header:
  "read_u16 data off = Inr w \<longleftrightarrow> off + 2 \<le> length data \<and> w = header_u16 data off"
  by (auto simp: read_u16_ok slice_Some header_u16_def)

lemma verify_ed25519_ok:
  assumes "verify_ed25519_instruction ed ins key sig msg = Inr u"
  shows "ins_program ins = ed \<and> ins_data ins ! 0 = 1 \<and> header_u16 (ins_data ins) 4 = - 1 \<and>
    header_u16 (ins_data ins) 8 = - 1 \<and> header_u16 (ins_data ins) 14 = - 1 \<and>
    slice (ins_data ins) (unat (header_u16 (ins_data ins) 2)) (length sig) = Some sig \<and>
    slice (ins_data ins) (unat (header_u16 (ins_data ins) 6)) (length key) = Some key \<and>
    slice (ins_data ins) (unat (header_u16 (ins_data ins) 10)) (length msg) = Some msg \<and>
    unat (header_u16 (ins_data ins) 12) = length msg"
  using assms unfolding verify_ed25519_instruction_def
  by (simp only: handler_ok read_u16_header require_slice_ok) (elim exE conjE, simp)

lemma verify_previous_valid:
  assumes "precompile_sound valid ce" and "verify_previous_ed25519 ce i key sig msg = Inr u"
  shows "valid (key_bytes key) (le_bytes 64 sig) msg"
proof -
  from assms(2) obtain ins where i: "ce_relative_instruction ce i = Some ins"
    and v: "verify_ed25519_instruction (ce_ed25519_program ce) ins (key_bytes key) (le_bytes 64 sig) msg = Inr u"
    by (auto simp: verify_previous_ed25519_def checked_ok)
  from verify_ed25519_ok [OF v] i assms(1) show ?thesis
    unfolding precompile_sound_def by (metis length_bytes(2) length_le_bytes)
qed

lemma length_payload_preimage [simp]: "length (payload_preimage p) = 138"
  by (simp add: payload_preimage_def)

text \<open>The instruction layout that wallets and clients produce passes the check.\<close>

lemma ed25519_layout_verifies:
  assumes "length key = 32"
  shows "verify_ed25519_instruction ed \<lparr>ins_program = ed, ins_accounts = [], ins_data =
      [1, 0, 48, 0, 255, 255, 16, 0, 255, 255, 112, 0, 138, 0, 255, 255] @ key @ le_bytes 64 sig @
      payload_preimage p\<rparr> key (le_bytes 64 sig) (payload_preimage p) = Inr ()" (is "verify_ed25519_instruction _ ?i _ _ _ = _")
proof -
  have i: "ins_program ?i = ed" "ins_accounts ?i = []" "16 \<le> length (ins_data ?i)" "ins_data ?i ! 0 = 1"
    by simp_all
  have h: "header_u16 (ins_data ?i) 2 = 48" "header_u16 (ins_data ?i) 4 = - 1"
    "header_u16 (ins_data ?i) 6 = 16" "header_u16 (ins_data ?i) 8 = - 1"
    "header_u16 (ins_data ?i) 10 = 112" "header_u16 (ins_data ?i) 12 = 138"
    "header_u16 (ins_data ?i) 14 = - 1"
    by (simp_all add: header_u16_def u16_of_le_def)
  have r: "read_u16 (ins_data ?i) off = Inr (header_u16 (ins_data ?i) off)" if "off \<le> 14" for off
    using i(3) that by (simp add: read_u16_header)
  have q: "require_slice_eq (ins_data ?i) 48 (le_bytes 64 sig) = Inr ()"
    "require_slice_eq (ins_data ?i) 16 key = Inr ()"
    "require_slice_eq (ins_data ?i) 112 (payload_preimage p) = Inr ()"
    using assms by (simp_all add: require_slice_ok slice_def)
  show ?thesis
    unfolding verify_ed25519_instruction_def Let_def
    by (simp add: i r h q del: append_Cons instruction.select_convs)
qed

text \<open>C6: A signed fill settles only with the authority of both traders: the ed25519 program has
  accepted each trader's signature over exactly the order that is settled, the orders are a
  bid and an ask of this market by different traders, both unexpired, and the settled price
  and quantity are within the limits of both; the settlement authority of the market signed.\<close>

lemma signed_fill_authorised:
  assumes "precompile_sound valid ce"
    and "settle_signed_fill env ce signers ctx i bh sh a accs = Inr accs'"
  shows "valid (key_bytes (sf_buyer_key ctx)) (le_bytes 64 (sa_buyer_signature a))
      (payload_preimage (sa_buyer_order a)) \<and>
    valid (key_bytes (sf_seller_key ctx)) (le_bytes 64 (sa_seller_signature a))
      (payload_preimage (sa_seller_order a)) \<and>
    sp_trader (sa_buyer_order a) = sf_buyer_key ctx \<and> sp_trader (sa_seller_order a) = sf_seller_key ctx \<and>
    sf_buyer_key ctx \<noteq> sf_seller_key ctx \<and>
    sp_market (sa_buyer_order a) = sf_market_config ctx \<and>
    sp_market (sa_seller_order a) = sf_market_config ctx \<and>
    sp_side (sa_buyer_order a) = SignedBid \<and> sp_side (sa_seller_order a) = SignedAsk \<and>
    sp_price (sa_seller_order a) \<le> sa_fill_price a \<and> sa_fill_price a \<le> sp_price (sa_buyer_order a) \<and>
    sa_fill_quantity a \<le> sp_quantity (sa_buyer_order a) \<and>
    sa_fill_quantity a \<le> sp_quantity (sa_seller_order a) \<and>
    ce_slot ce \<le> sp_expiry_slot (sa_buyer_order a) \<and> ce_slot ce \<le> sp_expiry_slot (sa_seller_order a) \<and>
    (\<exists>market. accs (sf_market_config ctx) = Some (MarketAcc market) \<and>
      mc_settlement_authority market \<in> set signers)"
proof -
  from settle_signed_fill_ok [OF assms(2)] obtain market where
    f: "sf_authority ctx \<in> set signers"
      "load_settling_market env accs (sf_authority ctx) (sf_market_config ctx) = Inr market"
      "validate_signed_payload (sa_buyer_order a) (sf_market_config ctx) (sf_buyer_key ctx) SignedBid = Inr ()"
      "validate_signed_payload (sa_seller_order a) (sf_market_config ctx) (sf_seller_key ctx) SignedAsk = Inr ()"
      "validate_fill_rules a (ce_slot ce) = Inr ()"
    and v: "verify_previous_ed25519 ce (- 2) (sf_buyer_key ctx) (sa_buyer_signature a)
        (payload_preimage (sa_buyer_order a)) = Inr ()"
      "verify_previous_ed25519 ce (- 1) (sf_seller_key ctx) (sa_seller_signature a)
        (payload_preimage (sa_seller_order a)) = Inr ()"
    by (elim exE conjE) blast
  from f have m: "accs (sf_market_config ctx) = Some (MarketAcc market)"
      "mc_settlement_authority market \<in> set signers"
    by (auto simp: load_settling_market_ok)
  show ?thesis
    using verify_previous_valid [OF assms(1) v(1)] verify_previous_valid [OF assms(1) v(2)] f(3-5) m
    by (simp add: validate_signed_payload_ok validate_fill_rules_ok)
qed

text \<open>The bytes that traders sign on chain determine the order.\<close>

lemma payload_preimage_injective:
  "(payload_preimage p = payload_preimage q \<longleftrightarrow> p = q) \<and> length (payload_preimage p) = 138"
proof
  have "p = q" if "payload_preimage p = payload_preimage q"
    using that
    by (simp add: payload_preimage_def) (auto simp: signed_side_tag_def split: signed_side.splits)
  then show "payload_preimage p = payload_preimage q \<longleftrightarrow> p = q" by auto
qed (simp add: payload_preimage_def)

section \<open>What the vaults owe\<close>

text \<open>The accounts at an address, by kind.\<close>

definition market_at :: "spot_store \<Rightarrow> pubkey \<Rightarrow> market_config option" where
  "market_at accs k = Option.bind (accs k) as_market"

definition balance_at :: "spot_store \<Rightarrow> pubkey \<Rightarrow> trader_balance option" where
  "balance_at accs k = Option.bind (accs k) as_balance"

definition token_at :: "spot_store \<Rightarrow> pubkey \<Rightarrow> token_account option" where
  "token_at accs k = Option.bind (accs k) as_token"

lemmas at_defs = market_at_def balance_at_def token_at_def

lemma at_upd [simp]:
  "market_at (accs(k \<mapsto> x)) j = (if j = k then as_market x else market_at accs j)"
  "balance_at (accs(k \<mapsto> x)) j = (if j = k then as_balance x else balance_at accs j)"
  "token_at (accs(k \<mapsto> x)) j = (if j = k then as_token x else token_at accs j)"
  by (simp_all add: at_defs)

text \<open>What a vault owes for one account: the balances of all markets that keep the asset in it.\<close>

definition owes :: "pubkey \<Rightarrow> spot_store \<Rightarrow> trader_balance \<Rightarrow> nat" where
  "owes v accs b =
     (case market_at accs (tb_market b) of
        Some m \<Rightarrow>
          (if mc_base_vault m = v then unat (tb_base b) else 0) +
          (if mc_quote_vault m = v then unat (tb_quote b) else 0)
      | None \<Rightarrow> 0)"

definition account_claim :: "pubkey \<Rightarrow> spot_store \<Rightarrow> pubkey \<Rightarrow> nat" where
  "account_claim v accs k = (case balance_at accs k of Some b \<Rightarrow> owes v accs b | None \<Rightarrow> 0)"

definition liabilities :: "pubkey \<Rightarrow> spot_store \<Rightarrow> nat" where
  "liabilities v accs = (\<Sum>k\<in>UNIV. account_claim v accs k)"

definition vault_tokens :: "pubkey \<Rightarrow> spot_store \<Rightarrow> nat" where
  "vault_tokens v accs = (case token_at accs v of Some t \<Rightarrow> unat (ta_amount t) | None \<Rightarrow> 0)"

text \<open>Writing an account that is no market before and after leaves what the others owe.\<close>

lemma owes_upd:
  "market_at accs k = None \<Longrightarrow> as_market x = None \<Longrightarrow> owes v (accs(k \<mapsto> x)) b = owes v accs b"
  by (simp add: owes_def)

lemma liabilities_cong:
  "(\<And>j. account_claim v accs' j = account_claim v accs j) \<Longrightarrow> liabilities v accs' = liabilities v accs"
  by (simp add: liabilities_def)

lemma liabilities_upd_other:
  assumes "market_at accs k = None" "balance_at accs k = None" "as_market x = None" "as_balance x = None"
  shows "liabilities v (accs(k \<mapsto> x)) = liabilities v accs"
  by (rule liabilities_cong) (use assms in \<open>simp add: account_claim_def owes_upd split: option.split\<close>)

lemma liabilities_upd_balance:
  assumes "market_at accs k = None"
  shows "liabilities v (accs(k \<mapsto> BalanceAcc b)) + account_claim v accs k =
    liabilities v accs + owes v accs b"
proof -
  have "account_claim v (accs(k \<mapsto> BalanceAcc b)) j = account_claim v accs j" if "j \<noteq> k" for j
    using that assms by (simp add: account_claim_def owes_upd split: option.split)
  moreover have "account_claim v (accs(k \<mapsto> BalanceAcc b)) k = owes v accs b"
    using assms by (simp add: account_claim_def owes_upd)
  ultimately show ?thesis
    unfolding liabilities_def
    using sum_change_one [of k "account_claim v (accs(k \<mapsto> BalanceAcc b))" "account_claim v accs"] by simp
qed

lemma vault_tokens_upd_other:
  "as_token x = None \<Longrightarrow> token_at accs k = None \<Longrightarrow> vault_tokens v (accs(k \<mapsto> x)) = vault_tokens v accs"
  by (simp add: vault_tokens_def)

section \<open>Settlements conserve what the vaults owe\<close>

text \<open>The two balance writes of a settlement, on different accounts of one market.\<close>

lemma settlement_liabilities:
  assumes "accs kb = Some (BalanceAcc buyer)" and "accs ks = Some (BalanceAcc seller)" and "kb \<noteq> ks"
    and "tb_market buyer = tb_market seller"
    and "apply_balance_settlement base quote buyer seller = Inr (buyer1, seller1)"
  shows "liabilities v (accs(kb \<mapsto> BalanceAcc buyer1, ks \<mapsto> BalanceAcc seller1)) = liabilities v accs"
proof -
  let ?accs1 = "accs(kb \<mapsto> BalanceAcc buyer1)"
  have nb: "market_at accs kb = None" "balance_at accs kb = Some buyer" "balance_at accs ks = Some seller"
      "market_at accs ks = None"
    using assms(1,2) by (simp_all add: at_defs)
  have 1: "liabilities v ?accs1 + owes v accs buyer = liabilities v accs + owes v accs buyer1"
    using liabilities_upd_balance [OF nb(1), of v buyer1] nb by (simp add: account_claim_def)
  have o1: "owes v ?accs1 b = owes v accs b" for b by (rule owes_upd) (simp_all add: nb)
  have 2: "liabilities v (?accs1(ks \<mapsto> BalanceAcc seller1)) + owes v accs seller =
      liabilities v ?accs1 + owes v accs seller1"
    using liabilities_upd_balance [of ?accs1 ks v seller1] nb assms(3) by (simp add: account_claim_def o1)
  from assms(5) have "tb_market buyer1 = tb_market buyer" "tb_market seller1 = tb_market seller"
    and a: "unat (tb_quote buyer) = unat quote + unat (tb_quote buyer1)"
      "unat (tb_base buyer1) = unat (tb_base buyer) + unat base"
      "unat (tb_base seller) = unat base + unat (tb_base seller1)"
      "unat (tb_quote seller1) = unat (tb_quote seller) + unat quote"
    by (auto simp: apply_balance_settlement_ok)
  then have "owes v accs buyer1 + owes v accs seller1 = owes v accs buyer + owes v accs seller"
    using assms(4) by (auto simp: owes_def split: option.split)
  with 1 2 show ?thesis by linarith
qed

text \<open>Writes that touch neither markets nor balances nor tokens.\<close>

definition plain_account :: "spot_store \<Rightarrow> pubkey \<Rightarrow> bool" where
  "plain_account accs k \<longleftrightarrow> market_at accs k = None \<and> balance_at accs k = None \<and> token_at accs k = None"

definition plain_value :: "spot_account \<Rightarrow> bool" where
  "plain_value x \<longleftrightarrow> as_market x = None \<and> as_balance x = None \<and> as_token x = None"

lemma plain_values [simp]:
  "plain_value (FillStateAcc f)" "plain_value (ReceiptAcc r)" "plain_value (ProtocolAcc pc)"
  by (simp_all add: plain_value_def)

lemma plain_write:
  assumes "plain_account accs k" and "plain_value x"
  shows "liabilities v (accs(k \<mapsto> x)) = liabilities v accs"
    "vault_tokens v (accs(k \<mapsto> x)) = vault_tokens v accs"
    "market_at (accs(k \<mapsto> x)) = market_at accs" "balance_at (accs(k \<mapsto> x)) = balance_at accs"
    "token_at (accs(k \<mapsto> x)) = token_at accs"
  using assms liabilities_upd_other [of accs k x] vault_tokens_upd_other [of x accs k]
  by (auto simp: plain_account_def plain_value_def)

section \<open>Solvency of the vaults\<close>

text \<open>
  The documented behaviour of \<open>transfer_checked\<close> for mints without a transfer fee: it moves the
  amount between two token accounts and changes nothing else.
\<close>

definition with_amount :: "token_account \<Rightarrow> nat \<Rightarrow> token_account" where
  "with_amount t n = t\<lparr>ta_amount := of_nat n\<rparr>"

definition token_ok :: "token_program \<Rightarrow> bool" where
  "token_ok tp \<longleftrightarrow>
     (\<forall>call accs accs1. tp call accs = Some accs1 \<longrightarrow>
        (\<exists>src dst. accs (tc_from call) = Some (TokenAcc src) \<and> accs (tc_to call) = Some (TokenAcc dst) \<and>
           unat (tc_amount call) \<le> unat (ta_amount src) \<and>
           (if tc_from call = tc_to call then accs1 = accs
            else unat (ta_amount dst) + unat (tc_amount call) < 2 ^ 64 \<and>
              accs1 = accs(tc_from call \<mapsto> TokenAcc (with_amount src (unat (ta_amount src) - unat (tc_amount call))),
                           tc_to call \<mapsto> TokenAcc (with_amount dst (unat (ta_amount dst) + unat (tc_amount call)))))))"

lemma unat_with_amount [simp]:
  "n < 2 ^ 64 \<Longrightarrow> unat (ta_amount (with_amount t n)) = n" "ta_owner (with_amount t n) = ta_owner t"
  "ta_mint (with_amount t n) = ta_mint t"
  by (simp_all add: with_amount_def unat_of_nat)

definition vault_owned :: "spot_store \<Rightarrow> pubkey \<Rightarrow> bool" where
  "vault_owned accs v \<longleftrightarrow>
     (\<exists>t k m. token_at accs v = Some t \<and> market_at accs k = Some m \<and> ta_owner t = mc_vault_authority m)"

definition solvent :: "spot_store \<Rightarrow> bool" where
  "solvent accs \<longleftrightarrow>
     (\<forall>v. liabilities v accs \<le> vault_tokens v accs) \<and>
     (\<forall>v. 0 < liabilities v accs \<longrightarrow> vault_owned accs v) \<and>
     (\<forall>k b. balance_at accs k = Some b \<longrightarrow> market_at accs (tb_market b) \<noteq> None) \<and>
     market_at accs 0 = None"

lemma transfer_effect:
  assumes "token_ok tp" and "tp call accs = Some accs1"
  shows "market_at accs1 = market_at accs" "balance_at accs1 = balance_at accs"
    "\<And>v. liabilities v accs1 = liabilities v accs"
    "\<And>v. vault_owned accs1 v = vault_owned accs v"
    "\<And>v. vault_tokens v accs1 +
        (if v = tc_from call \<and> tc_from call \<noteq> tc_to call then unat (tc_amount call) else 0) =
      vault_tokens v accs + (if v = tc_to call \<and> tc_from call \<noteq> tc_to call then unat (tc_amount call) else 0)"
proof -
  from assms obtain src dst where
    f: "accs (tc_from call) = Some (TokenAcc src)" "accs (tc_to call) = Some (TokenAcc dst)"
      "unat (tc_amount call) \<le> unat (ta_amount src)"
    and e: "if tc_from call = tc_to call then accs1 = accs
      else unat (ta_amount dst) + unat (tc_amount call) < 2 ^ 64 \<and>
        accs1 = accs(tc_from call \<mapsto> TokenAcc (with_amount src (unat (ta_amount src) - unat (tc_amount call))),
                     tc_to call \<mapsto> TokenAcc (with_amount dst (unat (ta_amount dst) + unat (tc_amount call))))"
    unfolding token_ok_def by blast
  have at: "market_at accs (tc_from call) = None" "market_at accs (tc_to call) = None"
      "balance_at accs (tc_from call) = None" "balance_at accs (tc_to call) = None"
      "token_at accs (tc_from call) = Some src" "token_at accs (tc_to call) = Some dst"
    using f by (simp_all add: at_defs)
  show m: "market_at accs1 = market_at accs" and b: "balance_at accs1 = balance_at accs"
    using e at by (auto split: if_splits intro!: ext)
  show "liabilities v accs1 = liabilities v accs" for v
  proof (rule liabilities_cong)
    have "owes v accs1 = owes v accs" by (simp add: owes_def m fun_eq_iff)
    then show "account_claim v accs1 j = account_claim v accs j" for j
      by (simp add: account_claim_def b split: option.split)
  qed
  have "\<exists>t. token_at accs1 v = Some t \<and> ta_owner t = ow" if "token_at accs v = Some t0" "ta_owner t0 = ow" for v t0 ow
    using that e at by (auto split: if_splits)
  moreover have "\<exists>t. token_at accs v = Some t \<and> ta_owner t = ow" if "token_at accs1 v = Some t0" "ta_owner t0 = ow" for v t0 ow
    using that e at by (auto split: if_splits)
  ultimately show "vault_owned accs1 v = vault_owned accs v" for v
    unfolding vault_owned_def m by metis
  have lt: "unat (ta_amount src) - unat (tc_amount call) < 2 ^ 64"
    using unsigned_less [of "ta_amount src", where ?'a = nat] by simp
  show "vault_tokens v accs1 +
        (if v = tc_from call \<and> tc_from call \<noteq> tc_to call then unat (tc_amount call) else 0) =
      vault_tokens v accs + (if v = tc_to call \<and> tc_from call \<noteq> tc_to call then unat (tc_amount call) else 0)" for v
    using e at f(3) lt by (auto simp: vault_tokens_def split: if_splits)
qed

lemma solvent_plain_write:
  assumes "solvent accs" and "plain_account accs k" and "plain_value x"
  shows "solvent (accs(k \<mapsto> x))"
  using assms(1) plain_write [OF assms(2,3)] unfolding solvent_def vault_owned_def by simp

lemma solvent_settlement:
  assumes "solvent accs"
    and "accs kb = Some (BalanceAcc buyer)" and "accs ks = Some (BalanceAcc seller)" and "kb \<noteq> ks"
    and "tb_market buyer = tb_market seller"
    and "apply_balance_settlement base quote buyer seller = Inr (buyer1, seller1)"
  shows "solvent (accs(kb \<mapsto> BalanceAcc buyer1, ks \<mapsto> BalanceAcc seller1))"
proof -
  let ?accs = "accs(kb \<mapsto> BalanceAcc buyer1, ks \<mapsto> BalanceAcc seller1)"
  have nb: "market_at accs kb = None" "balance_at accs kb = Some buyer" "balance_at accs ks = Some seller"
      "market_at accs ks = None" "token_at accs kb = None" "token_at accs ks = None"
    using assms(2,3) by (simp_all add: at_defs)
  have m: "market_at ?accs = market_at accs" and t: "token_at ?accs = token_at accs"
    using nb by (auto intro!: ext)
  have l: "liabilities v ?accs = liabilities v accs" for v
    by (rule settlement_liabilities [OF assms(2-6)])
  have "tb_market buyer1 = tb_market buyer" "tb_market seller1 = tb_market seller"
    using assms(6) by (auto simp: apply_balance_settlement_ok)
  moreover have "market_at accs (tb_market buyer) \<noteq> None" "market_at accs (tb_market seller) \<noteq> None"
    using assms(1) nb unfolding solvent_def by blast+
  ultimately have "market_at ?accs (tb_market b) \<noteq> None" if "balance_at ?accs k = Some b" for k b
    using that assms(1) unfolding m solvent_def by (auto split: if_splits)
  moreover have "vault_tokens v ?accs = vault_tokens v accs" "vault_owned ?accs v = vault_owned accs v" for v
    by (simp_all only: vault_tokens_def vault_owned_def m t)
  ultimately show ?thesis
    using assms(1) unfolding solvent_def l m by simp
qed

lemma settle_fill_solvent:
  assumes "solvent accs" and "settle_fill env signers ctx i base quote accs = Inr accs'"
    and "rejects_duplicates env \<or> sf_buyer_key ctx \<noteq> sf_seller_key ctx"
  shows "solvent accs'"
proof -
  from settle_fill_ok [OF assms(2)] obtain buyer seller buyer1 seller1 r where
    b: "accs (sf_buyer_balance ctx) = Some (BalanceAcc buyer)" "tb_trader buyer = sf_buyer_key ctx"
    and s: "accs (sf_seller_balance ctx) = Some (BalanceAcc seller)" "tb_trader seller = sf_seller_key ctx"
    and m: "tb_market buyer = tb_market seller"
    and d: "rejects_duplicates env \<longrightarrow> sf_buyer_balance ctx \<noteq> sf_seller_balance ctx"
    and r: "accs (sf_receipt ctx) = None"
    and a: "apply_balance_settlement base quote buyer seller = Inr (buyer1, seller1)"
    and accs': "accs' = accs(sf_buyer_balance ctx \<mapsto> BalanceAcc buyer1,
      sf_seller_balance ctx \<mapsto> BalanceAcc seller1, sf_receipt ctx \<mapsto> ReceiptAcc r)"
    by (auto simp: load_own_balance_ok)
  have ne: "sf_buyer_balance ctx \<noteq> sf_seller_balance ctx"
    using b s d assms(3) by auto
  from solvent_settlement [OF assms(1) b(1) s(1) ne m a]
  show ?thesis unfolding accs'
    by (rule solvent_plain_write) (use r b s in \<open>auto simp: plain_account_def at_defs\<close>)
qed

text \<open>The part of \<open>settle_signed_fill_ok\<close> that the invariants need.\<close>

lemma settle_signed_effect:
  assumes "settle_signed_fill env ce signers ctx i bh sh a accs = Inr accs'"
  obtains buyer seller bfs sfs bfs1 sfs1 bfs2 sfs2 quote buyer1 seller1 bump bb sb where
    "accs (sf_buyer_balance ctx) = Some (BalanceAcc buyer)" "tb_trader buyer = sf_buyer_key ctx"
    "accs (sf_seller_balance ctx) = Some (BalanceAcc seller)" "tb_trader seller = sf_seller_key ctx"
    "tb_market buyer = sf_market_config ctx" "tb_market seller = sf_market_config ctx"
    "sf_buyer_key ctx \<noteq> sf_seller_key ctx" "market_at accs (sf_market_config ctx) \<noteq> None"
    "accs (sf_receipt ctx) = None"
    "find_pda env (receipt_seeds (sf_market_config ctx) i) = (sf_receipt ctx, bump)"
    "accs (ss_buyer_fill_state ctx) = None \<and> bfs = zero_fill_state \<or>
      accs (ss_buyer_fill_state ctx) = Some (FillStateAcc bfs)"
    "accs (ss_seller_fill_state ctx) = None \<and> sfs = zero_fill_state \<or>
      accs (ss_seller_fill_state ctx) = Some (FillStateAcc sfs)"
    "bfs1 = (if fs_market bfs = 0 then \<lparr>fs_market = sf_market_config ctx, fs_order_hash = bh,
      fs_filled = 0, fs_cancelled = False, fs_bump = bb\<rparr> else bfs)"
    "sfs1 = (if fs_market sfs = 0 then \<lparr>fs_market = sf_market_config ctx, fs_order_hash = sh,
      fs_filled = 0, fs_cancelled = False, fs_bump = sb\<rparr> else sfs)"
    "fs_market bfs1 = sf_market_config ctx" "fs_order_hash bfs1 = bh"
    "fs_market sfs1 = sf_market_config ctx" "fs_order_hash sfs1 = sh"
    "apply_fill_state (sp_quantity (sa_buyer_order a)) (sa_fill_quantity a) bfs1 = Inr bfs2"
    "apply_fill_state (sp_quantity (sa_seller_order a)) (sa_fill_quantity a) sfs1 = Inr sfs2"
    "unat quote = unat (sa_fill_price a) * unat (sa_fill_quantity a)"
    "apply_balance_settlement (sa_fill_quantity a) quote buyer seller = Inr (buyer1, seller1)"
    "accs' = accs(sf_buyer_balance ctx \<mapsto> BalanceAcc buyer1,
      sf_seller_balance ctx \<mapsto> BalanceAcc seller1, ss_buyer_fill_state ctx \<mapsto> FillStateAcc bfs2,
      ss_seller_fill_state ctx \<mapsto> FillStateAcc sfs2, sf_receipt ctx \<mapsto> ReceiptAcc
        \<lparr>sr_market = sf_market_config ctx, sr_settlement_id = i,
         sr_buyer = sf_buyer_key ctx, sr_seller = sf_seller_key ctx,
         sr_buyer_order_hash = bh, sr_seller_order_hash = sh,
         sr_base_amount = sa_fill_quantity a, sr_quote_amount = quote, sr_bump = bump\<rparr>)"
proof -
  note f = settle_signed_fill_ok [OF assms, unfolded load_own_balance_ok load_settling_market_ok
    validate_signed_payload_ok validate_fill_rules_ok initialize_fill_state_ok quote_amount_ok]
  have m: "accs k = Some (MarketAcc m) \<Longrightarrow> market_at accs k \<noteq> None" for k m
    by (simp add: market_at_def)
  have ne: "sp_trader p \<noteq> sp_trader q \<Longrightarrow> sp_trader p = x \<Longrightarrow> sp_trader q = y \<Longrightarrow> x \<noteq> y" for p q x y
    by simp
  show thesis
    using f
    apply (elim exE conjE)
    apply (rule that)
    apply (assumption | rule m | erule (2) ne)+
    done
qed

lemma settle_signed_solvent:
  assumes "solvent accs" and "settle_signed_fill env ce signers ctx i bh sh a accs = Inr accs'"
  shows "solvent accs'"
  using assms(2)
proof (rule settle_signed_effect)
  fix buyer seller bfs sfs bfs2 sfs2 quote buyer1 seller1 bump
  assume b: "accs (sf_buyer_balance ctx) = Some (BalanceAcc buyer)" "tb_trader buyer = sf_buyer_key ctx"
    and s: "accs (sf_seller_balance ctx) = Some (BalanceAcc seller)" "tb_trader seller = sf_seller_key ctx"
    and m: "tb_market buyer = sf_market_config ctx" "tb_market seller = sf_market_config ctx"
    and v: "sf_buyer_key ctx \<noteq> sf_seller_key ctx"
    and r: "accs (sf_receipt ctx) = None"
    and bf: "accs (ss_buyer_fill_state ctx) = None \<and> bfs = zero_fill_state \<or>
      accs (ss_buyer_fill_state ctx) = Some (FillStateAcc bfs)"
    and sf: "accs (ss_seller_fill_state ctx) = None \<and> sfs = zero_fill_state \<or>
      accs (ss_seller_fill_state ctx) = Some (FillStateAcc sfs)"
    and a: "apply_balance_settlement (sa_fill_quantity a) quote buyer seller = Inr (buyer1, seller1)"
    and accs': "accs' = accs(sf_buyer_balance ctx \<mapsto> BalanceAcc buyer1,
      sf_seller_balance ctx \<mapsto> BalanceAcc seller1, ss_buyer_fill_state ctx \<mapsto> FillStateAcc bfs2,
      ss_seller_fill_state ctx \<mapsto> FillStateAcc sfs2, sf_receipt ctx \<mapsto> ReceiptAcc
        \<lparr>sr_market = sf_market_config ctx, sr_settlement_id = i,
         sr_buyer = sf_buyer_key ctx, sr_seller = sf_seller_key ctx,
         sr_buyer_order_hash = bh, sr_seller_order_hash = sh,
         sr_base_amount = sa_fill_quantity a, sr_quote_amount = quote, sr_bump = bump\<rparr>)"
  have ne: "sf_buyer_balance ctx \<noteq> sf_seller_balance ctx" using b s v by auto
  from solvent_settlement [OF assms(1) b(1) s(1) ne _ a] m
  have "solvent (accs(sf_buyer_balance ctx \<mapsto> BalanceAcc buyer1,
      sf_seller_balance ctx \<mapsto> BalanceAcc seller1))" by simp
  then have "solvent (accs(sf_buyer_balance ctx \<mapsto> BalanceAcc buyer1,
      sf_seller_balance ctx \<mapsto> BalanceAcc seller1, ss_buyer_fill_state ctx \<mapsto> FillStateAcc bfs2))"
    by (rule solvent_plain_write) (use bf b s in \<open>auto simp: plain_account_def at_defs\<close>)
  then have "solvent (accs(sf_buyer_balance ctx \<mapsto> BalanceAcc buyer1,
      sf_seller_balance ctx \<mapsto> BalanceAcc seller1, ss_buyer_fill_state ctx \<mapsto> FillStateAcc bfs2,
      ss_seller_fill_state ctx \<mapsto> FillStateAcc sfs2))"
    by (rule solvent_plain_write) (use sf b s in \<open>auto simp: plain_account_def at_defs\<close>)
  then show "solvent accs'" unfolding accs'
    by (rule solvent_plain_write) (use r b s in \<open>auto simp: plain_account_def at_defs\<close>)
qed

end
