(* ===== verification/Settlement_Custody.thy ===== *)
theory Settlement_Custody
  imports Settlement_Safety
begin

text \<open>
  Custody of the spot settlement program (\<open>programs/spot-settlement\<close>): every instruction keeps the
  vaults solvent, accounts change only in the ways their kind allows, and both hold over whole
  runs of transactions (\<open>lib.rs\<close>) interleaved with token movements outside the program.
\<close>

section \<open>Single instructions keep the vaults solvent\<close>

lemma solvent_fresh_market:
  assumes "solvent accs" and "accs k = None" and "k \<noteq> 0"
  shows "solvent (accs(k \<mapsto> MarketAcc m))"
proof -
  let ?accs = "accs(k \<mapsto> MarketAcc m)"
  have none: "market_at accs k = None" "balance_at accs k = None" "token_at accs k = None"
    using assms(2) by (simp_all add: at_defs)
  have mk: "\<And>j b. balance_at accs j = Some b \<Longrightarrow> market_at accs (tb_market b) \<noteq> None"
    using assms(1) by (simp add: solvent_def)
  have bal: "balance_at ?accs = balance_at accs" and tok: "token_at ?accs = token_at accs"
    using none by (auto intro!: ext)
  have "owes v ?accs b = owes v accs b" if "balance_at accs j = Some b" for v j b
    using mk [OF that] none(1) by (auto simp: owes_def)
  then have l: "liabilities v ?accs = liabilities v accs" for v
    by (intro liabilities_cong) (simp add: account_claim_def bal split: option.split)
  have mm: "\<And>j m0. market_at accs j = Some m0 \<Longrightarrow> market_at ?accs j = Some m0"
    using none(1) by auto
  have "vault_owned accs v \<Longrightarrow> vault_owned ?accs v" for v
    unfolding vault_owned_def tok using mm by metis
  moreover have "balance_at accs j = Some b \<Longrightarrow> market_at ?accs (tb_market b) \<noteq> None" for j b
    using mk [of j b] mm by fastforce
  ultimately show ?thesis
    using assms(1,3) unfolding solvent_def l bal by (simp add: vault_tokens_def tok)
qed

text \<open>A balance write that changes what one vault owes by as much as its tokens have changed.\<close>

lemma credit_balance_owes:
  assumes "credit_balance asset amount b = Inr b'" and "market_at accs (tb_market b) = Some m"
  shows "owes v accs b' = owes v accs b + (if v = expected_vault asset m then unat amount else 0)"
    "tb_market b' = tb_market b"
  using assms
  by (auto simp: credit_balance_def checked_ok owes_def expected_vault_def split: custody_asset.splits)

lemma debit_balance_owes:
  assumes "debit_balance asset amount b = Inr b'" and "market_at accs (tb_market b) = Some m"
  shows "owes v accs b = owes v accs b' + (if v = expected_vault asset m then unat amount else 0)"
    "tb_market b' = tb_market b"
  using assms
  by (auto simp: debit_balance_def checked_ok owes_def expected_vault_def split: custody_asset.splits)

definition custody_wf :: "spot_store \<Rightarrow> bool" where
  "custody_wf accs \<longleftrightarrow>
     (\<forall>v. 0 < liabilities v accs \<longrightarrow> vault_owned accs v) \<and>
     (\<forall>k b. balance_at accs k = Some b \<longrightarrow> market_at accs (tb_market b) \<noteq> None) \<and>
     market_at accs 0 = None"

lemma solvent_iff: "solvent accs \<longleftrightarrow> (\<forall>v. liabilities v accs \<le> vault_tokens v accs) \<and> custody_wf accs"
  by (simp add: solvent_def custody_wf_def)

lemma transfer_custody_wf:
  assumes "token_ok tp" and "tp call accs = Some accs1"
  shows "custody_wf accs1 \<longleftrightarrow> custody_wf accs"
  by (simp add: custody_wf_def transfer_effect [OF assms])

lemma transfer_token_at:
  assumes "token_ok tp" and "tp call accs = Some accs1" and "token_at accs k = None"
  shows "token_at accs1 k = None"
proof -
  from assms(1,2) obtain src dst x y where
    "accs (tc_from call) = Some (TokenAcc src)" "accs (tc_to call) = Some (TokenAcc dst)"
    and "accs1 = accs \<or> accs1 = accs(tc_from call \<mapsto> TokenAcc x, tc_to call \<mapsto> TokenAcc y)"
    unfolding token_ok_def by metis
  with assms(3) show ?thesis by (auto simp: token_at_def)
qed

lemma solvent_balance_write:
  assumes "custody_wf accs" and k: "market_at accs k = None" "token_at accs k = None"
    and b': "market_at accs (tb_market b') \<noteq> None"
    and le: "\<And>v. liabilities v accs + owes v accs b' \<le> vault_tokens v accs + account_claim v accs k"
    and own: "\<And>v. account_claim v accs k < owes v accs b' \<Longrightarrow> vault_owned accs v"
  shows "solvent (accs(k \<mapsto> BalanceAcc b'))"
proof -
  let ?accs = "accs(k \<mapsto> BalanceAcc b')"
  have m: "market_at ?accs = market_at accs" and t: "token_at ?accs = token_at accs"
    using k by (auto intro!: ext)
  have l: "liabilities v ?accs + account_claim v accs k = liabilities v accs + owes v accs b'" for v
    by (rule liabilities_upd_balance [OF k(1)])
  have "liabilities v ?accs \<le> vault_tokens v ?accs" for v
    using l [of v] le [of v] by (simp add: vault_tokens_def t)
  moreover have "vault_owned ?accs v" if "0 < liabilities v ?accs" for v
  proof -
    have "vault_owned accs v"
    proof (cases "account_claim v accs k < owes v accs b'")
      case True
      then show ?thesis by (rule own)
    next
      case False
      with that l [of v] have "0 < liabilities v accs" by linarith
      then show ?thesis using assms(1) by (simp add: custody_wf_def)
    qed
    then show ?thesis by (simp only: vault_owned_def m t)
  qed
  moreover have "market_at accs (tb_market b) \<noteq> None" if "balance_at ?accs j = Some b" for j b
  proof (cases "j = k")
    case True
    with that b' show ?thesis by simp
  next
    case False
    with that have "balance_at accs j = Some b" by simp
    then show ?thesis using assms(1) unfolding custody_wf_def by blast
  qed
  ultimately show ?thesis
    using assms(1) unfolding solvent_def custody_wf_def m by simp
qed

text \<open>
  What holds of the transactions of a run: nobody signs for a vault authority, which is a derived
  address without a private key, and the balance account that a deposit finds at the derived
  address of its market and trader is theirs (derived addresses do not collide).
\<close>

definition authorities_offline :: "pubkey list \<Rightarrow> spot_store \<Rightarrow> bool" where
  "authorities_offline signers accs \<longleftrightarrow>
     (\<forall>k m. market_at accs k = Some m \<longrightarrow> mc_vault_authority m \<notin> set signers)"

definition own_balance :: "deposit_accounts \<Rightarrow> spot_store \<Rightarrow> bool" where
  "own_balance ctx accs \<longleftrightarrow>
     (\<forall>b. balance_at accs (dp_balance ctx) = Some b \<longrightarrow>
        tb_market b = dp_market ctx \<and> tb_trader b = dp_trader_key ctx)"

lemma unsigned_source_owes_nothing:
  assumes "solvent accs" and "authorities_offline signers accs"
    and "accs k = Some (TokenAcc t)" and "ta_owner t \<in> set signers"
  shows "liabilities k accs = 0"
proof (rule ccontr)
  assume "liabilities k accs \<noteq> 0"
  with assms(1) have "vault_owned accs k" by (simp add: solvent_def)
  with assms(2-4) show False by (auto simp: vault_owned_def authorities_offline_def token_at_def)
qed

lemma deposit_effect:
  assumes "deposit env tp signers ctx asset amount accs = Inr accs'"
  obtains market bump balance source vault and mint :: mint_account and accs1 balance2 where
    "dp_trader_key ctx \<in> set signers"
    "load_market env accs (dp_market ctx) = Inr market"
    "accs (dp_balance ctx) = None \<and> balance = zero_balance \<or>
      accs (dp_balance ctx) = Some (BalanceAcc balance)"
    "accs (dp_source ctx) = Some (TokenAcc source)" "ta_owner source = dp_trader_key ctx"
    "accs (dp_vault ctx) = Some (TokenAcc vault)" "dp_vault ctx = expected_vault asset market"
    "ta_owner vault = mc_vault_authority market"
    "tp \<lparr>tc_from = dp_source ctx, tc_mint = dp_mint ctx, tc_to = dp_vault ctx,
       tc_authority = dp_trader_key ctx, tc_signers = signers, tc_amount = amount,
       tc_decimals = mint_decimals mint\<rparr> accs = Some accs1"
    "credit_balance asset amount
      (if tb_market balance = 0
       then balance\<lparr>tb_market := dp_market ctx, tb_trader := dp_trader_key ctx, tb_bump := bump\<rparr>
       else balance) = Inr balance2"
    "accs' = accs1(dp_balance ctx \<mapsto> BalanceAcc balance2)"
  using deposit_ok [OF assms]
  apply (elim exE conjE)
  apply (rule that)
  apply assumption+
  done

lemma deposit_solvent:
  assumes inv: "solvent accs" and tp: "token_ok tp" and off: "authorities_offline signers accs"
    and own: "own_balance ctx accs" and d: "deposit env tp signers ctx asset amount accs = Inr accs'"
  shows "solvent accs'"
  using d
proof (rule deposit_effect)
  fix market bump balance source vault and mint :: mint_account and accs1 balance2
  assume tr: "dp_trader_key ctx \<in> set signers"
    and mk: "load_market env accs (dp_market ctx) = Inr market"
    and bal: "accs (dp_balance ctx) = None \<and> balance = zero_balance \<or>
      accs (dp_balance ctx) = Some (BalanceAcc balance)"
    and src: "accs (dp_source ctx) = Some (TokenAcc source)" "ta_owner source = dp_trader_key ctx"
    and vlt: "accs (dp_vault ctx) = Some (TokenAcc vault)" "dp_vault ctx = expected_vault asset market"
      "ta_owner vault = mc_vault_authority market"
    and t: "tp \<lparr>tc_from = dp_source ctx, tc_mint = dp_mint ctx, tc_to = dp_vault ctx,
       tc_authority = dp_trader_key ctx, tc_signers = signers, tc_amount = amount,
       tc_decimals = mint_decimals mint\<rparr> accs = Some accs1" (is "tp ?call accs = _")
    and c: "credit_balance asset amount
      (if tb_market balance = 0
       then balance\<lparr>tb_market := dp_market ctx, tb_trader := dp_trader_key ctx, tb_bump := bump\<rparr>
       else balance) = Inr balance2" (is "credit_balance _ _ ?b = _")
    and accs': "accs' = accs1(dp_balance ctx \<mapsto> BalanceAcc balance2)"
  have m: "market_at accs (dp_market ctx) = Some market"
    using mk by (simp add: load_market_ok market_at_def)
  have claim: "tb_market ?b = dp_market ctx \<and> account_claim v accs (dp_balance ctx) = owes v accs ?b" for v
    using bal
  proof
    assume n: "accs (dp_balance ctx) = None \<and> balance = zero_balance"
    then show ?thesis by (simp add: zero_balance_def account_claim_def balance_at_def owes_def m)
  next
    assume s: "accs (dp_balance ctx) = Some (BalanceAcc balance)"
    then have "balance_at accs (dp_balance ctx) = Some balance" by (simp add: balance_at_def)
    moreover from this own have "tb_market balance = dp_market ctx" by (simp add: own_balance_def)
    moreover have "dp_market ctx \<noteq> 0" using m inv by (auto simp: solvent_def)
    ultimately show ?thesis by (simp add: account_claim_def)
  qed
  note eff = transfer_effect [OF tp t, unfolded transfer_call.select_convs]
  have ne: "dp_source ctx \<noteq> dp_vault ctx"
    using src vlt tr off m by (auto simp: authorities_offline_def)
  have s0: "liabilities (dp_source ctx) accs = 0"
    using unsigned_source_owes_nothing [OF inv off src(1)] src(2) tr by simp
  have m1: "market_at accs1 (tb_market ?b) = Some market" using claim m eff(1) by simp
  have o: "owes v accs1 balance2 = owes v accs ?b + (if v = dp_vault ctx then unat amount else 0)" for v
    using credit_balance_owes(1) [OF c m1, of v] vlt(2) by (simp add: owes_def eff(1))
  have cl1: "account_claim v accs1 (dp_balance ctx) = owes v accs ?b" for v
  proof -
    have "account_claim v accs1 (dp_balance ctx) = account_claim v accs (dp_balance ctx)"
      by (simp add: account_claim_def owes_def eff(1,2) split: option.split)
    then show ?thesis using claim by simp
  qed
  have tok: "vault_tokens v accs1 + (if v = dp_source ctx then unat amount else 0) =
      vault_tokens v accs + (if v = dp_vault ctx then unat amount else 0)" for v
    using eff(5) [of v] ne by simp
  have solv: "liabilities v accs \<le> vault_tokens v accs" for v using inv by (simp add: solvent_def)
  have "vault_owned accs (dp_vault ctx)"
    unfolding vault_owned_def using vlt m by (auto simp: token_at_def)
  then have owned: "vault_owned accs1 (dp_vault ctx)" by (simp only: eff(4))
  have nb: "market_at accs (dp_balance ctx) = None \<and> token_at accs (dp_balance ctx) = None"
    using bal by (auto simp: at_defs)
  have "custody_wf accs1" using inv by (simp add: solvent_iff transfer_custody_wf [OF tp t])
  moreover have "token_at accs1 (dp_balance ctx) = None"
    by (rule transfer_token_at [OF tp t]) (simp add: nb)
  moreover have "liabilities v accs1 + owes v accs1 balance2 \<le>
      vault_tokens v accs1 + account_claim v accs1 (dp_balance ctx)" for v
    using tok [of v] solv [of v] s0 o [of v] cl1 [of v] eff(3) [of v] ne
    by (cases "v = dp_source ctx") auto
  moreover have "market_at accs1 (dp_balance ctx) = None" by (simp add: nb eff(1))
  moreover have "market_at accs1 (tb_market balance2) \<noteq> None"
    using credit_balance_owes(2) [OF c m1] m1 by simp
  moreover have "account_claim v accs1 (dp_balance ctx) < owes v accs1 balance2 \<Longrightarrow> vault_owned accs1 v" for v
    unfolding cl1 o using owned by (cases "v = dp_vault ctx") simp_all
  ultimately show ?thesis unfolding accs' by (intro solvent_balance_write)
qed

lemma withdraw_effect:
  assumes "withdraw env tp signers ctx asset amount accs = Inr accs'"
  obtains market balance vault destination and mint :: mint_account and accs1 balance1 pda_signer where
    "wd_trader ctx \<in> set signers"
    "load_market env accs (wd_market ctx) = Inr market" "amount \<noteq> 0"
    "load_own_balance ConstraintHasOne env accs (wd_market ctx) (wd_trader ctx) (wd_balance ctx) =
      Inr balance"
    "accs (wd_vault ctx) = Some (TokenAcc vault)"
    "accs (wd_destination ctx) = Some (TokenAcc destination)"
    "wd_vault ctx = expected_vault asset market" "ta_owner destination = wd_trader ctx"
    "ta_owner vault = mc_vault_authority market"
    "debit_balance asset amount balance = Inr balance1"
    "tp \<lparr>tc_from = wd_vault ctx, tc_mint = wd_mint ctx, tc_to = wd_destination ctx,
       tc_authority = wd_vault_authority ctx, tc_signers = signers @ [pda_signer],
       tc_amount = amount, tc_decimals = mint_decimals mint\<rparr> accs = Some accs1"
    "accs' = accs1(wd_balance ctx \<mapsto> BalanceAcc balance1)"
  using withdraw_ok [OF assms]
  apply (elim exE conjE)
  apply (rule that)
  apply assumption+
  done

lemma withdraw_solvent:
  assumes inv: "solvent accs" and tp: "token_ok tp"
    and w: "withdraw env tp signers ctx asset amount accs = Inr accs'"
  shows "solvent accs'"
  using w
proof (rule withdraw_effect)
  fix market balance vault destination and mint :: mint_account and accs1 balance1 pda_signer
  assume mk: "load_market env accs (wd_market ctx) = Inr market"
    and bal: "load_own_balance ConstraintHasOne env accs (wd_market ctx) (wd_trader ctx)
      (wd_balance ctx) = Inr balance"
    and vlt: "wd_vault ctx = expected_vault asset market"
    and c: "debit_balance asset amount balance = Inr balance1"
    and t: "tp \<lparr>tc_from = wd_vault ctx, tc_mint = wd_mint ctx, tc_to = wd_destination ctx,
       tc_authority = wd_vault_authority ctx, tc_signers = signers @ [pda_signer],
       tc_amount = amount, tc_decimals = mint_decimals mint\<rparr> accs = Some accs1"
    and accs': "accs' = accs1(wd_balance ctx \<mapsto> BalanceAcc balance1)"
  note eff = transfer_effect [OF tp t, unfolded transfer_call.select_convs]
  have b: "accs (wd_balance ctx) = Some (BalanceAcc balance)" "tb_market balance = wd_market ctx"
    using bal by (simp_all add: load_own_balance_ok)
  have m1: "market_at accs1 (tb_market balance) = Some market"
    using mk b(2) eff(1) by (simp add: load_market_ok market_at_def)
  have cl1: "account_claim v accs1 (wd_balance ctx) =
      owes v accs1 balance1 + (if v = wd_vault ctx then unat amount else 0)" for v
    using debit_balance_owes(1) [OF c m1, of v] vlt b(1) by (simp add: account_claim_def eff(2) balance_at_def)
  have nb: "market_at accs (wd_balance ctx) = None \<and> token_at accs (wd_balance ctx) = None"
    using b by (simp add: at_defs)
  have "custody_wf accs1" using inv by (simp add: solvent_iff transfer_custody_wf [OF tp t])
  moreover have "token_at accs1 (wd_balance ctx) = None"
    by (rule transfer_token_at [OF tp t]) (simp add: nb)
  moreover have "market_at accs1 (wd_balance ctx) = None" by (simp add: nb eff(1))
  moreover have "liabilities v accs1 + owes v accs1 balance1 \<le>
      vault_tokens v accs1 + account_claim v accs1 (wd_balance ctx)" for v
  proof -
    have "liabilities v accs \<le> vault_tokens v accs" using inv by (simp add: solvent_def)
    with eff(5) [of v] show ?thesis
      unfolding cl1 eff(3) by (cases "v = wd_vault ctx"; cases "v = wd_destination ctx"; linarith?) simp_all
  qed
  moreover have "market_at accs1 (tb_market balance1) \<noteq> None"
    using debit_balance_owes(2) [OF c m1] m1 by simp
  moreover have "account_claim v accs1 (wd_balance ctx) < owes v accs1 balance1 \<Longrightarrow> vault_owned accs1 v" for v
    unfolding cl1 by simp
  ultimately show ?thesis unfolding accs' by (intro solvent_balance_write)
qed

lemma cancel_solvent:
  assumes "solvent accs" and "cancel_signed_order env ce signers ctx h p accs = Inr accs'"
  shows "solvent accs'"
proof -
  from cancel_signed_order_ok [OF assms(2)] obtain f f1 where
    "accs (cs_fill_state ctx) = None \<and> f = zero_fill_state \<or> accs (cs_fill_state ctx) = Some (FillStateAcc f)"
    and accs': "accs' = accs(cs_fill_state ctx \<mapsto> FillStateAcc (f1\<lparr>fs_cancelled := True\<rparr>))"
    by (elim exE conjE) (rule that, assumption+)
  then show ?thesis unfolding accs'
    using assms(1) by (intro solvent_plain_write) (auto simp: plain_account_def at_defs)
qed

lemma initialize_protocol_solvent:
  assumes "solvent accs" and "initialize_protocol env signers ctx accs = Inr accs'"
  shows "solvent accs'"
  using initialize_protocol_ok [OF assms(2)] assms(1)
  by (auto intro!: solvent_plain_write simp: plain_account_def at_defs)

lemma initialize_market_solvent:
  assumes "solvent accs" and "initialize_market env signers ctx accs = Inr accs'"
    and "\<And>seeds. fst (find_pda env seeds) \<noteq> 0"
  shows "solvent accs'"
proof -
  from initialize_market_ok [OF assms(2)] obtain m where
    "accs (im_market_config ctx) = None"
    "find_pda env (market_seeds (im_base_mint ctx) (im_quote_mint ctx)) = (im_market_config ctx, mc_bump m)"
    and accs': "accs' = accs(im_market_config ctx \<mapsto> MarketAcc m)"
    by (elim exE conjE) (rule that, assumption+)
  then show ?thesis unfolding accs'
    using assms(1) assms(3) [of "market_seeds (im_base_mint ctx) (im_quote_mint ctx)"]
    by (intro solvent_fresh_market) simp_all
qed

section \<open>The instructions of the program\<close>

datatype spot_instruction =
    InitializeProtocol initialize_protocol_accounts
  | InitializeMarket initialize_market_accounts
  | Deposit deposit_accounts custody_asset u64
  | Withdraw withdraw_accounts custody_asset u64
  | SettleFill settle_fill_accounts u64 u64 u64
  | SettleSignedFill settle_signed_accounts u64 bytes32 bytes32 signed_fill_args
  | CancelSignedOrder cancel_signed_accounts bytes32 signed_payload

fun spot_settlement ::
  "anchor_env \<Rightarrow> token_program \<Rightarrow> chain_env \<Rightarrow> pubkey list \<Rightarrow> spot_instruction \<Rightarrow> spot_store \<Rightarrow> spot_result"
where
  "spot_settlement env tp ce signers (InitializeProtocol ctx) accs = initialize_protocol env signers ctx accs"
| "spot_settlement env tp ce signers (InitializeMarket ctx) accs = initialize_market env signers ctx accs"
| "spot_settlement env tp ce signers (Deposit ctx asset amount) accs =
     deposit env tp signers ctx asset amount accs"
| "spot_settlement env tp ce signers (Withdraw ctx asset amount) accs =
     withdraw env tp signers ctx asset amount accs"
| "spot_settlement env tp ce signers (SettleFill ctx i base quote) accs =
     settle_fill env signers ctx i base quote accs"
| "spot_settlement env tp ce signers (SettleSignedFill ctx i bh sh a) accs =
     settle_signed_fill env ce signers ctx i bh sh a accs"
| "spot_settlement env tp ce signers (CancelSignedOrder ctx h p) accs =
     cancel_signed_order env ce signers ctx h p accs"

text \<open>
  Derived addresses do not collide: the balance account that a deposit addresses, if it exists,
  is the one of that market and trader.
\<close>

fun no_collision :: "spot_instruction \<Rightarrow> spot_store \<Rightarrow> bool" where
  "no_collision (Deposit ctx _ _) accs = own_balance ctx accs"
| "no_collision _ _ = True"

lemma spot_settlement_solvent:
  assumes "solvent accs" and "token_ok tp" and "rejects_duplicates env"
    and "\<And>seeds. fst (find_pda env seeds) \<noteq> 0"
    and "authorities_offline signers accs" and "no_collision ins accs"
    and "spot_settlement env tp ce signers ins accs = Inr accs'"
  shows "solvent accs'"
  using assms
  by (cases ins)
    (auto intro: initialize_protocol_solvent initialize_market_solvent deposit_solvent withdraw_solvent
      settle_fill_solvent settle_signed_solvent cancel_solvent)

section \<open>How accounts change\<close>

definition fill_grows :: "order_fill_state \<Rightarrow> order_fill_state \<Rightarrow> bool" where
  "fill_grows f f' \<longleftrightarrow> fs_market f \<noteq> 0 \<longrightarrow>
     fs_market f' = fs_market f \<and> fs_order_hash f' = fs_order_hash f \<and>
     fs_filled f \<le> fs_filled f' \<and> (fs_cancelled f \<longrightarrow> fs_cancelled f' \<and> fs_filled f' = fs_filled f)"

text \<open>
  An account of the program keeps its kind for ever: configurations and receipts never change, a
  balance keeps its market and trader, a fill state only grows and a cancelled one is final.
  Nothing is said of token accounts and of free addresses.
\<close>

fun evolves :: "spot_account option \<Rightarrow> spot_account option \<Rightarrow> bool" where
  "evolves None a' = True"
| "evolves (Some (TokenAcc t)) a' = True"
| "evolves (Some (MintAcc t)) a' = True"
| "evolves (Some (BalanceAcc b)) a' =
     (\<exists>b'. a' = Some (BalanceAcc b') \<and>
       (tb_market b \<noteq> 0 \<longrightarrow> tb_market b' = tb_market b \<and> tb_trader b' = tb_trader b))"
| "evolves (Some (FillStateAcc f)) a' = (\<exists>f'. a' = Some (FillStateAcc f') \<and> fill_grows f f')"
| "evolves (Some (ProtocolAcc x)) a' = (a' = Some (ProtocolAcc x))"
| "evolves (Some (MarketAcc x)) a' = (a' = Some (MarketAcc x))"
| "evolves (Some (ReceiptAcc x)) a' = (a' = Some (ReceiptAcc x))"

lemma fill_grows_refl [simp]: "fill_grows f f"
  by (simp add: fill_grows_def)

lemma fill_grows_trans: "fill_grows f g \<Longrightarrow> fill_grows g h \<Longrightarrow> fill_grows f h"
  by (auto simp: fill_grows_def)

lemma evolves_refl [simp]: "evolves a a"
  by (cases "(a, a)" rule: evolves.cases) auto

lemma evolves_trans: "evolves a b \<Longrightarrow> evolves b c \<Longrightarrow> evolves a c"
  by (cases "(a, b)" rule: evolves.cases) (auto, erule (1) fill_grows_trans)

definition store_evolves :: "spot_store \<Rightarrow> spot_store \<Rightarrow> bool" where
  "store_evolves accs accs' \<longleftrightarrow> (\<forall>k. evolves (accs k) (accs' k))"

lemma store_evolves_refl [simp]: "store_evolves accs accs"
  by (simp add: store_evolves_def)

lemma store_evolves_trans: "store_evolves a b \<Longrightarrow> store_evolves b c \<Longrightarrow> store_evolves a c"
  unfolding store_evolves_def by (blast intro: evolves_trans)

lemma store_evolves_write:
  "store_evolves accs accs1 \<Longrightarrow> evolves (accs1 k) (Some x) \<Longrightarrow> store_evolves accs (accs1(k \<mapsto> x))"
  by (auto simp: store_evolves_def intro: evolves_trans)

lemma transfer_evolves:
  assumes "token_ok tp" and "tp call accs = Some accs1"
  shows "store_evolves accs accs1"
proof -
  from assms obtain src dst x y where
    "accs (tc_from call) = Some (TokenAcc src)" "accs (tc_to call) = Some (TokenAcc dst)"
    and "accs1 = accs \<or> accs1 = accs(tc_from call \<mapsto> TokenAcc x, tc_to call \<mapsto> TokenAcc y)"
    unfolding token_ok_def by metis
  then show ?thesis by (auto simp: store_evolves_def)
qed

lemma apply_fill_state_fields:
  assumes "apply_fill_state n q f = Inr f1"
  shows "fs_market f1 = fs_market f" "fs_order_hash f1 = fs_order_hash f"
    "\<not> fs_cancelled f" "\<not> fs_cancelled f1" "fs_filled f \<le> fs_filled f1" "fs_filled f1 \<le> n"
    "unat (fs_filled f1) = unat (fs_filled f) + unat q"
  using assms by (auto simp: apply_fill_state_def checked_ok word_le_nat_alt)

lemma fill_grows_write:
  assumes "f1 = (if fs_market f = 0
      then \<lparr>fs_market = m, fs_order_hash = h, fs_filled = 0, fs_cancelled = False, fs_bump = b\<rparr> else f)"
  shows "fill_grows f (f1\<lparr>fs_cancelled := True\<rparr>)"
    "apply_fill_state n q f1 = Inr f2 \<Longrightarrow> fill_grows f f2"
  using assms by (auto simp: fill_grows_def apply_fill_state_fields)

lemma cancel_evolves:
  assumes "cancel_signed_order env ce signers ctx h p accs = Inr accs'"
  shows "store_evolves accs accs'"
proof -
  from cancel_signed_order_ok [OF assms] obtain bump f f1 where
    "accs (cs_fill_state ctx) = None \<and> f = zero_fill_state \<or> accs (cs_fill_state ctx) = Some (FillStateAcc f)"
    "initialize_fill_state (cs_market ctx) h bump f = Inr f1"
    and accs': "accs' = accs(cs_fill_state ctx \<mapsto> FillStateAcc (f1\<lparr>fs_cancelled := True\<rparr>))"
    by (elim exE conjE) (rule that, assumption+)
  moreover from this have "fill_grows f (f1\<lparr>fs_cancelled := True\<rparr>)"
    by (intro fill_grows_write(1) [where b = bump]) (simp only: initialize_fill_state_ok)
  ultimately show ?thesis unfolding accs' by (intro store_evolves_write) auto
qed

lemma deposit_evolves:
  assumes "token_ok tp" and "deposit env tp signers ctx asset amount accs = Inr accs'"
  shows "store_evolves accs accs'"
  using assms(2)
proof (rule deposit_effect)
  fix market bump and balance :: trader_balance and balance2 accs1 and mint :: mint_account
  let ?b = "if tb_market balance = 0
    then balance\<lparr>tb_market := dp_market ctx, tb_trader := dp_trader_key ctx, tb_bump := bump\<rparr> else balance"
  assume bal: "accs (dp_balance ctx) = None \<and> balance = zero_balance \<or>
      accs (dp_balance ctx) = Some (BalanceAcc balance)"
    and t: "tp \<lparr>tc_from = dp_source ctx, tc_mint = dp_mint ctx, tc_to = dp_vault ctx,
       tc_authority = dp_trader_key ctx, tc_signers = signers, tc_amount = amount,
       tc_decimals = mint_decimals mint\<rparr> accs = Some accs1"
    and c: "credit_balance asset amount ?b = Inr balance2"
    and accs': "accs' = accs1(dp_balance ctx \<mapsto> BalanceAcc balance2)"
  have "tb_market balance \<noteq> 0 \<Longrightarrow> tb_market balance2 = tb_market balance \<and> tb_trader balance2 = tb_trader balance"
    using c by (auto simp: credit_balance_def checked_ok split: custody_asset.splits)
  with bal have "evolves (accs (dp_balance ctx)) (Some (BalanceAcc balance2))" by auto
  moreover note transfer_evolves [OF assms(1) t]
  ultimately show ?thesis unfolding accs' by (simp add: store_evolves_def)
qed

lemma withdraw_evolves:
  assumes "token_ok tp" and "withdraw env tp signers ctx asset amount accs = Inr accs'"
  shows "store_evolves accs accs'"
  using assms(2)
proof (rule withdraw_effect)
  fix balance balance1 accs1 pda_signer and mint :: mint_account
  assume bal: "load_own_balance ConstraintHasOne env accs (wd_market ctx) (wd_trader ctx)
      (wd_balance ctx) = Inr balance"
    and t: "tp \<lparr>tc_from = wd_vault ctx, tc_mint = wd_mint ctx, tc_to = wd_destination ctx,
       tc_authority = wd_vault_authority ctx, tc_signers = signers @ [pda_signer],
       tc_amount = amount, tc_decimals = mint_decimals mint\<rparr> accs = Some accs1"
    and c: "debit_balance asset amount balance = Inr balance1"
    and accs': "accs' = accs1(wd_balance ctx \<mapsto> BalanceAcc balance1)"
  have "tb_market balance1 = tb_market balance \<and> tb_trader balance1 = tb_trader balance"
    using c by (auto simp: debit_balance_def checked_ok split: custody_asset.splits)
  with bal have "evolves (accs (wd_balance ctx)) (Some (BalanceAcc balance1))"
    by (simp add: load_own_balance_ok)
  moreover note transfer_evolves [OF assms(1) t]
  ultimately show ?thesis unfolding accs' by (simp add: store_evolves_def)
qed

lemma settlement_evolves:
  assumes "accs kb = Some (BalanceAcc buyer)" and "accs ks = Some (BalanceAcc seller)"
    and "apply_balance_settlement base quote buyer seller = Inr (buyer1, seller1)"
    and "kb \<noteq> ks"
  shows "store_evolves accs (accs(kb \<mapsto> BalanceAcc buyer1, ks \<mapsto> BalanceAcc seller1))"
  using assms by (auto simp: store_evolves_def apply_balance_settlement_ok)

lemma settle_fill_evolves:
  assumes "settle_fill env signers ctx i base quote accs = Inr accs'" and "rejects_duplicates env"
  shows "store_evolves accs accs'"
proof -
  from settle_fill_ok [OF assms(1)] obtain buyer seller buyer1 seller1 r where
    b: "accs (sf_buyer_balance ctx) = Some (BalanceAcc buyer)"
    and s: "accs (sf_seller_balance ctx) = Some (BalanceAcc seller)"
    and d: "sf_buyer_balance ctx \<noteq> sf_seller_balance ctx"
    and r: "accs (sf_receipt ctx) = None"
    and a: "apply_balance_settlement base quote buyer seller = Inr (buyer1, seller1)"
    and accs': "accs' = accs(sf_buyer_balance ctx \<mapsto> BalanceAcc buyer1,
      sf_seller_balance ctx \<mapsto> BalanceAcc seller1, sf_receipt ctx \<mapsto> ReceiptAcc r)"
    using assms(2) by (auto simp: load_own_balance_ok)
  show ?thesis unfolding accs'
    by (rule store_evolves_write [OF settlement_evolves [OF b s a d]]) (use r b s in auto)
qed

lemma settle_signed_distinct:
  assumes "settle_signed_fill env ce signers ctx i bh sh a accs = Inr accs'" and "rejects_duplicates env"
  shows "distinct [sf_buyer_balance ctx, sf_seller_balance ctx, ss_buyer_fill_state ctx,
    ss_seller_fill_state ctx, sf_receipt ctx]"
  using assms unfolding settle_signed_fill_def
  apply (simp only: handler_ok)
  apply (elim exE conjE)
  apply simp
  done

lemma settle_signed_evolves:
  assumes "settle_signed_fill env ce signers ctx i bh sh a accs = Inr accs'" and "rejects_duplicates env"
  shows "store_evolves accs accs'"
  using assms(1)
proof (rule settle_signed_effect)
  fix buyer seller bfs sfs bfs1 sfs1 bfs2 sfs2 quote buyer1 seller1 bump bb sb
  assume b: "accs (sf_buyer_balance ctx) = Some (BalanceAcc buyer)"
    and s: "accs (sf_seller_balance ctx) = Some (BalanceAcc seller)"
    and r: "accs (sf_receipt ctx) = None"
    and bf: "accs (ss_buyer_fill_state ctx) = None \<and> bfs = zero_fill_state \<or>
      accs (ss_buyer_fill_state ctx) = Some (FillStateAcc bfs)"
    and sf: "accs (ss_seller_fill_state ctx) = None \<and> sfs = zero_fill_state \<or>
      accs (ss_seller_fill_state ctx) = Some (FillStateAcc sfs)"
    and f1: "bfs1 = (if fs_market bfs = 0 then \<lparr>fs_market = sf_market_config ctx, fs_order_hash = bh,
        fs_filled = 0, fs_cancelled = False, fs_bump = bb\<rparr> else bfs)"
      "sfs1 = (if fs_market sfs = 0 then \<lparr>fs_market = sf_market_config ctx, fs_order_hash = sh,
        fs_filled = 0, fs_cancelled = False, fs_bump = sb\<rparr> else sfs)"
    and f2: "apply_fill_state (sp_quantity (sa_buyer_order a)) (sa_fill_quantity a) bfs1 = Inr bfs2"
      "apply_fill_state (sp_quantity (sa_seller_order a)) (sa_fill_quantity a) sfs1 = Inr sfs2"
    and a: "apply_balance_settlement (sa_fill_quantity a) quote buyer seller = Inr (buyer1, seller1)"
    and accs': "accs' = accs(sf_buyer_balance ctx \<mapsto> BalanceAcc buyer1,
      sf_seller_balance ctx \<mapsto> BalanceAcc seller1, ss_buyer_fill_state ctx \<mapsto> FillStateAcc bfs2,
      ss_seller_fill_state ctx \<mapsto> FillStateAcc sfs2, sf_receipt ctx \<mapsto> ReceiptAcc
        \<lparr>sr_market = sf_market_config ctx, sr_settlement_id = i,
         sr_buyer = sf_buyer_key ctx, sr_seller = sf_seller_key ctx,
         sr_buyer_order_hash = bh, sr_seller_order_hash = sh,
         sr_base_amount = sa_fill_quantity a, sr_quote_amount = quote, sr_bump = bump\<rparr>)"
  note d = settle_signed_distinct [OF assms]
  have g: "fill_grows bfs bfs2" "fill_grows sfs sfs2"
    using fill_grows_write(2) [OF f1(1) f2(1)] fill_grows_write(2) [OF f1(2) f2(2)] .
  have "store_evolves accs (accs(sf_buyer_balance ctx \<mapsto> BalanceAcc buyer1,
      sf_seller_balance ctx \<mapsto> BalanceAcc seller1))"
    using settlement_evolves [OF b s a] d by simp
  then show ?thesis unfolding accs'
    by (rule store_evolves_write [OF store_evolves_write [OF store_evolves_write]])
      (use d g bf sf r in auto)
qed

lemma initialize_evolves:
  "initialize_protocol env signers ip accs = Inr accs' \<Longrightarrow> store_evolves accs accs'"
  "initialize_market env signers im accs = Inr accs' \<Longrightarrow> store_evolves accs accs'"
  by (auto dest!: initialize_protocol_ok initialize_market_ok intro: store_evolves_write)

lemma spot_settlement_evolves:
  assumes "token_ok tp" and "rejects_duplicates env"
    and "spot_settlement env tp ce signers ins accs = Inr accs'"
  shows "store_evolves accs accs'"
  using assms
  by (cases ins) (auto intro: initialize_evolves deposit_evolves withdraw_evolves settle_fill_evolves
    settle_signed_evolves cancel_evolves)

section \<open>Runs\<close>

text \<open>
  Between the transactions of the program, token accounts and mints change by other programs;
  what a vault authority owns is spent only by this program.
\<close>

fun outside_change :: "spot_account option \<Rightarrow> bool" where
  "outside_change None = True"
| "outside_change (Some (TokenAcc _)) = True"
| "outside_change (Some (MintAcc _)) = True"
| "outside_change _ = False"

definition outside_step :: "spot_store \<Rightarrow> spot_store \<Rightarrow> bool" where
  "outside_step accs accs' \<longleftrightarrow>
     (\<forall>k. accs' k \<noteq> accs k \<longrightarrow> outside_change (accs k) \<and> outside_change (accs' k)) \<and>
     (\<forall>v t. token_at accs v = Some t \<and> vault_owned accs v \<longrightarrow>
        (\<exists>t'. token_at accs' v = Some t' \<and> ta_owner t' = ta_owner t \<and> ta_amount t \<le> ta_amount t'))"

inductive spot_run ::
  "anchor_env \<Rightarrow> token_program \<Rightarrow> spot_store \<Rightarrow> spot_instruction list \<Rightarrow> spot_store \<Rightarrow> bool"
  for env :: anchor_env and tp :: token_program and accs0 :: spot_store
where
  spot_start: "spot_run env tp accs0 [] accs0"
| spot_transaction:
    "spot_run env tp accs0 tr accs \<Longrightarrow> spot_settlement env tp ce signers ins accs = Inr accs' \<Longrightarrow>
     authorities_offline signers accs \<Longrightarrow> no_collision ins accs \<Longrightarrow>
     spot_run env tp accs0 (tr @ [ins]) accs'"
| spot_outside:
    "spot_run env tp accs0 tr accs \<Longrightarrow> outside_step accs accs' \<Longrightarrow> spot_run env tp accs0 tr accs'"

lemma outside_step_frame:
  assumes "outside_step accs accs'"
  shows "market_at accs' = market_at accs" "balance_at accs' = balance_at accs"
    "\<And>v. liabilities v accs' = liabilities v accs"
proof -
  have same: "accs' k = accs k \<or> outside_change (accs k) \<and> outside_change (accs' k)" for k
    using assms by (auto simp: outside_step_def)
  have out: "outside_change a \<Longrightarrow> Option.bind a as_market = None \<and> Option.bind a as_balance = None" for a
    by (cases a rule: outside_change.cases) auto
  show m: "market_at accs' = market_at accs" and b: "balance_at accs' = balance_at accs"
    using same out by (auto intro!: ext simp: at_defs) metis+
  show "liabilities v accs' = liabilities v accs" for v
    by (rule liabilities_cong) (simp add: account_claim_def owes_def m b split: option.split)
qed

lemma outside_step_solvent:
  assumes "solvent accs" and "outside_step accs accs'"
  shows "solvent accs'"
proof -
  note f = outside_step_frame [OF assms(2)]
  have t: "vault_owned accs' v \<and> vault_tokens v accs \<le> vault_tokens v accs'" if "vault_owned accs v" for v
  proof -
    from that obtain t where "token_at accs v = Some t" by (auto simp: vault_owned_def)
    with assms(2) that obtain t' where
      "token_at accs' v = Some t'" "ta_owner t' = ta_owner t" "ta_amount t \<le> ta_amount t'"
      unfolding outside_step_def by blast
    with that \<open>token_at accs v = Some t\<close> show ?thesis
      by (auto simp: vault_owned_def f(1) vault_tokens_def word_le_nat_alt)
  qed
  have "liabilities v accs \<le> vault_tokens v accs'" for v
  proof (cases "liabilities v accs = 0")
    case False
    with assms(1) have "vault_owned accs v" "liabilities v accs \<le> vault_tokens v accs"
      by (simp_all add: solvent_def)
    with t show ?thesis by fastforce
  qed simp
  then show ?thesis
    using assms(1) t unfolding solvent_def f by auto
qed

lemma spot_run_solvent:
  assumes "spot_run env tp accs0 tr accs" and "solvent accs0" and "token_ok tp"
    and "rejects_duplicates env" and "\<And>seeds. fst (find_pda env seeds) \<noteq> 0"
  shows "solvent accs"
  using assms(1)
proof induction
  case spot_start
  show ?case by (rule assms)
next
  case (spot_transaction tr accs ce signers ins accs')
  then show ?case using spot_settlement_solvent assms(3-5) by blast
next
  case (spot_outside tr accs accs')
  then show ?case by (blast intro: outside_step_solvent)
qed

lemma outside_step_evolves: "outside_step accs accs' \<Longrightarrow> store_evolves accs accs'"
  unfolding outside_step_def store_evolves_def
proof (intro allI)
  fix k
  assume "(\<forall>k. accs' k \<noteq> accs k \<longrightarrow> outside_change (accs k) \<and> outside_change (accs' k)) \<and>
    (\<forall>v t. token_at accs v = Some t \<and> vault_owned accs v \<longrightarrow>
      (\<exists>t'. token_at accs' v = Some t' \<and> ta_owner t' = ta_owner t \<and> ta_amount t \<le> ta_amount t'))"
  then have "accs' k = accs k \<or> outside_change (accs k)" by blast
  then show "evolves (accs k) (accs' k)"
    by (cases "accs k" rule: outside_change.cases) auto
qed

lemma spot_run_evolves:
  assumes "spot_run env tp accs0 tr accs" and "token_ok tp" and "rejects_duplicates env"
  shows "store_evolves accs0 accs"
  using assms(1)
proof induction
  case (spot_transaction tr accs ce signers ins accs')
  with spot_settlement_evolves [OF assms(2,3)] show ?case by (blast intro: store_evolves_trans)
next
  case (spot_outside tr accs accs')
  then show ?case by (blast intro: store_evolves_trans outside_step_evolves)
qed simp

section \<open>Fill states over a run\<close>

definition fill_at :: "spot_store \<Rightarrow> pubkey \<Rightarrow> order_fill_state option" where
  "fill_at accs k = Option.bind (accs k) as_fill_state"

lemma fill_at_upd [simp]:
  "fill_at (accs(k \<mapsto> x)) j = (if j = k then as_fill_state x else fill_at accs j)"
  by (simp add: fill_at_def)

definition filled :: "spot_store \<Rightarrow> pubkey \<Rightarrow> nat" where
  "filled accs k = (case fill_at accs k of Some f \<Rightarrow> unat (fs_filled f) | None \<Rightarrow> 0)"

fun fill_on :: "pubkey \<Rightarrow> spot_instruction \<Rightarrow> nat" where
  "fill_on k (SettleSignedFill ctx i bh sh a) =
     (if k = ss_buyer_fill_state ctx \<or> k = ss_seller_fill_state ctx then unat (sa_fill_quantity a) else 0)"
| "fill_on k _ = 0"

definition fills_live :: "spot_store \<Rightarrow> bool" where
  "fills_live accs \<longleftrightarrow> (\<forall>k f. fill_at accs k = Some f \<longrightarrow> fs_market f \<noteq> 0)"

lemma initialized_filled:
  assumes "accs k = None \<and> f = zero_fill_state \<or> accs k = Some (FillStateAcc f)" and "fills_live accs"
    and "f1 = (if fs_market f = 0
      then \<lparr>fs_market = m, fs_order_hash = h, fs_filled = 0, fs_cancelled = False, fs_bump = b\<rparr> else f)"
  shows "unat (fs_filled f1) = filled accs k"
proof (cases "accs k = None")
  case True
  with assms show ?thesis by (simp add: zero_fill_state_def filled_def fill_at_def)
next
  case False
  with assms(1) have "fill_at accs k = Some f" by (auto simp: fill_at_def)
  with assms(2,3) show ?thesis by (simp add: fills_live_def filled_def)
qed

lemma transfer_fill_at:
  assumes "token_ok tp" and "tp call accs = Some accs1"
  shows "fill_at accs1 = fill_at accs"
proof -
  from assms obtain src dst x y where
    "accs (tc_from call) = Some (TokenAcc src)" "accs (tc_to call) = Some (TokenAcc dst)"
    and "accs1 = accs \<or> accs1 = accs(tc_from call \<mapsto> TokenAcc x, tc_to call \<mapsto> TokenAcc y)"
    unfolding token_ok_def by metis
  then show ?thesis by (auto simp: fill_at_def intro!: ext)
qed

lemma fill_at_plain:
  "fill_at accs k = None \<Longrightarrow> as_fill_state x = None \<Longrightarrow> fill_at (accs(k \<mapsto> x)) = fill_at accs"
  by (rule ext) simp

lemma deposit_fill_at:
  assumes "token_ok tp" and "deposit env tp signers ctx asset amount accs = Inr accs'"
  shows "fill_at accs' = fill_at accs"
  using assms(2)
proof (rule deposit_effect)
  fix balance :: trader_balance and accs1 balance2 and mint :: mint_account
  assume b: "accs (dp_balance ctx) = None \<and> balance = zero_balance \<or>
      accs (dp_balance ctx) = Some (BalanceAcc balance)"
    and t: "tp \<lparr>tc_from = dp_source ctx, tc_mint = dp_mint ctx, tc_to = dp_vault ctx,
       tc_authority = dp_trader_key ctx, tc_signers = signers, tc_amount = amount,
       tc_decimals = mint_decimals mint\<rparr> accs = Some accs1"
    and accs': "accs' = accs1(dp_balance ctx \<mapsto> BalanceAcc balance2)"
  have "fill_at accs (dp_balance ctx) = None" using b by (auto simp: fill_at_def)
  with transfer_fill_at [OF assms(1) t] show ?thesis unfolding accs' by (simp add: fill_at_plain)
qed

lemma withdraw_fill_at:
  assumes "token_ok tp" and "withdraw env tp signers ctx asset amount accs = Inr accs'"
  shows "fill_at accs' = fill_at accs"
  using assms(2)
proof (rule withdraw_effect)
  fix balance accs1 balance1 pda_signer and mint :: mint_account
  assume b: "load_own_balance ConstraintHasOne env accs (wd_market ctx) (wd_trader ctx)
      (wd_balance ctx) = Inr balance"
    and t: "tp \<lparr>tc_from = wd_vault ctx, tc_mint = wd_mint ctx, tc_to = wd_destination ctx,
       tc_authority = wd_vault_authority ctx, tc_signers = signers @ [pda_signer],
       tc_amount = amount, tc_decimals = mint_decimals mint\<rparr> accs = Some accs1"
    and accs': "accs' = accs1(wd_balance ctx \<mapsto> BalanceAcc balance1)"
  have "fill_at accs (wd_balance ctx) = None" using b by (simp add: fill_at_def load_own_balance_ok)
  with transfer_fill_at [OF assms(1) t] show ?thesis unfolding accs' by (simp add: fill_at_plain)
qed

lemma settle_fill_fill_at:
  assumes "settle_fill env signers ctx i base quote accs = Inr accs'"
  shows "fill_at accs' = fill_at accs"
proof -
  from settle_fill_ok [OF assms] obtain buyer seller buyer1 seller1 r where
    "accs (sf_buyer_balance ctx) = Some (BalanceAcc buyer)"
    "accs (sf_seller_balance ctx) = Some (BalanceAcc seller)" "accs (sf_receipt ctx) = None"
    and "accs' = accs(sf_buyer_balance ctx \<mapsto> BalanceAcc buyer1,
      sf_seller_balance ctx \<mapsto> BalanceAcc seller1, sf_receipt ctx \<mapsto> ReceiptAcc r)"
    by (auto simp: load_own_balance_ok)
  then show ?thesis by (auto simp: fill_at_def intro!: ext)
qed

lemma initialize_fill_at:
  "initialize_protocol env signers ip accs = Inr accs' \<Longrightarrow> fill_at accs' = fill_at accs"
  "initialize_market env signers im accs = Inr accs' \<Longrightarrow> fill_at accs' = fill_at accs"
  by (auto dest!: initialize_protocol_ok initialize_market_ok simp: fill_at_def intro!: ext)

lemma outside_fill_at:
  assumes "outside_step accs accs'"
  shows "fill_at accs' = fill_at accs"
proof
  fix k
  have "accs' k = accs k \<or> outside_change (accs k) \<and> outside_change (accs' k)"
    using assms by (auto simp: outside_step_def)
  moreover have "outside_change a \<Longrightarrow> Option.bind a as_fill_state = None" for a
    by (cases a rule: outside_change.cases) auto
  ultimately show "fill_at accs' k = fill_at accs k" by (auto simp: fill_at_def)
qed

lemma cancel_filled:
  assumes "cancel_signed_order env ce signers ctx h p accs = Inr accs'"
    and "fills_live accs" and "market_at accs 0 = None"
  shows "fills_live accs' \<and> filled accs' = filled accs"
proof -
  from cancel_signed_order_ok [OF assms(1)] obtain market bump f f1 where
    m: "load_market env accs (cs_market ctx) = Inr market"
    and f: "accs (cs_fill_state ctx) = None \<and> f = zero_fill_state \<or>
      accs (cs_fill_state ctx) = Some (FillStateAcc f)"
    and i: "initialize_fill_state (cs_market ctx) h bump f = Inr f1"
    and accs': "accs' = accs(cs_fill_state ctx \<mapsto> FillStateAcc (f1\<lparr>fs_cancelled := True\<rparr>))"
    by (elim exE conjE) (rule that, assumption+)
  have m0: "cs_market ctx \<noteq> 0" using m assms(3) by (auto simp: load_market_ok market_at_def)
  with i have "fs_market f1 \<noteq> 0" by (auto simp: initialize_fill_state_ok)
  moreover have "unat (fs_filled f1) = filled accs (cs_fill_state ctx)"
    using i by (intro initialized_filled [OF f assms(2)]) (simp only: initialize_fill_state_ok)
  ultimately show ?thesis
    using assms(2) unfolding accs' fills_live_def by (auto simp: filled_def intro!: ext)
qed

lemma settle_signed_filled:
  assumes s: "settle_signed_fill env ce signers ctx i bh sh a accs = Inr accs'"
    and r: "rejects_duplicates env" and live: "fills_live accs" and m0: "market_at accs 0 = None"
  shows "fills_live accs' \<and> (\<forall>k. filled accs' k = filled accs k + fill_on k (SettleSignedFill ctx i bh sh a)) \<and>
    filled accs' (ss_buyer_fill_state ctx) \<le> unat (sp_quantity (sa_buyer_order a)) \<and>
    filled accs' (ss_seller_fill_state ctx) \<le> unat (sp_quantity (sa_seller_order a))"
  using s
proof (rule settle_signed_effect)
  fix buyer seller bfs sfs bfs1 sfs1 bfs2 sfs2 quote buyer1 seller1 bump bb sb
  assume mk: "market_at accs (sf_market_config ctx) \<noteq> None"
    and b: "accs (sf_buyer_balance ctx) = Some (BalanceAcc buyer)"
    and s: "accs (sf_seller_balance ctx) = Some (BalanceAcc seller)"
    and rc: "accs (sf_receipt ctx) = None"
    and bf: "accs (ss_buyer_fill_state ctx) = None \<and> bfs = zero_fill_state \<or>
      accs (ss_buyer_fill_state ctx) = Some (FillStateAcc bfs)"
    and sf: "accs (ss_seller_fill_state ctx) = None \<and> sfs = zero_fill_state \<or>
      accs (ss_seller_fill_state ctx) = Some (FillStateAcc sfs)"
    and f1: "bfs1 = (if fs_market bfs = 0 then \<lparr>fs_market = sf_market_config ctx, fs_order_hash = bh,
        fs_filled = 0, fs_cancelled = False, fs_bump = bb\<rparr> else bfs)"
      "sfs1 = (if fs_market sfs = 0 then \<lparr>fs_market = sf_market_config ctx, fs_order_hash = sh,
        fs_filled = 0, fs_cancelled = False, fs_bump = sb\<rparr> else sfs)"
    and fm: "fs_market bfs1 = sf_market_config ctx" "fs_market sfs1 = sf_market_config ctx"
    and f2: "apply_fill_state (sp_quantity (sa_buyer_order a)) (sa_fill_quantity a) bfs1 = Inr bfs2"
      "apply_fill_state (sp_quantity (sa_seller_order a)) (sa_fill_quantity a) sfs1 = Inr sfs2"
    and accs': "accs' = accs(sf_buyer_balance ctx \<mapsto> BalanceAcc buyer1,
      sf_seller_balance ctx \<mapsto> BalanceAcc seller1, ss_buyer_fill_state ctx \<mapsto> FillStateAcc bfs2,
      ss_seller_fill_state ctx \<mapsto> FillStateAcc sfs2, sf_receipt ctx \<mapsto> ReceiptAcc
        \<lparr>sr_market = sf_market_config ctx, sr_settlement_id = i,
         sr_buyer = sf_buyer_key ctx, sr_seller = sf_seller_key ctx,
         sr_buyer_order_hash = bh, sr_seller_order_hash = sh,
         sr_base_amount = sa_fill_quantity a, sr_quote_amount = quote, sr_bump = bump\<rparr>)"
  note d = settle_signed_distinct [OF assms(1) r]
  have mk0: "sf_market_config ctx \<noteq> 0" using mk m0 by auto
  have old: "unat (fs_filled bfs1) = filled accs (ss_buyer_fill_state ctx)"
    "unat (fs_filled sfs1) = filled accs (ss_seller_fill_state ctx)"
    using initialized_filled [OF bf live f1(1)] initialized_filled [OF sf live f1(2)] .
  have at: "fill_at accs' k = (if k = ss_buyer_fill_state ctx then Some bfs2
      else if k = ss_seller_fill_state ctx then Some sfs2 else fill_at accs k)" for k
    unfolding accs' using d b s rc by (auto simp: fill_at_def)
  have "fills_live accs'"
    using live fm mk0 apply_fill_state_fields(1) [OF f2(1)] apply_fill_state_fields(1) [OF f2(2)]
    unfolding fills_live_def at by auto
  moreover have "filled accs' k = filled accs k + fill_on k (SettleSignedFill ctx i bh sh a)" for k
    unfolding filled_def [of accs'] at
    using old apply_fill_state_fields(7) [OF f2(1)] apply_fill_state_fields(7) [OF f2(2)]
    by (simp add: filled_def)
  moreover have "filled accs' (ss_buyer_fill_state ctx) = unat (fs_filled bfs2)"
      "filled accs' (ss_seller_fill_state ctx) = unat (fs_filled sfs2)"
    using d by (auto simp: filled_def [of accs'] at)
  ultimately show ?thesis
    using apply_fill_state_fields(6) [OF f2(1)] apply_fill_state_fields(6) [OF f2(2)]
    by (simp only: word_le_nat_alt) blast
qed

lemma spot_settlement_filled:
  assumes "spot_settlement env tp ce signers ins accs = Inr accs'" and "token_ok tp"
    and "rejects_duplicates env" and "fills_live accs" and "market_at accs 0 = None"
  shows "fills_live accs' \<and> (\<forall>k. filled accs' k = filled accs k + fill_on k ins)"
proof -
  have same: "fill_at accs' = fill_at accs \<Longrightarrow> fills_live accs' \<and> filled accs' = filled accs"
    using assms(4) by (simp add: fills_live_def filled_def fun_eq_iff)
  show ?thesis
  proof (cases ins)
    case (SettleSignedFill ctx i bh sh a)
    then show ?thesis using settle_signed_filled assms by fastforce
  next
    case (CancelSignedOrder ctx h p)
    then show ?thesis using cancel_filled assms by fastforce
  qed (use same assms in \<open>auto dest: initialize_fill_at deposit_fill_at withdraw_fill_at settle_fill_fill_at\<close>)
qed

text \<open>A store that has no account of the program.\<close>

definition pristine :: "spot_store \<Rightarrow> bool" where
  "pristine accs \<longleftrightarrow> (\<forall>k. outside_change (accs k))"

lemma pristine_at:
  assumes "pristine accs"
  shows "market_at accs k = None" "balance_at accs k = None" "fill_at accs k = None"
proof -
  have "outside_change (accs k)" using assms by (simp add: pristine_def)
  then show "market_at accs k = None" "balance_at accs k = None" "fill_at accs k = None"
    by (cases "accs k" rule: outside_change.cases; simp add: at_defs fill_at_def)+
qed

lemma pristine_solvent: "pristine accs \<Longrightarrow> solvent accs"
  by (simp add: solvent_def liabilities_def account_claim_def pristine_at)

lemma spot_run_filled:
  assumes "spot_run env tp accs0 tr accs" and "pristine accs0" and "token_ok tp"
    and "rejects_duplicates env" and "\<And>seeds. fst (find_pda env seeds) \<noteq> 0"
  shows "fills_live accs \<and> (\<forall>k. filled accs k = (\<Sum>ins\<leftarrow>tr. fill_on k ins))"
  using assms(1)
proof induction
  case spot_start
  show ?case using assms(2) by (simp add: fills_live_def filled_def pristine_at)
next
  case (spot_transaction tr accs ce signers ins accs')
  have "market_at accs 0 = None"
    using spot_run_solvent [OF spot_transaction(1) pristine_solvent [OF assms(2)] assms(3-5)]
    by (simp add: solvent_def)
  with spot_settlement_filled [OF spot_transaction(2) assms(3,4)] spot_transaction(5)
  show ?case by simp
next
  case (spot_outside tr accs accs')
  then show ?case using outside_fill_at [of accs accs'] by (simp add: fills_live_def filled_def)
qed

end
