(* ===== verification/Anchor_Demo.thy ===== *)
theory Anchor_Demo
  imports Anchor_Base
begin

text \<open>
  Address derivation for the witnesses of the on-chain programs: a checksum of the seeds in place
  of SHA-256.
\<close>

definition demo_hash :: "u8 list list \<Rightarrow> 256 word" where
  "demo_hash seeds =
     word_of_int (foldl (\<lambda>h bs. foldl (\<lambda>h b. (31 * h + uint b) mod 1000003) (5 * h + 1) bs) 7 seeds
       mod 1000003 + 1)"

definition demo_env :: anchor_env where
  "demo_env = \<lparr>find_pda = (\<lambda>seeds. (demo_hash seeds, 255)),
     create_pda = (\<lambda>seeds b. if b = 255 then Some (demo_hash seeds) else None),
     rejects_duplicates = True\<rparr>"

lemma demo_env_simps [simp]:
  "find_pda demo_env seeds = (demo_hash seeds, 255)"
  "create_pda demo_env seeds b = (if b = 255 then Some (demo_hash seeds) else None)"
  "rejects_duplicates demo_env"
  by (simp_all add: demo_env_def)

lemma demo_hash_nonzero [simp]: "demo_hash seeds \<noteq> 0"
proof -
  define h where "h = foldl (\<lambda>h bs. foldl (\<lambda>h b. (31 * h + uint b) mod 1000003) (5 * h + 1) bs) 7 seeds mod 1000003 + 1"
  have "0 \<le> h - 1" "h - 1 < 1000003" unfolding h_def by simp_all
  then have "uint (word_of_int h :: 256 word) = h" by (simp add: uint_word_of_int)
  moreover have "h \<noteq> 0" using \<open>0 \<le> h - 1\<close> by simp
  moreover have "demo_hash seeds = word_of_int h" by (simp add: demo_hash_def h_def)
  ultimately show ?thesis by (metis unsigned_0)
qed

end
