(* ===== verification/Settlement_Demo.thy ===== *)
theory Settlement_Demo
  imports Settlement_Custody Anchor_Demo
begin

text \<open>
  A concrete world for the witnesses of the settlement properties: addresses and hashes from a
  checksum, a token program, the ed25519 instructions of two signed orders, and a run of six
  transactions over explicit stores.
\<close>

section \<open>A concrete world\<close>

definition demo_tp :: token_program where
  "demo_tp call accs =
     (case (accs (tc_from call), accs (tc_to call)) of
        (Some (TokenAcc src), Some (TokenAcc dst)) \<Rightarrow>
          if tc_authority call \<in> set (tc_signers call) \<and> ta_owner src = tc_authority call \<and>
             ta_mint src = tc_mint call \<and> ta_mint dst = tc_mint call \<and> tc_amount call \<le> ta_amount src
          then if tc_from call = tc_to call then Some accs
            else (case checked_add (ta_amount dst) (tc_amount call) of
                    Some v \<Rightarrow> Some (accs(tc_from call \<mapsto> TokenAcc (src\<lparr>ta_amount := ta_amount src - tc_amount call\<rparr>),
                                         tc_to call \<mapsto> TokenAcc (dst\<lparr>ta_amount := v\<rparr>)))
                  | None \<Rightarrow> None)
          else None
      | _ \<Rightarrow> None)"

lemma demo_tp_ok: "token_ok demo_tp"
  unfolding token_ok_def
proof (intro allI impI)
  fix call accs accs1
  assume t: "demo_tp call accs = Some accs1"
  then obtain src dst where s: "accs (tc_from call) = Some (TokenAcc src)"
      "accs (tc_to call) = Some (TokenAcc dst)" "tc_amount call \<le> ta_amount src"
    and e: "tc_from call = tc_to call \<and> accs1 = accs \<or>
      tc_from call \<noteq> tc_to call \<and> (\<exists>v. checked_add (ta_amount dst) (tc_amount call) = Some v \<and>
        accs1 = accs(tc_from call \<mapsto> TokenAcc (src\<lparr>ta_amount := ta_amount src - tc_amount call\<rparr>),
                     tc_to call \<mapsto> TokenAcc (dst\<lparr>ta_amount := v\<rparr>)))"
    by (auto simp: demo_tp_def split: option.splits spot_account.splits if_splits)
  have "src\<lparr>ta_amount := ta_amount src - tc_amount call\<rparr> =
      with_amount src (unat (ta_amount src) - unat (tc_amount call))"
    using s(3) by (simp add: with_amount_def word_le_nat_alt)
  moreover have "dst\<lparr>ta_amount := v\<rparr> = with_amount dst (unat (ta_amount dst) + unat (tc_amount call)) \<and>
      unat (ta_amount dst) + unat (tc_amount call) < 2 ^ 64"
    if "checked_add (ta_amount dst) (tc_amount call) = Some v" for v
  proof -
    have "unat (ta_amount dst) + unat (tc_amount call) = unat v" using that by (simp add: checked_add_Some)
    then show ?thesis using unsigned_less [of v, where ?'a = nat] by (simp add: with_amount_def)
  qed
  ultimately show "\<exists>src dst. accs (tc_from call) = Some (TokenAcc src) \<and>
      accs (tc_to call) = Some (TokenAcc dst) \<and> unat (tc_amount call) \<le> unat (ta_amount src) \<and>
      (if tc_from call = tc_to call then accs1 = accs
       else unat (ta_amount dst) + unat (tc_amount call) < 2 ^ 64 \<and>
         accs1 = accs(tc_from call \<mapsto> TokenAcc (with_amount src (unat (ta_amount src) - unat (tc_amount call))),
                      tc_to call \<mapsto> TokenAcc (with_amount dst (unat (ta_amount dst) + unat (tc_amount call)))))"
    using s e by (auto simp: word_le_nat_alt)
qed

text \<open>The addresses of a market of the mints 2 and 3, and of the traders 7 and 8.\<close>

lemma demo_addresses [simp]:
  "demo_hash protocol_seeds = 248073"
  "demo_hash (market_seeds 2 3) = 562575"
  "demo_hash (vault_authority_seeds 562575) = 104894"
  "demo_hash (balance_seeds 562575 7) = 977925"
  "demo_hash (balance_seeds 562575 8) = 128517"
  "demo_hash (receipt_seeds 562575 1) = 574163"
  "demo_hash (order_fill_seeds 562575 720244) = 899148"
  "demo_hash (order_fill_seeds 562575 435857) = 563209"
  by code_simp+

text \<open>The orders that the two traders sign, in a toy signature scheme.\<close>

definition demo_bid :: signed_payload where
  "demo_bid = \<lparr>sp_order_id = 11, sp_market = 562575, sp_trader = 7, sp_side = SignedBid, sp_price = 5,
     sp_quantity = 10, sp_nonce = 1, sp_expiry_slot = 100\<rparr>"

definition demo_ask :: signed_payload where
  "demo_ask = \<lparr>sp_order_id = 12, sp_market = 562575, sp_trader = 8, sp_side = SignedAsk, sp_price = 4,
     sp_quantity = 8, sp_nonce = 1, sp_expiry_slot = 100\<rparr>"

definition demo_sign :: "u8 list \<Rightarrow> u8 list \<Rightarrow> bytes64" where
  "demo_sign key msg = ucast (demo_hash [key, msg])"

definition demo_valid :: "u8 list \<Rightarrow> u8 list \<Rightarrow> u8 list \<Rightarrow> bool" where
  "demo_valid key sig msg \<longleftrightarrow> sig = le_bytes 64 (demo_sign key msg)"

definition demo_bid_signature :: bytes64 where
  "demo_bid_signature = demo_sign (key_bytes 7) (payload_preimage demo_bid)"

definition demo_ask_signature :: bytes64 where
  "demo_ask_signature = demo_sign (key_bytes 8) (payload_preimage demo_ask)"

definition demo_ed25519 :: "signed_payload \<Rightarrow> bytes64 \<Rightarrow> instruction" where
  "demo_ed25519 p sig = \<lparr>ins_program = 98, ins_accounts = [], ins_data =
     [1, 0, 48, 0, 255, 255, 16, 0, 255, 255, 112, 0, 138, 0, 255, 255] @ key_bytes (sp_trader p) @
     le_bytes 64 sig @ payload_preimage p\<rparr>"

definition demo_ce :: chain_env where
  "demo_ce = \<lparr>ce_sha256 = (\<lambda>m. demo_hash [m]), ce_slot = 50, ce_ed25519_program = 98,
     ce_instructions_sysvar = 99,
     ce_relative_instruction = (\<lambda>i. if i = - 2 then Some (demo_ed25519 demo_bid demo_bid_signature)
       else if i = - 1 then Some (demo_ed25519 demo_ask demo_ask_signature) else None)\<rparr>"

lemma demo_slices:
  assumes "ins = demo_ed25519 p sig"
  shows "slice (ins_data ins) 48 64 = Some (le_bytes 64 sig)"
    "slice (ins_data ins) 16 32 = Some (key_bytes (sp_trader p))"
    "slice (ins_data ins) 112 138 = Some (payload_preimage p)"
    "header_u16 (ins_data ins) 2 = 48" "header_u16 (ins_data ins) 4 = - 1"
    "header_u16 (ins_data ins) 6 = 16" "header_u16 (ins_data ins) 8 = - 1"
    "header_u16 (ins_data ins) 10 = 112" "header_u16 (ins_data ins) 12 = 138"
    "header_u16 (ins_data ins) 14 = - 1"
  using assms by (simp_all add: demo_ed25519_def slice_def header_u16_def u16_of_le_def)

lemma demo_ed25519_verifies:
  "verify_ed25519_instruction 98 (demo_ed25519 p sig) (key_bytes (sp_trader p)) (le_bytes 64 sig)
     (payload_preimage p) = Inr ()"
  unfolding demo_ed25519_def by (rule ed25519_layout_verifies) simp

lemma demo_signed [simp]:
  "ce_sha256 demo_ce (payload_preimage demo_bid) = 720244"
  "ce_sha256 demo_ce (payload_preimage demo_ask) = 435857"
  by code_simp+

lemma demo_verified [simp]:
  "verify_previous_ed25519 demo_ce (- 2) 7 demo_bid_signature (payload_preimage demo_bid) = Inr ()"
  "verify_previous_ed25519 demo_ce (- 1) 8 demo_ask_signature (payload_preimage demo_ask) = Inr ()"
  using demo_ed25519_verifies [of demo_bid demo_bid_signature]
    demo_ed25519_verifies [of demo_ask demo_ask_signature]
  by (simp_all add: verify_previous_ed25519_def demo_ce_def demo_bid_def demo_ask_def)

lemma demo_ce_simps [simp]:
  "ce_slot demo_ce = 50" "ce_instructions_sysvar demo_ce = 99"
  by (simp_all add: demo_ce_def)

lemma demo_traders [simp]: "sp_trader demo_bid = 7" "sp_trader demo_ask = 8"
  by (simp_all add: demo_bid_def demo_ask_def)

lemma demo_precompile_sound: "precompile_sound demo_valid demo_ce"
  unfolding precompile_sound_def
proof (intro allI impI, elim conjE)
  fix i ins key sig msg
  assume "ce_relative_instruction demo_ce i = Some ins"
  then consider (bid) "ins = demo_ed25519 demo_bid demo_bid_signature"
    | (ask) "ins = demo_ed25519 demo_ask demo_ask_signature"
    by (auto simp: demo_ce_def split: if_splits)
  moreover assume "slice (ins_data ins) (unat (header_u16 (ins_data ins) 2)) 64 = Some sig"
    "slice (ins_data ins) (unat (header_u16 (ins_data ins) 6)) 32 = Some key"
    "slice (ins_data ins) (unat (header_u16 (ins_data ins) 10))
       (unat (header_u16 (ins_data ins) 12)) = Some msg"
  ultimately show "demo_valid key sig msg"
    by cases (auto simp: demo_slices demo_valid_def demo_bid_signature_def demo_ask_signature_def)
qed

section \<open>A run of the concrete world\<close>

definition demo_spot_market :: market_config where
  "demo_spot_market = \<lparr>mc_protocol_config = 248073, mc_admin = 1, mc_settlement_authority = 6,
     mc_base_mint = 2, mc_quote_mint = 3, mc_base_vault = 4, mc_quote_vault = 5,
     mc_vault_authority = 104894, mc_vault_authority_bump = 255, mc_paused = False, mc_bump = 255\<rparr>"

definition demo_balance :: "pubkey \<Rightarrow> u64 \<Rightarrow> u64 \<Rightarrow> spot_account" where
  "demo_balance trader base quote = BalanceAcc
     \<lparr>tb_market = 562575, tb_trader = trader, tb_base = base, tb_quote = quote, tb_bump = 255\<rparr>"

definition demo_token :: "pubkey \<Rightarrow> pubkey \<Rightarrow> u64 \<Rightarrow> spot_account" where
  "demo_token mint owner amount = TokenAcc \<lparr>ta_mint = mint, ta_owner = owner, ta_amount = amount\<rparr>"

definition demo_init_protocol :: spot_instruction where
  "demo_init_protocol = InitializeProtocol \<lparr>ip_admin = 1, ip_protocol_config = 248073\<rparr>"

definition demo_init_market :: spot_instruction where
  "demo_init_market = InitializeMarket \<lparr>im_admin = 1, im_protocol_config = 248073,
     im_market_config = 562575, im_base_mint = 2, im_quote_mint = 3, im_base_vault = 4,
     im_quote_vault = 5, im_vault_authority = 104894, im_settlement_authority = 6\<rparr>"

definition demo_deposit :: "pubkey \<Rightarrow> pubkey \<Rightarrow> pubkey \<Rightarrow> pubkey \<Rightarrow> pubkey \<Rightarrow> deposit_accounts" where
  "demo_deposit trader balance source vault mint = \<lparr>dp_trader_key = trader, dp_market = 562575,
     dp_balance = balance, dp_source = source, dp_vault = vault, dp_mint = mint\<rparr>"

definition demo_settle_accounts :: settle_signed_accounts where
  "demo_settle_accounts = \<lparr>sf_authority = 6, sf_market_config = 562575, sf_buyer_key = 7, sf_seller_key = 8,
     sf_buyer_balance = 977925, sf_seller_balance = 128517, sf_receipt = 574163, sf_payer = 6,
     ss_buyer_fill_state = 899148, ss_seller_fill_state = 563209, ss_instructions_sysvar = 99\<rparr>"

definition demo_fill_args :: signed_fill_args where
  "demo_fill_args = \<lparr>sa_settlement_id = 1, sa_fill_price = 4, sa_fill_quantity = 8,
     sa_buyer_order_hash = 720244, sa_seller_order_hash = 435857, sa_buyer_order = demo_bid,
     sa_buyer_signature = demo_bid_signature, sa_seller_order = demo_ask,
     sa_seller_signature = demo_ask_signature\<rparr>"

definition demo_withdraw_accounts :: withdraw_accounts where
  "demo_withdraw_accounts = \<lparr>wd_trader = 7, wd_market = 562575, wd_balance = 977925, wd_vault = 4,
     wd_destination = 11, wd_mint = 2, wd_vault_authority = 104894\<rparr>"

definition demo_cancel_accounts :: cancel_signed_accounts where
  "demo_cancel_accounts = \<lparr>cs_trader = 7, cs_market = 562575, cs_fill_state = 899148, cs_payer = 7\<rparr>"

text \<open>The store before the run, with a market, with both deposits, after the settlement.\<close>

definition demo_store0 :: spot_store where
  "demo_store0 = Map.empty(2 \<mapsto> MintAcc \<lparr>mint_decimals = 6\<rparr>, 3 \<mapsto> MintAcc \<lparr>mint_decimals = 6\<rparr>,
     4 \<mapsto> demo_token 2 104894 0, 5 \<mapsto> demo_token 3 104894 0,
     9 \<mapsto> demo_token 3 7 100, 10 \<mapsto> demo_token 2 8 50, 11 \<mapsto> demo_token 2 7 0)"

definition demo_store1 :: spot_store where
  "demo_store1 = demo_store0(248073 \<mapsto> ProtocolAcc \<lparr>pc_admin = 1, pc_bump = 255\<rparr>)"

definition demo_store2 :: spot_store where
  "demo_store2 = demo_store1(562575 \<mapsto> MarketAcc demo_spot_market)"

definition demo_store3 :: spot_store where
  "demo_store3 = demo_store2(9 \<mapsto> demo_token 3 7 0, 5 \<mapsto> demo_token 3 104894 100,
     977925 \<mapsto> demo_balance 7 0 100)"

definition demo_store4 :: spot_store where
  "demo_store4 = demo_store3(10 \<mapsto> demo_token 2 8 0, 4 \<mapsto> demo_token 2 104894 50,
     128517 \<mapsto> demo_balance 8 50 0)"

definition demo_fill_state :: "bytes32 \<Rightarrow> u64 \<Rightarrow> bool \<Rightarrow> spot_account" where
  "demo_fill_state h n c = FillStateAcc \<lparr>fs_market = 562575, fs_order_hash = h, fs_filled = n,
     fs_cancelled = c, fs_bump = 255\<rparr>"

definition demo_store5 :: spot_store where
  "demo_store5 = demo_store4(977925 \<mapsto> demo_balance 7 8 68, 128517 \<mapsto> demo_balance 8 42 32,
     899148 \<mapsto> demo_fill_state 720244 8 False, 563209 \<mapsto> demo_fill_state 435857 8 False,
     574163 \<mapsto> ReceiptAcc \<lparr>sr_market = 562575, sr_settlement_id = 1, sr_buyer = 7, sr_seller = 8,
       sr_buyer_order_hash = 720244, sr_seller_order_hash = 435857, sr_base_amount = 8,
       sr_quote_amount = 32, sr_bump = 255\<rparr>)"

definition demo_store6 :: spot_store where
  "demo_store6 = demo_store5(4 \<mapsto> demo_token 2 104894 42, 11 \<mapsto> demo_token 2 7 8,
     977925 \<mapsto> demo_balance 7 0 68)"

definition demo_cancelled :: spot_store where
  "demo_cancelled = demo_store4(899148 \<mapsto> demo_fill_state 720244 0 True)"

lemmas demo_stores = demo_store0_def demo_store1_def demo_store2_def demo_store3_def demo_store4_def
  demo_store5_def demo_store6_def demo_cancelled_def
lemmas demo_accounts = demo_spot_market_def demo_balance_def demo_token_def demo_fill_state_def
lemmas demo_instructions = demo_init_protocol_def demo_init_market_def demo_deposit_def
  demo_settle_accounts_def demo_fill_args_def demo_withdraw_accounts_def demo_cancel_accounts_def
lemmas constraint_defs = need_signer_def check_seeds_def check_seeds_bump_def load_def init_fresh_def
  init_needed_def check_distinct_mut_def

lemma demo_step1: "spot_settlement demo_env demo_tp demo_ce [1] demo_init_protocol demo_store0 = Inr demo_store1"
  by (simp add: demo_instructions initialize_protocol_def constraint_defs demo_stores)

lemma demo_step2: "spot_settlement demo_env demo_tp demo_ce [1] demo_init_market demo_store1 = Inr demo_store2"
  by (simp add: demo_instructions initialize_market_def constraint_defs demo_stores demo_accounts)

lemmas custody_defs = load_market_def load_own_balance_def expected_mint_def expected_vault_def
  credit_balance_def debit_balance_def zero_balance_def demo_tp_def checked_add_code checked_sub_def

lemma demo_step3:
  "spot_settlement demo_env demo_tp demo_ce [7] (Deposit (demo_deposit 7 977925 9 5 3) CustodyQuote 100)
     demo_store2 = Inr demo_store3"
  by (simp add: demo_instructions deposit_def constraint_defs custody_defs demo_stores demo_accounts)

lemma demo_step4:
  "spot_settlement demo_env demo_tp demo_ce [8] (Deposit (demo_deposit 8 128517 10 4 2) CustodyBase 50)
     demo_store3 = Inr demo_store4"
  by (simp add: demo_instructions deposit_def constraint_defs custody_defs demo_stores demo_accounts)

lemma demo_rules:
  "validate_signed_payload demo_bid 562575 7 SignedBid = Inr ()"
  "validate_signed_payload demo_ask 562575 8 SignedAsk = Inr ()"
  "validate_fill_rules demo_fill_args 50 = Inr ()"
  "validate_cancel_payload demo_bid 562575 7 = Inr ()"
  "sp_quantity demo_bid = 10" "sp_quantity demo_ask = 8" "quote_amount_u64 4 8 = Inr 32"
  by code_simp+

lemma demo_step5:
  "spot_settlement demo_env demo_tp demo_ce [6]
     (SettleSignedFill demo_settle_accounts 1 720244 435857 demo_fill_args) demo_store4 = Inr demo_store5"
  by (simp add: demo_instructions settle_signed_fill_def constraint_defs custody_defs demo_stores demo_accounts
    demo_rules [unfolded demo_fill_args_def] load_settling_market_def Let_def zero_fill_state_def initialize_fill_state_def apply_fill_state_def
    apply_balance_settlement_def)

lemma demo_step6:
  "spot_settlement demo_env demo_tp demo_ce [7] (Withdraw demo_withdraw_accounts CustodyBase 8)
     demo_store5 = Inr demo_store6"
  by (simp add: demo_instructions withdraw_def constraint_defs custody_defs demo_stores demo_accounts)

lemma demo_cancel:
  "spot_settlement demo_env demo_tp demo_ce [7] (CancelSignedOrder demo_cancel_accounts 720244 demo_bid)
     demo_store4 = Inr demo_cancelled"
  by (simp add: demo_instructions cancel_signed_order_def constraint_defs custody_defs demo_stores demo_accounts
    demo_rules zero_fill_state_def initialize_fill_state_def Let_def)

lemma demo_pristine: "pristine demo_store0"
  by (auto simp: pristine_def demo_store0_def demo_token_def)

text \<open>The vault authority never signs, and the balances that deposits address are the traders' own.\<close>

lemma demo_offline:
  assumes "m \<in> {demo_store0, demo_store1, demo_store2, demo_store3, demo_store4, demo_store5}"
    and "set signers \<subseteq> {1, 6, 7, 8}"
  shows "authorities_offline signers m"
proof -
  have "market_at m k = None \<or> market_at m k = Some demo_spot_market" for k
    using assms(1) by (auto simp: demo_stores demo_accounts market_at_def)
  then have "mc_vault_authority ma = 104894" if "market_at m k = Some ma" for k ma
    using that by (metis option.distinct(1) option.inject demo_spot_market_def market_config.select_convs(8))
  then show ?thesis using assms(2) unfolding authorities_offline_def by fastforce
qed

definition demo_trace :: "spot_instruction list" where
  "demo_trace = [demo_init_protocol, demo_init_market,
     Deposit (demo_deposit 7 977925 9 5 3) CustodyQuote 100,
     Deposit (demo_deposit 8 128517 10 4 2) CustodyBase 50,
     SettleSignedFill demo_settle_accounts 1 720244 435857 demo_fill_args,
     Withdraw demo_withdraw_accounts CustodyBase 8]"

lemma demo_no_collision:
  "no_collision (Deposit (demo_deposit 7 977925 9 5 3) asset amount) demo_store2"
  "no_collision (Deposit (demo_deposit 8 128517 10 4 2) asset amount) demo_store3"
  by (simp_all add: own_balance_def demo_deposit_def balance_at_def demo_stores demo_accounts)

lemma demo_run4: "spot_run demo_env demo_tp demo_store0 (take 4 demo_trace) demo_store4"
proof -
  note t = spot_transaction
  have "spot_run demo_env demo_tp demo_store0 ([] @ [demo_init_protocol]) demo_store1"
    by (rule t [OF spot_start demo_step1]) (simp_all add: demo_offline demo_init_protocol_def)
  then have "spot_run demo_env demo_tp demo_store0 (([] @ [demo_init_protocol]) @ [demo_init_market]) demo_store2"
    by (rule t [OF _ demo_step2]) (simp_all add: demo_offline demo_init_market_def)
  from t [OF t [OF this demo_step3 _ demo_no_collision(1)] demo_step4 _ demo_no_collision(2)]
  show ?thesis by (simp add: demo_offline demo_trace_def)
qed

lemma demo_run5: "spot_run demo_env demo_tp demo_store0 (take 5 demo_trace) demo_store5"
  using spot_transaction [OF demo_run4 demo_step5] by (simp add: demo_offline demo_trace_def)

lemma demo_run6: "spot_run demo_env demo_tp demo_store0 demo_trace demo_store6"
  using spot_transaction [OF demo_run5 demo_step6] by (simp add: demo_offline demo_trace_def)

end
