(* ===== verification/Settlement_Properties.thy ===== *)
theory Settlement_Properties
  imports Settlement_Demo
begin

text \<open>
  The properties of the spot settlement program over whole runs, and what single settlements and
  withdrawals do.  Each is applied to the run of \<open>Settlement_Demo\<close>.
\<close>

text \<open>C5: Whatever the traders, the settlement authority and other programs do, the vaults can pay.  Over
  every run of transactions that starts without accounts of the program, each vault holds at
  least what all balances of all markets that use it add up to, and belongs to the vault
  authority of a market as soon as it owes anything.\<close>

theorem custody_solvent:
  assumes "token_ok tp" and "rejects_duplicates env" and "\<And>seeds. fst (find_pda env seeds) \<noteq> 0"
    and "pristine accs0" and "spot_run env tp accs0 tr accs"
  shows "liabilities v accs \<le> vault_tokens v accs \<and> (0 < liabilities v accs \<longrightarrow> vault_owned accs v)"
  using spot_run_solvent [OF assms(5) pristine_solvent [OF assms(4)] assms(1-3)] by (simp add: solvent_def)

lemma custody_solvent_witness:
  "liabilities 4 demo_store6 \<le> vault_tokens 4 demo_store6 \<and> vault_tokens 4 demo_store6 = 42"
  using custody_solvent [OF demo_tp_ok _ _ demo_pristine demo_run6, of 4]
  by (simp add: vault_tokens_def token_at_def demo_stores demo_accounts)

text \<open>C7: A settlement id of a market settles once.  After a settlement with it, signed or not, no run of
  other transactions makes a second one possible: the receipt of the first stays where the
  second would have to create its own.\<close>

theorem settled_once:
  assumes "spot_settlement env tp ce signers first accs0 = Inr accs1"
    and "first = SettleFill ctx i base quote \<and> sf_market_config ctx = m \<or>
      first = SettleSignedFill sctx i bh sh a \<and> sf_market_config sctx = m"
    and "token_ok tp" and "rejects_duplicates env" and "spot_run env tp accs1 tr accs"
    and "sf_market_config ctx' = m" and "sf_market_config sctx' = m"
  shows "settle_fill env signers' ctx' i base' quote' accs \<noteq> Inr accs2 \<and>
    settle_signed_fill env ce' signers' sctx' i bh' sh' a' accs \<noteq> Inr accs2"
proof -
  have ev: "store_evolves accs1 accs" by (rule spot_run_evolves [OF assms(5,3,4)])
  have "\<exists>r. accs1 (fst (find_pda env (receipt_seeds m i))) = Some (ReceiptAcc r)"
    using assms(2)
  proof
    assume "first = SettleFill ctx i base quote \<and> sf_market_config ctx = m"
    with assms(1) show ?thesis by (auto dest!: settle_fill_ok)
  next
    assume f: "first = SettleSignedFill sctx i bh sh a \<and> sf_market_config sctx = m"
    with assms(1) have "settle_signed_fill env ce signers sctx i bh sh a accs0 = Inr accs1" by simp
    from settle_signed_fill_ok [OF this] show ?thesis using f by (elim exE conjE) simp
  qed
  moreover have "evolves (accs1 k) (accs k)" for k using ev by (simp add: store_evolves_def)
  ultimately have kept: "accs (fst (find_pda env (receipt_seeds m i))) \<noteq> None"
    by (metis evolves.simps(8) option.distinct(1))
  have "settle_fill env signers' ctx' i base' quote' accs \<noteq> Inr accs2"
  proof
    assume "settle_fill env signers' ctx' i base' quote' accs = Inr accs2"
    from settle_fill_ok [OF this] kept assms(6) show False by (elim exE conjE) simp
  qed
  moreover have "settle_signed_fill env ce' signers' sctx' i bh' sh' a' accs \<noteq> Inr accs2"
  proof
    assume "settle_signed_fill env ce' signers' sctx' i bh' sh' a' accs = Inr accs2"
    from settle_signed_fill_ok [OF this] kept assms(7) show False by (elim exE conjE) simp
  qed
  ultimately show ?thesis ..
qed

lemma settled_once_witness:
  "settle_signed_fill demo_env demo_ce [6] demo_settle_accounts 1 720244 435857 demo_fill_args demo_store6 \<noteq>
     Inr demo_store6"
proof -
  have r: "spot_run demo_env demo_tp demo_store5 [Withdraw demo_withdraw_accounts CustodyBase 8] demo_store6"
    using spot_transaction [OF spot_start demo_step6] by (simp add: demo_offline)
  let ?c = "\<lparr>sf_authority = 6, sf_market_config = 562575, sf_buyer_key = 7, sf_seller_key = 8,
    sf_buyer_balance = 977925, sf_seller_balance = 128517, sf_receipt = 574163, sf_payer = 6\<rparr>"
  show ?thesis
    using settled_once [OF demo_step5 _ demo_tp_ok _ r, where ctx' = ?c and sctx' = demo_settle_accounts
        and m = 562575 and sctx = demo_settle_accounts and i = 1 and bh = 720244 and sh = 435857
        and a = demo_fill_args]
    by (simp add: demo_settle_accounts_def)
qed

text \<open>The fill state that a settlement updates for either order.\<close>

lemma settle_signed_fill_states:
  assumes "settle_signed_fill env ce signers ctx i bh sh a accs = Inr accs'" and "h \<in> {bh, sh}"
  shows "\<exists>k b f f1 f2 n. find_pda env (order_fill_seeds (sf_market_config ctx) h) = (k, b) \<and>
    (accs k = None \<and> f = zero_fill_state \<or> accs k = Some (FillStateAcc f)) \<and>
    initialize_fill_state (sf_market_config ctx) h b f = Inr f1 \<and>
    apply_fill_state n (sa_fill_quantity a) f1 = Inr f2"
  using settle_signed_fill_ok [OF assms(1)] assms(2)
  apply (elim exE conjE insertE emptyE; hypsubst)
  by (intro exI conjI, assumption+)+

text \<open>C9: A cancelled order never settles again, on either side: after its trader has cancelled it,
  no run of other transactions leads to a state in which a fill of it settles.\<close>

theorem cancelled_never_settles:
  assumes "cancel_signed_order env ce signers cctx h p accs0 = Inr accs1" and "solvent accs0"
    and "token_ok tp" and "rejects_duplicates env" and "spot_run env tp accs1 tr accs"
    and "sf_market_config ctx = cs_market cctx" and "h \<in> {bh, sh}"
  shows "settle_signed_fill env ce' signers' ctx i bh sh a accs \<noteq> Inr accs2"
proof
  assume s: "settle_signed_fill env ce' signers' ctx i bh sh a accs = Inr accs2"
  from cancel_signed_order_ok [OF assms(1)] obtain market bump f f1 where
    m: "load_market env accs0 (cs_market cctx) = Inr market"
    and k: "find_pda env (order_fill_seeds (cs_market cctx) h) = (cs_fill_state cctx, bump)"
    and f1: "initialize_fill_state (cs_market cctx) h bump f = Inr f1"
    and accs1: "accs1 = accs0(cs_fill_state cctx \<mapsto> FillStateAcc (f1\<lparr>fs_cancelled := True\<rparr>))"
    by (elim exE conjE) (rule that, assumption+)
  have "cs_market cctx \<noteq> 0" using m assms(2) by (auto simp: solvent_def load_market_ok market_at_def)
  with f1 have f1m: "fs_market f1 \<noteq> 0" by (auto simp: initialize_fill_state_ok)
  have "evolves (accs1 (cs_fill_state cctx)) (accs (cs_fill_state cctx))"
    using spot_run_evolves [OF assms(5,3,4)] by (simp add: store_evolves_def)
  then obtain f' where f': "accs (cs_fill_state cctx) = Some (FillStateAcc f')" "fs_cancelled f'" "fs_market f' \<noteq> 0"
    using f1m by (auto simp: accs1 fill_grows_def)
  from settle_signed_fill_states [OF s assms(7)] k f' show False
    by (auto simp: assms(6) initialize_fill_state_def checked_ok Let_def dest: apply_fill_state_fields(3))
qed

lemma cancelled_never_settles_witness:
  "settle_signed_fill demo_env demo_ce [6] demo_settle_accounts 1 720244 435857 demo_fill_args demo_cancelled \<noteq>
     Inr demo_store5"
proof -
  have "solvent demo_store4"
    by (rule spot_run_solvent [OF demo_run4 pristine_solvent [OF demo_pristine] demo_tp_ok]) simp_all
  from cancelled_never_settles [OF demo_cancel [unfolded spot_settlement.simps] this demo_tp_ok _ spot_start,
      of demo_settle_accounts 720244 435857]
  show ?thesis by (simp add: demo_settle_accounts_def demo_cancel_accounts_def)
qed

text \<open>C8: Fills are counted exactly and never exceed what was signed: on a run from a store without
  accounts of the program, the filled quantity of every order account is the sum of the
  quantities of the settlements that named it, and one more settlement keeps both sums within
  the quantities of the two signed orders.\<close>

theorem fills_within_orders:
  assumes "token_ok tp" and "rejects_duplicates env" and "\<And>seeds. fst (find_pda env seeds) \<noteq> 0"
    and "pristine accs0" and "spot_run env tp accs0 tr accs"
    and "settle_signed_fill env ce signers ctx i bh sh a accs = Inr accs'"
  shows "filled accs k = (\<Sum>ins\<leftarrow>tr. fill_on k ins) \<and>
    (\<Sum>ins\<leftarrow>tr. fill_on (ss_buyer_fill_state ctx) ins) + unat (sa_fill_quantity a)
      \<le> unat (sp_quantity (sa_buyer_order a)) \<and>
    (\<Sum>ins\<leftarrow>tr. fill_on (ss_seller_fill_state ctx) ins) + unat (sa_fill_quantity a)
      \<le> unat (sp_quantity (sa_seller_order a))"
proof -
  have r: "fills_live accs" "\<And>k. filled accs k = (\<Sum>ins\<leftarrow>tr. fill_on k ins)"
    using spot_run_filled [OF assms(5,4,1-3)] by simp_all
  have "market_at accs 0 = None"
    using spot_run_solvent [OF assms(5) pristine_solvent [OF assms(4)] assms(1-3)] by (simp add: solvent_def)
  from settle_signed_filled [OF assms(6,2) r(1) this] show ?thesis by (auto simp: r(2))
qed

lemma fills_within_orders_witness:
  "filled demo_store4 899148 = 0 \<and>
   (\<Sum>ins\<leftarrow>take 4 demo_trace. fill_on 899148 ins) + unat (sa_fill_quantity demo_fill_args)
      \<le> unat (sp_quantity (sa_buyer_order demo_fill_args))"
  using fills_within_orders [OF demo_tp_ok _ _ demo_pristine demo_run4 demo_step5 [unfolded spot_settlement.simps],
      of 899148]
  by (simp add: demo_settle_accounts_def demo_trace_def demo_init_protocol_def demo_init_market_def)

text \<open>C10: A signed fill moves exactly the traded amounts: the buyer pays price times quantity of the
  quote asset and receives the quantity of the base asset, the seller the opposite, so both
  assets are conserved between the two balances, and a receipt of the amounts is stored.\<close>

theorem signed_fill_exact:
  assumes "settle_signed_fill env ce signers ctx i bh sh a accs = Inr accs'" and "rejects_duplicates env"
  shows "\<exists>buyer seller buyer1 seller1 r.
    balance_at accs (sf_buyer_balance ctx) = Some buyer \<and> balance_at accs (sf_seller_balance ctx) = Some seller \<and>
    balance_at accs' (sf_buyer_balance ctx) = Some buyer1 \<and>
    balance_at accs' (sf_seller_balance ctx) = Some seller1 \<and>
    accs' (sf_receipt ctx) = Some (ReceiptAcc r) \<and>
    unat (tb_base buyer1) = unat (tb_base buyer) + unat (sa_fill_quantity a) \<and>
    unat (tb_quote buyer) = unat (tb_quote buyer1) + unat (sa_fill_price a) * unat (sa_fill_quantity a) \<and>
    unat (tb_base seller) = unat (tb_base seller1) + unat (sa_fill_quantity a) \<and>
    unat (tb_quote seller1) = unat (tb_quote seller) + unat (sa_fill_price a) * unat (sa_fill_quantity a) \<and>
    sr_base_amount r = sa_fill_quantity a \<and>
    unat (sr_quote_amount r) = unat (sa_fill_price a) * unat (sa_fill_quantity a)"
  using assms(1)
proof (rule settle_signed_effect)
  fix buyer seller quote buyer1 seller1 bfs2 sfs2 bump
  assume b: "accs (sf_buyer_balance ctx) = Some (BalanceAcc buyer)"
    and s: "accs (sf_seller_balance ctx) = Some (BalanceAcc seller)"
    and q: "unat quote = unat (sa_fill_price a) * unat (sa_fill_quantity a)"
    and a: "apply_balance_settlement (sa_fill_quantity a) quote buyer seller = Inr (buyer1, seller1)"
    and accs': "accs' = accs(sf_buyer_balance ctx \<mapsto> BalanceAcc buyer1,
      sf_seller_balance ctx \<mapsto> BalanceAcc seller1, ss_buyer_fill_state ctx \<mapsto> FillStateAcc bfs2,
      ss_seller_fill_state ctx \<mapsto> FillStateAcc sfs2, sf_receipt ctx \<mapsto> ReceiptAcc
        \<lparr>sr_market = sf_market_config ctx, sr_settlement_id = i,
         sr_buyer = sf_buyer_key ctx, sr_seller = sf_seller_key ctx,
         sr_buyer_order_hash = bh, sr_seller_order_hash = sh,
         sr_base_amount = sa_fill_quantity a, sr_quote_amount = quote, sr_bump = bump\<rparr>)"
  have m: "unat (tb_base buyer1) = unat (tb_base buyer) + unat (sa_fill_quantity a)"
    "unat (tb_quote buyer) = unat (tb_quote buyer1) + unat quote"
    "unat (tb_base seller) = unat (tb_base seller1) + unat (sa_fill_quantity a)"
    "unat (tb_quote seller1) = unat (tb_quote seller) + unat quote"
    using a by (auto simp: apply_balance_settlement_ok)
  show ?thesis unfolding accs'
    using settle_signed_distinct [OF assms] b s m q by (auto simp: balance_at_def)
qed

lemma signed_fill_exact_witness:
  "unat (tb_quote (the (balance_at demo_store4 977925))) =
   unat (tb_quote (the (balance_at demo_store5 977925))) + 4 * 8"
  using signed_fill_exact [OF demo_step5 [unfolded spot_settlement.simps]]
  by (auto simp: demo_settle_accounts_def demo_fill_args_def)

lemma debit_balance_exact:
  "debit_balance asset amount b = Inr b1 \<Longrightarrow>
     (case asset of
        CustodyBase \<Rightarrow> unat (tb_base b) = unat (tb_base b1) + unat amount \<and> tb_quote b1 = tb_quote b
      | CustodyQuote \<Rightarrow> unat (tb_quote b) = unat (tb_quote b1) + unat amount \<and> tb_base b1 = tb_base b)"
  by (auto simp: debit_balance_def checked_ok split: custody_asset.splits)

text \<open>A transfer to another account moves the amount there and changes nothing else.\<close>

lemma token_payment:
  assumes "token_ok tp" and "tp call accs = Some accs1" and "tc_from call \<noteq> tc_to call"
    and dst: "accs (tc_to call) = Some (TokenAcc dst)"
  shows "\<exists>src dst1. accs (tc_from call) = Some (TokenAcc src) \<and>
    token_at accs1 (tc_to call) = Some dst1 \<and> unat (ta_amount dst1) = unat (ta_amount dst) + unat (tc_amount call) \<and>
    vault_tokens (tc_from call) accs = vault_tokens (tc_from call) accs1 + unat (tc_amount call)"
proof -
  from assms obtain src where src: "accs (tc_from call) = Some (TokenAcc src)"
      "unat (tc_amount call) \<le> unat (ta_amount src)" "unat (ta_amount dst) + unat (tc_amount call) < 2 ^ 64"
    and accs1: "accs1 = accs(tc_from call \<mapsto> TokenAcc (with_amount src (unat (ta_amount src) - unat (tc_amount call))),
      tc_to call \<mapsto> TokenAcc (with_amount dst (unat (ta_amount dst) + unat (tc_amount call))))"
    unfolding token_ok_def by fastforce
  have "unat (ta_amount src) - unat (tc_amount call) < 2 ^ 64"
    using unsigned_less [of "ta_amount src", where ?'a = nat] by simp
  then show ?thesis using src assms(3) by (simp add: accs1 token_at_def vault_tokens_def)
qed

text \<open>A withdrawal needs the trader's signature and pays only the trader: it debits the amount from
  the trader's own balance of the asset, takes it from the market's vault of that asset, and
  credits it to a token account that the trader owns; it fails rather than overdraw.\<close>

theorem withdraw_exact:
  assumes "withdraw env tp signers ctx asset amount accs = Inr accs'" and "token_ok tp"
    and "wd_vault ctx \<noteq> wd_destination ctx"
  shows "\<exists>market b b1 dst dst1.
    wd_trader ctx \<in> set signers \<and> market_at accs (wd_market ctx) = Some market \<and>
    wd_vault ctx = expected_vault asset market \<and>
    balance_at accs (wd_balance ctx) = Some b \<and> tb_trader b = wd_trader ctx \<and> tb_market b = wd_market ctx \<and>
    balance_at accs' (wd_balance ctx) = Some b1 \<and>
    (case asset of
       CustodyBase \<Rightarrow> unat (tb_base b) = unat (tb_base b1) + unat amount \<and> tb_quote b1 = tb_quote b
     | CustodyQuote \<Rightarrow> unat (tb_quote b) = unat (tb_quote b1) + unat amount \<and> tb_base b1 = tb_base b) \<and>
    token_at accs (wd_destination ctx) = Some dst \<and> ta_owner dst = wd_trader ctx \<and>
    token_at accs' (wd_destination ctx) = Some dst1 \<and>
    unat (ta_amount dst1) = unat (ta_amount dst) + unat amount \<and>
    vault_tokens (wd_vault ctx) accs = vault_tokens (wd_vault ctx) accs' + unat amount"
  using assms(1)
proof (rule withdraw_effect)
  fix market balance vault destination and mint :: mint_account and accs1 balance1 pda_signer
  assume tr: "wd_trader ctx \<in> set signers"
    and mk: "load_market env accs (wd_market ctx) = Inr market"
    and bal: "load_own_balance ConstraintHasOne env accs (wd_market ctx) (wd_trader ctx)
      (wd_balance ctx) = Inr balance"
    and dst: "accs (wd_destination ctx) = Some (TokenAcc destination)" "ta_owner destination = wd_trader ctx"
    and vlt: "wd_vault ctx = expected_vault asset market"
    and c: "debit_balance asset amount balance = Inr balance1"
    and t: "tp \<lparr>tc_from = wd_vault ctx, tc_mint = wd_mint ctx, tc_to = wd_destination ctx,
       tc_authority = wd_vault_authority ctx, tc_signers = signers @ [pda_signer],
       tc_amount = amount, tc_decimals = mint_decimals mint\<rparr> accs = Some accs1" (is "tp ?call _ = _")
    and accs': "accs' = accs1(wd_balance ctx \<mapsto> BalanceAcc balance1)"
  have b: "accs (wd_balance ctx) = Some (BalanceAcc balance)" "tb_trader balance = wd_trader ctx"
      "tb_market balance = wd_market ctx"
    using bal by (simp_all add: load_own_balance_ok)
  from token_payment [OF assms(2) t] assms(3) dst(1) obtain src dst1 where
    p: "accs (wd_vault ctx) = Some (TokenAcc src)" "token_at accs1 (wd_destination ctx) = Some dst1"
      "unat (ta_amount dst1) = unat (ta_amount destination) + unat amount"
      "vault_tokens (wd_vault ctx) accs = vault_tokens (wd_vault ctx) accs1 + unat amount" by auto
  have ne: "wd_balance ctx \<noteq> wd_vault ctx" "wd_balance ctx \<noteq> wd_destination ctx" using b(1) p(1) dst(1) by auto
  have "market_at accs (wd_market ctx) = Some market" using mk by (simp add: load_market_ok market_at_def)
  moreover have "balance_at accs (wd_balance ctx) = Some balance" "balance_at accs' (wd_balance ctx) = Some balance1"
    "token_at accs (wd_destination ctx) = Some destination" "token_at accs' (wd_destination ctx) = Some dst1"
    "vault_tokens (wd_vault ctx) accs' = vault_tokens (wd_vault ctx) accs1"
    using b(1) dst(1) p(2) ne by (simp_all add: balance_at_def token_at_def vault_tokens_def accs')
  ultimately show ?thesis using tr vlt b(2,3) dst(2) p(3,4) debit_balance_exact [OF c] by auto
qed

lemma withdraw_exact_witness:
  "unat (ta_amount (the (token_at demo_store6 11))) = unat (ta_amount (the (token_at demo_store5 11))) + 8"
  using withdraw_exact [OF demo_step6 [unfolded spot_settlement.simps] demo_tp_ok]
  by (auto simp: demo_withdraw_accounts_def)

lemma signed_fill_authorised_witness:
  "demo_valid (key_bytes 7) (le_bytes 64 demo_bid_signature) (payload_preimage demo_bid)"
  using signed_fill_authorised [OF demo_precompile_sound demo_step5 [unfolded spot_settlement.simps]]
  by (simp add: demo_settle_accounts_def demo_fill_args_def)

end
