(* ===== verification/Settlement_Client.thy ===== *)
theory Settlement_Client
  imports Settlement_Fills
begin

text \<open>
  \<open>crates/settlement_client/src/lib.rs\<close>: the instructions of a settlement or cancel transaction
  and the accounts they name.  An instruction for the settlement program is kept decoded, as the
  accounts and arguments the program receives; those for the ed25519 and the compute budget
  program are built by other packages, which are the parameters in \<open>client_env\<close>.
\<close>

datatype client_instruction =
    OtherInstruction instruction
  | SettleSignedFillInstruction settle_signed_accounts u64 bytes32 bytes32 signed_fill_args
  | CancelSignedOrderInstruction cancel_signed_accounts bytes32 signed_payload

record client_env =
  cl_env :: anchor_env
  cl_set_unit_limit :: "u32 \<Rightarrow> instruction"
  cl_set_unit_price :: "u64 \<Rightarrow> instruction"
  cl_new_ed25519 :: "u8 list \<Rightarrow> bytes64 \<Rightarrow> u8 list \<Rightarrow> instruction"
  cl_instructions_sysvar :: pubkey

section \<open>Compute budgets\<close>

definition trusted_settlement_unit_limit :: u32 where "trusted_settlement_unit_limit = 25000"
definition signed_settlement_unit_limit :: u32 where "signed_settlement_unit_limit = 100000"
definition cancel_signed_order_unit_limit :: u32 where "cancel_signed_order_unit_limit = 40000"
definition default_priority_fee :: u64 where "default_priority_fee = 0"

record compute_budget_preset =
  cb_unit_limit :: u32
  cb_micro_lamports :: u64

definition trusted_settlement_preset :: compute_budget_preset where
  "trusted_settlement_preset =
     \<lparr>cb_unit_limit = trusted_settlement_unit_limit, cb_micro_lamports = default_priority_fee\<rparr>"

definition signed_settlement_preset :: compute_budget_preset where
  "signed_settlement_preset =
     \<lparr>cb_unit_limit = signed_settlement_unit_limit, cb_micro_lamports = default_priority_fee\<rparr>"

definition cancel_signed_order_preset :: compute_budget_preset where
  "cancel_signed_order_preset =
     \<lparr>cb_unit_limit = cancel_signed_order_unit_limit, cb_micro_lamports = default_priority_fee\<rparr>"

definition with_priority_fee :: "u64 \<Rightarrow> compute_budget_preset \<Rightarrow> compute_budget_preset" where
  "with_priority_fee fee p = p\<lparr>cb_micro_lamports := fee\<rparr>"

section \<open>Addresses\<close>

definition protocol_config_pda :: "anchor_env \<Rightarrow> pubkey \<times> u8" where
  "protocol_config_pda env = find_pda env protocol_seeds"

definition market_config_pda :: "anchor_env \<Rightarrow> pubkey \<Rightarrow> pubkey \<Rightarrow> pubkey \<times> u8" where
  "market_config_pda env base quote = find_pda env (market_seeds base quote)"

definition trader_market_balance_pda :: "anchor_env \<Rightarrow> pubkey \<Rightarrow> pubkey \<Rightarrow> pubkey \<times> u8" where
  "trader_market_balance_pda env market trader = find_pda env (balance_seeds market trader)"

definition vault_authority_pda :: "anchor_env \<Rightarrow> pubkey \<Rightarrow> pubkey \<times> u8" where
  "vault_authority_pda env market = find_pda env (vault_authority_seeds market)"

definition settlement_receipt_pda :: "anchor_env \<Rightarrow> pubkey \<Rightarrow> u64 \<Rightarrow> pubkey \<times> u8" where
  "settlement_receipt_pda env market i = find_pda env (receipt_seeds market i)"

definition order_fill_state_pda :: "anchor_env \<Rightarrow> pubkey \<Rightarrow> bytes32 \<Rightarrow> pubkey \<times> u8" where
  "order_fill_state_pda env market h = find_pda env (order_fill_seeds market h)"

section \<open>Accounts\<close>

record signed_settlement_accounts =
  ca_authority :: pubkey
  ca_market_config :: pubkey
  ca_buyer :: pubkey
  ca_seller :: pubkey
  ca_buyer_balance :: pubkey
  ca_seller_balance :: pubkey
  ca_payer :: pubkey

record settlement_flow_accounts =
  fa_authority :: pubkey
  fa_base_mint :: pubkey
  fa_quote_mint :: pubkey
  fa_buyer :: pubkey
  fa_seller :: pubkey
  fa_payer :: pubkey

definition flow_market_config :: "anchor_env \<Rightarrow> settlement_flow_accounts \<Rightarrow> pubkey" where
  "flow_market_config env f = fst (market_config_pda env (fa_base_mint f) (fa_quote_mint f))"

definition to_settlement_accounts ::
  "anchor_env \<Rightarrow> settlement_flow_accounts \<Rightarrow> signed_settlement_accounts" where
  "to_settlement_accounts env f =
     (let market = flow_market_config env f in
      \<lparr>ca_authority = fa_authority f, ca_market_config = market, ca_buyer = fa_buyer f,
       ca_seller = fa_seller f,
       ca_buyer_balance = fst (trader_market_balance_pda env market (fa_buyer f)),
       ca_seller_balance = fst (trader_market_balance_pda env market (fa_seller f)),
       ca_payer = fa_payer f\<rparr>)"

record cancel_order_accounts =
  xa_trader :: pubkey
  xa_market_config :: pubkey
  xa_payer :: pubkey

record cancel_flow_accounts =
  xf_trader :: pubkey
  xf_base_mint :: pubkey
  xf_quote_mint :: pubkey
  xf_payer :: pubkey

definition cancel_flow_market_config :: "anchor_env \<Rightarrow> cancel_flow_accounts \<Rightarrow> pubkey" where
  "cancel_flow_market_config env f = fst (market_config_pda env (xf_base_mint f) (xf_quote_mint f))"

definition to_cancel_accounts :: "anchor_env \<Rightarrow> cancel_flow_accounts \<Rightarrow> cancel_order_accounts" where
  "to_cancel_accounts env f =
     \<lparr>xa_trader = xf_trader f, xa_market_config = cancel_flow_market_config env f,
      xa_payer = xf_payer f\<rparr>"

section \<open>Instructions\<close>

definition buyer_signature_instruction :: "client_env \<Rightarrow> pubkey \<Rightarrow> signed_fill_args \<Rightarrow> client_instruction"
where
  "buyer_signature_instruction cl buyer a =
     OtherInstruction (cl_new_ed25519 cl (payload_preimage (sa_buyer_order a)) (sa_buyer_signature a)
       (key_bytes buyer))"

definition seller_signature_instruction :: "client_env \<Rightarrow> pubkey \<Rightarrow> signed_fill_args \<Rightarrow> client_instruction"
where
  "seller_signature_instruction cl seller a =
     OtherInstruction (cl_new_ed25519 cl (payload_preimage (sa_seller_order a)) (sa_seller_signature a)
       (key_bytes seller))"

definition settle_signed_fill_instruction ::
  "client_env \<Rightarrow> signed_settlement_accounts \<Rightarrow> signed_fill_args \<Rightarrow> client_instruction" where
  "settle_signed_fill_instruction cl c a =
     SettleSignedFillInstruction
       \<lparr>sf_authority = ca_authority c, sf_market_config = ca_market_config c, sf_buyer_key = ca_buyer c,
        sf_seller_key = ca_seller c, sf_buyer_balance = ca_buyer_balance c,
        sf_seller_balance = ca_seller_balance c,
        sf_receipt = fst (settlement_receipt_pda (cl_env cl) (ca_market_config c) (sa_settlement_id a)),
        sf_payer = ca_payer c,
        ss_buyer_fill_state =
          fst (order_fill_state_pda (cl_env cl) (ca_market_config c) (sa_buyer_order_hash a)),
        ss_seller_fill_state =
          fst (order_fill_state_pda (cl_env cl) (ca_market_config c) (sa_seller_order_hash a)),
        ss_instructions_sysvar = cl_instructions_sysvar cl\<rparr>
       (sa_settlement_id a) (sa_buyer_order_hash a) (sa_seller_order_hash a) a"

definition cancel_signed_order_instruction ::
  "client_env \<Rightarrow> cancel_order_accounts \<Rightarrow> bytes32 \<Rightarrow> signed_payload \<Rightarrow> client_instruction" where
  "cancel_signed_order_instruction cl c h p =
     CancelSignedOrderInstruction
       \<lparr>cs_trader = xa_trader c, cs_market = xa_market_config c,
        cs_fill_state = fst (order_fill_state_pda (cl_env cl) (xa_market_config c) h),
        cs_payer = xa_payer c\<rparr> h p"

section \<open>Builders\<close>

type_synonym builder = "client_instruction list"

definition builder_new :: builder where
  "builder_new = []"

definition with_prefix_instruction :: "client_instruction \<Rightarrow> builder \<Rightarrow> builder" where
  "with_prefix_instruction i b = b @ [i]"

definition with_compute_unit_limit :: "client_env \<Rightarrow> u32 \<Rightarrow> builder \<Rightarrow> builder" where
  "with_compute_unit_limit cl units = with_prefix_instruction (OtherInstruction (cl_set_unit_limit cl units))"

definition with_compute_unit_price :: "client_env \<Rightarrow> u64 \<Rightarrow> builder \<Rightarrow> builder" where
  "with_compute_unit_price cl fee = with_prefix_instruction (OtherInstruction (cl_set_unit_price cl fee))"

definition with_compute_budget :: "client_env \<Rightarrow> u32 \<Rightarrow> u64 \<Rightarrow> builder \<Rightarrow> builder" where
  "with_compute_budget cl units fee b = with_compute_unit_price cl fee (with_compute_unit_limit cl units b)"

definition with_compute_budget_preset :: "client_env \<Rightarrow> compute_budget_preset \<Rightarrow> builder \<Rightarrow> builder" where
  "with_compute_budget_preset cl p = with_compute_budget cl (cb_unit_limit p) (cb_micro_lamports p)"

definition build_settlement ::
  "client_env \<Rightarrow> signed_settlement_accounts \<Rightarrow> signed_fill_args \<Rightarrow> builder \<Rightarrow> client_instruction list" where
  "build_settlement cl c a b =
     b @ [buyer_signature_instruction cl (ca_buyer c) a, seller_signature_instruction cl (ca_seller c) a,
          settle_signed_fill_instruction cl c a]"

definition build_settlement_for_market ::
  "client_env \<Rightarrow> settlement_flow_accounts \<Rightarrow> signed_fill_args \<Rightarrow> builder \<Rightarrow> client_instruction list" where
  "build_settlement_for_market cl f a = build_settlement cl (to_settlement_accounts (cl_env cl) f) a"

definition signed_settlement_transaction ::
  "client_env \<Rightarrow> settlement_flow_accounts \<Rightarrow> signed_fill_args \<Rightarrow> compute_budget_preset
    \<Rightarrow> client_instruction list" where
  "signed_settlement_transaction cl f a budget =
     build_settlement_for_market cl f a (with_compute_budget_preset cl budget builder_new)"

definition with_signed_settlement_compute_budget :: "client_env \<Rightarrow> builder \<Rightarrow> builder" where
  "with_signed_settlement_compute_budget cl = with_compute_budget_preset cl signed_settlement_preset"

definition signed_settlement_instructions ::
  "client_env \<Rightarrow> signed_settlement_accounts \<Rightarrow> signed_fill_args \<Rightarrow> client_instruction list" where
  "signed_settlement_instructions cl c a = build_settlement cl c a builder_new"

definition signed_settlement_flow_instructions ::
  "client_env \<Rightarrow> settlement_flow_accounts \<Rightarrow> signed_fill_args \<Rightarrow> client_instruction list" where
  "signed_settlement_flow_instructions cl f a = build_settlement_for_market cl f a builder_new"

text \<open>The builder of cancel transactions.\<close>

definition cancel_builder_new :: builder where
  "cancel_builder_new = []"

definition cancel_with_prefix_instruction :: "client_instruction \<Rightarrow> builder \<Rightarrow> builder" where
  "cancel_with_prefix_instruction i b = b @ [i]"

definition cancel_with_compute_unit_limit :: "client_env \<Rightarrow> u32 \<Rightarrow> builder \<Rightarrow> builder" where
  "cancel_with_compute_unit_limit cl units =
     cancel_with_prefix_instruction (OtherInstruction (cl_set_unit_limit cl units))"

definition cancel_with_compute_unit_price :: "client_env \<Rightarrow> u64 \<Rightarrow> builder \<Rightarrow> builder" where
  "cancel_with_compute_unit_price cl fee =
     cancel_with_prefix_instruction (OtherInstruction (cl_set_unit_price cl fee))"

definition cancel_with_compute_budget :: "client_env \<Rightarrow> u32 \<Rightarrow> u64 \<Rightarrow> builder \<Rightarrow> builder" where
  "cancel_with_compute_budget cl units fee b =
     cancel_with_compute_unit_price cl fee (cancel_with_compute_unit_limit cl units b)"

definition cancel_with_compute_budget_preset :: "client_env \<Rightarrow> compute_budget_preset \<Rightarrow> builder \<Rightarrow> builder"
where
  "cancel_with_compute_budget_preset cl p =
     cancel_with_compute_budget cl (cb_unit_limit p) (cb_micro_lamports p)"

definition with_cancel_signed_order_compute_budget :: "client_env \<Rightarrow> builder \<Rightarrow> builder" where
  "with_cancel_signed_order_compute_budget cl =
     cancel_with_compute_budget_preset cl cancel_signed_order_preset"

definition build_cancel ::
  "client_env \<Rightarrow> cancel_order_accounts \<Rightarrow> bytes32 \<Rightarrow> signed_payload \<Rightarrow> builder \<Rightarrow> client_instruction list"
where
  "build_cancel cl c h p b = b @ [cancel_signed_order_instruction cl c h p]"

definition build_cancel_for_market ::
  "client_env \<Rightarrow> cancel_flow_accounts \<Rightarrow> bytes32 \<Rightarrow> signed_payload \<Rightarrow> builder \<Rightarrow> client_instruction list"
where
  "build_cancel_for_market cl f h p = build_cancel cl (to_cancel_accounts (cl_env cl) f) h p"

definition cancel_signed_order_transaction ::
  "client_env \<Rightarrow> cancel_flow_accounts \<Rightarrow> bytes32 \<Rightarrow> signed_payload \<Rightarrow> compute_budget_preset
    \<Rightarrow> client_instruction list" where
  "cancel_signed_order_transaction cl f h p budget =
     build_cancel_for_market cl f h p (cancel_with_compute_budget_preset cl budget cancel_builder_new)"

definition cancel_signed_order_instructions ::
  "client_env \<Rightarrow> cancel_order_accounts \<Rightarrow> bytes32 \<Rightarrow> signed_payload \<Rightarrow> client_instruction list" where
  "cancel_signed_order_instructions cl c h p = build_cancel cl c h p cancel_builder_new"

definition cancel_signed_order_flow_instructions ::
  "client_env \<Rightarrow> cancel_flow_accounts \<Rightarrow> bytes32 \<Rightarrow> signed_payload \<Rightarrow> client_instruction list" where
  "cancel_signed_order_flow_instructions cl f h p = build_cancel_for_market cl f h p cancel_builder_new"

section \<open>Transactions\<close>

lemma signed_settlement_transaction_parts:
  "signed_settlement_transaction cl f a budget =
     [OtherInstruction (cl_set_unit_limit cl (cb_unit_limit budget)),
      OtherInstruction (cl_set_unit_price cl (cb_micro_lamports budget)),
      buyer_signature_instruction cl (fa_buyer f) a, seller_signature_instruction cl (fa_seller f) a,
      settle_signed_fill_instruction cl (to_settlement_accounts (cl_env cl) f) a]"
  by (simp add: signed_settlement_transaction_def build_settlement_for_market_def build_settlement_def
    with_compute_budget_preset_def with_compute_budget_def with_compute_unit_price_def
    with_compute_unit_limit_def with_prefix_instruction_def builder_new_def to_settlement_accounts_def Let_def)

lemma cancel_signed_order_transaction_parts:
  "cancel_signed_order_transaction cl f h p budget =
     [OtherInstruction (cl_set_unit_limit cl (cb_unit_limit budget)),
      OtherInstruction (cl_set_unit_price cl (cb_micro_lamports budget)),
      cancel_signed_order_instruction cl (to_cancel_accounts (cl_env cl) f) h p]"
  by (simp add: cancel_signed_order_transaction_def build_cancel_for_market_def build_cancel_def
    cancel_with_compute_budget_preset_def cancel_with_compute_budget_def cancel_with_compute_unit_price_def
    cancel_with_compute_unit_limit_def cancel_with_prefix_instruction_def cancel_builder_new_def)

text \<open>
  What an instruction sees of its transaction: the instructions sysvar gives the neighbours by
  relative index.  Instructions of the settlement program have no raw form in this model.
\<close>

fun raw_instruction :: "client_instruction \<Rightarrow> instruction option" where
  "raw_instruction (OtherInstruction i) = Some i"
| "raw_instruction _ = None"

definition in_transaction :: "client_instruction list \<Rightarrow> nat \<Rightarrow> chain_env \<Rightarrow> chain_env" where
  "in_transaction tx k ce = ce\<lparr>ce_relative_instruction :=
     (\<lambda>i. let j = int k + i in
        if 0 \<le> j \<and> j < int (length tx) then raw_instruction (tx ! nat j) else None)\<rparr>"

end
