(* ===== verification/Relayer.thy ===== *)
theory Relayer
  imports Settlement_Client
begin

text \<open>
  \<open>crates/relayer/src/lib.rs\<close>: planning of settlement transactions and their submission through
  a stack of submitters: RPC, confirmation polling, retries, dead letters, and the worker that
  submits a batch.  The RPC node and the signing of a message are code of other packages, the
  parameters in \<open>rpc_node\<close>; the answers of the node depend on how many calls were made before,
  which is all that \<open>rpc_world\<close> keeps beside the transactions that were sent.
\<close>

section \<open>Plans and errors\<close>

record instruction_plan =
  ip_instructions :: "client_instruction list"
  ip_required_signers :: "pubkey list"
  ip_fee_payer :: pubkey

record submitted_transaction =
  st_signature :: bytes64

datatype submission_error =
    BlockhashExpired string
  | BlockhashUnavailable string
  | BuildTransaction string
  | MissingRequiredSigner pubkey
  | Rejected string
  | Uncertain string

fun is_retryable :: "submission_error \<Rightarrow> bool" where
  "is_retryable (BlockhashExpired _) = True"
| "is_retryable (BlockhashUnavailable _) = True"
| "is_retryable (Uncertain _) = True"
| "is_retryable _ = False"

definition retryable_submission_error :: "submission_error \<Rightarrow> bool" where
  "retryable_submission_error e = is_retryable e"

text \<open>The trait \<open>SolanaSubmitter\<close>: a state-passing function.\<close>

type_synonym ('w, 'a) effect = "'w \<Rightarrow> (submission_error, 'a) result \<times> 'w"
type_synonym 'w submitter = "instruction_plan \<Rightarrow> ('w, submitted_transaction) effect"

text \<open>The operator \<open>?\<close> on an effect.\<close>

definition bind_effect :: "('w, 'a) effect \<Rightarrow> ('a \<Rightarrow> ('w, 'b) effect) \<Rightarrow> ('w, 'b) effect" where
  "bind_effect m f w = (case m w of (Inl e, w1) \<Rightarrow> (Inl e, w1) | (Inr x, w1) \<Rightarrow> f x w1)"

section \<open>Recording doubles\<close>

record recording_submitter =
  rs_signature :: bytes64
  rs_submitted_plans :: "instruction_plan list"

definition recording_submitter_new :: "bytes64 \<Rightarrow> recording_submitter" where
  "recording_submitter_new sig = \<lparr>rs_signature = sig, rs_submitted_plans = []\<rparr>"

definition recording_submit :: "recording_submitter submitter" where
  "recording_submit plan w =
     (Inr \<lparr>st_signature = rs_signature w\<rparr>, w\<lparr>rs_submitted_plans := rs_submitted_plans w @ [plan]\<rparr>)"

section \<open>Confirmation\<close>

datatype confirmation_status = Confirmed | ConfirmationFailed string | ConfirmationUncertain string

definition default_max_polls :: nat where "default_max_polls = 20"

fun polling_confirm ::
  "(bytes64 \<Rightarrow> ('w, confirmation_status) effect) \<Rightarrow> nat \<Rightarrow> bytes64 \<Rightarrow> ('w, confirmation_status) effect"
where
  "polling_confirm poll 0 sig w = (Inr (ConfirmationUncertain ''confirmation polling exhausted''), w)"
| "polling_confirm poll (Suc n) sig w =
     bind_effect (poll sig) (\<lambda>status w1.
       case status of
         ConfirmationUncertain _ \<Rightarrow> polling_confirm poll n sig w1
       | _ \<Rightarrow> (Inr status, w1)) w"

definition confirming_submit ::
  "'w submitter \<Rightarrow> (bytes64 \<Rightarrow> ('w, confirmation_status) effect) \<Rightarrow> 'w submitter" where
  "confirming_submit submit confirm plan =
     bind_effect (submit plan) (\<lambda>submitted.
     bind_effect (confirm (st_signature submitted)) (\<lambda>status w.
       (case status of
          Confirmed \<Rightarrow> Inr submitted
        | ConfirmationFailed e \<Rightarrow> Inl (Rejected e)
        | ConfirmationUncertain e \<Rightarrow> Inl (Uncertain e), w)))"

section \<open>Retries\<close>

definition default_max_submit_attempts :: nat where "default_max_submit_attempts = 3"

fun retry_loop ::
  "'w submitter \<Rightarrow> nat \<Rightarrow> submission_error option \<Rightarrow> 'w submitter" where
  "retry_loop submit 0 last_error plan w =
     (Inl (case last_error of Some e \<Rightarrow> e | None \<Rightarrow> Uncertain ''retry attempts exhausted''), w)"
| "retry_loop submit (Suc n) last_error plan w =
     (case submit plan w of
        (Inr submitted, w1) \<Rightarrow> (Inr submitted, w1)
      | (Inl e, w1) \<Rightarrow>
          if retryable_submission_error e then retry_loop submit n (Some e) plan w1 else (Inl e, w1))"

definition retrying_submit :: "'w submitter \<Rightarrow> nat \<Rightarrow> 'w submitter" where
  "retrying_submit submit max_attempts = retry_loop submit (max max_attempts 1) None"

section \<open>Dead letters\<close>

record dead_letter =
  dl_plan :: instruction_plan
  dl_error :: submission_error

text \<open>\<open>RecordingDeadLetterSink\<close> keeps its letters in a list, threaded beside the other state.\<close>

definition record_dead_letter :: "dead_letter \<Rightarrow> ('w \<times> dead_letter list, unit) effect" where
  "record_dead_letter l = (\<lambda>(w, ls). (Inr (), w, ls @ [l]))"

definition dead_lettering_submit :: "'w submitter \<Rightarrow> ('w \<times> dead_letter list) submitter" where
  "dead_lettering_submit submit plan = (\<lambda>(w, ls).
     case submit plan w of
       (Inr submitted, w1) \<Rightarrow> (Inr submitted, w1, ls)
     | (Inl e, w1) \<Rightarrow>
         bind_effect (record_dead_letter \<lparr>dl_plan = plan, dl_error = e\<rparr>) (\<lambda>_ w2. (Inl e, w2)) (w1, ls))"

section \<open>Signing and the RPC node\<close>

record keypair =
  kp_pubkey :: pubkey
  kp_secret :: bytes32

type_synonym blockhash = bytes32

record message =
  ms_instructions :: "client_instruction list"
  ms_payer :: pubkey
  ms_blockhash :: blockhash

record transaction =
  tx_message :: message
  tx_signature :: bytes64

datatype signature_status = StatusOk | StatusErr string

record rpc_node =
  rn_latest_blockhash :: "nat \<Rightarrow> (string, blockhash) result"
  rn_send_transaction :: "nat \<Rightarrow> transaction \<Rightarrow> (string, bytes64) result"
  rn_signature_status :: "nat \<Rightarrow> bytes64 \<Rightarrow> (string, signature_status option) result"
  rn_sign_message :: "message \<Rightarrow> keypair list \<Rightarrow> (string, transaction) result"

record rpc_world =
  rw_calls :: nat
  rw_sent :: "transaction list"

definition called :: "rpc_world \<Rightarrow> rpc_world" where
  "called w = w\<lparr>rw_calls := Suc (rw_calls w)\<rparr>"

definition latest_blockhash :: "rpc_node \<Rightarrow> (rpc_world, blockhash) effect" where
  "latest_blockhash n w = (map_err BlockhashUnavailable (rn_latest_blockhash n (rw_calls w)), called w)"

definition rpc_send :: "rpc_node \<Rightarrow> transaction \<Rightarrow> (rpc_world, submitted_transaction) effect" where
  "rpc_send n tx w =
     (and_then (map_err Rejected (rn_send_transaction n (rw_calls w) tx))
        (\<lambda>sig. Inr \<lparr>st_signature = sig\<rparr>), (called w)\<lparr>rw_sent := rw_sent w @ [tx]\<rparr>)"

definition rpc_poll :: "rpc_node \<Rightarrow> bytes64 \<Rightarrow> (rpc_world, confirmation_status) effect" where
  "rpc_poll n sig w =
     (and_then (map_err Uncertain (rn_signature_status n (rw_calls w) sig)) (\<lambda>status.
        Inr (case status of
               Some StatusOk \<Rightarrow> Confirmed
             | Some (StatusErr e) \<Rightarrow> ConfirmationFailed e
             | None \<Rightarrow> ConfirmationUncertain ''signature status not found'')), called w)"

fun required_keypairs :: "keypair list \<Rightarrow> pubkey list \<Rightarrow> (submission_error, keypair list) result" where
  "required_keypairs available [] = Inr []"
| "required_keypairs available (k # ks) =
     and_then (ok_or (find (\<lambda>kp. kp_pubkey kp = k) available) (MissingRequiredSigner k)) (\<lambda>kp.
     and_then (required_keypairs available ks) (\<lambda>kps. Inr (kp # kps)))"

definition in_memory_sign ::
  "rpc_node \<Rightarrow> keypair list \<Rightarrow> instruction_plan \<Rightarrow> blockhash \<Rightarrow> (submission_error, transaction) result"
where
  "in_memory_sign n signers plan recent =
     (let m = \<lparr>ms_instructions = ip_instructions plan, ms_payer = ip_fee_payer plan,
               ms_blockhash = recent\<rparr> in
      and_then (required_keypairs signers (ip_required_signers plan)) (\<lambda>kps.
        map_err BuildTransaction (rn_sign_message n m kps)))"

definition rpc_submit :: "rpc_node \<Rightarrow> keypair list \<Rightarrow> rpc_world submitter" where
  "rpc_submit n signers plan =
     bind_effect (latest_blockhash n) (\<lambda>recent.
     bind_effect (\<lambda>w. (in_memory_sign n signers plan recent, w)) (\<lambda>tx.
       rpc_send n tx))"

section \<open>Planning\<close>

fun unique_signers :: "pubkey list \<Rightarrow> pubkey list" where
  "unique_signers ks = foldl (\<lambda>unique k. if k \<in> set unique then unique else unique @ [k]) [] ks"

record planner =
  pl_settlement_budget :: compute_budget_preset
  pl_cancel_budget :: compute_budget_preset

definition planner_default :: planner where
  "planner_default =
     \<lparr>pl_settlement_budget = signed_settlement_preset, pl_cancel_budget = cancel_signed_order_preset\<rparr>"

record settlement_request =
  rq_authority :: pubkey
  rq_base_mint :: pubkey
  rq_quote_mint :: pubkey
  rq_buyer :: pubkey
  rq_seller :: pubkey
  rq_payer :: pubkey
  rq_args :: signed_fill_args

record cancel_request =
  cq_trader :: pubkey
  cq_base_mint :: pubkey
  cq_quote_mint :: pubkey
  cq_payer :: pubkey
  cq_order_hash :: bytes32
  cq_order :: signed_payload

definition plan_signed_settlement :: "client_env \<Rightarrow> planner \<Rightarrow> settlement_request \<Rightarrow> instruction_plan" where
  "plan_signed_settlement cl p q =
     \<lparr>ip_instructions = signed_settlement_transaction cl
        \<lparr>fa_authority = rq_authority q, fa_base_mint = rq_base_mint q, fa_quote_mint = rq_quote_mint q,
         fa_buyer = rq_buyer q, fa_seller = rq_seller q, fa_payer = rq_payer q\<rparr>
        (rq_args q) (pl_settlement_budget p),
      ip_required_signers = unique_signers [rq_authority q, rq_payer q],
      ip_fee_payer = rq_payer q\<rparr>"

definition plan_cancel_signed_order :: "client_env \<Rightarrow> planner \<Rightarrow> cancel_request \<Rightarrow> instruction_plan" where
  "plan_cancel_signed_order cl p q =
     \<lparr>ip_instructions = cancel_signed_order_transaction cl
        \<lparr>xf_trader = cq_trader q, xf_base_mint = cq_base_mint q, xf_quote_mint = cq_quote_mint q,
         xf_payer = cq_payer q\<rparr> (cq_order_hash q) (cq_order q) (pl_cancel_budget p),
      ip_required_signers = unique_signers [cq_trader q, cq_payer q],
      ip_fee_payer = cq_payer q\<rparr>"

section \<open>The worker\<close>

record submission_failure =
  sn_request :: settlement_request
  sn_error :: submission_error

record worker_report =
  wr_submitted :: "submitted_transaction list"
  wr_failed :: "submission_failure list"

fun submit_loop ::
  "client_env \<Rightarrow> planner \<Rightarrow> 'w submitter \<Rightarrow> settlement_request list \<Rightarrow> worker_report \<Rightarrow> 'w
    \<Rightarrow> worker_report \<times> 'w" where
  "submit_loop cl p submit [] r w = (r, w)"
| "submit_loop cl p submit (q # qs) r w =
     (case submit (plan_signed_settlement cl p q) w of
        (Inr t, w1) \<Rightarrow> submit_loop cl p submit qs (r\<lparr>wr_submitted := wr_submitted r @ [t]\<rparr>) w1
      | (Inl e, w1) \<Rightarrow> submit_loop cl p submit qs
          (r\<lparr>wr_failed := wr_failed r @ [\<lparr>sn_request = q, sn_error = e\<rparr>]\<rparr>) w1)"

definition submit_requests ::
  "client_env \<Rightarrow> planner \<Rightarrow> 'w submitter \<Rightarrow> settlement_request list \<Rightarrow> 'w \<Rightarrow> worker_report \<times> 'w" where
  "submit_requests cl p submit qs w =
     submit_loop cl p submit qs \<lparr>wr_submitted = [], wr_failed = []\<rparr> w"

text \<open>The stack that the service builds: RPC, polling, retries and dead letters.\<close>

definition settlement_submitter ::
  "rpc_node \<Rightarrow> keypair list \<Rightarrow> nat \<Rightarrow> nat \<Rightarrow> (rpc_world \<times> dead_letter list) submitter" where
  "settlement_submitter n signers polls attempts =
     dead_lettering_submit (retrying_submit
       (confirming_submit (rpc_submit n signers) (polling_confirm (rpc_poll n) polls)) attempts)"

end
