(* ===== verification/Relayer_Bounds.thy ===== *)
theory Relayer_Bounds
  imports Relayer "HOL-Library.Sublist"
begin

text \<open>
  What the submitters of \<open>crates/relayer\<close> promise: the contract \<open>bounded_submitter\<close> is proved for the
  RPC submitter and carried through confirmation, retries and dead letters to the worker.
\<close>

section \<open>Retries and polls as a choice among attempts\<close>

text \<open>All attempts in a row, whatever their outcome, each with the state after it.\<close>

fun attempts_of :: "('w, 'a) effect \<Rightarrow> nat \<Rightarrow> 'w \<Rightarrow> ((submission_error, 'a) result \<times> 'w) list" where
  "attempts_of m 0 w = []"
| "attempts_of m (Suc n) w = m w # attempts_of m n (snd (m w))"

definition final_outcome :: "(submission_error, 'a) result \<Rightarrow> bool" where
  "final_outcome r = (case r of Inr _ \<Rightarrow> True | Inl e \<Rightarrow> \<not> is_retryable e)"

definition conclusive :: "(submission_error, confirmation_status) result \<Rightarrow> bool" where
  "conclusive r = (case r of Inr (ConfirmationUncertain _) \<Rightarrow> False | _ \<Rightarrow> True)"

lemma final_outcome_simps [simp]: "final_outcome (Inr x)" "final_outcome (Inl e) \<longleftrightarrow> \<not> is_retryable e"
  by (simp_all add: final_outcome_def)

lemma conclusive_simps [simp]:
  "conclusive (Inl e)" "conclusive (Inr Confirmed)" "conclusive (Inr (ConfirmationFailed s))"
  "\<not> conclusive (Inr (ConfirmationUncertain s))"
  by (simp_all add: conclusive_def)

lemma find_in_set: "find P xs = Some a \<Longrightarrow> a \<in> set xs"
  by (auto simp: find_Some_iff)

lemma attempts_of_Nil [simp]: "attempts_of m n w = [] \<longleftrightarrow> n = 0"
  by (cases n) simp_all

lemma length_attempts_of [simp]: "length (attempts_of m n w) = n"
  by (induction n arbitrary: w) simp_all

lemma retry_loop_first:
  "retry_loop submit n last_error plan w =
     (case find (\<lambda>a. final_outcome (fst a)) (attempts_of (submit plan) n w) of
        Some a \<Rightarrow> a
      | None \<Rightarrow> (Inl (if n = 0 then (case last_error of Some e \<Rightarrow> e | None \<Rightarrow> Uncertain ''retry attempts exhausted'')
                      else (case fst (last (attempts_of (submit plan) n w)) of Inl e \<Rightarrow> e)),
                 if n = 0 then w else snd (last (attempts_of (submit plan) n w))))"
proof (induction n arbitrary: last_error w)
  case (Suc n)
  obtain r w1 where s: "submit plan w = (r, w1)" by (cases "submit plan w")
  show ?case
    using Suc.IH [of _ w1] s
    by (cases r) (simp_all add: retryable_submission_error_def split: option.split)
qed simp

lemma retrying_submit_first:
  "retrying_submit submit m plan w =
     (let as = attempts_of (submit plan) (max m 1) w in
      case find (\<lambda>a. final_outcome (fst a)) as of Some a \<Rightarrow> a | None \<Rightarrow> last as)"
proof -
  let ?as = "attempts_of (submit plan) (max m 1) w"
  have ne: "?as \<noteq> []" by simp
  show ?thesis
  proof (cases "find (\<lambda>a. final_outcome (fst a)) ?as")
    case None
    then have "\<not> final_outcome (fst (last ?as))"
      using last_in_set [OF ne] unfolding find_None_iff by blast
    then have "last ?as = (Inl (case fst (last ?as) of Inl e \<Rightarrow> e), snd (last ?as))"
      by (cases "last ?as") (auto simp: final_outcome_def split: sum.splits)
    with None show ?thesis by (simp add: retrying_submit_def retry_loop_first Let_def)
  qed (simp add: retrying_submit_def retry_loop_first Let_def)
qed

lemma polling_confirm_first:
  "polling_confirm poll n sig w =
     (case find (\<lambda>a. conclusive (fst a)) (attempts_of (poll sig) n w) of
        Some a \<Rightarrow> a
      | None \<Rightarrow> (Inr (ConfirmationUncertain ''confirmation polling exhausted''),
                 if n = 0 then w else snd (last (attempts_of (poll sig) n w))))"
proof (induction n arbitrary: w)
  case (Suc n)
  obtain r w1 where s: "poll sig w = (r, w1)" by (cases "poll sig w")
  show ?case
  proof (cases r)
    case (Inr status)
    then show ?thesis
      using Suc.IH [of w1] s by (cases status) (simp_all add: bind_effect_def split: option.split)
  qed (simp add: s bind_effect_def)
qed simp

text \<open>Retrying and polling choose the first conclusive attempt.  Among as many attempts as the policy
  allows (at least one), a retried submission is the first which succeeds or fails for good, and
  the last one when all of them fail in a way that may be retried; polling is the first poll
  that is not uncertain, and uncertain when all are.\<close>

theorem first_conclusive_attempt:
  "retrying_submit submit m plan w =
     (let as = attempts_of (submit plan) (max m 1) w in
      case find (\<lambda>a. final_outcome (fst a)) as of Some a \<Rightarrow> a | None \<Rightarrow> last as) \<and>
   polling_confirm poll n sig v =
     (let as = attempts_of (poll sig) n v in
      case find (\<lambda>a. conclusive (fst a)) as of
        Some a \<Rightarrow> a
      | None \<Rightarrow> (Inr (ConfirmationUncertain ''confirmation polling exhausted''),
                 if n = 0 then v else snd (last as)))"
  by (simp only: retrying_submit_first polling_confirm_first Let_def)

section \<open>What a submitter may send\<close>

text \<open>
  The contract of a submitter: what it sends belongs to the plan, it sends at most \<open>bound\<close>
  transactions, and it has sent one when it reports success.  \<open>sent\<close> reads the log of the world.
\<close>

locale bounded_submitter =
  fixes submit :: "'w submitter"
    and sent :: "'w \<Rightarrow> transaction list"
    and belongs :: "instruction_plan \<Rightarrow> transaction \<Rightarrow> bool"
    and bound :: nat
  assumes sends: "\<exists>txs. sent (snd (submit plan w)) = sent w @ txs \<and> length txs \<le> bound \<and>
      (\<forall>tx\<in>set txs. belongs plan tx) \<and> (is_ok (fst (submit plan w)) \<longrightarrow> txs \<noteq> [])"
begin

lemma attempts_send:
  assumes "a \<in> set (attempts_of (submit plan) n w)"
  shows "\<exists>txs. sent (snd a) = sent w @ txs \<and> length txs \<le> n * bound \<and>
    (\<forall>tx\<in>set txs. belongs plan tx) \<and> (is_ok (fst a) \<longrightarrow> txs \<noteq> [])"
  using assms
proof (induction n arbitrary: w)
  case (Suc n)
  from sends [of plan w] obtain txs where t: "sent (snd (submit plan w)) = sent w @ txs" "length txs \<le> bound"
    "\<forall>tx\<in>set txs. belongs plan tx" "is_ok (fst (submit plan w)) \<longrightarrow> txs \<noteq> []" by blast
  from Suc.prems consider "a = submit plan w" | "a \<in> set (attempts_of (submit plan) n (snd (submit plan w)))"
    by auto
  then show ?case
  proof cases
    case 1
    with t show ?thesis by (intro exI [of _ txs]) auto
  next
    case 2
    from Suc.IH [OF 2] obtain txs' where "sent (snd a) = sent (snd (submit plan w)) @ txs'"
      "length txs' \<le> n * bound" "\<forall>tx\<in>set txs'. belongs plan tx" "is_ok (fst a) \<longrightarrow> txs' \<noteq> []" by blast
    with t show ?thesis by (intro exI [of _ "txs @ txs'"]) auto
  qed
qed simp

text \<open>The worker: one report entry for each request, and a bounded number of transactions.\<close>

lemma submit_loop_sends:
  "\<exists>txs. sent (snd (submit_loop cl p submit qs r w)) = sent w @ txs \<and> length txs \<le> length qs * bound \<and>
    (\<forall>tx\<in>set txs. \<exists>q\<in>set qs. belongs (plan_signed_settlement cl p q) tx)"
proof (induction qs arbitrary: r w)
  case (Cons q qs)
  obtain x w1 where s: "submit (plan_signed_settlement cl p q) w = (x, w1)" by fastforce
  from sends [of "plan_signed_settlement cl p q" w] s obtain txs where t: "sent w1 = sent w @ txs"
    "length txs \<le> bound" "\<forall>tx\<in>set txs. belongs (plan_signed_settlement cl p q) tx" by auto
  obtain r1 where l: "submit_loop cl p submit (q # qs) r w = submit_loop cl p submit qs r1 w1"
    by (cases x) (auto simp: s)
  from Cons.IH [of r1 w1] obtain txs' where "sent (snd (submit_loop cl p submit qs r1 w1)) = sent w1 @ txs'"
    "length txs' \<le> length qs * bound" "\<forall>tx\<in>set txs'. \<exists>q\<in>set qs. belongs (plan_signed_settlement cl p q) tx"
    by blast
  with t show ?case unfolding l by (intro exI [of _ "txs @ txs'"]) auto
qed simp

end

text \<open>Submitters built from submitters keep the contract.\<close>

locale retried_submitter = bounded_submitter +
  fixes attempts :: nat

sublocale retried_submitter \<subseteq> retried: bounded_submitter "retrying_submit submit attempts" sent belongs
  "max attempts 1 * bound"
proof
  fix plan w
  let ?as = "attempts_of (submit plan) (max attempts 1) w"
  have ne: "?as \<noteq> []" by simp
  have "retrying_submit submit attempts plan w \<in> set ?as"
    using ne by (simp add: retrying_submit_first Let_def find_in_set split: option.split)
  from attempts_send [OF this] show "\<exists>txs. sent (snd (retrying_submit submit attempts plan w)) = sent w @ txs \<and>
      length txs \<le> max attempts 1 * bound \<and> (\<forall>tx\<in>set txs. belongs plan tx) \<and>
      (is_ok (fst (retrying_submit submit attempts plan w)) \<longrightarrow> txs \<noteq> [])" .
qed

locale confirmed_submitter = bounded_submitter submit sent belongs bound
  for submit :: "'w submitter" and sent :: "'w \<Rightarrow> transaction list"
    and belongs :: "instruction_plan \<Rightarrow> transaction \<Rightarrow> bool" and bound :: nat +
  fixes confirm :: "bytes64 \<Rightarrow> ('w, confirmation_status) effect"
  assumes confirm_sends_nothing: "sent (snd (confirm sig w)) = sent w"

sublocale confirmed_submitter \<subseteq> confirmed: bounded_submitter "confirming_submit submit confirm" sent belongs bound
proof
  fix plan w
  obtain x w1 where s: "submit plan w = (x, w1)" by fastforce
  from sends [of plan w] s obtain txs where t: "sent w1 = sent w @ txs" "length txs \<le> bound"
    "\<forall>tx\<in>set txs. belongs plan tx" "is_ok x \<longrightarrow> txs \<noteq> []" by auto
  have "sent (snd (confirming_submit submit confirm plan w)) = sent w1"
    using confirm_sends_nothing [of _ w1]
    by (cases x) (auto simp: confirming_submit_def bind_effect_def s split: sum.splits prod.splits,
      (metis snd_conv)+)
  moreover have "is_ok (fst (confirming_submit submit confirm plan w)) \<Longrightarrow> is_ok x"
    by (cases x) (auto simp: confirming_submit_def bind_effect_def s)
  ultimately show "\<exists>txs. sent (snd (confirming_submit submit confirm plan w)) = sent w @ txs \<and> length txs \<le> bound \<and>
      (\<forall>tx\<in>set txs. belongs plan tx) \<and> (is_ok (fst (confirming_submit submit confirm plan w)) \<longrightarrow> txs \<noteq> [])"
    using t by auto
qed

locale dead_lettered_submitter = bounded_submitter

sublocale dead_lettered_submitter \<subseteq> lettered: bounded_submitter "dead_lettering_submit submit" "sent \<circ> fst" belongs bound
proof
  fix plan and w :: "'a \<times> dead_letter list"
  obtain v ls where w: "w = (v, ls)" by fastforce
  obtain x v1 where s: "submit plan v = (x, v1)" by fastforce
  have "fst (snd (dead_lettering_submit submit plan w)) = v1" "is_ok (fst (dead_lettering_submit submit plan w)) \<longleftrightarrow> is_ok x"
    by (cases x; simp add: dead_lettering_submit_def w s bind_effect_def record_dead_letter_def)+
  with sends [of plan v] s show "\<exists>txs. (sent \<circ> fst) (snd (dead_lettering_submit submit plan w)) = (sent \<circ> fst) w @ txs \<and>
      length txs \<le> bound \<and> (\<forall>tx\<in>set txs. belongs plan tx) \<and>
      (is_ok (fst (dead_lettering_submit submit plan w)) \<longrightarrow> txs \<noteq> [])"
    by (auto simp: w)
qed

section \<open>The submitter of the service\<close>

text \<open>A transaction belongs to a plan: the plan's instructions and payer, signed by its signers.\<close>

definition carries :: "rpc_node \<Rightarrow> keypair list \<Rightarrow> instruction_plan \<Rightarrow> transaction \<Rightarrow> bool" where
  "carries n signers plan tx \<longleftrightarrow>
     (\<exists>recent kps. required_keypairs signers (ip_required_signers plan) = Inr kps \<and>
        rn_sign_message n \<lparr>ms_instructions = ip_instructions plan, ms_payer = ip_fee_payer plan,
          ms_blockhash = recent\<rparr> kps = Inr tx)"

lemma rpc_submit_sends:
  "\<exists>txs. rw_sent (snd (rpc_submit n signers plan w)) = rw_sent w @ txs \<and> length txs \<le> 1 \<and>
    (\<forall>tx\<in>set txs. carries n signers plan tx) \<and> (is_ok (fst (rpc_submit n signers plan w)) \<longrightarrow> txs \<noteq> [])"
proof (cases "rn_latest_blockhash n (rw_calls w)")
  case (Inl e)
  then show ?thesis by (simp add: rpc_submit_def bind_effect_def latest_blockhash_def called_def)
next
  case (Inr recent)
  show ?thesis
  proof (cases "in_memory_sign n signers plan recent")
    case (Inl e)
    then show ?thesis by (simp add: \<open>rn_latest_blockhash n _ = _\<close> rpc_submit_def bind_effect_def latest_blockhash_def called_def)
  next
    case (Inr tx)
    then have "carries n signers plan tx"
      by (auto simp: in_memory_sign_def Let_def checked_ok carries_def)
    with Inr show ?thesis
      by (intro exI [of _ "[tx]"]) (simp add: \<open>rn_latest_blockhash n _ = _\<close> rpc_submit_def bind_effect_def
        latest_blockhash_def rpc_send_def called_def)
  qed
qed

lemma polling_sends_nothing: "rw_sent (snd (polling_confirm (rpc_poll n) polls sig w)) = rw_sent w"
proof (induction polls arbitrary: w)
  case (Suc k)
  obtain r w1 where p: "rpc_poll n sig w = (r, w1)" by fastforce
  then have "rw_sent w1 = rw_sent w" by (auto simp: rpc_poll_def called_def)
  with p Suc.IH [of w1] show ?case
    by (auto simp: bind_effect_def split: sum.splits confirmation_status.splits)
qed simp

interpretation rpc: bounded_submitter "rpc_submit n signers" rw_sent "carries n signers" 1
  for n :: rpc_node and signers :: "keypair list"
  by unfold_locales (rule rpc_submit_sends)

interpretation polled: confirmed_submitter "rpc_submit n signers" rw_sent "carries n signers" 1
  "polling_confirm (rpc_poll n) polls"
  for n :: rpc_node and signers :: "keypair list" and polls :: nat
  by unfold_locales (rule polling_sends_nothing)

interpretation persistent: retried_submitter
  "confirming_submit (rpc_submit n signers) (polling_confirm (rpc_poll n) polls)" rw_sent "carries n signers" 1
  attempts
  for n :: rpc_node and signers :: "keypair list" and polls attempts :: nat
  by unfold_locales

interpretation settlement: dead_lettered_submitter
  "retrying_submit (confirming_submit (rpc_submit n signers) (polling_confirm (rpc_poll n) polls)) attempts"
  rw_sent "carries n signers" "max attempts 1 * 1"
  for n :: rpc_node and signers :: "keypair list" and polls attempts :: nat
  by unfold_locales

text \<open>The number of calls to the node.\<close>

lemma attempts_calls:
  assumes "\<And>w. rw_calls (snd (m w)) \<le> rw_calls w + k" and "a \<in> set (attempts_of m j w)"
  shows "rw_calls (snd a) \<le> rw_calls w + j * k"
  using assms(2)
proof (induction j arbitrary: w)
  case (Suc j)
  from Suc.prems consider "a = m w" | "a \<in> set (attempts_of m j (snd (m w)))" by auto
  then show ?case
  proof cases
    case 2
    from Suc.IH [OF 2] assms(1) [of w] show ?thesis by simp
  qed (use assms(1) [of w] in simp)
qed simp

lemma rpc_submit_calls: "rw_calls (snd (rpc_submit n signers plan w)) \<le> rw_calls w + 2"
  by (auto simp: rpc_submit_def bind_effect_def latest_blockhash_def rpc_send_def called_def
    split: sum.split prod.split)

lemma polling_calls: "rw_calls (snd (polling_confirm (rpc_poll n) polls sig w)) \<le> rw_calls w + polls"
proof (induction polls arbitrary: w)
  case (Suc k)
  obtain r w1 where p: "rpc_poll n sig w = (r, w1)" by fastforce
  then have "rw_calls w1 = Suc (rw_calls w)" by (auto simp: rpc_poll_def called_def)
  with p Suc.IH [of w1] show ?case
    by (auto simp: bind_effect_def split: sum.splits confirmation_status.splits)
qed simp

lemma confirming_calls:
  "rw_calls (snd (confirming_submit (rpc_submit n signers) (polling_confirm (rpc_poll n) polls) plan w)) \<le>
     rw_calls w + (2 + polls)"
proof -
  obtain x w1 where s: "rpc_submit n signers plan w = (x, w1)" by fastforce
  with rpc_submit_calls [of n signers plan w] have "rw_calls w1 \<le> rw_calls w + 2" by simp
  moreover have "rw_calls (snd (confirming_submit (rpc_submit n signers) (polling_confirm (rpc_poll n) polls) plan w))
      \<le> rw_calls w1 + polls"
    using polling_calls [of n polls _ w1]
    by (cases x) (auto simp: confirming_submit_def bind_effect_def s split: sum.splits prod.splits, (metis snd_conv)+)
  ultimately show ?thesis by linarith
qed

lemma retrying_in_attempts:
  "retrying_submit submit m plan w \<in> set (attempts_of (submit plan) (max m 1) w)"
  by (simp add: retrying_submit_first Let_def find_in_set split: option.split)

lemma settlement_letters:
  "snd (snd (settlement_submitter n signers polls attempts plan w)) = snd w @
     (case fst (settlement_submitter n signers polls attempts plan w) of
        Inl e \<Rightarrow> [\<lparr>dl_plan = plan, dl_error = e\<rparr>] | Inr _ \<Rightarrow> [])"
proof -
  obtain v ls where w: "w = (v, ls)" by fastforce
  obtain x v1 where "retrying_submit (confirming_submit (rpc_submit n signers) (polling_confirm (rpc_poll n) polls))
      attempts plan v = (x, v1)" by fastforce
  then show ?thesis
    by (cases x; simp add: settlement_submitter_def dead_lettering_submit_def w bind_effect_def record_dead_letter_def)
qed

lemma settlement_calls:
  "rw_calls (fst (snd (settlement_submitter n signers polls attempts plan w))) \<le>
     rw_calls (fst w) + max attempts 1 * (2 + polls)"
proof -
  let ?r = "retrying_submit (confirming_submit (rpc_submit n signers) (polling_confirm (rpc_poll n) polls)) attempts"
  obtain v ls where w: "w = (v, ls)" by fastforce
  obtain x v1 where s: "?r plan v = (x, v1)" by fastforce
  have "(x, v1) \<in> set (attempts_of (confirming_submit (rpc_submit n signers) (polling_confirm (rpc_poll n) polls) plan)
      (max attempts 1) v)"
    unfolding s [symmetric] by (rule retrying_in_attempts)
  from attempts_calls [OF confirming_calls this] s show ?thesis
    by (cases x; simp add: settlement_submitter_def dead_lettering_submit_def w bind_effect_def record_dead_letter_def)
qed

text \<open>C31: Submitting one settlement ends after a bounded number of calls: at most one transaction for
  each attempt of the policy is sent, each carries the plan's instructions and is signed by the
  plan's signers, and the node is called at most twice and once per poll in each attempt.  A
  failure leaves exactly one dead letter with the plan and the error, a success none.\<close>

theorem submission_bounded:
  "\<exists>txs. rw_sent (fst (snd (settlement_submitter n signers polls attempts plan w))) = rw_sent (fst w) @ txs \<and>
     length txs \<le> max attempts 1 \<and> list_all (carries n signers plan) txs \<and>
     rw_calls (fst (snd (settlement_submitter n signers polls attempts plan w))) \<le>
       rw_calls (fst w) + max attempts 1 * (2 + polls) \<and>
     snd (snd (settlement_submitter n signers polls attempts plan w)) = snd w @
       (case fst (settlement_submitter n signers polls attempts plan w) of
          Inl e \<Rightarrow> [\<lparr>dl_plan = plan, dl_error = e\<rparr>] | Inr _ \<Rightarrow> [])"
  using settlement.lettered.sends [where plan = plan and w = w and n = n and signers = signers and polls = polls
      and attempts = attempts] settlement_letters [of n signers polls attempts plan w]
    settlement_calls [of n signers polls attempts plan w]
  by (auto simp: settlement_submitter_def list_all_iff)

lemma submit_loop_report:
  assumes "submit_loop cl p submit qs r w = (r1, w1)"
  shows "length (wr_submitted r1) + length (wr_failed r1) =
      length (wr_submitted r) + length (wr_failed r) + length qs \<and>
    (\<exists>fs. wr_failed r1 = wr_failed r @ fs \<and> subseq (map sn_request fs) qs)"
  using assms
proof (induction qs arbitrary: r w)
  case (Cons q qs)
  obtain x w2 where s: "submit (plan_signed_settlement cl p q) w = (x, w2)" by fastforce
  show ?case
  proof (cases x)
    case (Inl e)
    with Cons.prems s have "submit_loop cl p submit qs
        (r\<lparr>wr_failed := wr_failed r @ [\<lparr>sn_request = q, sn_error = e\<rparr>]\<rparr>) w2 = (r1, w1)" by simp
    from Cons.IH [OF this] obtain fs where
      "wr_failed r1 = wr_failed r @ \<lparr>sn_request = q, sn_error = e\<rparr> # fs" "subseq (map sn_request fs) qs"
      "length (wr_submitted r1) + length (wr_failed r1) = length (wr_submitted r) + Suc (length (wr_failed r)) + length qs"
      by auto
    then show ?thesis by (intro conjI exI [of _ "\<lparr>sn_request = q, sn_error = e\<rparr> # fs"]) auto
  next
    case (Inr t)
    with Cons.prems s have "submit_loop cl p submit qs (r\<lparr>wr_submitted := wr_submitted r @ [t]\<rparr>) w2 = (r1, w1)"
      by simp
    from Cons.IH [OF this] show ?thesis by auto
  qed
qed simp

lemma submit_loop_letters:
  assumes "submit_loop cl p (settlement_submitter n signers polls attempts) qs r w = (r1, w1)"
    and "wr_failed r1 = wr_failed r @ fs"
  shows "snd w1 = snd w @ map (\<lambda>f. \<lparr>dl_plan = plan_signed_settlement cl p (sn_request f), dl_error = sn_error f\<rparr>) fs"
  using assms
proof (induction qs arbitrary: r w fs)
  case (Cons q qs)
  let ?s = "settlement_submitter n signers polls attempts"
  obtain x w2 where s: "?s (plan_signed_settlement cl p q) w = (x, w2)" by (metis prod.collapse)
  have l: "snd w2 = snd w @ (case x of Inl e \<Rightarrow> [\<lparr>dl_plan = plan_signed_settlement cl p q, dl_error = e\<rparr>] | Inr _ \<Rightarrow> [])"
    using settlement_letters [of n signers polls attempts "plan_signed_settlement cl p q" w] s by simp
  show ?case
  proof (cases x)
    case (Inl e)
    with Cons.prems s have m: "submit_loop cl p ?s qs
        (r\<lparr>wr_failed := wr_failed r @ [\<lparr>sn_request = q, sn_error = e\<rparr>]\<rparr>) w2 = (r1, w1)" by simp
    from submit_loop_report [OF m] Cons.prems(2) obtain fs' where
      "wr_failed r1 = wr_failed r @ [\<lparr>sn_request = q, sn_error = e\<rparr>] @ fs'" "fs = \<lparr>sn_request = q, sn_error = e\<rparr> # fs'"
      by auto
    with Cons.IH [OF m, of fs'] l Inl show ?thesis by simp
  next
    case (Inr t)
    with Cons.prems s have "submit_loop cl p ?s qs (r\<lparr>wr_submitted := wr_submitted r @ [t]\<rparr>) w2 = (r1, w1)"
      by simp
    from Cons.IH [OF this, of fs] Cons.prems(2) l Inr show ?thesis by simp
  qed
qed simp

text \<open>The worker accounts for every request of its batch: each is reported once, as submitted or as
  failed, the failed ones in the order of the batch and each with its dead letter, and only
  transactions of these requests are sent, at most one for each attempt.\<close>

theorem worker_accounts_for_requests:
  "\<exists>r w1 txs. submit_requests cl p (settlement_submitter n signers polls attempts) qs w = (r, w1) \<and>
     length (wr_submitted r) + length (wr_failed r) = length qs \<and>
     subseq (map sn_request (wr_failed r)) qs \<and>
     snd w1 = snd w @ map (\<lambda>f. \<lparr>dl_plan = plan_signed_settlement cl p (sn_request f), dl_error = sn_error f\<rparr>)
       (wr_failed r) \<and>
     rw_sent (fst w1) = rw_sent (fst w) @ txs \<and> length txs \<le> length qs * max attempts 1 \<and>
     list_all (\<lambda>tx. list_ex (\<lambda>q. carries n signers (plan_signed_settlement cl p q) tx) qs) txs"
proof -
  let ?r0 = "\<lparr>wr_submitted = [], wr_failed = []\<rparr>" and ?s = "settlement_submitter n signers polls attempts"
  obtain r w1 where s: "submit_loop cl p ?s qs ?r0 w = (r, w1)" by (metis prod.collapse)
  from submit_loop_report [OF s] have rep: "length (wr_submitted r) + length (wr_failed r) = length qs"
      "subseq (map sn_request (wr_failed r)) qs" by auto
  have l: "snd w1 = snd w @ map (\<lambda>f. \<lparr>dl_plan = plan_signed_settlement cl p (sn_request f), dl_error = sn_error f\<rparr>)
       (wr_failed r)"
    using submit_loop_letters [OF s, of "wr_failed r"] by simp
  from settlement.lettered.submit_loop_sends [where n = n and signers = signers and polls = polls
      and attempts = attempts and cl = cl and p = p and qs = qs and r = ?r0 and w = w] s
  obtain txs where "rw_sent (fst w1) = rw_sent (fst w) @ txs" "length txs \<le> length qs * max attempts 1"
    "\<forall>tx\<in>set txs. \<exists>q\<in>set qs. carries n signers (plan_signed_settlement cl p q) tx"
    by (auto simp: settlement_submitter_def [symmetric])
  with rep l s show ?thesis by (auto simp: submit_requests_def list_all_iff list_ex_iff)
qed

lemma unique_signers_set: "set (unique_signers [a, b]) = {a, b}" "distinct (unique_signers [a, b])"
  by auto

end
