(* ===== verification/Settlement_Outbox.thy ===== *)
theory Settlement_Outbox
  imports Relayer Persistence
begin

text \<open>
  The settlement outbox of \<open>crates/persistence/src/postgres.rs\<close> with the schema of \<open>migrations/\<close>:
  the payload a request is stored as, and the statements on the table.  Base58 text of keys,
  JSON and the failures of the database are parameters; rows are kept in the order of their
  ids, time stamps are left out.
\<close>

section \<open>Bytes of signatures\<close>

definition word_of_le :: "u8 list \<Rightarrow> 'a::len word" where
  "word_of_le bs = word_rcat (rev bs)"

lemma le_bytes_Suc: "le_bytes (Suc n) w = ucast w # le_bytes n (drop_bit 8 w)"
proof (rule nth_equalityI)
  fix i assume "i < length (le_bytes (Suc n) w)"
  then show "le_bytes (Suc n) w ! i = (ucast w # le_bytes n (drop_bit 8 w)) ! i"
    by (cases i) (simp_all add: le_bytes_def del: upt_Suc, simp add: add.commute)
qed simp

lemma take_bit_uint: "take_bit LENGTH('a) (uint w) = uint w" for w :: "'a::len word"
  using unsigned_less [of w, where ?'a = int] by (intro take_bit_int_eq_self) simp_all

lemma horner_le_bytes: "horner_sum uint 256 (le_bytes n w) = take_bit (8 * n) (uint w)"
proof (induction n arbitrary: w)
  case 0
  show ?case by (simp add: le_bytes_def)
next
  case (Suc n)
  have "uint (ucast w :: u8) = take_bit 8 (uint w)" by (simp add: unsigned_ucast_eq)
  moreover have "uint (drop_bit 8 w) = drop_bit 8 (uint w)" by (simp add: unsigned_drop_bit_eq take_bit_uint)
  moreover have "take_bit 8 x + 256 * take_bit (8 * n) (drop_bit 8 x) = take_bit (8 + 8 * n) x" for x :: int
    using zmod_zmult2_eq [of "2 ^ (8 * n)" x 256]
    by (simp add: take_bit_eq_mod drop_bit_eq_div power_add)
  ultimately show ?case by (simp add: le_bytes_Suc Suc)
qed

lemma word_of_le_bytes:
  assumes "LENGTH('a::len) = 8 * n"
  shows "word_of_le (le_bytes n w) = (w :: 'a word)"
proof -
  have "horner_sum uint 256 (le_bytes n w) = take_bit LENGTH('a) (uint w)"
    unfolding assms by (rule horner_le_bytes)
  then show ?thesis by (simp add: word_of_le_def word_rcat_def take_bit_uint)
qed

section \<open>Payloads\<close>

record order_json =
  oj_order_id :: u64
  oj_market_config :: string
  oj_trader :: string
  oj_side :: string
  oj_price :: u64
  oj_quantity :: u64
  oj_nonce :: u64
  oj_expiry_slot :: u64

record fill_json =
  fj_settlement_id :: u64
  fj_fill_price :: u64
  fj_fill_quantity :: u64
  fj_buyer_order_hash :: bytes32
  fj_seller_order_hash :: bytes32
  fj_buyer_order :: order_json
  fj_buyer_signature :: "u8 list"
  fj_seller_order :: order_json
  fj_seller_signature :: "u8 list"

record request_json =
  rj_authority :: string
  rj_base_mint :: string
  rj_quote_mint :: string
  rj_buyer :: string
  rj_seller :: string
  rj_payer :: string
  rj_args :: fill_json

text \<open>
  \<open>Pubkey\<close>'s text form and the JSON of a request.  \<open>codec_ok\<close> is the documented round trip of
  both.
\<close>

record 'j outbox_codec =
  oc_key_text :: "pubkey \<Rightarrow> string"
  oc_key_parse :: "string \<Rightarrow> (string, pubkey) result"
  oc_to_json :: "request_json \<Rightarrow> (string, 'j) result"
  oc_from_json :: "'j \<Rightarrow> (string, request_json) result"

definition codec_ok :: "'j outbox_codec \<Rightarrow> bool" where
  "codec_ok c \<longleftrightarrow> (\<forall>k. oc_key_parse c (oc_key_text c k) = Inr k) \<and>
     (\<forall>q j. oc_to_json c q = Inr j \<longrightarrow> oc_from_json c j = Inr q)"

definition parse_pubkey :: "'j outbox_codec \<Rightarrow> string \<Rightarrow> (persistence_error, pubkey) result" where
  "parse_pubkey c s = map_err Serde (oc_key_parse c s)"

definition vec_to_signature :: "u8 list \<Rightarrow> (persistence_error, bytes64) result" where
  "vec_to_signature v =
     (if length v = 64 then Inr (word_of_le v) else Inl (Serde ''signature must be 64 bytes''))"

definition json_of_order :: "'j outbox_codec \<Rightarrow> signed_payload \<Rightarrow> order_json" where
  "json_of_order c p =
     \<lparr>oj_order_id = sp_order_id p, oj_market_config = oc_key_text c (sp_market p),
      oj_trader = oc_key_text c (sp_trader p),
      oj_side = (case sp_side p of SignedBid \<Rightarrow> ''bid'' | SignedAsk \<Rightarrow> ''ask''),
      oj_price = sp_price p, oj_quantity = sp_quantity p, oj_nonce = sp_nonce p,
      oj_expiry_slot = sp_expiry_slot p\<rparr>"

definition order_of_json :: "'j outbox_codec \<Rightarrow> order_json \<Rightarrow> (persistence_error, signed_payload) result" where
  "order_of_json c j =
     and_then (parse_pubkey c (oj_market_config j)) (\<lambda>market.
     and_then (parse_pubkey c (oj_trader j)) (\<lambda>trader.
     and_then (if oj_side j = ''bid'' then Inr SignedBid
               else if oj_side j = ''ask'' then Inr SignedAsk
               else Inl (Serde (''unknown order side: '' @ oj_side j))) (\<lambda>side.
       Inr \<lparr>sp_order_id = oj_order_id j, sp_market = market, sp_trader = trader, sp_side = side,
            sp_price = oj_price j, sp_quantity = oj_quantity j, sp_nonce = oj_nonce j,
            sp_expiry_slot = oj_expiry_slot j\<rparr>)))"

definition json_of_args :: "'j outbox_codec \<Rightarrow> signed_fill_args \<Rightarrow> fill_json" where
  "json_of_args c a =
     \<lparr>fj_settlement_id = sa_settlement_id a, fj_fill_price = sa_fill_price a,
      fj_fill_quantity = sa_fill_quantity a, fj_buyer_order_hash = sa_buyer_order_hash a,
      fj_seller_order_hash = sa_seller_order_hash a, fj_buyer_order = json_of_order c (sa_buyer_order a),
      fj_buyer_signature = le_bytes 64 (sa_buyer_signature a),
      fj_seller_order = json_of_order c (sa_seller_order a),
      fj_seller_signature = le_bytes 64 (sa_seller_signature a)\<rparr>"

definition args_of_json :: "'j outbox_codec \<Rightarrow> fill_json \<Rightarrow> (persistence_error, signed_fill_args) result" where
  "args_of_json c j =
     and_then (order_of_json c (fj_buyer_order j)) (\<lambda>buyer.
     and_then (vec_to_signature (fj_buyer_signature j)) (\<lambda>buyer_signature.
     and_then (order_of_json c (fj_seller_order j)) (\<lambda>seller.
     and_then (vec_to_signature (fj_seller_signature j)) (\<lambda>seller_signature.
       Inr \<lparr>sa_settlement_id = fj_settlement_id j, sa_fill_price = fj_fill_price j,
            sa_fill_quantity = fj_fill_quantity j, sa_buyer_order_hash = fj_buyer_order_hash j,
            sa_seller_order_hash = fj_seller_order_hash j, sa_buyer_order = buyer,
            sa_buyer_signature = buyer_signature, sa_seller_order = seller,
            sa_seller_signature = seller_signature\<rparr>))))"

definition json_of_request :: "'j outbox_codec \<Rightarrow> settlement_request \<Rightarrow> request_json" where
  "json_of_request c q =
     \<lparr>rj_authority = oc_key_text c (rq_authority q), rj_base_mint = oc_key_text c (rq_base_mint q),
      rj_quote_mint = oc_key_text c (rq_quote_mint q), rj_buyer = oc_key_text c (rq_buyer q),
      rj_seller = oc_key_text c (rq_seller q), rj_payer = oc_key_text c (rq_payer q),
      rj_args = json_of_args c (rq_args q)\<rparr>"

definition request_of_json :: "'j outbox_codec \<Rightarrow> request_json \<Rightarrow> (persistence_error, settlement_request) result"
where
  "request_of_json c j =
     and_then (parse_pubkey c (rj_authority j)) (\<lambda>authority.
     and_then (parse_pubkey c (rj_base_mint j)) (\<lambda>base_mint.
     and_then (parse_pubkey c (rj_quote_mint j)) (\<lambda>quote_mint.
     and_then (parse_pubkey c (rj_buyer j)) (\<lambda>buyer.
     and_then (parse_pubkey c (rj_seller j)) (\<lambda>seller.
     and_then (parse_pubkey c (rj_payer j)) (\<lambda>payer.
     and_then (args_of_json c (rj_args j)) (\<lambda>args.
       Inr \<lparr>rq_authority = authority, rq_base_mint = base_mint, rq_quote_mint = quote_mint,
            rq_buyer = buyer, rq_seller = seller, rq_payer = payer, rq_args = args\<rparr>)))))))"

lemma parse_pubkey_text: "codec_ok c \<Longrightarrow> parse_pubkey c (oc_key_text c k) = Inr k"
  by (simp add: codec_ok_def parse_pubkey_def)

lemma vec_to_signature_bytes: "vec_to_signature (le_bytes 64 sig) = Inr sig"
  by (simp add: vec_to_signature_def word_of_le_bytes)

lemma order_json_roundtrip: "codec_ok c \<Longrightarrow> order_of_json c (json_of_order c p) = Inr p"
  by (cases "sp_side p") (simp_all add: order_of_json_def json_of_order_def parse_pubkey_text)

lemma request_json_roundtrip: "codec_ok c \<Longrightarrow> request_of_json c (json_of_request c q) = Inr q"
  by (simp add: request_of_json_def json_of_request_def parse_pubkey_text args_of_json_def json_of_args_def
    order_json_roundtrip vec_to_signature_bytes)

section \<open>The table\<close>

datatype outbox_status = Pending | Submitted | Failed

record 'j outbox_row =
  ob_id :: int
  ob_status :: outbox_status
  ob_payload :: 'j
  ob_attempts :: int
  ob_max_attempts :: int
  ob_signature :: "u8 list option"
  ob_last_error :: "string option"

text \<open>
  The database: how many statements it has run, the next id of the sequence, and the rows in the
  order of their ids.  \<open>fault\<close> tells which statements fail, and how; a statement that fails changes
  no row.  (The sequence of the database may skip the id of a failed insert; only the order of the
  ids matters here.)  Counters of attempts are unbounded, where the columns have 32 bits: one row
  would have to be claimed \<open>2 ^ 31\<close> times to tell them apart.
\<close>

record 'j outbox =
  ot_statements :: nat
  ot_next_id :: int
  ot_rows :: "'j outbox_row list"

type_synonym fault = "nat \<Rightarrow> string option"

definition statement ::
  "fault \<Rightarrow> ('j outbox \<Rightarrow> 'a \<times> 'j outbox) \<Rightarrow> 'j outbox \<Rightarrow> (persistence_error, 'a) result \<times> 'j outbox" where
  "statement fault run t =
     (let t1 = t\<lparr>ot_statements := Suc (ot_statements t)\<rparr> in
      case fault (ot_statements t) of
        Some msg \<Rightarrow> (Inl (Sql msg), t1)
      | None \<Rightarrow> (case run t1 of (x, t2) \<Rightarrow> (Inr x, t2)))"

definition default_max_attempts :: int where "default_max_attempts = 5"

definition insert_row :: "'j \<Rightarrow> 'j outbox \<Rightarrow> unit \<times> 'j outbox" where
  "insert_row payload t =
     ((), t\<lparr>ot_next_id := ot_next_id t + 1, ot_rows := ot_rows t @
       [\<lparr>ob_id = ot_next_id t, ob_status = Pending, ob_payload = payload, ob_attempts = 0,
         ob_max_attempts = default_max_attempts, ob_signature = None, ob_last_error = None\<rparr>]\<rparr>)"

fun enqueue_settlement_requests ::
  "'j outbox_codec \<Rightarrow> fault \<Rightarrow> settlement_request list \<Rightarrow> 'j outbox
    \<Rightarrow> (persistence_error, unit) result \<times> 'j outbox" where
  "enqueue_settlement_requests c fault [] t = (Inr (), t)"
| "enqueue_settlement_requests c fault (q # qs) t =
     (case map_err Serde (oc_to_json c (json_of_request c q)) of
        Inl e \<Rightarrow> (Inl e, t)
      | Inr payload \<Rightarrow>
          (case statement fault (insert_row payload) t of
             (Inl e, t1) \<Rightarrow> (Inl e, t1)
           | (Inr _, t1) \<Rightarrow> enqueue_settlement_requests c fault qs t1))"

definition settlement_pending_count :: "fault \<Rightarrow> 'j outbox \<Rightarrow> (persistence_error, nat) result \<times> 'j outbox"
where
  "settlement_pending_count fault =
     statement fault (\<lambda>t. (length (filter (\<lambda>r. ob_status r = Pending) (ot_rows t)), t))"

record outbox_view_row =
  ov_id :: int
  ov_status :: outbox_status
  ov_attempts :: int
  ov_max_attempts :: int
  ov_last_error :: "string option"

definition recent_settlement_outbox ::
  "fault \<Rightarrow> int \<Rightarrow> 'j outbox \<Rightarrow> (persistence_error, outbox_view_row list) result \<times> 'j outbox" where
  "recent_settlement_outbox fault limit =
     statement fault (\<lambda>t. (map (\<lambda>r. \<lparr>ov_id = ob_id r, ov_status = ob_status r, ov_attempts = ob_attempts r,
         ov_max_attempts = ob_max_attempts r, ov_last_error = ob_last_error r\<rparr>)
       (take (nat (max limit 1)) (rev (ot_rows t))), t))"

record outbox_item =
  oi_id :: int
  oi_attempts :: int
  oi_max_attempts :: int
  oi_request :: settlement_request

text \<open>
  The first \<open>n\<close> pending rows get one more attempt and are returned, in the order of their ids: the
  inner query of the statement sorts by \<open>outbox_id\<close>, and the rows are taken to come back as selected.
\<close>

fun claim_rows :: "nat \<Rightarrow> 'j outbox_row list \<Rightarrow> 'j outbox_row list \<times> 'j outbox_row list" where
  "claim_rows n [] = ([], [])"
| "claim_rows 0 rows = ([], rows)"
| "claim_rows (Suc n) (r # rs) =
     (if ob_status r = Pending
      then (let r1 = r\<lparr>ob_attempts := ob_attempts r + 1\<rparr>; (claimed, rows) = claim_rows n rs in
            (r1 # claimed, r1 # rows))
      else (let (claimed, rows) = claim_rows (Suc n) rs in (claimed, r # rows)))"

definition item_of_row :: "'j outbox_codec \<Rightarrow> 'j outbox_row \<Rightarrow> (persistence_error, outbox_item) result" where
  "item_of_row c r =
     and_then (map_err Serde (oc_from_json c (ob_payload r))) (\<lambda>payload.
     and_then (request_of_json c payload) (\<lambda>q.
       Inr \<lparr>oi_id = ob_id r, oi_attempts = ob_attempts r, oi_max_attempts = ob_max_attempts r,
            oi_request = q\<rparr>))"

definition claim_pending_settlements ::
  "'j outbox_codec \<Rightarrow> fault \<Rightarrow> int \<Rightarrow> 'j outbox
    \<Rightarrow> (persistence_error, outbox_item list) result \<times> 'j outbox" where
  "claim_pending_settlements c fault limit t =
     (case statement fault (\<lambda>t. let (claimed, rows) = claim_rows (nat (max limit 1)) (ot_rows t) in
         (claimed, t\<lparr>ot_rows := rows\<rparr>)) t of
        (Inl e, t1) \<Rightarrow> (Inl e, t1)
      | (Inr claimed, t1) \<Rightarrow> (collect_results (map (item_of_row c) claimed), t1))"

definition update_row :: "int \<Rightarrow> ('j outbox_row \<Rightarrow> 'j outbox_row) \<Rightarrow> 'j outbox \<Rightarrow> unit \<times> 'j outbox" where
  "update_row i f t = ((), t\<lparr>ot_rows := map (\<lambda>r. if ob_id r = i then f r else r) (ot_rows t)\<rparr>)"

definition keep_settlement_pending ::
  "fault \<Rightarrow> int \<Rightarrow> string \<Rightarrow> 'j outbox \<Rightarrow> (persistence_error, unit) result \<times> 'j outbox" where
  "keep_settlement_pending fault i e =
     statement fault (update_row i (\<lambda>r. r\<lparr>ob_status := Pending, ob_last_error := Some e\<rparr>))"

definition mark_settlement_submitted ::
  "fault \<Rightarrow> int \<Rightarrow> bytes64 \<Rightarrow> 'j outbox \<Rightarrow> (persistence_error, unit) result \<times> 'j outbox" where
  "mark_settlement_submitted fault i sig =
     statement fault (update_row i (\<lambda>r. r\<lparr>ob_status := Submitted, ob_signature := Some (le_bytes 64 sig),
       ob_last_error := None\<rparr>))"

definition mark_settlement_failed ::
  "fault \<Rightarrow> int \<Rightarrow> string \<Rightarrow> 'j outbox \<Rightarrow> (persistence_error, unit) result \<times> 'j outbox" where
  "mark_settlement_failed fault i e =
     statement fault (update_row i (\<lambda>r. r\<lparr>ob_status := Failed, ob_last_error := Some e\<rparr>))"

end
