(* ===== verification/Settlement_Bridge.thy ===== *)
theory Settlement_Bridge
  imports Relayer Exchange_App
begin

text \<open>
  \<open>crates/relayer/src/application_bridge.rs\<close>: the settlement requests of a batch of fills, from
  the signed orders that the traders registered.  \<open>lookup\<close> is the trait
  \<open>SettlementSignedOrderSource\<close>.
\<close>

record bridge_signed_order =
  bo_trader_id :: trader_id
  bo_order_hash :: bytes32
  bo_order :: signed_payload
  bo_signature :: bytes64

record settlement_bridge =
  br_market_id :: market_id
  br_authority :: pubkey
  br_base_mint :: pubkey
  br_quote_mint :: pubkey
  br_payer :: pubkey

datatype bridge_error =
    MissingSignedOrder order_id
  | OrderIdOutOfRange order_id
  | SignedOrderMismatch
  | BridgeMarketMismatch
  | InvalidSignedOrderSides
  | FillOutsideSignedOrders
  | SettlementIdOverflow

definition bridge_market_config :: "anchor_env \<Rightarrow> settlement_bridge \<Rightarrow> pubkey" where
  "bridge_market_config env b = fst (market_config_pda env (br_base_mint b) (br_quote_mint b))"

definition order_id_u64 :: "order_id \<Rightarrow> u64 option" where
  "order_id_u64 i = (if uint (order_id_get i) < 2 ^ 64 then Some (ucast (order_id_get i)) else None)"

definition validate_order :: "order_id \<Rightarrow> bridge_signed_order \<Rightarrow> pubkey \<Rightarrow> (bridge_error, unit) result" where
  "validate_order i so market =
     and_then (ok_or (order_id_u64 i) (OrderIdOutOfRange i)) (\<lambda>i64.
       ensure (\<not> (sp_order_id (bo_order so) \<noteq> i64 \<or> sp_market (bo_order so) \<noteq> market)) SignedOrderMismatch)"

definition bid_ask_orders ::
  "bridge_signed_order \<Rightarrow> bridge_signed_order
    \<Rightarrow> (bridge_error, bridge_signed_order \<times> bridge_signed_order) result" where
  "bid_ask_orders l r =
     (case (sp_side (bo_order l), sp_side (bo_order r)) of
        (SignedBid, SignedAsk) \<Rightarrow> Inr (l, r)
      | (SignedAsk, SignedBid) \<Rightarrow> Inr (r, l)
      | _ \<Rightarrow> Inl InvalidSignedOrderSides)"

definition validate_bridge_fill ::
  "settlement_intent \<Rightarrow> bridge_signed_order \<Rightarrow> bridge_signed_order \<Rightarrow> (bridge_error, unit) result" where
  "validate_bridge_fill i buyer seller =
     ensure (\<not> (bo_trader_id buyer \<noteq> si_buyer i \<or> bo_trader_id seller \<noteq> si_seller i \<or>
         price_get (si_price i) > sp_price (bo_order buyer) \<or>
         price_get (si_price i) < sp_price (bo_order seller) \<or>
         quantity_get (si_quantity i) > sp_quantity (bo_order buyer) \<or>
         quantity_get (si_quantity i) > sp_quantity (bo_order seller)))
       FillOutsideSignedOrders"

text \<open>One turn of the loop of \<open>requests_from_batch\<close>, for the intent at \<open>index\<close>.\<close>

definition request_of_intent ::
  "anchor_env \<Rightarrow> settlement_bridge \<Rightarrow> (order_id \<Rightarrow> bridge_signed_order option) \<Rightarrow> u64 \<Rightarrow> nat
    \<Rightarrow> settlement_intent \<Rightarrow> (bridge_error, settlement_request) result" where
  "request_of_intent env b lookup first index i =
     and_then (ensure (si_market i = br_market_id b) BridgeMarketMismatch) (\<lambda>_.
     and_then (if index < 2 ^ 64 then Inr (of_nat index) else Inl SettlementIdOverflow) (\<lambda>offset.
     and_then (ok_or (checked_add first offset) SettlementIdOverflow) (\<lambda>settlement_id.
     and_then (ok_or (lookup (si_maker_order i)) (MissingSignedOrder (si_maker_order i))) (\<lambda>maker.
     and_then (ok_or (lookup (si_taker_order i)) (MissingSignedOrder (si_taker_order i))) (\<lambda>taker.
     and_then (bid_ask_orders maker taker) (\<lambda>(buyer, seller).
     and_then (validate_order (si_maker_order i) maker (bridge_market_config env b)) (\<lambda>_.
     and_then (validate_order (si_taker_order i) taker (bridge_market_config env b)) (\<lambda>_.
     and_then (validate_bridge_fill i buyer seller) (\<lambda>_.
       Inr \<lparr>rq_authority = br_authority b, rq_base_mint = br_base_mint b, rq_quote_mint = br_quote_mint b,
            rq_buyer = sp_trader (bo_order buyer), rq_seller = sp_trader (bo_order seller),
            rq_payer = br_payer b,
            rq_args = \<lparr>sa_settlement_id = settlement_id, sa_fill_price = price_get (si_price i),
              sa_fill_quantity = quantity_get (si_quantity i),
              sa_buyer_order_hash = bo_order_hash buyer, sa_seller_order_hash = bo_order_hash seller,
              sa_buyer_order = bo_order buyer, sa_buyer_signature = bo_signature buyer,
              sa_seller_order = bo_order seller, sa_seller_signature = bo_signature seller\<rparr>\<rparr>)))))))))"

fun requests_from_intents ::
  "anchor_env \<Rightarrow> settlement_bridge \<Rightarrow> (order_id \<Rightarrow> bridge_signed_order option) \<Rightarrow> u64 \<Rightarrow> nat
    \<Rightarrow> settlement_intent list \<Rightarrow> (bridge_error, settlement_request list) result" where
  "requests_from_intents env b lookup first index [] = Inr []"
| "requests_from_intents env b lookup first index (i # is) =
     and_then (request_of_intent env b lookup first index i) (\<lambda>q.
     and_then (requests_from_intents env b lookup first (Suc index) is) (\<lambda>qs. Inr (q # qs)))"

definition requests_from_batch ::
  "anchor_env \<Rightarrow> settlement_bridge \<Rightarrow> settlement_batch \<Rightarrow> (order_id \<Rightarrow> bridge_signed_order option) \<Rightarrow> u64
    \<Rightarrow> (bridge_error, settlement_request list) result" where
  "requests_from_batch env b batch lookup first =
     requests_from_intents env b lookup first 0 (sb_intents batch)"

section \<open>What a request carries\<close>

text \<open>The request of one intent: its own id, and a bid and an ask that allow the fill.\<close>

definition request_fits ::
  "anchor_env \<Rightarrow> settlement_bridge \<Rightarrow> (order_id \<Rightarrow> bridge_signed_order option) \<Rightarrow> u64 \<Rightarrow> nat
    \<Rightarrow> settlement_intent \<Rightarrow> settlement_request \<Rightarrow> bool" where
  "request_fits env b lookup first index i q \<longleftrightarrow>
     (let a = rq_args q; p = sa_fill_price a; n = sa_fill_quantity a; bid = sa_buyer_order a; ask = sa_seller_order a in
      unat (sa_settlement_id a) = unat first + index \<and>
      p = price_get (si_price i) \<and> n = quantity_get (si_quantity i) \<and>
      sp_side bid = SignedBid \<and> sp_side ask = SignedAsk \<and>
      sp_market bid = bridge_market_config env b \<and> sp_market ask = bridge_market_config env b \<and>
      sp_trader bid = rq_buyer q \<and> sp_trader ask = rq_seller q \<and>
      sp_price ask \<le> p \<and> p \<le> sp_price bid \<and> n \<le> sp_quantity bid \<and> n \<le> sp_quantity ask \<and>
      (\<exists>buyer seller. {Some buyer, Some seller} = {lookup (si_maker_order i), lookup (si_taker_order i)} \<and>
         bo_order buyer = bid \<and> bo_order seller = ask \<and>
         bo_trader_id buyer = si_buyer i \<and> bo_trader_id seller = si_seller i))"

lemma bid_ask_orders_ok:
  "bid_ask_orders l r = Inr (buyer, seller) \<longleftrightarrow>
     (buyer = l \<and> seller = r \<or> buyer = r \<and> seller = l) \<and>
     sp_side (bo_order buyer) = SignedBid \<and> sp_side (bo_order seller) = SignedAsk"
  by (auto simp: bid_ask_orders_def split: signed_side.splits)

lemma request_of_intent_fits:
  assumes "request_of_intent env b lookup first index i = Inr q"
  shows "request_fits env b lookup first index i q \<and> rq_authority q = br_authority b \<and>
    rq_base_mint q = br_base_mint b \<and> rq_quote_mint q = br_quote_mint b \<and> rq_payer q = br_payer b"
proof -
  from assms obtain sid maker taker buyer seller where
    idx: "index < 2 ^ 64" and sid: "checked_add first (of_nat index) = Some sid"
    and lk: "lookup (si_maker_order i) = Some maker" "lookup (si_taker_order i) = Some taker"
    and ba: "bid_ask_orders maker taker = Inr (buyer, seller)"
    and vo: "validate_order (si_maker_order i) maker (bridge_market_config env b) = Inr ()"
      "validate_order (si_taker_order i) taker (bridge_market_config env b) = Inr ()"
    and vf: "validate_bridge_fill i buyer seller = Inr ()"
    and q: "q = \<lparr>rq_authority = br_authority b, rq_base_mint = br_base_mint b, rq_quote_mint = br_quote_mint b,
            rq_buyer = sp_trader (bo_order buyer), rq_seller = sp_trader (bo_order seller),
            rq_payer = br_payer b,
            rq_args = \<lparr>sa_settlement_id = sid, sa_fill_price = price_get (si_price i),
              sa_fill_quantity = quantity_get (si_quantity i),
              sa_buyer_order_hash = bo_order_hash buyer, sa_seller_order_hash = bo_order_hash seller,
              sa_buyer_order = bo_order buyer, sa_buyer_signature = bo_signature buyer,
              sa_seller_order = bo_order seller, sa_seller_signature = bo_signature seller\<rparr>\<rparr>"
    unfolding request_of_intent_def by (auto simp: checked_ok split: if_splits)
  have "unat sid = unat first + index"
    using sid idx by (simp add: checked_add_Some unat_of_nat)
  moreover have "sp_market (bo_order maker) = bridge_market_config env b" "sp_market (bo_order taker) = bridge_market_config env b"
    using vo by (simp_all add: validate_order_def checked_ok)
  ultimately show ?thesis
    using vf ba lk unfolding q request_fits_def
    by (auto simp: bid_ask_orders_ok validate_bridge_fill_def checked_ok Let_def not_less)
qed

lemma requests_from_intents_fit_from:
  assumes "requests_from_intents env b lookup first n is = Inr qs"
  shows "length qs = length is \<and> (\<forall>k < length qs. request_fits env b lookup first (n + k) (is ! k) (qs ! k))"
  using assms
proof (induction "is" arbitrary: n qs)
  case (Cons i "is")
  then obtain q qs' where q: "request_of_intent env b lookup first n i = Inr q"
    and qs: "requests_from_intents env b lookup first (Suc n) is = Inr qs'" "qs = q # qs'"
    by (auto simp: checked_ok)
  have "request_fits env b lookup first (n + k) ((i # is) ! k) (qs ! k)" if "k < length qs" for k
  proof (cases k)
    case 0
    then show ?thesis using request_of_intent_fits [OF q] qs(2) by simp
  next
    case (Suc j)
    then show ?thesis using Cons.IH [OF qs(1)] qs(2) that by auto
  qed
  then show ?case using Cons.IH [OF qs(1)] qs(2) by simp
qed simp

lemmas requests_from_intents_fit = requests_from_intents_fit_from [where n = 0, simplified]

text \<open>The bridge turns a batch into settlement requests one by one: the request at position k has
  the settlement id k after the first, the price and quantity of the k-th fill, a bid and an ask
  of the market that both allow them, signed by the owners of the two orders of the fill, with
  buyer and seller as the fill has them.\<close>

theorem bridge_requests_fit:
  assumes "requests_from_batch env b batch lookup first = Inr qs"
  shows "length qs = length (sb_intents batch) \<and>
    (\<forall>k < length qs. request_fits env b lookup first k (sb_intents batch ! k) (qs ! k))"
  using requests_from_intents_fit [OF assms [unfolded requests_from_batch_def]] by simp

end
