(* ===== verification/Settlement_Worker.thy ===== *)
theory Settlement_Worker
  imports Settlement_Outbox Settlement_Bridge
begin

text \<open>
  The settlement side of \<open>services/exchange-service/src/lib.rs\<close>: the signed orders and the
  in-memory queue (\<open>SettlementEdgeState\<close>), the allocation of settlement ids, queueing after an
  order, and the worker that claims, submits and marks.  The submitter is a parameter; logging
  and timers are left out.
\<close>

section \<open>Edge state\<close>

record edge_state =
  es_signed_orders :: "order_id \<rightharpoonup> bridge_signed_order"
  es_queued :: "settlement_request list"
  es_next_settlement_id :: u64

definition edge_default :: edge_state where
  "edge_default = \<lparr>es_signed_orders = Map.empty, es_queued = [], es_next_settlement_id = 0\<rparr>"

datatype api_error =
    Unauthorized
  | BadRequest string
  | Conflict string
  | Internal string
  | NotFound

definition store_signed_order :: "order_id \<Rightarrow> bridge_signed_order \<Rightarrow> edge_state \<Rightarrow> bool \<times> edge_state" where
  "store_signed_order i so s =
     (es_signed_orders s i \<noteq> None, s\<lparr>es_signed_orders := (es_signed_orders s)(i \<mapsto> so)\<rparr>)"

definition allocate_settlement_ids :: "nat \<Rightarrow> edge_state \<Rightarrow> (api_error, u64 option) result \<times> edge_state"
where
  "allocate_settlement_ids count s =
     (if count = 0 then (Inr None, s)
      else if count < 2 ^ 64 then
        (case checked_add (es_next_settlement_id s) (of_nat count) of
           Some n \<Rightarrow> (Inr (Some (es_next_settlement_id s)), s\<lparr>es_next_settlement_id := n\<rparr>)
         | None \<Rightarrow> (Inl (Internal ''settlement id allocation overflow''), s))
      else (Inl (Internal ''settlement id allocation overflow''), s))"

definition queue_settlements :: "settlement_request list \<Rightarrow> edge_state \<Rightarrow> edge_state" where
  "queue_settlements qs s = s\<lparr>es_queued := es_queued s @ qs\<rparr>"

definition queued_settlement_count :: "edge_state \<Rightarrow> nat" where
  "queued_settlement_count s = length (es_queued s)"

definition drain_queued_settlement_requests :: "edge_state \<Rightarrow> settlement_request list \<times> edge_state" where
  "drain_queued_settlement_requests s = (es_queued s, s\<lparr>es_queued := []\<rparr>)"

definition signed_order_lookup :: "edge_state \<Rightarrow> order_id \<Rightarrow> bridge_signed_order option" where
  "signed_order_lookup s i = es_signed_orders s i"

section \<open>Queueing the settlements of an order\<close>

text \<open>The database is there in the postgres mode only.\<close>

record 'j settlement_world =
  sw_edge :: edge_state
  sw_outbox :: "'j outbox option"
  sw_queued_total :: u64
  sw_submitted_total :: u64
  sw_failed_total :: u64

definition record_settlement_requests_queued :: "nat \<Rightarrow> 'j settlement_world \<Rightarrow> 'j settlement_world" where
  "record_settlement_requests_queued n w = w\<lparr>sw_queued_total := sw_queued_total w + of_nat n\<rparr>"

definition record_settlement_requests_submitted :: "nat \<Rightarrow> 'j settlement_world \<Rightarrow> 'j settlement_world" where
  "record_settlement_requests_submitted n w = w\<lparr>sw_submitted_total := sw_submitted_total w + of_nat n\<rparr>"

definition record_settlement_requests_failed :: "nat \<Rightarrow> 'j settlement_world \<Rightarrow> 'j settlement_world" where
  "record_settlement_requests_failed n w = w\<lparr>sw_failed_total := sw_failed_total w + of_nat n\<rparr>"

definition queue_settlement_requests ::
  "anchor_env \<Rightarrow> 'j outbox_codec \<Rightarrow> fault \<Rightarrow> settlement_bridge option \<Rightarrow> u128 \<Rightarrow> limit_order \<Rightarrow> fill list
    \<Rightarrow> 'j settlement_world \<Rightarrow> 'j settlement_world" where
  "queue_settlement_requests env c fault config command taker fills w =
     (case config of
        None \<Rightarrow> w
      | Some bridge \<Rightarrow>
          if fills = [] then w
          else
            (case allocate_settlement_ids (length fills) (sw_edge w) of
               (Inr (Some first), edge1) \<Rightarrow>
                 let w1 = w\<lparr>sw_edge := edge1\<rparr> in
                 (case command_id_new command of
                    Inl _ \<Rightarrow> w1
                  | Inr command_id \<Rightarrow>
                      (case requests_from_batch env bridge (batch_from_order_fills command_id taker fills)
                         (signed_order_lookup edge1) first of
                         Inl _ \<Rightarrow> w1
                       | Inr qs \<Rightarrow>
                           (case sw_outbox w1 of
                              Some t \<Rightarrow>
                                (case enqueue_settlement_requests c fault qs t of
                                   (Inl _, t1) \<Rightarrow> w1\<lparr>sw_outbox := Some t1\<rparr>
                                 | (Inr _, t1) \<Rightarrow>
                                     record_settlement_requests_queued (length qs) (w1\<lparr>sw_outbox := Some t1\<rparr>))
                            | None \<Rightarrow>
                                record_settlement_requests_queued (length qs)
                                  (w1\<lparr>sw_edge := queue_settlements qs (sw_edge w1)\<rparr>))))
             | (_, edge1) \<Rightarrow> w\<lparr>sw_edge := edge1\<rparr>))"

section \<open>The worker\<close>

definition settlement_worker_batch_limit :: int where "settlement_worker_batch_limit = 32"

record work_item =
  wi_outbox_id :: "int option"
  wi_attempts :: int
  wi_max_attempts :: int
  wi_request :: settlement_request

definition work_item_of_outbox :: "outbox_item \<Rightarrow> work_item" where
  "work_item_of_outbox i = \<lparr>wi_outbox_id = Some (oi_id i), wi_attempts = oi_attempts i,
     wi_max_attempts = oi_max_attempts i, wi_request = oi_request i\<rparr>"

definition claim_settlement_work ::
  "'j outbox_codec \<Rightarrow> fault \<Rightarrow> 'j settlement_world \<Rightarrow> work_item list \<times> 'j settlement_world" where
  "claim_settlement_work c fault w =
     (case sw_outbox w of
        Some t \<Rightarrow>
          (case claim_pending_settlements c fault settlement_worker_batch_limit t of
             (Inr items, t1) \<Rightarrow> (map work_item_of_outbox items, w\<lparr>sw_outbox := Some t1\<rparr>)
           | (Inl _, t1) \<Rightarrow> ([], w\<lparr>sw_outbox := Some t1\<rparr>))
      | None \<Rightarrow>
          (case drain_queued_settlement_requests (sw_edge w) of
             (qs, edge1) \<Rightarrow>
               (map (\<lambda>q. \<lparr>wi_outbox_id = None, wi_attempts = 1, wi_max_attempts = 1, wi_request = q\<rparr>) qs,
                w\<lparr>sw_edge := edge1\<rparr>)))"

text \<open>The statement on the outbox row of an item; its failure is only logged.\<close>

definition update_outbox ::
  "work_item \<Rightarrow> (int \<Rightarrow> 'j outbox \<Rightarrow> (persistence_error, unit) result \<times> 'j outbox) \<Rightarrow> 'j settlement_world
    \<Rightarrow> 'j settlement_world" where
  "update_outbox item run w =
     (case (sw_outbox w, wi_outbox_id item) of
        (Some t, Some i) \<Rightarrow> w\<lparr>sw_outbox := Some (snd (run i t))\<rparr>
      | _ \<Rightarrow> w)"

text \<open>One claimed item: \<open>error_text\<close> is the debug form of the error.\<close>

definition process_item ::
  "client_env \<Rightarrow> (submission_error \<Rightarrow> string) \<Rightarrow> fault \<Rightarrow> 's submitter \<Rightarrow> work_item
    \<Rightarrow> 'j settlement_world \<times> 's \<Rightarrow> 'j settlement_world \<times> 's" where
  "process_item cl error_text fault submit item = (\<lambda>(w, s).
     (case submit_requests cl planner_default submit [wi_request item] s of
        (report, s1) \<Rightarrow>
          (case wr_submitted report of
             submitted # _ \<Rightarrow>
               (update_outbox item (\<lambda>i. mark_settlement_submitted fault i (st_signature submitted))
                  (record_settlement_requests_submitted 1 w), s1)
           | [] \<Rightarrow>
               (case wr_failed report of
                  failure # _ \<Rightarrow>
                    let retryable = is_retryable (sn_error failure) \<and> wi_attempts item < wi_max_attempts item;
                        text = error_text (sn_error failure);
                        w1 = update_outbox item (\<lambda>i. if retryable then keep_settlement_pending fault i text
                               else mark_settlement_failed fault i text) w in
                    (if retryable then w1 else record_settlement_requests_failed 1 w1, s1)
                | [] \<Rightarrow> (w, s1)))))"

fun process_items ::
  "client_env \<Rightarrow> (submission_error \<Rightarrow> string) \<Rightarrow> fault \<Rightarrow> 's submitter \<Rightarrow> work_item list
    \<Rightarrow> 'j settlement_world \<times> 's \<Rightarrow> 'j settlement_world \<times> 's" where
  "process_items cl error_text fault submit [] ws = ws"
| "process_items cl error_text fault submit (i # is) ws =
     process_items cl error_text fault submit is (process_item cl error_text fault submit i ws)"

text \<open>One turn of the worker's loop.\<close>

definition worker_cycle ::
  "client_env \<Rightarrow> (submission_error \<Rightarrow> string) \<Rightarrow> 'j outbox_codec \<Rightarrow> fault \<Rightarrow> 's submitter
    \<Rightarrow> 'j settlement_world \<times> 's \<Rightarrow> 'j settlement_world \<times> 's" where
  "worker_cycle cl error_text c fault submit = (\<lambda>(w, s).
     case claim_settlement_work c fault w of
       (work, w1) \<Rightarrow> process_items cl error_text fault submit work (w1, s))"

fun worker_cycles ::
  "client_env \<Rightarrow> (submission_error \<Rightarrow> string) \<Rightarrow> 'j outbox_codec \<Rightarrow> fault \<Rightarrow> 's submitter \<Rightarrow> nat
    \<Rightarrow> 'j settlement_world \<times> 's \<Rightarrow> 'j settlement_world \<times> 's" where
  "worker_cycles cl error_text c fault submit 0 ws = ws"
| "worker_cycles cl error_text c fault submit (Suc n) ws =
     worker_cycles cl error_text c fault submit n (worker_cycle cl error_text c fault submit ws)"

end
