(* ===== verification/Settlement_Delivery.thy ===== *)
theory Settlement_Delivery
  imports Settlement_Client Settlement_Demo
begin

text \<open>
  The settlement client and the settlement program agree: the transaction that
  \<open>crates/settlement_client\<close> builds passes every check of \<open>settle_signed_fill_handler\<close>.
\<close>

text \<open>
  The documented layout of the instruction that \<open>new_ed25519_instruction_with_signature\<close> builds
  for a message of less than 256 bytes: a header with one signature, then the key, the
  signature and the message.
\<close>

definition ed25519_documented :: "client_env \<Rightarrow> chain_env \<Rightarrow> bool" where
  "ed25519_documented cl ce \<longleftrightarrow>
     (\<forall>msg sig key. length key = 32 \<and> length msg < 256 \<longrightarrow>
        cl_new_ed25519 cl msg sig key = \<lparr>ins_program = ce_ed25519_program ce, ins_accounts = [], ins_data =
          [1, 0, 48, 0, 255, 255, 16, 0, 255, 255, 112, 0, of_nat (length msg), 0, 255, 255] @ key @
          le_bytes 64 sig @ msg\<rparr>)"

text \<open>
  An order has room for a fill: it has none yet, or it is open and the quantity that is left is
  enough.
\<close>

definition fill_room :: "spot_store \<Rightarrow> pubkey \<Rightarrow> bytes32 \<Rightarrow> u64 \<Rightarrow> u64 \<Rightarrow> pubkey \<Rightarrow> bool" where
  "fill_room accs m h order_quantity n k \<longleftrightarrow>
     (case accs k of
        None \<Rightarrow> True
      | Some (FillStateAcc f) \<Rightarrow>
          fs_market f = m \<and> fs_order_hash f = h \<and> \<not> fs_cancelled f \<and>
          unat (fs_filled f) + unat n \<le> unat order_quantity
      | _ \<Rightarrow> False)"

text \<open>
  The state in which a settlement is due: the market exists and is open, both traders have
  balances that cover the trade, the receipt is free, both orders have room for the fill, carry
  their hashes and allow it.
\<close>

definition settlement_due ::
  "anchor_env \<Rightarrow> chain_env \<Rightarrow> settlement_flow_accounts \<Rightarrow> signed_fill_args \<Rightarrow> spot_store \<Rightarrow> bool" where
  "settlement_due env ce f a accs \<longleftrightarrow>
     (let m = flow_market_config env f;
          bb = trader_market_balance_pda env m (fa_buyer f);
          sb = trader_market_balance_pda env m (fa_seller f);
          bk = fst (order_fill_state_pda env m (sa_buyer_order_hash a));
          sk = fst (order_fill_state_pda env m (sa_seller_order_hash a));
          r = fst (settlement_receipt_pda env m (sa_settlement_id a));
          quote = unat (sa_fill_price a) * unat (sa_fill_quantity a) in
      (case market_at accs m of
         Some market \<Rightarrow>
           mc_base_mint market = fa_base_mint f \<and> mc_quote_mint market = fa_quote_mint f \<and>
           mc_bump market = snd (market_config_pda env (fa_base_mint f) (fa_quote_mint f)) \<and>
           mc_settlement_authority market = fa_authority f \<and> \<not> mc_paused market
       | None \<Rightarrow> False) \<and>
      (case (balance_at accs (fst bb), balance_at accs (fst sb)) of
         (Some buyer, Some seller) \<Rightarrow>
           tb_market buyer = m \<and> tb_trader buyer = fa_buyer f \<and> tb_bump buyer = snd bb \<and>
           tb_market seller = m \<and> tb_trader seller = fa_seller f \<and> tb_bump seller = snd sb \<and>
           quote \<le> unat (tb_quote buyer) \<and> unat (tb_base buyer) + unat (sa_fill_quantity a) < 2 ^ 64 \<and>
           sa_fill_quantity a \<le> tb_base seller \<and> unat (tb_quote seller) + quote < 2 ^ 64
       | _ \<Rightarrow> False) \<and>
      accs r = None \<and>
      fill_room accs m (sa_buyer_order_hash a) (sp_quantity (sa_buyer_order a)) (sa_fill_quantity a) bk \<and>
      fill_room accs m (sa_seller_order_hash a) (sp_quantity (sa_seller_order a)) (sa_fill_quantity a) sk \<and>
      distinct [fst bb, fst sb, bk, sk, r] \<and>
      sa_fill_price a \<noteq> 0 \<and> sa_fill_quantity a \<noteq> 0 \<and>
      validate_signed_payload (sa_buyer_order a) m (fa_buyer f) SignedBid = Inr () \<and>
      validate_signed_payload (sa_seller_order a) m (fa_seller f) SignedAsk = Inr () \<and>
      validate_fill_rules a (ce_slot ce) = Inr () \<and>
      ce_sha256 ce (payload_preimage (sa_buyer_order a)) = sa_buyer_order_hash a \<and>
      ce_sha256 ce (payload_preimage (sa_seller_order a)) = sa_seller_order_hash a)"

lemma of_nat_unat_eq: "n < 2 ^ 64 \<Longrightarrow> unat (of_nat n :: u64) = n"
  by (simp add: unat_of_nat)

text \<open>The instruction sees the two signature instructions directly before it, and they verify.\<close>

lemma transaction_signatures_verify:
  assumes "ed25519_documented cl ce"
  shows "verify_previous_ed25519 (in_transaction (signed_settlement_transaction cl f a budget) 4 ce) (- 2)
      (fa_buyer f) (sa_buyer_signature a) (payload_preimage (sa_buyer_order a)) = Inr ()"
    "verify_previous_ed25519 (in_transaction (signed_settlement_transaction cl f a budget) 4 ce) (- 1)
      (fa_seller f) (sa_seller_signature a) (payload_preimage (sa_seller_order a)) = Inr ()"
proof -
  have "cl_new_ed25519 cl (payload_preimage p) sig (key_bytes k) =
      \<lparr>ins_program = ce_ed25519_program ce, ins_accounts = [], ins_data =
        [1, 0, 48, 0, 255, 255, 16, 0, 255, 255, 112, 0, 138, 0, 255, 255] @ key_bytes k @ le_bytes 64 sig @
        payload_preimage p\<rparr>" for p sig k
    using assms unfolding ed25519_documented_def by simp
  then have v: "verify_ed25519_instruction (ce_ed25519_program ce) (cl_new_ed25519 cl (payload_preimage p) sig (key_bytes k))
      (key_bytes k) (le_bytes 64 sig) (payload_preimage p) = Inr ()" for p sig k
    by (simp only: ed25519_layout_verifies length_bytes)
  show "verify_previous_ed25519 (in_transaction (signed_settlement_transaction cl f a budget) 4 ce) (- 2)
      (fa_buyer f) (sa_buyer_signature a) (payload_preimage (sa_buyer_order a)) = Inr ()"
    "verify_previous_ed25519 (in_transaction (signed_settlement_transaction cl f a budget) 4 ce) (- 1)
      (fa_seller f) (sa_seller_signature a) (payload_preimage (sa_seller_order a)) = Inr ()"
    by (simp_all add: verify_previous_ed25519_def in_transaction_def signed_settlement_transaction_parts
      buyer_signature_instruction_def seller_signature_instruction_def v)
qed

lemma room_applies:
  assumes "fill_room accs m h order_quantity n k" and "n \<le> order_quantity"
  shows "\<exists>f f1 f2. init_needed as_fill_state accs k zero_fill_state = Inr f \<and>
    initialize_fill_state m h b f = Inr f1 \<and> apply_fill_state order_quantity n f1 = Inr f2"
proof -
  have fits: "\<exists>f2. apply_fill_state order_quantity n f1 = Inr f2"
    if "\<not> fs_cancelled f1" "unat (fs_filled f1) + unat n \<le> unat order_quantity" for f1
    using that unsigned_less [of order_quantity, where ?'a = nat]
    by (auto simp: apply_fill_state_def checked_add_def word_le_nat_alt unat_add_exact)
  have n: "unat n \<le> unat order_quantity" using assms(2) by (simp add: word_le_nat_alt)
  show ?thesis
  proof (cases "accs k")
    case None
    have "initialize_fill_state m h b zero_fill_state =
        Inr \<lparr>fs_market = m, fs_order_hash = h, fs_filled = 0, fs_cancelled = False, fs_bump = b\<rparr>"
      by (simp add: initialize_fill_state_def zero_fill_state_def Let_def)
    with None fits [of "\<lparr>fs_market = m, fs_order_hash = h, fs_filled = 0, fs_cancelled = False, fs_bump = b\<rparr>"] n
    show ?thesis by (auto simp: init_needed_def)
  next
    case (Some a)
    with assms(1) obtain f where f: "a = FillStateAcc f" "fs_market f = m" "fs_order_hash f = h" "\<not> fs_cancelled f"
      "unat (fs_filled f) + unat n \<le> unat order_quantity"
      by (auto simp: fill_room_def split: spot_account.splits)
    let ?f = "if m = 0 then \<lparr>fs_market = m, fs_order_hash = h, fs_filled = 0, fs_cancelled = False, fs_bump = b\<rparr> else f"
    have "initialize_fill_state m h b f = Inr ?f" using f by (simp add: initialize_fill_state_def Let_def)
    moreover have "\<exists>f2. apply_fill_state order_quantity n ?f = Inr f2" using fits [of ?f] f n by auto
    ultimately show ?thesis using Some f(1) by (auto simp: init_needed_def load_def)
  qed
qed

lemma due_market:
  assumes "finds_its_bump env" and "settlement_due env ce f a accs"
  shows "\<exists>market. load_settling_market env accs (fa_authority f) (flow_market_config env f) = Inr market \<and>
    \<not> mc_paused market"
proof -
  from assms(2) obtain market where
    "market_at accs (flow_market_config env f) = Some market"
    and mk: "mc_base_mint market = fa_base_mint f" "mc_quote_mint market = fa_quote_mint f"
      "mc_bump market = snd (market_config_pda env (fa_base_mint f) (fa_quote_mint f))"
      "mc_settlement_authority market = fa_authority f" "\<not> mc_paused market"
    by (auto simp: settlement_due_def Let_def split: option.splits)
  then have "accs (flow_market_config env f) = Some (MarketAcc market)"
    by (auto simp: market_at_def bind_eq_Some_conv)
  then have "load_settling_market env accs (fa_authority f) (flow_market_config env f) = Inr market"
    using mk assms(1)
    by (simp add: load_settling_market_ok load_market_ok flow_market_config_def market_config_pda_def finds_its_bump_def)
  with mk(5) show ?thesis by blast
qed

lemma due_balances:
  assumes "finds_its_bump env" and "settlement_due env ce f a accs"
  shows "\<exists>buyer seller quote p.
    load_own_balance ConstraintRaw env accs (flow_market_config env f) (fa_buyer f)
      (fst (trader_market_balance_pda env (flow_market_config env f) (fa_buyer f))) = Inr buyer \<and>
    load_own_balance ConstraintRaw env accs (flow_market_config env f) (fa_seller f)
      (fst (trader_market_balance_pda env (flow_market_config env f) (fa_seller f))) = Inr seller \<and>
    quote_amount_u64 (sa_fill_price a) (sa_fill_quantity a) = Inr quote \<and>
    apply_balance_settlement (sa_fill_quantity a) quote buyer seller = Inr p"
proof -
  let ?m = "flow_market_config env f" and ?q = "sa_fill_quantity a"
  let ?bb = "trader_market_balance_pda env ?m (fa_buyer f)" and ?sb = "trader_market_balance_pda env ?m (fa_seller f)"
  from assms(2) obtain buyer seller where
    "balance_at accs (fst ?bb) = Some buyer" "balance_at accs (fst ?sb) = Some seller"
    and b: "tb_market buyer = ?m" "tb_trader buyer = fa_buyer f" "tb_bump buyer = snd ?bb"
      "tb_market seller = ?m" "tb_trader seller = fa_seller f" "tb_bump seller = snd ?sb"
    and funds: "unat (sa_fill_price a) * unat ?q \<le> unat (tb_quote buyer)"
      "unat (tb_base buyer) + unat ?q < 2 ^ 64" "?q \<le> tb_base seller"
      "unat (tb_quote seller) + unat (sa_fill_price a) * unat ?q < 2 ^ 64"
    by (auto simp: settlement_due_def Let_def split: option.splits)
  then have acc: "accs (fst ?bb) = Some (BalanceAcc buyer)" "accs (fst ?sb) = Some (BalanceAcc seller)"
    by (auto simp: balance_at_def bind_eq_Some_conv)
  have "unat (sa_fill_price a) * unat ?q < 2 ^ 64" using funds(4) by simp
  then obtain quote :: u64 where quote: "unat quote = unat (sa_fill_price a) * unat ?q"
    using of_nat_unat_eq by blast
  moreover from this funds obtain p where "apply_balance_settlement ?q quote buyer seller = Inr p"
    by (auto simp: apply_balance_settlement_def checked_sub_def checked_add_def word_le_nat_alt)
  ultimately show ?thesis
    using acc b assms(1)
    by (auto simp: load_own_balance_ok quote_amount_ok trader_market_balance_pda_def finds_its_bump_def)
qed

text \<open>C29: What the settlement client builds is what the program accepts: if a settlement is due in the
  state of the chain, for orders that are new or partly filled already, the transaction of the client
  ends with a settlement instruction whose accounts pass every constraint, finds both signatures
  verified by the two instructions before it, and succeeds.\<close>

theorem client_settlement_accepted:
  assumes docs: "ed25519_documented cl ce" and bump: "finds_its_bump (cl_env cl)"
    and due: "settlement_due (cl_env cl) ce f a accs"
    and sysvar: "cl_instructions_sysvar cl = ce_instructions_sysvar ce"
    and signers: "{fa_authority f, fa_payer f} \<subseteq> set signers"
  shows "\<exists>ctx accs'. last (signed_settlement_transaction cl f a budget) =
      SettleSignedFillInstruction ctx (sa_settlement_id a) (sa_buyer_order_hash a) (sa_seller_order_hash a) a \<and>
    settle_signed_fill (cl_env cl) (in_transaction (signed_settlement_transaction cl f a budget) 4 ce) signers
      ctx (sa_settlement_id a) (sa_buyer_order_hash a) (sa_seller_order_hash a) a accs = Inr accs'"
proof -
  let ?env = "cl_env cl" and ?m = "flow_market_config (cl_env cl) f"
  obtain market where m: "load_settling_market ?env accs (fa_authority f) ?m = Inr market" "\<not> mc_paused market"
    using due_market [OF bump due] by blast
  obtain buyer seller quote p where b:
    "load_own_balance ConstraintRaw ?env accs ?m (fa_buyer f)
      (fst (trader_market_balance_pda ?env ?m (fa_buyer f))) = Inr buyer"
    "load_own_balance ConstraintRaw ?env accs ?m (fa_seller f)
      (fst (trader_market_balance_pda ?env ?m (fa_seller f))) = Inr seller"
    "quote_amount_u64 (sa_fill_price a) (sa_fill_quantity a) = Inr quote"
    "apply_balance_settlement (sa_fill_quantity a) quote buyer seller = Inr p"
    using due_balances [OF bump due] by blast
  have "validate_fill_rules a (ce_slot ce) = Inr ()" using due by (simp add: settlement_due_def Let_def)
  then have lim: "sa_fill_quantity a \<le> sp_quantity (sa_buyer_order a)"
      "sa_fill_quantity a \<le> sp_quantity (sa_seller_order a)"
    by (simp_all add: validate_fill_rules_ok)
  let ?bk = "order_fill_state_pda ?env ?m (sa_buyer_order_hash a)"
    and ?sk = "order_fill_state_pda ?env ?m (sa_seller_order_hash a)"
  have "fill_room accs ?m (sa_buyer_order_hash a) (sp_quantity (sa_buyer_order a)) (sa_fill_quantity a) (fst ?bk)"
    "fill_room accs ?m (sa_seller_order_hash a) (sp_quantity (sa_seller_order a)) (sa_fill_quantity a) (fst ?sk)"
    using due by (simp_all add: settlement_due_def Let_def)
  from room_applies [OF this(1) lim(1), of "snd ?bk"] room_applies [OF this(2) lim(2), of "snd ?sk"]
  obtain f0 f1 f2 g0 g1 g2 where fills:
    "init_needed as_fill_state accs (fst ?bk) zero_fill_state = (Inr f0 :: (settlement_error program_error, order_fill_state) result)"
    "initialize_fill_state ?m (sa_buyer_order_hash a) (snd ?bk) f0 = Inr f1"
    "apply_fill_state (sp_quantity (sa_buyer_order a)) (sa_fill_quantity a) f1 = Inr f2"
    "init_needed as_fill_state accs (fst ?sk) zero_fill_state = (Inr g0 :: (settlement_error program_error, order_fill_state) result)"
    "initialize_fill_state ?m (sa_seller_order_hash a) (snd ?sk) g0 = Inr g1"
    "apply_fill_state (sp_quantity (sa_seller_order a)) (sa_fill_quantity a) g1 = Inr g2" by metis
  have seeds: "check_seeds ?env (fst (find_pda ?env s)) s = Inr (snd (find_pda ?env s))" for s
    by (simp add: check_seeds_ok)
  show ?thesis
    using signers m(2) due sysvar transaction_signatures_verify [OF docs, of f a budget]
    by (cases p) (simp add: settlement_due_def signed_settlement_transaction_parts
      settle_signed_fill_instruction_def to_settlement_accounts_def Let_def settle_signed_fill_def
      need_signer_def check_distinct_mut_def init_fresh_def m(1) b fills [unfolded order_fill_state_pda_def] seeds
      word_gt_0 order_fill_state_pda_def settlement_receipt_pda_def in_transaction_def)
qed

text \<open>The client of the concrete world.\<close>

definition demo_client :: client_env where
  "demo_client = \<lparr>cl_env = demo_env,
     cl_set_unit_limit = (\<lambda>u. \<lparr>ins_program = 97, ins_accounts = [], ins_data = 2 # le_bytes 4 u\<rparr>),
     cl_set_unit_price = (\<lambda>u. \<lparr>ins_program = 97, ins_accounts = [], ins_data = 3 # le_bytes 8 u\<rparr>),
     cl_new_ed25519 = (\<lambda>msg sig key. \<lparr>ins_program = 98, ins_accounts = [], ins_data =
       [1, 0, 48, 0, 255, 255, 16, 0, 255, 255, 112, 0, of_nat (length msg), 0, 255, 255] @ key @
       le_bytes 64 sig @ msg\<rparr>),
     cl_instructions_sysvar = 99\<rparr>"

definition demo_flow :: settlement_flow_accounts where
  "demo_flow = \<lparr>fa_authority = 6, fa_base_mint = 2, fa_quote_mint = 3, fa_buyer = 7, fa_seller = 8,
     fa_payer = 6\<rparr>"

lemma demo_fill_fields:
  "sa_fill_price demo_fill_args = 4" "sa_fill_quantity demo_fill_args = 8"
  "sa_buyer_order_hash demo_fill_args = 720244" "sa_seller_order_hash demo_fill_args = 435857"
  "sa_buyer_order demo_fill_args = demo_bid" "sa_seller_order demo_fill_args = demo_ask"
  "sa_settlement_id demo_fill_args = 1"
  by (simp_all add: demo_fill_args_def)

lemma demo_settlement_due: "settlement_due demo_env demo_ce demo_flow demo_fill_args demo_store4"
  by (simp add: settlement_due_def fill_room_def Let_def flow_market_config_def market_config_pda_def demo_flow_def
    trader_market_balance_pda_def order_fill_state_pda_def settlement_receipt_pda_def market_at_def
    balance_at_def demo_stores demo_accounts demo_rules demo_fill_fields)

lemma client_settlement_accepted_witness:
  "\<exists>ctx accs'. settle_signed_fill demo_env
     (in_transaction (signed_settlement_transaction demo_client demo_flow demo_fill_args signed_settlement_preset) 4 demo_ce)
     [6] ctx 1 720244 435857 demo_fill_args demo_store4 = Inr accs'"
proof -
  have "ed25519_documented demo_client demo_ce" "finds_its_bump (cl_env demo_client)"
    "cl_env demo_client = demo_env" "cl_instructions_sysvar demo_client = ce_instructions_sysvar demo_ce"
    "{fa_authority demo_flow, fa_payer demo_flow} \<subseteq> set [6]"
    by (simp_all add: ed25519_documented_def finds_its_bump_def demo_client_def demo_ce_def demo_flow_def)
  from client_settlement_accepted [OF this(1,2) _ this(4,5), of demo_fill_args demo_store4
      signed_settlement_preset] demo_settlement_due this(3)
  show ?thesis by (auto simp: demo_fill_fields)
qed

end
