(* ===== verification/Settlement_Liveness.thy ===== *)
theory Settlement_Liveness
  imports Settlement_Worker Settlement_Delivery
begin

text \<open>
  What the settlement worker promises: every queued settlement comes to an end, what is queued is
  what is claimed, and settlement ids are not given out twice.  The last section is a queued
  settlement of the concrete world.
\<close>

section \<open>The worker terminates every settlement\<close>

definition no_fault :: fault where
  "no_fault = (\<lambda>_. None)"

lemma statement_no_fault [simp]:
  "statement no_fault run t = (case run (t\<lparr>ot_statements := Suc (ot_statements t)\<rparr>) of (x, t2) \<Rightarrow> (Inr x, t2))"
  by (simp add: statement_def no_fault_def Let_def)

definition claimed_row :: "'j outbox_row \<Rightarrow> 'j outbox_row" where
  "claimed_row r = r\<lparr>ob_attempts := ob_attempts r + 1\<rparr>"

definition pending_rows :: "'j outbox_row list \<Rightarrow> 'j outbox_row list" where
  "pending_rows rows = filter (\<lambda>r. ob_status r = Pending) rows"

lemma claimed_row_simps [simp]:
  "ob_id (claimed_row r) = ob_id r" "ob_status (claimed_row r) = ob_status r"
  "ob_payload (claimed_row r) = ob_payload r" "ob_attempts (claimed_row r) = ob_attempts r + 1"
  "ob_max_attempts (claimed_row r) = ob_max_attempts r"
  by (simp_all add: claimed_row_def)

text \<open>The first \<open>n\<close> pending rows are claimed.\<close>

lemma claim_rows_first:
  assumes "distinct (map ob_id rows)"
  shows "claim_rows n rows =
    (map claimed_row (take n (pending_rows rows)),
     map (\<lambda>r. if r \<in> set (take n (pending_rows rows)) then claimed_row r else r) rows)"
  using assms
proof (induction n rows rule: claim_rows.induct)
  case (2 r rs)
  then show ?case by simp
next
  case (3 n r rs)
  have fresh: "r \<notin> set rs" using 3(3) by auto
  show ?case
  proof (cases "ob_status r = Pending")
    case True
    have "map (\<lambda>x. if x = r \<or> x \<in> set (take n (pending_rows rs)) then claimed_row x else x) rs =
        map (\<lambda>x. if x \<in> set (take n (pending_rows rs)) then claimed_row x else x) rs"
      using fresh by (intro map_cong) auto
    with 3(1) 3(3) True show ?thesis
      by (simp add: pending_rows_def Let_def claimed_row_def)
  next
    case False
    moreover have "r \<notin> set (take (Suc n) (pending_rows rs))"
      using fresh set_take_subset [of "Suc n" "pending_rows rs"] by (auto simp: pending_rows_def)
    ultimately show ?thesis using 3(2) 3(3) by (simp add: pending_rows_def)
  qed
qed (simp_all add: pending_rows_def)

text \<open>What a processed row looks like.\<close>

definition resolves :: "work_item \<Rightarrow> 'j outbox_row \<Rightarrow> 'j outbox_row \<Rightarrow> bool" where
  "resolves item r r' \<longleftrightarrow>
     ob_id r' = ob_id r \<and> ob_payload r' = ob_payload r \<and> ob_attempts r' = ob_attempts r \<and>
     ob_max_attempts r' = ob_max_attempts r \<and>
     (ob_status r' = Pending \<longrightarrow> wi_attempts item < wi_max_attempts item)"

lemma process_item_rows:
  assumes "sw_outbox w = Some t" and "wi_outbox_id item = Some i"
  shows "\<exists>t1 g. sw_outbox (fst (process_item cl et no_fault submit item (w, s))) = Some t1 \<and>
    ot_rows t1 = map g (ot_rows t) \<and> (\<forall>r. ob_id r \<noteq> i \<longrightarrow> g r = r) \<and>
    (\<forall>r. ob_id r = i \<longrightarrow> resolves item r (g r))"
proof -
  obtain x s1 where x: "submit (plan_signed_settlement cl planner_default (wi_request item)) s = (x, s1)" by fastforce
  show ?thesis
  proof (cases x)
    case (Inr sub)
    let ?f = "\<lambda>r. r\<lparr>ob_status := Submitted, ob_signature := Some (le_bytes 64 (st_signature sub)), ob_last_error := None\<rparr>"
    show ?thesis
      by (rule exI [of _ "snd (mark_settlement_submitted no_fault i (st_signature sub) t)"],
          rule exI [of _ "\<lambda>r. if ob_id r = i then ?f r else r"])
        (simp add: process_item_def submit_requests_def x Inr update_outbox_def assms
          record_settlement_requests_submitted_def mark_settlement_submitted_def update_row_def resolves_def)
  next
    case (Inl e)
    let ?retry = "is_retryable e \<and> wi_attempts item < wi_max_attempts item"
    let ?f = "\<lambda>r. r\<lparr>ob_status := (if ?retry then Pending else Failed), ob_last_error := Some (et e)\<rparr>"
    show ?thesis
      by (rule exI [of _ "snd (if ?retry then keep_settlement_pending no_fault i (et e) t
             else mark_settlement_failed no_fault i (et e) t)"],
          rule exI [of _ "\<lambda>r. if ob_id r = i then ?f r else r"])
        (simp add: process_item_def submit_requests_def x Inl update_outbox_def assms Let_def
          record_settlement_requests_failed_def mark_settlement_failed_def keep_settlement_pending_def
          update_row_def resolves_def)
  qed
qed

lemma process_items_rows:
  assumes "sw_outbox w = Some t" and "map wi_outbox_id items = map Some ids" and "distinct ids"
  shows "\<exists>t1 g. sw_outbox (fst (process_items cl et no_fault submit items (w, s))) = Some t1 \<and>
    ot_rows t1 = map g (ot_rows t) \<and> (\<forall>r. ob_id r \<notin> set ids \<longrightarrow> g r = r) \<and>
    (\<forall>r item. item \<in> set items \<and> wi_outbox_id item = Some (ob_id r) \<longrightarrow> resolves item r (g r))"
  using assms
proof (induction items arbitrary: w s t ids)
  case Nil
  then show ?case by (intro exI [of _ t] exI [of _ "\<lambda>r. r"]) simp
next
  case (Cons item items)
  then obtain i ids' where ids: "ids = i # ids'" "wi_outbox_id item = Some i" "map wi_outbox_id items = map Some ids'"
    "i \<notin> set ids'" "distinct ids'" by (auto simp: Cons_eq_map_conv)
  obtain w1 s1 where p: "process_item cl et no_fault submit item (w, s) = (w1, s1)" by fastforce
  from process_item_rows [OF Cons.prems(1) ids(2), of cl et submit s] p obtain t1 g1 where
    g1: "sw_outbox w1 = Some t1" "ot_rows t1 = map g1 (ot_rows t)" "\<And>r. ob_id r \<noteq> i \<Longrightarrow> g1 r = r"
      "\<And>r. ob_id r = i \<Longrightarrow> resolves item r (g1 r)" by auto
  from Cons.IH [OF g1(1) ids(3,5), of s1] obtain t2 g2 where
    g2: "sw_outbox (fst (process_items cl et no_fault submit items (w1, s1))) = Some t2"
      "ot_rows t2 = map g2 (ot_rows t1)" "\<And>r. ob_id r \<notin> set ids' \<Longrightarrow> g2 r = r"
      "\<And>r item. item \<in> set items \<Longrightarrow> wi_outbox_id item = Some (ob_id r) \<Longrightarrow> resolves item r (g2 r)"
    by (elim exE conjE) (rule that, assumption, assumption, blast, blast)
  have ne: "wi_outbox_id it \<noteq> Some i" if "it \<in> set items" for it
    using that ids(3,4) by (metis image_eqI image_iff list.set_map option.inject)
  have id1: "ob_id (g1 r) = ob_id r" for r
    using g1(3,4) [of r] by (cases "ob_id r = i") (auto simp: resolves_def)
  have "resolves it r (g2 (g1 r))" if it: "it \<in> set (item # items)" "wi_outbox_id it = Some (ob_id r)" for it r
  proof (cases "it = item \<and> it \<notin> set items")
    case True
    with it ids(2,4) have "ob_id r = i" "ob_id (g1 r) \<notin> set ids'" by (auto simp: id1)
    with g1(4) g2(3) True show ?thesis by simp
  next
    case False
    with it have "it \<in> set items" by auto
    moreover from this ne it have "ob_id r \<noteq> i" by auto
    ultimately show ?thesis using g1(3) g2(4) it(2) by simp
  qed
  moreover have "g2 (g1 r) = r" if "ob_id r \<notin> set ids" for r
    using that g1(3) g2(3) ids(1) by simp
  ultimately show ?case
    using p g1(2) g2(1,2) by (intro exI [of _ t2] exI [of _ "g2 \<circ> g1"]) simp
qed

lemma collect_results_ok:
  assumes "\<And>x. x \<in> set xs \<Longrightarrow> is_ok (f x)"
  shows "\<exists>ys. collect_results (map f xs) = Inr ys \<and> list_all2 (\<lambda>x y. f x = Inr y) xs ys"
  using assms
proof (induction xs)
  case (Cons x xs)
  then obtain ys where "collect_results (map f xs) = Inr ys" "list_all2 (\<lambda>x y. f x = Inr y) xs ys" by auto
  moreover obtain y where "f x = Inr y" using Cons.prems [of x] by (auto simp: is_ok_iff)
  ultimately show ?case by simp
qed simp

lemma list_all2_ex: "list_all2 P xs ys \<Longrightarrow> x \<in> set xs \<Longrightarrow> \<exists>y \<in> set ys. P x y"
  by (induction rule: list_all2_induct) auto

lemma sum_list_less:
  fixes f g :: "'a \<Rightarrow> nat"
  assumes "\<And>x. x \<in> set xs \<Longrightarrow> f x \<le> g x" and "y \<in> set xs" and "f y < g y"
  shows "sum_list (map f xs) < sum_list (map g xs)"
  using assms
proof (induction xs)
  case (Cons x xs)
  have le: "sum_list (map f xs) \<le> sum_list (map g xs)" using Cons.prems(1) by (intro sum_list_mono) simp
  show ?case
  proof (cases "y = x")
    case True
    with le Cons.prems(3) show ?thesis by simp
  next
    case False
    with Cons.prems(2) have "y \<in> set xs" by simp
    with Cons.IH Cons.prems(1,3) have "sum_list (map f xs) < sum_list (map g xs)" by simp
    moreover have "f x \<le> g x" using Cons.prems(1) by simp
    ultimately show ?thesis by simp
  qed
qed simp

text \<open>The attempts that the pending rows of a table still have.\<close>

definition remaining :: "'j outbox_row \<Rightarrow> nat" where
  "remaining r = (if ob_status r = Pending then nat (ob_max_attempts r - ob_attempts r) else 0)"

definition outbox_work :: "'j outbox \<Rightarrow> nat" where
  "outbox_work t = (\<Sum>r\<leftarrow>ot_rows t. remaining r)"

definition row_sound :: "'j outbox_codec \<Rightarrow> 'j outbox_row \<Rightarrow> bool" where
  "row_sound c r \<longleftrightarrow> is_ok (item_of_row c r) \<and> (ob_status r = Pending \<longrightarrow> ob_attempts r < ob_max_attempts r)"

definition outbox_sound :: "'j outbox_codec \<Rightarrow> 'j outbox \<Rightarrow> bool" where
  "outbox_sound c t \<longleftrightarrow> distinct (map ob_id (ot_rows t)) \<and> (\<forall>r \<in> set (ot_rows t). row_sound c r)"

text \<open>What may happen to a row: it keeps its request, and a row that is done never changes.\<close>

definition row_step :: "'j outbox_row \<Rightarrow> 'j outbox_row \<Rightarrow> bool" where
  "row_step r r' \<longleftrightarrow> ob_id r' = ob_id r \<and> ob_payload r' = ob_payload r \<and> ob_max_attempts r' = ob_max_attempts r \<and>
     ob_attempts r \<le> ob_attempts r' \<and> (ob_attempts r' = ob_attempts r \<or> ob_attempts r' \<le> ob_max_attempts r) \<and>
     (ob_status r \<noteq> Pending \<longrightarrow> r' = r)"

lemma row_step_refl [simp]: "row_step r r"
  by (simp add: row_step_def)

lemma row_step_trans: "row_step a b \<Longrightarrow> row_step b c \<Longrightarrow> row_step a c"
  by (auto simp: row_step_def)

lemma item_of_row_cong:
  "ob_payload r' = ob_payload r \<Longrightarrow> is_ok (item_of_row c r') = is_ok (item_of_row c r)"
  by (auto simp: item_of_row_def is_ok_iff checked_ok)

text \<open>A claimed row that has been processed.\<close>

lemma processed_row:
  assumes "row_sound c r" and "ob_status r = Pending" and "resolves item (claimed_row r) r'"
    and "wi_attempts item = ob_attempts r + 1" and "wi_max_attempts item = ob_max_attempts r"
  shows "row_step r r' \<and> row_sound c r' \<and> remaining r' < remaining r"
  using assms item_of_row_cong [of r' r c]
  by (auto simp: resolves_def row_step_def row_sound_def remaining_def)

lemma claim_work:
  assumes "sw_outbox w = Some t" and "outbox_sound c t"
  shows "\<exists>work w1 t1. claim_settlement_work c no_fault w = (work, w1) \<and> sw_outbox w1 = Some t1 \<and>
    ot_rows t1 = map (\<lambda>r. if r \<in> set (take 32 (pending_rows (ot_rows t))) then claimed_row r else r) (ot_rows t) \<and>
    map wi_outbox_id work = map Some (map ob_id (take 32 (pending_rows (ot_rows t)))) \<and>
    (\<forall>r \<in> set (take 32 (pending_rows (ot_rows t))). \<exists>item \<in> set work. wi_outbox_id item = Some (ob_id r) \<and>
      wi_attempts item = ob_attempts r + 1 \<and> wi_max_attempts item = ob_max_attempts r)"
proof -
  let ?P = "take 32 (pending_rows (ot_rows t))"
  have dist: "distinct (map ob_id (ot_rows t))" using assms(2) by (simp add: outbox_sound_def)
  have P: "set ?P \<subseteq> set (ot_rows t)"
    using set_take_subset [of 32 "pending_rows (ot_rows t)"] by (auto simp: pending_rows_def)
  have "is_ok (item_of_row c (claimed_row r))" if "r \<in> set ?P" for r
    using that P assms(2) item_of_row_cong [of "claimed_row r" r c] by (auto simp: outbox_sound_def row_sound_def)
  then obtain items where items: "collect_results (map (item_of_row c \<circ> claimed_row) ?P) = Inr items"
    "list_all2 (\<lambda>r i. item_of_row c (claimed_row r) = Inr i) ?P items"
    using collect_results_ok [of ?P "item_of_row c \<circ> claimed_row"] by auto
  have i: "list_all2 (\<lambda>r i. oi_id i = ob_id r \<and> oi_attempts i = ob_attempts r + 1 \<and> oi_max_attempts i = ob_max_attempts r) ?P items"
    using items(2) by (rule list_all2_mono) (auto simp: item_of_row_def checked_ok)
  then have ids: "map oi_id items = map ob_id ?P"
    by (induction rule: list_all2_induct) simp_all
  have mem: "\<exists>item \<in> set items. oi_id item = ob_id r \<and> oi_attempts item = ob_attempts r + 1 \<and> oi_max_attempts item = ob_max_attempts r"
    if "r \<in> set ?P" for r
    by (rule list_all2_ex [OF i that])
  have "claim_settlement_work c no_fault w = (map work_item_of_outbox items,
      w\<lparr>sw_outbox := Some (t\<lparr>ot_statements := Suc (ot_statements t),
        ot_rows := map (\<lambda>r. if r \<in> set ?P then claimed_row r else r) (ot_rows t)\<rparr>)\<rparr>)"
    using items(1) by (simp add: claim_settlement_work_def assms(1) claim_pending_settlements_def
      settlement_worker_batch_limit_def claim_rows_first [OF dist])
  moreover have "map wi_outbox_id (map work_item_of_outbox items) = map Some (map ob_id ?P)"
    unfolding ids [symmetric] by (simp add: work_item_of_outbox_def o_def)
  moreover have "\<forall>r \<in> set ?P. \<exists>item \<in> set (map work_item_of_outbox items). wi_outbox_id item = Some (ob_id r) \<and>
      wi_attempts item = ob_attempts r + 1 \<and> wi_max_attempts item = ob_max_attempts r"
    using mem by (fastforce simp: work_item_of_outbox_def)
  ultimately show ?thesis by simp
qed

lemma worker_cycle_progress:
  assumes "sw_outbox w = Some t" and "outbox_sound c t"
  shows "\<exists>t'. sw_outbox (fst (worker_cycle cl et c no_fault submit (w, s))) = Some t' \<and> outbox_sound c t' \<and>
    list_all2 row_step (ot_rows t) (ot_rows t') \<and> (outbox_work t \<noteq> 0 \<longrightarrow> outbox_work t' < outbox_work t)"
proof -
  let ?P = "take 32 (pending_rows (ot_rows t))" and ?rows = "ot_rows t"
  let ?claim = "\<lambda>r. if r \<in> set ?P then claimed_row r else r"
  have dist: "distinct (map ob_id ?rows)" and sound: "\<And>r. r \<in> set ?rows \<Longrightarrow> row_sound c r"
    using assms(2) by (simp_all add: outbox_sound_def)
  have P: "set ?P \<subseteq> set ?rows" "\<And>r. r \<in> set ?P \<Longrightarrow> ob_status r = Pending"
    using set_take_subset [of 32 "pending_rows ?rows"] by (auto simp: pending_rows_def)
  have distP: "distinct (map ob_id ?P)"
    using dist unfolding pending_rows_def by (simp add: distinct_map_filter take_map [symmetric])
  obtain work w1 t1 where cw: "claim_settlement_work c no_fault w = (work, w1)" "sw_outbox w1 = Some t1"
    "ot_rows t1 = map ?claim ?rows" "map wi_outbox_id work = map Some (map ob_id ?P)"
    and items: "\<And>r. r \<in> set ?P \<Longrightarrow> \<exists>item \<in> set work. wi_outbox_id item = Some (ob_id r) \<and>
      wi_attempts item = ob_attempts r + 1 \<and> wi_max_attempts item = ob_max_attempts r"
    using claim_work [OF assms] by (elim exE conjE) (rule that, assumption+, blast)
  obtain t2 g where t2: "sw_outbox (fst (process_items cl et no_fault submit work (w1, s))) = Some t2"
    "ot_rows t2 = map g (ot_rows t1)" and g: "\<And>r. ob_id r \<notin> set (map ob_id ?P) \<Longrightarrow> g r = r"
    "\<And>r item. item \<in> set work \<Longrightarrow> wi_outbox_id item = Some (ob_id r) \<Longrightarrow> resolves item r (g r)"
    using process_items_rows [OF cw(2,4) distP, of cl et submit s]
    by (elim exE conjE) (rule that, assumption, assumption, blast, blast)
  have rows2: "ot_rows t2 = map (\<lambda>r. g (?claim r)) ?rows" using t2(2) cw(3) by simp
  have step: "row_step r (g (?claim r)) \<and> row_sound c (g (?claim r)) \<and> remaining (g (?claim r)) \<le> remaining r \<and>
      (r \<in> set ?P \<longrightarrow> remaining (g (?claim r)) < remaining r)" if r: "r \<in> set ?rows" for r
  proof (cases "r \<in> set ?P")
    case True
    from items [OF True] obtain item where it: "item \<in> set work" "wi_outbox_id item = Some (ob_id r)"
      "wi_attempts item = ob_attempts r + 1" "wi_max_attempts item = ob_max_attempts r" by blast
    have "resolves item (claimed_row r) (g (claimed_row r))" using g(2) [OF it(1)] it(2) by simp
    from processed_row [OF sound [OF r] P(2) [OF True] this it(3,4)] True show ?thesis by simp
  next
    case False
    have "ob_id r \<notin> set (map ob_id ?P)"
      using False r P(1) dist by (auto simp: distinct_map inj_on_def)
    with False g(1) sound [OF r] show ?thesis by simp
  qed
  have "map ob_id (ot_rows t2) = map ob_id ?rows"
    unfolding rows2 using step by (simp add: row_step_def)
  then have "distinct (map ob_id (ot_rows t2))" using dist by simp
  then have "outbox_sound c t2" using step by (auto simp: outbox_sound_def rows2)
  moreover have "list_all2 row_step ?rows (ot_rows t2)"
    unfolding rows2 using step by (auto simp: list_all2_conv_all_nth)
  moreover have "outbox_work t2 < outbox_work t" if nz: "outbox_work t \<noteq> 0"
  proof -
    from nz obtain r where "r \<in> set ?rows" "remaining r \<noteq> 0" by (auto simp: outbox_work_def)
    then have "pending_rows ?rows \<noteq> []" by (auto simp: pending_rows_def remaining_def filter_empty_conv split: if_splits)
    then obtain r where "r \<in> set ?P" by (cases "pending_rows ?rows") auto
    then show ?thesis
      unfolding outbox_work_def rows2 using step P(1)
      by (simp only: map_map o_def) (rule sum_list_less [of _ _ _ r], auto)
  qed
  ultimately show ?thesis
    using t2(1) cw(1) by (intro exI [of _ t2]) (simp add: worker_cycle_def)
qed

lemma row_step_remaining: "row_step r r' \<Longrightarrow> remaining r' \<le> remaining r"
  by (auto simp: row_step_def remaining_def)

lemma worker_cycles_terminate:
  assumes "sw_outbox w = Some t" and "outbox_sound c t" and "outbox_work t \<le> n"
  shows "\<exists>t'. sw_outbox (fst (worker_cycles cl et c no_fault submit n (w, s))) = Some t' \<and> outbox_sound c t' \<and>
    list_all2 row_step (ot_rows t) (ot_rows t') \<and> outbox_work t' = 0"
  using assms
proof (induction n arbitrary: w t s)
  case 0
  then show ?case by (auto simp: list_all2_refl)
next
  case (Suc n)
  obtain w1 s1 where c1: "worker_cycle cl et c no_fault submit (w, s) = (w1, s1)" by fastforce
  from worker_cycle_progress [OF Suc.prems(1,2), of cl et submit s] c1 obtain t1 where
    t1: "sw_outbox w1 = Some t1" "outbox_sound c t1" "list_all2 row_step (ot_rows t) (ot_rows t1)"
      "outbox_work t \<noteq> 0 \<longrightarrow> outbox_work t1 < outbox_work t" by auto
  have "outbox_work t1 \<le> n"
  proof (cases "outbox_work t = 0")
    case True
    from t1(3) have "sum_list (map remaining (ot_rows t1)) \<le> sum_list (map remaining (ot_rows t))"
      by (induction rule: list_all2_induct) (auto intro: add_mono row_step_remaining)
    with True show ?thesis unfolding outbox_work_def by linarith
  qed (use t1(4) Suc.prems(3) in simp)
  from Suc.IH [OF t1(1,2) this, of s1] obtain t' where
    t': "sw_outbox (fst (worker_cycles cl et c no_fault submit n (w1, s1))) = Some t'" "outbox_sound c t'"
      "list_all2 row_step (ot_rows t1) (ot_rows t')" "outbox_work t' = 0" by auto
  moreover have "list_all2 row_step (ot_rows t) (ot_rows t')"
    using row_step_trans t1(3) t'(3) by (rule list_all2_trans)
  ultimately show ?case using c1 by simp
qed

text \<open>C30: Every queued settlement comes to an end, whatever the chain answers: with a database that works,
  after as many turns of the worker as the pending rows have attempts left, no row is pending.
  Each has been submitted or has failed within its attempts, keeps its request, and rows that
  were done before are unchanged.\<close>

theorem settlements_terminate:
  assumes "sw_outbox w = Some t" and "outbox_sound c t" and "outbox_work t \<le> n"
  shows "\<exists>t'. sw_outbox (fst (worker_cycles cl et c no_fault submit n (w, s))) = Some t' \<and>
    list_all2 row_step (ot_rows t) (ot_rows t') \<and> (\<forall>r \<in> set (ot_rows t'). ob_status r \<in> {Submitted, Failed})"
proof -
  obtain t' where t': "sw_outbox (fst (worker_cycles cl et c no_fault submit n (w, s))) = Some t'" "outbox_sound c t'"
    "list_all2 row_step (ot_rows t) (ot_rows t')" "outbox_work t' = 0"
    using worker_cycles_terminate [OF assms, of cl et submit s] by blast
  have "ob_status r \<in> {Submitted, Failed}" if "r \<in> set (ot_rows t')" for r
  proof -
    have "remaining r = 0" using t'(4) that by (auto simp: outbox_work_def)
    moreover have "row_sound c r" using t'(2) that by (simp add: outbox_sound_def)
    ultimately show ?thesis by (cases "ob_status r") (auto simp: remaining_def row_sound_def)
  qed
  with t'(1,3) show ?thesis by blast
qed

section \<open>What is queued is what is claimed\<close>

definition outbox_ids_fresh :: "'j outbox \<Rightarrow> bool" where
  "outbox_ids_fresh t \<longleftrightarrow> (\<forall>r \<in> set (ot_rows t). ob_id r < ot_next_id t)"

lemma enqueue_rows:
  assumes "codec_ok c" and "outbox_sound c t" and "outbox_ids_fresh t"
    and "enqueue_settlement_requests c fault qs t = (Inr u, t')"
  shows "\<exists>rs. ot_rows t' = ot_rows t @ rs \<and> outbox_sound c t' \<and> outbox_ids_fresh t' \<and>
    list_all2 (\<lambda>q r. ob_status r = Pending \<and> item_of_row c r =
      Inr \<lparr>oi_id = ob_id r, oi_attempts = 0, oi_max_attempts = default_max_attempts, oi_request = q\<rparr>) qs rs"
  using assms(2-)
proof (induction qs arbitrary: t)
  case (Cons q qs)
  from Cons.prems(3) obtain payload t1 where p: "oc_to_json c (json_of_request c q) = Inr payload"
    and st: "statement fault (insert_row payload) t = (Inr (), t1)"
    and rest: "enqueue_settlement_requests c fault qs t1 = (Inr u, t')"
    by (auto simp: map_err_def split: sum.splits prod.splits)
  let ?r = "\<lparr>ob_id = ot_next_id t, ob_status = Pending, ob_payload = payload, ob_attempts = 0,
    ob_max_attempts = default_max_attempts, ob_signature = None, ob_last_error = None\<rparr>"
  have t1: "ot_rows t1 = ot_rows t @ [?r]" "ot_next_id t1 = ot_next_id t + 1"
    using st by (auto simp: statement_def insert_row_def Let_def split: option.splits)
  have item: "item_of_row c ?r = Inr \<lparr>oi_id = ob_id ?r, oi_attempts = 0, oi_max_attempts = default_max_attempts, oi_request = q\<rparr>"
    using assms(1) p request_json_roundtrip [OF assms(1)] by (simp add: item_of_row_def codec_ok_def)
  then have "row_sound c ?r" by (simp add: row_sound_def default_max_attempts_def)
  then have s1: "outbox_sound c t1" "outbox_ids_fresh t1"
    using Cons.prems(1,2) by (auto simp: outbox_sound_def outbox_ids_fresh_def t1)
  from Cons.IH [OF s1 rest] obtain rs where rs: "ot_rows t' = ot_rows t1 @ rs" "outbox_sound c t'" "outbox_ids_fresh t'"
    "list_all2 (\<lambda>q r. ob_status r = Pending \<and> item_of_row c r =
      Inr \<lparr>oi_id = ob_id r, oi_attempts = 0, oi_max_attempts = default_max_attempts, oi_request = q\<rparr>) qs rs"
    by blast
  with item t1(1) show ?case by (intro exI [of _ "?r # rs"]) simp
qed simp

text \<open>C32: A queued request reaches the worker unchanged: what a successful enqueue appends to the outbox are
  pending rows, one for each request and in order, from which a claim reads back exactly the
  request, its key texts, order sides and signatures included.\<close>

theorem outbox_roundtrip:
  assumes "codec_ok c" and "outbox_sound c t" and "outbox_ids_fresh t"
    and "enqueue_settlement_requests c fault qs t = (Inr u, t')"
  shows "\<exists>rs. ot_rows t' = ot_rows t @ rs \<and> outbox_sound c t' \<and>
    list_all2 (\<lambda>q r. ob_status r = Pending \<and> item_of_row c r =
      Inr \<lparr>oi_id = ob_id r, oi_attempts = 0, oi_max_attempts = default_max_attempts, oi_request = q\<rparr>) qs rs"
  using enqueue_rows [OF assms] by blast

section \<open>Settlement ids\<close>

lemma allocate_ids:
  assumes "allocate_settlement_ids n s = (Inr (Some first), s')"
  shows "first = es_next_settlement_id s \<and> unat (es_next_settlement_id s') = unat first + n \<and> 0 < n \<and>
    es_queued s' = es_queued s \<and> es_signed_orders s' = es_signed_orders s"
  using assms by (auto simp: allocate_settlement_ids_def checked_add_Some unat_of_nat split: if_splits option.splits)

definition queued_ids :: "edge_state \<Rightarrow> nat list" where
  "queued_ids s = map (\<lambda>q. unat (sa_settlement_id (rq_args q))) (es_queued s)"

definition ids_fresh :: "edge_state \<Rightarrow> bool" where
  "ids_fresh s \<longleftrightarrow> distinct (queued_ids s) \<and> (\<forall>i \<in> set (queued_ids s). i < unat (es_next_settlement_id s))"

lemma requests_have_ids:
  assumes "requests_from_batch env b batch lookup first = Inr qs"
  shows "map (\<lambda>q. unat (sa_settlement_id (rq_args q))) qs = [unat first ..< unat first + length qs] \<and>
    length qs = length (sb_intents batch)"
  using requests_from_intents_fit [OF assms [unfolded requests_from_batch_def]]
  by (auto intro!: nth_equalityI simp: request_fits_def Let_def)

text \<open>Settlement ids are never given out twice while the service runs: in the mode without a
  database, all queued requests have different ids below the next one, and queueing the
  settlements of another order keeps it so, with the new ids in a row from the old next one.\<close>

theorem queued_ids_stay_fresh:
  assumes "ids_fresh (sw_edge w)" and "sw_outbox w = None"
  shows "ids_fresh (sw_edge (queue_settlement_requests env c fault config command taker fills w)) \<and>
    (\<exists>n. queued_ids (sw_edge (queue_settlement_requests env c fault config command taker fills w)) =
       queued_ids (sw_edge w) @ [unat (es_next_settlement_id (sw_edge w)) ..< unat (es_next_settlement_id (sw_edge w)) + n])"
proof -
  let ?w = "queue_settlement_requests env c fault config command taker fills w" and ?s = "sw_edge w"
  have same: "ids_fresh s' \<and> (\<exists>n. queued_ids s' = queued_ids ?s @ [unat (es_next_settlement_id ?s) ..<
      unat (es_next_settlement_id ?s) + n])"
    if "es_queued s' = es_queued ?s" "unat (es_next_settlement_id ?s) \<le> unat (es_next_settlement_id s')" for s'
    using assms(1) that by (force simp: ids_fresh_def queued_ids_def intro: exI [of _ 0])
  show ?thesis
  proof (cases "config = None \<or> fills = [] \<or> (\<nexists>first s'. allocate_settlement_ids (length fills) ?s = (Inr (Some first), s'))")
    case True
    have "sw_edge ?w = ?s"
      using True by (auto simp: queue_settlement_requests_def allocate_settlement_ids_def split: option.splits if_splits)
    with same [of ?s] show ?thesis by simp
  next
    case False
    then obtain bridge first s' where b: "config = Some bridge" "fills \<noteq> []"
      and al: "allocate_settlement_ids (length fills) ?s = (Inr (Some first), s')" by auto
    note a = allocate_ids [OF al]
    show ?thesis
    proof (cases "\<exists>cid qs. command_id_new command = Inr cid \<and>
        requests_from_batch env bridge (batch_from_order_fills cid taker fills) (signed_order_lookup s') first = Inr qs")
      case True
      then obtain cid qs where q: "command_id_new command = Inr cid"
        "requests_from_batch env bridge (batch_from_order_fills cid taker fills) (signed_order_lookup s') first = Inr qs" by blast
      have edge: "sw_edge ?w = queue_settlements qs s'"
        using b al q by (simp add: queue_settlement_requests_def Let_def assms(2) record_settlement_requests_queued_def)
      have ids: "queued_ids (sw_edge ?w) = queued_ids ?s @ [unat first ..< unat first + length fills]"
        using requests_have_ids [OF q(2)] a
        by (simp add: edge queue_settlements_def queued_ids_def batch_from_order_fills_def)
      then show ?thesis
        using assms(1) a by (auto simp: edge queue_settlements_def ids_fresh_def)
    next
      case False
      then have "sw_edge ?w = s'"
        using b al by (auto simp: queue_settlement_requests_def Let_def split: sum.splits)
      with same [of s'] a show ?thesis by simp
    qed
  qed
qed

section \<open>A queued settlement\<close>

definition demo_codec :: "request_json outbox_codec" where
  "demo_codec = \<lparr>oc_key_text = (\<lambda>k. map (\<lambda>b. char_of (unat b)) (key_bytes k)),
     oc_key_parse = (\<lambda>s. Inr (word_of_le (map (\<lambda>ch. of_nat (of_char ch)) s))),
     oc_to_json = Inr, oc_from_json = Inr\<rparr>"

lemma demo_codec_ok: "codec_ok demo_codec"
proof -
  have "of_nat (of_char (char_of (unat b) :: char) :: nat) = b" for b :: u8
    using unsigned_less [of b, where ?'a = nat] by simp
  then have "map (\<lambda>ch. of_nat (of_char ch)) (map (\<lambda>b. char_of (unat b) :: char) bs) = (bs :: u8 list)" for bs
    by (simp add: o_def)
  then show ?thesis by (simp add: codec_ok_def demo_codec_def key_bytes_def word_of_le_bytes)
qed

lemma demo_codec_json [simp]: "oc_to_json demo_codec = Inr" "oc_from_json demo_codec = Inr"
  by (simp_all add: demo_codec_def)

definition demo_bridge :: settlement_bridge where
  "demo_bridge = \<lparr>br_market_id = MarketId 1, br_authority = 6, br_base_mint = 2, br_quote_mint = 3, br_payer = 6\<rparr>"

definition demo_edge :: edge_state where
  "demo_edge = \<lparr>es_signed_orders = [
       OrderId 11 \<mapsto> \<lparr>bo_trader_id = TraderId 7, bo_order_hash = 720244, bo_order = demo_bid, bo_signature = demo_bid_signature\<rparr>,
       OrderId 12 \<mapsto> \<lparr>bo_trader_id = TraderId 8, bo_order_hash = 435857, bo_order = demo_ask, bo_signature = demo_ask_signature\<rparr>],
     es_queued = [], es_next_settlement_id = 1\<rparr>"

definition demo_taker :: limit_order where
  "demo_taker = order_new (OrderId 11) (TraderId 7) (MarketId 1) Bid (Price 5) (Quantity 10) (OrderSequence 2)"

definition demo_fill :: fill where
  "demo_fill = fill_from_parts (OrderId 12) (OrderId 11) (TraderId 8) (TraderId 7) (Price 4) (Quantity 8)"

definition demo_request :: settlement_request where
  "demo_request = \<lparr>rq_authority = 6, rq_base_mint = 2, rq_quote_mint = 3, rq_buyer = 7, rq_seller = 8, rq_payer = 6,
     rq_args = demo_fill_args\<rparr>"

lemma demo_bridged:
  "requests_from_batch demo_env demo_bridge (batch_from_order_fills (CommandId 5) demo_taker [demo_fill])
     (signed_order_lookup demo_edge) 1 = Inr [demo_request]"
proof -
  have "bridge_market_config demo_env demo_bridge = 562575"
    by (simp add: bridge_market_config_def market_config_pda_def demo_bridge_def)
  then show ?thesis
    by (simp add: requests_from_batch_def batch_from_order_fills_def intent_from_fill_def demo_taker_def order_new_def
      demo_fill_def fill_from_parts_def request_of_intent_def demo_bridge_def signed_order_lookup_def demo_edge_def
      bid_ask_orders_def validate_order_def order_id_u64_def validate_bridge_fill_def demo_bid_def demo_ask_def
      checked_add_code demo_request_def demo_fill_args_def)
qed

lemma bridge_requests_fit_witness:
  "request_fits demo_env demo_bridge (signed_order_lookup demo_edge) 1 0 (intent_from_fill demo_taker demo_fill) demo_request"
  using bridge_requests_fit [OF demo_bridged] by (simp add: batch_from_order_fills_def)

definition demo_outbox :: "request_json outbox" where
  "demo_outbox = \<lparr>ot_statements = 0, ot_next_id = 1, ot_rows = []\<rparr>"

definition demo_queued_row :: "request_json outbox_row" where
  "demo_queued_row = \<lparr>ob_id = 1, ob_status = Pending, ob_payload = json_of_request demo_codec demo_request,
     ob_attempts = 0, ob_max_attempts = 5, ob_signature = None, ob_last_error = None\<rparr>"

definition demo_queued :: "request_json outbox" where
  "demo_queued = \<lparr>ot_statements = 1, ot_next_id = 2, ot_rows = [demo_queued_row]\<rparr>"

lemma demo_outbox_sound: "outbox_sound demo_codec demo_outbox" "outbox_ids_fresh demo_outbox"
  by (simp_all add: outbox_sound_def outbox_ids_fresh_def demo_outbox_def)

lemma demo_enqueued: "enqueue_settlement_requests demo_codec no_fault [demo_request] demo_outbox = (Inr (), demo_queued)"
  by (simp add: demo_outbox_def demo_queued_def demo_queued_row_def insert_row_def default_max_attempts_def)

lemma outbox_roundtrip_witness:
  "item_of_row demo_codec demo_queued_row =
     Inr \<lparr>oi_id = 1, oi_attempts = 0, oi_max_attempts = 5, oi_request = demo_request\<rparr>"
  using outbox_roundtrip [OF demo_codec_ok demo_outbox_sound demo_enqueued]
  by (auto simp: demo_outbox_def demo_queued_def default_max_attempts_def demo_queued_row_def)

text \<open>A chain that never confirms.\<close>

definition lost_submitter :: "nat submitter" where
  "lost_submitter plan n = (Inl (Uncertain ''no answer''), Suc n)"

definition demo_service :: "request_json settlement_world" where
  "demo_service = \<lparr>sw_edge = demo_edge, sw_outbox = Some demo_queued, sw_queued_total = 1,
     sw_submitted_total = 0, sw_failed_total = 0\<rparr>"

lemma settlements_terminate_witness:
  "\<exists>t'. sw_outbox (fst (worker_cycles demo_client (\<lambda>_. ''timeout'') demo_codec no_fault lost_submitter 5
      (demo_service, 0))) = Some t' \<and> (\<forall>r \<in> set (ot_rows t'). ob_status r \<in> {Submitted, Failed})"
proof -
  have o: "sw_outbox demo_service = Some demo_queued" by (simp add: demo_service_def)
  have "item_of_row demo_codec demo_queued_row =
      Inr \<lparr>oi_id = 1, oi_attempts = 0, oi_max_attempts = 5, oi_request = demo_request\<rparr>"
    using request_json_roundtrip [OF demo_codec_ok, of demo_request]
    by (simp add: item_of_row_def demo_queued_row_def)
  then have "row_sound demo_codec demo_queued_row"
    by (simp add: row_sound_def) (simp add: demo_queued_row_def)
  then have s: "outbox_sound demo_codec demo_queued"
    by (simp add: outbox_sound_def demo_queued_def)
  have "outbox_work demo_queued \<le> 5"
    by (simp add: outbox_work_def demo_queued_def remaining_def demo_queued_row_def)
  from settlements_terminate [OF o s this, of demo_client "\<lambda>_. ''timeout''" lost_submitter 0]
  show ?thesis by (elim exE conjE) (intro exI conjI, assumption+)
qed

lemma queued_ids_stay_fresh_witness:
  "ids_fresh (sw_edge (queue_settlement_requests demo_env demo_codec no_fault (Some demo_bridge) 5 demo_taker [demo_fill]
     (demo_service\<lparr>sw_outbox := None\<rparr>)))"
  using queued_ids_stay_fresh [of "demo_service\<lparr>sw_outbox := None\<rparr>" demo_env demo_codec no_fault "Some demo_bridge" 5
      demo_taker "[demo_fill]"]
  by (simp add: demo_service_def demo_edge_def ids_fresh_def queued_ids_def)

end
