(* ===== verification/Service_Metrics.thy ===== *)
theory Service_Metrics
  imports Prelude
begin

text \<open>
  The metrics endpoint of \<open>services/exchange-service/src/lib.rs\<close>: the record of counters that
  is answered as JSON, and its text form for Prometheus (\<open>to_prometheus_text\<close>).  \<open>scrape\<close> is what
  the other side does with that text: it reads the samples back.
\<close>

record metrics_response =
  mr_http_requests_total :: u64
  mr_ready_checks_total :: u64
  mr_snapshot_requests_total :: u64
  mr_deposits_accepted_total :: u64
  mr_orders_accepted_total :: u64
  mr_settlement_requests_queued_total :: u64
  mr_settlement_requests_submitted_total :: u64
  mr_settlement_requests_failed_total :: u64
  mr_settlement_requests_pending :: u64
  mr_api_errors_total :: u64
  mr_actor_commands_received_total :: u64
  mr_actor_commands_accepted_total :: u64
  mr_actor_commands_rejected_total :: u64
  mr_actor_journal_append_failures_total :: u64
  mr_actor_apply_after_append_failures_total :: u64

section \<open>Decimal numbers\<close>

definition digit :: "nat \<Rightarrow> char" where
  "digit n = char_of (48 + n)"

fun decimal :: "nat \<Rightarrow> string" where
  "decimal n = (if n < 10 then [digit n] else decimal (n div 10) @ [digit (n mod 10)])"

declare decimal.simps [simp del]

definition is_digit :: "char \<Rightarrow> bool" where
  "is_digit c \<longleftrightarrow> 48 \<le> (of_char c :: nat) \<and> (of_char c :: nat) \<le> 57"

definition decimal_value :: "string \<Rightarrow> nat" where
  "decimal_value ds = foldl (\<lambda>n c. 10 * n + (of_char c - 48)) 0 ds"

lemma digit_code: "n < 10 \<Longrightarrow> (of_char (digit n) :: nat) = 48 + n"
  by (simp add: digit_def of_char_of)

lemma is_digit_digit: "n < 10 \<Longrightarrow> is_digit (digit n)"
  by (simp add: is_digit_def digit_code)

lemma decimal_digits: "list_all is_digit (decimal n) \<and> decimal n \<noteq> []"
proof (induction n rule: decimal.induct)
  case (1 n)
  then show ?case by (subst (1 2) decimal.simps) (auto simp: is_digit_digit)
qed

lemma decimal_value_decimal: "decimal_value (decimal n) = n"
proof (induction n rule: decimal.induct)
  case (1 n)
  then show ?case by (subst decimal.simps) (auto simp: decimal_value_def digit_code)
qed

section \<open>The text of the metrics\<close>

text \<open>The newline character.\<close>

abbreviation newline :: char where "newline \<equiv> CHR 0x0A"

definition write_metric :: "string \<Rightarrow> string \<Rightarrow> string \<Rightarrow> string \<Rightarrow> u64 \<Rightarrow> string" where
  "write_metric output name description kind v =
     output @ ''# HELP '' @ name @ '' '' @ description @ [newline] @
     ''# TYPE '' @ name @ '' '' @ kind @ [newline] @
     name @ '' '' @ decimal (unat v) @ [newline]"

definition write_counter :: "string \<Rightarrow> string \<Rightarrow> u64 \<Rightarrow> string \<Rightarrow> string" where
  "write_counter name description v output = write_metric output name description ''counter'' v"

definition write_gauge :: "string \<Rightarrow> string \<Rightarrow> u64 \<Rightarrow> string \<Rightarrow> string" where
  "write_gauge name description v output = write_metric output name description ''gauge'' v"

definition to_prometheus_text :: "metrics_response \<Rightarrow> string" where
  "to_prometheus_text m =
     (let output = [];
          output = write_counter ''exchange_http_requests_total''
            ''Total HTTP requests handled by the exchange service.'' (mr_http_requests_total m) output;
          output = write_counter ''exchange_ready_checks_total''
            ''Total readiness checks handled by the exchange service.'' (mr_ready_checks_total m) output;
          output = write_counter ''exchange_snapshot_requests_total''
            ''Total market snapshot requests handled by the exchange service.''
            (mr_snapshot_requests_total m) output;
          output = write_counter ''exchange_deposits_accepted_total''
            ''Total deposit commands accepted by the exchange service.''
            (mr_deposits_accepted_total m) output;
          output = write_counter ''exchange_orders_accepted_total''
            ''Total order commands accepted by the exchange service.'' (mr_orders_accepted_total m) output;
          output = write_counter ''exchange_settlement_requests_queued_total''
            ''Total settlement requests queued by the exchange service.''
            (mr_settlement_requests_queued_total m) output;
          output = write_counter ''exchange_settlement_requests_submitted_total''
            ''Total settlement requests submitted by the relayer worker.''
            (mr_settlement_requests_submitted_total m) output;
          output = write_counter ''exchange_settlement_requests_failed_total''
            ''Total settlement requests failed by the relayer worker.''
            (mr_settlement_requests_failed_total m) output;
          output = write_gauge ''exchange_settlement_requests_pending''
            ''Settlement requests currently waiting in memory.''
            (mr_settlement_requests_pending m) output;
          output = write_counter ''exchange_api_errors_total''
            ''Total API errors returned by the exchange service.'' (mr_api_errors_total m) output;
          output = write_counter ''exchange_actor_commands_received_total''
            ''Total commands received by the market actor.'' (mr_actor_commands_received_total m) output;
          output = write_counter ''exchange_actor_commands_accepted_total''
            ''Total commands accepted by the market actor.'' (mr_actor_commands_accepted_total m) output;
          output = write_counter ''exchange_actor_commands_rejected_total''
            ''Total commands rejected by the market actor.'' (mr_actor_commands_rejected_total m) output;
          output = write_counter ''exchange_actor_journal_append_failures_total''
            ''Total actor journal append failures.'' (mr_actor_journal_append_failures_total m) output;
          output = write_counter ''exchange_actor_apply_after_append_failures_total''
            ''Total actor apply-after-append failures.''
            (mr_actor_apply_after_append_failures_total m) output
      in output)"

section \<open>Reading the samples back\<close>

text \<open>The lines of a text that ends with a newline.\<close>

fun lines_from :: "string \<Rightarrow> string \<Rightarrow> string list" where
  "lines_from acc [] = []"
| "lines_from acc (c # cs) = (if c = newline then acc # lines_from [] cs else lines_from (acc @ [c]) cs)"

text \<open>A line of a sample: the name, a space and the value.  Lines with \<open>#\<close> are comments.\<close>

definition scrape_line :: "string \<Rightarrow> (string \<times> nat) list" where
  "scrape_line l =
     (if l = [] \<or> hd l = CHR ''#'' then []
      else [(takeWhile (\<lambda>c. c \<noteq> CHR '' '') l, decimal_value (tl (dropWhile (\<lambda>c. c \<noteq> CHR '' '') l)))])"

definition scrape :: "string \<Rightarrow> (string \<times> nat) list" where
  "scrape text = concat (map scrape_line (lines_from [] text))"

lemma lines_from_line: "newline \<notin> set l \<Longrightarrow> lines_from acc (l @ newline # rest) = (acc @ l) # lines_from [] rest"
  by (induction l arbitrary: acc) auto

lemma decimal_no_newline: "newline \<notin> set (decimal n)"
  using decimal_digits [of n] by (auto simp: list_all_iff is_digit_def)

text \<open>The text consists of blocks, one for each metric.\<close>

definition metric_block :: "string \<Rightarrow> string \<Rightarrow> string \<Rightarrow> u64 \<Rightarrow> string" where
  "metric_block name description kind v = write_metric [] name description kind v"

lemma write_metric_block: "write_metric output name description kind v = output @ metric_block name description kind v"
  by (simp add: write_metric_def metric_block_def)

definition plain_name :: "string \<Rightarrow> bool" where
  "plain_name l \<longleftrightarrow> l \<noteq> [] \<and> hd l \<noteq> CHR ''#'' \<and> newline \<notin> set l \<and> CHR '' '' \<notin> set l"

lemma scrape_sample: "plain_name name \<Longrightarrow> scrape_line (name @ CHR '' '' # decimal n) = [(name, n)]"
  by (cases name) (auto simp: scrape_line_def plain_name_def takeWhile_append dropWhile_append decimal_value_decimal)

lemma scrape_block:
  assumes "plain_name name" and "newline \<notin> set description" and "newline \<notin> set kind"
  shows "scrape (metric_block name description kind v @ rest) = (name, unat v) # scrape rest"
proof -
  let ?description = "''# HELP '' @ name @ '' '' @ description" and ?type = "''# TYPE '' @ name @ '' '' @ kind"
    and ?sample = "name @ CHR '' '' # decimal (unat v)"
  have "metric_block name description kind v @ rest = ?description @ newline # ?type @ newline # ?sample @ newline # rest"
    by (simp add: metric_block_def write_metric_def)
  moreover have "newline \<notin> set ?description" "newline \<notin> set ?type" "newline \<notin> set ?sample"
    using assms decimal_no_newline [of "unat v"] by (auto simp: plain_name_def)
  ultimately have "lines_from [] (metric_block name description kind v @ rest) =
      ?description # ?type # ?sample # lines_from [] rest"
    by (simp only: lines_from_line append_Nil not_False_eq_True)
  moreover have "scrape_line ?description = []" "scrape_line ?type = []" by (simp_all add: scrape_line_def)
  ultimately show ?thesis using scrape_sample [OF assms(1), of "unat v"] by (simp add: scrape_def)
qed

lemma scrape_last_block:
  assumes "plain_name name" and "newline \<notin> set description" and "newline \<notin> set kind"
  shows "scrape (metric_block name description kind v) = [(name, unat v)]"
  using scrape_block [OF assms, of v "[]"] by (simp add: scrape_def)

text \<open>The metrics text can be scraped: read back as Prometheus reads it, it gives each counter of
  the JSON answer once, under its own name and with its exact value.\<close>

theorem prometheus_roundtrip:
  "scrape (to_prometheus_text m) =
    [(''exchange_http_requests_total'', unat (mr_http_requests_total m)),
     (''exchange_ready_checks_total'', unat (mr_ready_checks_total m)),
     (''exchange_snapshot_requests_total'', unat (mr_snapshot_requests_total m)),
     (''exchange_deposits_accepted_total'', unat (mr_deposits_accepted_total m)),
     (''exchange_orders_accepted_total'', unat (mr_orders_accepted_total m)),
     (''exchange_settlement_requests_queued_total'', unat (mr_settlement_requests_queued_total m)),
     (''exchange_settlement_requests_submitted_total'', unat (mr_settlement_requests_submitted_total m)),
     (''exchange_settlement_requests_failed_total'', unat (mr_settlement_requests_failed_total m)),
     (''exchange_settlement_requests_pending'', unat (mr_settlement_requests_pending m)),
     (''exchange_api_errors_total'', unat (mr_api_errors_total m)),
     (''exchange_actor_commands_received_total'', unat (mr_actor_commands_received_total m)),
     (''exchange_actor_commands_accepted_total'', unat (mr_actor_commands_accepted_total m)),
     (''exchange_actor_commands_rejected_total'', unat (mr_actor_commands_rejected_total m)),
     (''exchange_actor_journal_append_failures_total'', unat (mr_actor_journal_append_failures_total m)),
     (''exchange_actor_apply_after_append_failures_total'',
       unat (mr_actor_apply_after_append_failures_total m))]"
  unfolding to_prometheus_text_def Let_def write_counter_def write_gauge_def write_metric_block append_assoc append_Nil
  by (simp add: scrape_block scrape_last_block plain_name_def)

end
