(* ===== verification/Exchange_Service.thy ===== *)
theory Exchange_Service
  imports Settlement_Worker Runtime_Actor Service_Metrics
begin

text \<open>
  The HTTP side of \<open>services/exchange-service/src/lib.rs\<close>: every handler of the router with its
  checks in their order, the answers and the errors, and the counters.  A handler sends its
  command to the market actor (\<open>handle_command\<close>) and waits for the reply.  The decoding of JSON
  bodies is the web framework's: requests arrive as the records it produces.  Request ids only
  reach the log.
\<close>

section \<open>Errors as answers\<close>

text \<open>\<open>Display\<close> of the domain and application errors.\<close>

fun domain_error_text :: "domain_error \<Rightarrow> string" where
  "domain_error_text ZeroValue = ''value must be non-zero''"
| "domain_error_text SameMarketAssets = ''market base and quote assets must differ''"
| "domain_error_text PriceNotTickAligned = ''price is not aligned to market tick size''"
| "domain_error_text QuantityNotLotAligned = ''quantity is not aligned to market lot size''"
| "domain_error_text ArithmeticOverflow = ''arithmetic overflow''"
| "domain_error_text ArithmeticUnderflow = ''arithmetic underflow''"
| "domain_error_text FillExceedsRemainingQuantity = ''fill exceeds remaining order quantity''"
| "domain_error_text OrderAlreadyTerminal = ''order is already terminal''"
| "domain_error_text WrongOrderSide = ''order side does not match book side''"
| "domain_error_text OrderNotFound = ''order not found''"
| "domain_error_text NoMatchingOrder = ''no matching order''"
| "domain_error_text AmountConversionOverflow = ''amount conversion overflow''"
| "domain_error_text InsufficientAvailableBalance = ''insufficient available balance''"
| "domain_error_text InsufficientReservedBalance = ''insufficient reserved balance''"
| "domain_error_text SignedOrderMarketMismatch = ''signed orders must belong to the same market''"
| "domain_error_text SignedOrderWrongSide = ''signed fill requires a bid and an ask order''"
| "domain_error_text SignedOrderExpired = ''signed order is expired''"
| "domain_error_text SignedOrderSelfTrade = ''signed fill cannot settle self trade''"
| "domain_error_text SignedOrderPricesDoNotCross = ''signed order prices do not cross''"
| "domain_error_text FillPriceOutsideSignedOrder = ''fill price is outside signed order limits''"
| "domain_error_text FillQuantityExceedsSignedOrder = ''fill quantity exceeds signed order quantity''"

fun app_error_text :: "app_error \<Rightarrow> string" where
  "app_error_text (DomainError e) = domain_error_text e"
| "app_error_text DuplicateCommand = ''duplicate command''"
| "app_error_text ReplayMismatch = ''replay mismatch''"
| "app_error_text ActorClosed = ''actor closed''"
| "app_error_text JournalAppendFailed = ''journal append failed''"

definition api_error_of_domain :: "domain_error \<Rightarrow> api_error" where
  "api_error_of_domain e =
     (if e \<in> {ZeroValue, PriceNotTickAligned, QuantityNotLotAligned, SameMarketAssets,
              AmountConversionOverflow}
      then BadRequest (domain_error_text e)
      else if e \<in> {InsufficientAvailableBalance, InsufficientReservedBalance, OrderAlreadyTerminal,
                   OrderNotFound}
      then Conflict (domain_error_text e)
      else Internal ''domain error'')"

fun api_error_of_app :: "app_error \<Rightarrow> api_error" where
  "api_error_of_app (DomainError e) = api_error_of_domain e"
| "api_error_of_app DuplicateCommand = Conflict (app_error_text DuplicateCommand)"
| "api_error_of_app ActorClosed = Internal ''actor closed''"
| "api_error_of_app ReplayMismatch = Internal ''replay mismatch''"
| "api_error_of_app JournalAppendFailed = Internal ''journal append failed''"

text \<open>The status code and the message of an error answer.\<close>

fun api_error_response :: "api_error \<Rightarrow> nat \<times> string" where
  "api_error_response Unauthorized = (401, ''unauthorized'')"
| "api_error_response (BadRequest msg) = (400, msg)"
| "api_error_response (Conflict msg) = (409, msg)"
| "api_error_response (Internal msg) = (500, msg)"
| "api_error_response NotFound = (404, ''not found'')"

section \<open>State\<close>

datatype ready_boot_mode = ReadyLocal | ReadyPostgres
datatype journal_mode = JournalNoop | JournalPostgres

text \<open>The counters of \<open>ServiceMetrics\<close> that are not in \<open>settlement_world\<close>.\<close>

record service_counters =
  sm_http_requests :: u64
  sm_ready_checks :: u64
  sm_snapshot_requests :: u64
  sm_deposits_accepted :: u64
  sm_orders_accepted :: u64
  sm_api_errors :: u64

text \<open>\<open>sv_closed\<close>: the actor has left its loop, so that its mailbox is closed.\<close>

record ('k, 'j) service =
  sv_market_id :: string
  sv_boot_mode :: ready_boot_mode
  sv_journal_mode :: journal_mode
  sv_market :: market_spec
  sv_actor :: "'k actor"
  sv_closed :: bool
  sv_settlement :: "'j settlement_world"
  sv_counters :: service_counters
  sv_api_key :: "string option"
  sv_bridge :: "settlement_bridge option"

text \<open>What the handlers use of their surroundings: the journal, the derivation of addresses, and the
  database with its JSON.\<close>

record ('k, 'j) service_env =
  se_put :: "'k journal_append"
  se_env :: anchor_env
  se_codec :: "'j outbox_codec"
  se_fault :: fault

definition count :: "(service_counters \<Rightarrow> service_counters) \<Rightarrow> ('k, 'j) service \<Rightarrow> ('k, 'j) service" where
  "count f s = s\<lparr>sv_counters := f (sv_counters s)\<rparr>"

definition record_http_request :: "('k, 'j) service \<Rightarrow> ('k, 'j) service" where
  "record_http_request = count (\<lambda>m. m\<lparr>sm_http_requests := sm_http_requests m + 1\<rparr>)"

definition record_ready_check :: "('k, 'j) service \<Rightarrow> ('k, 'j) service" where
  "record_ready_check = count (\<lambda>m. m\<lparr>sm_ready_checks := sm_ready_checks m + 1\<rparr>)"

definition record_snapshot_request :: "('k, 'j) service \<Rightarrow> ('k, 'j) service" where
  "record_snapshot_request = count (\<lambda>m. m\<lparr>sm_snapshot_requests := sm_snapshot_requests m + 1\<rparr>)"

definition record_deposit_accepted :: "('k, 'j) service \<Rightarrow> ('k, 'j) service" where
  "record_deposit_accepted = count (\<lambda>m. m\<lparr>sm_deposits_accepted := sm_deposits_accepted m + 1\<rparr>)"

definition record_order_accepted :: "('k, 'j) service \<Rightarrow> ('k, 'j) service" where
  "record_order_accepted = count (\<lambda>m. m\<lparr>sm_orders_accepted := sm_orders_accepted m + 1\<rparr>)"

definition count_api_error :: "('k, 'j) service \<Rightarrow> ('k, 'j) service" where
  "count_api_error = count (\<lambda>m. m\<lparr>sm_api_errors := sm_api_errors m + 1\<rparr>)"

section \<open>Handlers\<close>

type_synonym ('k, 'j, 'a) handler = "('k, 'j) service \<Rightarrow> (api_error, 'a) result \<times> ('k, 'j) service"

definition and_handle ::
  "('k, 'j, 'a) handler \<Rightarrow> ('a \<Rightarrow> ('k, 'j, 'b) handler) \<Rightarrow> ('k, 'j, 'b) handler" where
  "and_handle h f s = (case h s of (Inl e, s1) \<Rightarrow> (Inl e, s1) | (Inr x, s1) \<Rightarrow> f x s1)"

text \<open>\<open>.map_err(|error| record_api_error(error, ..))\<close>\<close>

definition record_api_error :: "(api_error, 'a) result \<Rightarrow> ('k, 'j, 'a) handler" where
  "record_api_error r s = (case r of Inl e \<Rightarrow> (Inl e, count_api_error s) | Inr x \<Rightarrow> (Inr x, s))"

definition authorize_api_key :: "string option \<Rightarrow> ('k, 'j) service \<Rightarrow> (api_error, unit) result" where
  "authorize_api_key header s =
     (case sv_api_key s of
        None \<Rightarrow> Inr ()
      | Some expected \<Rightarrow> if header = Some expected then Inr () else Inl Unauthorized)"

definition authorized :: "string option \<Rightarrow> ('k, 'j, unit) handler" where
  "authorized header s = record_api_error (authorize_api_key header s) s"

text \<open>A call through the handle of the actor: the command is sent, handled and answered.\<close>

definition send_command ::
  "'k journal_append \<Rightarrow> market_command \<Rightarrow> ('k, 'j) service
    \<Rightarrow> (app_error, market_reply) result \<times> ('k, 'j) service" where
  "send_command put cmd s =
     (if sv_closed s then (Inl ActorClosed, s)
      else
        (case handle_command put cmd
            ((sv_actor s)\<lparr>act_metrics := record_command_received (act_metrics (sv_actor s))\<rparr>) of
           ((reply, stop), a) \<Rightarrow> (reply, s\<lparr>sv_actor := a, sv_closed := stop\<rparr>)))"

definition call_actor :: "('k, 'j) service_env \<Rightarrow> market_command \<Rightarrow> ('k, 'j, market_reply) handler" where
  "call_actor E cmd s =
     (case send_command (se_put E) cmd s of
        (reply, s1) \<Rightarrow> record_api_error (map_err api_error_of_app reply) s1)"

definition api_command_id :: "u128 \<Rightarrow> (api_error, command_id) result" where
  "api_command_id v = map_err api_error_of_app (command_id_new v)"

definition api_trader_id :: "u64 \<Rightarrow> (api_error, trader_id) result" where
  "api_trader_id v = map_err api_error_of_domain (trader_id_new v)"

definition api_asset_id :: "u32 \<Rightarrow> (api_error, asset_id) result" where
  "api_asset_id v = map_err api_error_of_domain (asset_id_new v)"

definition api_order_id :: "u128 \<Rightarrow> (api_error, order_id) result" where
  "api_order_id v = map_err api_error_of_domain (order_id_new v)"

datatype order_side_dto = DtoBid | DtoAsk

fun api_side :: "order_side_dto \<Rightarrow> (api_error, side) result" where
  "api_side DtoBid = Inr Bid"
| "api_side DtoAsk = Inr Ask"

fun signed_order_side :: "order_side_dto \<Rightarrow> signed_side" where
  "signed_order_side DtoBid = SignedBid"
| "signed_order_side DtoAsk = SignedAsk"

section \<open>Deposits and orders\<close>

record deposit_request =
  dq_command_id :: u128
  dq_trader_id :: u64
  dq_asset_id :: u32
  dq_amount :: u64

record order_request =
  oq_command_id :: u128
  oq_order_id :: u128
  oq_trader_id :: u64
  oq_market_id :: u32
  oq_side :: order_side_dto
  oq_price :: u64
  oq_quantity :: u64
  oq_sequence :: u64

record fill_response =
  fr_maker_order_id :: u128
  fr_taker_order_id :: u128
  fr_price :: u64
  fr_quantity :: u64

definition http_credit_deposit ::
  "('k, 'j) service_env \<Rightarrow> string \<Rightarrow> string option \<Rightarrow> deposit_request \<Rightarrow> ('k, 'j, bool) handler" where
  "http_credit_deposit E rid header q =
     and_handle (authorized header) (\<lambda>_.
     and_handle (record_api_error (api_command_id (dq_command_id q))) (\<lambda>command.
     and_handle (record_api_error (api_trader_id (dq_trader_id q))) (\<lambda>trader.
     and_handle (record_api_error (api_asset_id (dq_asset_id q))) (\<lambda>asset.
     and_handle (call_actor E (CmdCreditDeposit (Some rid) command trader asset
         (BalanceAmount (dq_amount q)))) (\<lambda>reply s.
       case reply of
         ReplyDepositCredited \<Rightarrow> (Inr True, record_deposit_accepted s)
       | _ \<Rightarrow> (Inl (Internal ''unexpected deposit reply''), s))))))"

text \<open>The checks of an order before its command id is looked at.\<close>

definition order_of_request :: "market_spec \<Rightarrow> order_request \<Rightarrow> (api_error, limit_order) result" where
  "order_of_request market q =
     and_then (api_order_id (oq_order_id q)) (\<lambda>ident.
     and_then (api_trader_id (oq_trader_id q)) (\<lambda>trader.
     and_then (map_err api_error_of_domain (market_id_new (oq_market_id q))) (\<lambda>mid.
     and_then (api_side (oq_side q)) (\<lambda>sd.
     and_then (map_err api_error_of_domain (price_new (oq_price q))) (\<lambda>p.
     and_then (map_err api_error_of_domain (quantity_new (oq_quantity q))) (\<lambda>n.
     and_then (map_err api_error_of_domain (order_sequence_new (oq_sequence q))) (\<lambda>sq.
     let x = order_new ident trader mid sd p n sq in
     and_then (map_err api_error_of_domain (validate_price market (order_price x))) (\<lambda>_.
     and_then (map_err api_error_of_domain (validate_quantity market (order_original x))) (\<lambda>_.
       Inr x)))))))))"

definition fill_response_of :: "fill \<Rightarrow> fill_response" where
  "fill_response_of f =
     \<lparr>fr_maker_order_id = order_id_get (fill_maker_order f),
      fr_taker_order_id = order_id_get (fill_taker_order f),
      fr_price = price_get (fill_price f), fr_quantity = quantity_get (fill_quantity f)\<rparr>"

definition http_place_order ::
  "('k, 'j) service_env \<Rightarrow> string \<Rightarrow> string option \<Rightarrow> order_request
    \<Rightarrow> ('k, 'j, fill_response list) handler" where
  "http_place_order E rid header q =
     and_handle (authorized header) (\<lambda>_.
     and_handle (\<lambda>s. record_api_error (order_of_request (sv_market s) q) s) (\<lambda>x.
     and_handle (record_api_error (api_command_id (oq_command_id q))) (\<lambda>command.
     and_handle (call_actor E (CmdPlaceOrder (Some rid) command x)) (\<lambda>reply s.
       case reply of
         ReplyOrderPlaced fills \<Rightarrow>
           let s1 = record_order_accepted s;
               s2 = s1\<lparr>sv_settlement := queue_settlement_requests (se_env E) (se_codec E) (se_fault E)
                 (sv_bridge s1) (oq_command_id q) x fills (sv_settlement s1)\<rparr> in
           (Inr (map fill_response_of fills), s2)
       | _ \<Rightarrow> (Inl (Internal ''unexpected order reply''), s)))))"

section \<open>Signed orders and the outbox view\<close>

record signed_order_request =
  sq_order_id :: u128
  sq_trader_id :: u64
  sq_order_hash :: "u8 list"
  sq_trader_pubkey :: "u8 list"
  sq_market_config :: "u8 list"
  sq_side :: order_side_dto
  sq_price :: u64
  sq_quantity :: u64
  sq_nonce :: u64
  sq_expiry_slot :: u64
  sq_signature :: "u8 list"

definition api_bytes32 :: "u8 list \<Rightarrow> string \<Rightarrow> (api_error, bytes32) result" where
  "api_bytes32 v field =
     (if length v = 32 then Inr (word_of_le v) else Inl (BadRequest (field @ '' must contain 32 bytes'')))"

definition api_bytes64 :: "u8 list \<Rightarrow> string \<Rightarrow> (api_error, bytes64) result" where
  "api_bytes64 v field =
     (if length v = 64 then Inr (word_of_le v) else Inl (BadRequest (field @ '' must contain 64 bytes'')))"

definition pubkey_from_bytes :: "u8 list \<Rightarrow> string \<Rightarrow> (api_error, pubkey) result" where
  "pubkey_from_bytes v field = api_bytes32 v field"

definition signed_order_of_request ::
  "signed_order_request \<Rightarrow> (api_error, order_id \<times> bridge_signed_order) result" where
  "signed_order_of_request q =
     and_then (api_order_id (sq_order_id q)) (\<lambda>ident.
     and_then (api_trader_id (sq_trader_id q)) (\<lambda>trader.
     and_then (ok_or (order_id_u64 ident) (BadRequest ''order_id exceeds u64'')) (\<lambda>order_id.
     and_then (api_bytes32 (sq_order_hash q) ''order_hash'') (\<lambda>h.
     and_then (pubkey_from_bytes (sq_trader_pubkey q) ''trader_pubkey'') (\<lambda>key.
     and_then (pubkey_from_bytes (sq_market_config q) ''market_config'') (\<lambda>market.
     and_then (api_bytes64 (sq_signature q) ''signature'') (\<lambda>signature.
       Inr (ident,
         \<lparr>bo_trader_id = trader, bo_order_hash = h,
          bo_order = \<lparr>sp_order_id = order_id, sp_market = market, sp_trader = key,
            sp_side = signed_order_side (sq_side q), sp_price = sq_price q, sp_quantity = sq_quantity q,
            sp_nonce = sq_nonce q, sp_expiry_slot = sq_expiry_slot q\<rparr>,
          bo_signature = signature\<rparr>))))))))"

text \<open>The answer says whether an order with this id was replaced.\<close>

definition http_register_signed_order ::
  "string option \<Rightarrow> signed_order_request \<Rightarrow> ('k, 'j, bool) handler" where
  "http_register_signed_order header q =
     and_handle (authorized header) (\<lambda>_.
     and_handle (record_api_error (signed_order_of_request q)) (\<lambda>(ident, signed) s.
       case store_signed_order ident signed (sw_edge (sv_settlement s)) of
         (replaced, edge1) \<Rightarrow> (Inr replaced, s\<lparr>sv_settlement := (sv_settlement s)\<lparr>sw_edge := edge1\<rparr>\<rparr>)))"

text \<open>A failing count of the database is answered as zero.\<close>

definition pending_settlement_count :: "fault \<Rightarrow> ('k, 'j) service \<Rightarrow> nat \<times> ('k, 'j) service" where
  "pending_settlement_count fault s =
     (case sw_outbox (sv_settlement s) of
        Some t \<Rightarrow>
          (case settlement_pending_count fault t of
             (r, t1) \<Rightarrow>
               (case r of Inr n \<Rightarrow> n | Inl _ \<Rightarrow> 0,
                s\<lparr>sv_settlement := (sv_settlement s)\<lparr>sw_outbox := Some t1\<rparr>\<rparr>))
      | None \<Rightarrow> (queued_settlement_count (sw_edge (sv_settlement s)), s))"

definition settlement_outbox_view_limit :: int where "settlement_outbox_view_limit = 50"

definition list_settlement_outbox ::
  "('k, 'j) service_env \<Rightarrow> string option \<Rightarrow> ('k, 'j, outbox_view_row list) handler" where
  "list_settlement_outbox E header =
     and_handle (authorized header) (\<lambda>_ s.
       case sw_outbox (sv_settlement s) of
         None \<Rightarrow> (Inr [], s)
       | Some t \<Rightarrow>
           (case recent_settlement_outbox (se_fault E) settlement_outbox_view_limit t of
              (r, t1) \<Rightarrow>
                record_api_error (map_err (\<lambda>_. Internal ''settlement outbox list failed'') r)
                  (s\<lparr>sv_settlement := (sv_settlement s)\<lparr>sw_outbox := Some t1\<rparr>\<rparr>)))"

section \<open>Readiness, snapshots and metrics\<close>

definition actor_snapshot :: "('k, 'j) service_env \<Rightarrow> string \<Rightarrow> ('k, 'j, nat) handler" where
  "actor_snapshot E rid s =
     (case send_command (se_put E) (CmdSnapshot (Some rid)) s of
        (Inr (ReplySnapshot n), s1) \<Rightarrow> (Inr n, s1)
      | (Inr _, s1) \<Rightarrow> (Inl (Internal ''unexpected snapshot reply''), s1)
      | (Inl e, s1) \<Rightarrow> (Inl (api_error_of_app e), s1))"

record ready_response =
  rr_status :: string
  rr_market_id :: string
  rr_boot_mode :: ready_boot_mode
  rr_journal_mode :: journal_mode
  rr_event_count :: nat

definition http_ready :: "('k, 'j) service_env \<Rightarrow> string \<Rightarrow> ('k, 'j, ready_response) handler" where
  "http_ready E rid s =
     and_handle (\<lambda>s. case actor_snapshot E rid s of (r, s1) \<Rightarrow> record_api_error r s1) (\<lambda>n s1.
       (Inr \<lparr>rr_status = ''ready'', rr_market_id = sv_market_id s1, rr_boot_mode = sv_boot_mode s1,
             rr_journal_mode = sv_journal_mode s1, rr_event_count = n\<rparr>, s1)) (record_ready_check s)"

definition http_snapshot :: "('k, 'j) service_env \<Rightarrow> string \<Rightarrow> string \<Rightarrow> ('k, 'j, string \<times> nat) handler" where
  "http_snapshot E rid market s =
     (let s1 = record_snapshot_request s in
      if market \<noteq> sv_market_id s1 then (Inl NotFound, count_api_error s1)
      else
        and_handle (\<lambda>s. case actor_snapshot E rid s of (r, s1) \<Rightarrow> record_api_error r s1)
          (\<lambda>n s. (Inr (market, n), s)) s1)"

definition metrics_snapshot :: "('k, 'j) service \<Rightarrow> nat \<Rightarrow> metrics_response" where
  "metrics_snapshot s pending =
     (let c = sv_counters s; w = sv_settlement s; m = act_metrics (sv_actor s) in
      \<lparr>mr_http_requests_total = sm_http_requests c, mr_ready_checks_total = sm_ready_checks c,
       mr_snapshot_requests_total = sm_snapshot_requests c,
       mr_deposits_accepted_total = sm_deposits_accepted c, mr_orders_accepted_total = sm_orders_accepted c,
       mr_settlement_requests_queued_total = sw_queued_total w,
       mr_settlement_requests_submitted_total = sw_submitted_total w,
       mr_settlement_requests_failed_total = sw_failed_total w,
       mr_settlement_requests_pending = (if pending < 2 ^ 64 then of_nat pending else - 1),
       mr_api_errors_total = sm_api_errors c,
       mr_actor_commands_received_total = commands_received m,
       mr_actor_commands_accepted_total = commands_accepted m,
       mr_actor_commands_rejected_total = commands_rejected m,
       mr_actor_journal_append_failures_total = append_failures m,
       mr_actor_apply_after_append_failures_total = apply_after_append_failures m\<rparr>)"

text \<open>The arguments of \<open>snapshot\<close> are evaluated in order: the counters of the actor are read before
  the count of the pending settlements, which does not touch them.\<close>

definition http_metrics :: "('k, 'j) service_env \<Rightarrow> ('k, 'j) service \<Rightarrow> metrics_response \<times> ('k, 'j) service" where
  "http_metrics E s = (case pending_settlement_count (se_fault E) s of (n, s1) \<Rightarrow> (metrics_snapshot s1 n, s1))"

section \<open>The router\<close>

text \<open>
  A request of the model has passed the extractors of the web framework: a body that is not the JSON
  of its type is answered by the framework before any handler runs, and is not modelled.
\<close>

datatype http_request =
    GetHealth
  | GetReady
  | GetMetrics
  | GetMetricsJson
  | PostDeposits deposit_request
  | PostOrders order_request
  | PostSignedOrders signed_order_request
  | GetSettlementsPending
  | GetSettlementsOutbox
  | GetSnapshot string

datatype http_response =
    HealthOk
  | ReadyOk ready_response
  | MetricsText string
  | MetricsJson metrics_response
  | DepositAccepted bool
  | OrderAccepted "fill_response list"
  | SignedOrderAccepted bool
  | PendingSettlements nat
  | OutboxRows "outbox_view_row list"
  | SnapshotOk "string \<times> nat"
  | ErrorAnswer api_error

definition answer ::
  "('a \<Rightarrow> http_response) \<Rightarrow> (api_error, 'a) result \<times> ('k, 'j) service \<Rightarrow> http_response \<times> ('k, 'j) service" where
  "answer f out = (case out of (Inl e, s) \<Rightarrow> (ErrorAnswer e, s) | (Inr x, s) \<Rightarrow> (f x, s))"

definition route ::
  "('k, 'j) service_env \<Rightarrow> string \<Rightarrow> string option \<Rightarrow> http_request \<Rightarrow> ('k, 'j) service
    \<Rightarrow> http_response \<times> ('k, 'j) service" where
  "route E rid header req s =
     (case req of
        GetHealth \<Rightarrow> (HealthOk, s)
      | GetReady \<Rightarrow> answer ReadyOk (http_ready E rid s)
      | GetMetrics \<Rightarrow> (case http_metrics E s of (m, s1) \<Rightarrow> (MetricsText (to_prometheus_text m), s1))
      | GetMetricsJson \<Rightarrow> (case http_metrics E s of (m, s1) \<Rightarrow> (MetricsJson m, s1))
      | PostDeposits q \<Rightarrow> answer DepositAccepted (http_credit_deposit E rid header q s)
      | PostOrders q \<Rightarrow> answer OrderAccepted (http_place_order E rid header q s)
      | PostSignedOrders q \<Rightarrow> answer SignedOrderAccepted (http_register_signed_order header q s)
      | GetSettlementsPending \<Rightarrow>
          (case pending_settlement_count (se_fault E) s of (n, s1) \<Rightarrow> (PendingSettlements n, s1))
      | GetSettlementsOutbox \<Rightarrow> answer OutboxRows (list_settlement_outbox E header s)
      | GetSnapshot market \<Rightarrow> answer SnapshotOk (http_snapshot E rid market s))"

text \<open>The middleware counts the request, then the route handles it.\<close>

definition handle_request ::
  "('k, 'j) service_env \<Rightarrow> string \<Rightarrow> string option \<Rightarrow> http_request \<Rightarrow> ('k, 'j) service
    \<Rightarrow> http_response \<times> ('k, 'j) service" where
  "handle_request E rid header req s = route E rid header req (record_http_request s)"

text \<open>Requests one after the other: each command of a request is handled before the next arrives.\<close>

fun serve ::
  "('k, 'j) service_env \<Rightarrow> (string \<times> string option \<times> http_request) list \<Rightarrow> ('k, 'j) service
    \<Rightarrow> http_response list \<times> ('k, 'j) service" where
  "serve E [] s = ([], s)"
| "serve E ((rid, header, req) # reqs) s =
     (case handle_request E rid header req s of
        (x, s1) \<Rightarrow> (case serve E reqs s1 of (xs, s2) \<Rightarrow> (x # xs, s2)))"

end
