(* ===== verification/Service_Boot.thy ===== *)
theory Service_Boot
  imports Exchange_Service
begin

text \<open>
  Start of \<open>services/exchange-service/src/lib.rs\<close>: the configuration from environment variables,
  and the two ways to build the service, in memory and on the database, where the journal is
  replayed.  The texts of keys are parsed by the SDK, a parameter here; the listener and its
  address are left out.
\<close>

section \<open>Environment variables\<close>

datatype startup_error =
    Config string
  | PersistenceStartup persistence_error
  | ApplicationStartup app_error

text \<open>The environment, and the parsers of the SDK with the text of their errors.\<close>

record boot_env =
  be_var :: "string \<Rightarrow> string option"
  be_pubkey :: "string \<Rightarrow> (string, pubkey) result"
  be_keypair :: "string \<Rightarrow> (string, keypair) result"

text \<open>\<open>str::parse\<close> of an unsigned integer below \<open>limit\<close>: an optional plus sign and digits.\<close>

fun parse_digits :: "nat \<Rightarrow> nat \<Rightarrow> string \<Rightarrow> (string, nat) result" where
  "parse_digits limit n [] = Inr n"
| "parse_digits limit n (c # cs) =
     (if \<not> is_digit c then Inl ''invalid digit found in string''
      else if limit \<le> 10 * n + (of_char c - 48) then Inl ''number too large to fit in target type''
      else parse_digits limit (10 * n + (of_char c - 48)) cs)"

definition parse_unsigned :: "nat \<Rightarrow> string \<Rightarrow> (string, nat) result" where
  "parse_unsigned limit l =
     (if l = [] then Inl ''cannot parse integer from empty string''
      else if l = ''+'' then Inl ''invalid digit found in string''
      else parse_digits limit 0 (if hd l = CHR ''+'' then tl l else l))"

definition env_flag :: "string option \<Rightarrow> (startup_error, bool) result" where
  "env_flag v =
     (let l = (case v of None \<Rightarrow> [] | Some l \<Rightarrow> l) in
      if l \<in> {[], ''0'', ''false'', ''False'', ''FALSE''} then Inr False
      else if l \<in> {''1'', ''true'', ''True'', ''TRUE''} then Inr True
      else Inl (Config (''invalid EXCHANGE_RELAYER_ENABLED: '' @ l)))"

definition required_env :: "boot_env \<Rightarrow> string \<Rightarrow> (startup_error, string) result" where
  "required_env B name =
     (case be_var B name of
        Some v \<Rightarrow> if v = [] then Inl (Config (name @ '' is required'')) else Inr v
      | None \<Rightarrow> Inl (Config (name @ '' is required'')))"

definition invalid_env :: "string \<Rightarrow> string \<Rightarrow> startup_error" where
  "invalid_env name e = Config (''invalid '' @ name @ '': '' @ e)"

definition parse_market_id_env :: "boot_env \<Rightarrow> string \<Rightarrow> (startup_error, market_id) result" where
  "parse_market_id_env B name =
     and_then (required_env B name) (\<lambda>v.
     and_then (map_err (invalid_env name) (parse_unsigned (2 ^ 32) v)) (\<lambda>n.
       map_err (\<lambda>e. invalid_env name (domain_error_text e)) (market_id_new (of_nat n))))"

definition parse_pubkey_env :: "boot_env \<Rightarrow> string \<Rightarrow> (startup_error, pubkey) result" where
  "parse_pubkey_env B name =
     and_then (required_env B name) (\<lambda>v. map_err (invalid_env name) (be_pubkey B v))"

definition parse_interval_ms :: "string \<Rightarrow> (startup_error, u64) result" where
  "parse_interval_ms v =
     (case parse_unsigned (2 ^ 64) v of
        Inl e \<Rightarrow> Inl (invalid_env ''EXCHANGE_RELAYER_INTERVAL_MS'' e)
      | Inr n \<Rightarrow> Inr (of_nat n))"

definition validate_keypair :: "boot_env \<Rightarrow> string \<Rightarrow> string \<Rightarrow> (startup_error, unit) result" where
  "validate_keypair B v name =
     (case be_keypair B v of Inl e \<Rightarrow> Inl (invalid_env name e) | Inr _ \<Rightarrow> Inr ())"

section \<open>Configuration\<close>

record relayer_worker_config =
  rc_bridge :: settlement_bridge
  rc_rpc_url :: string
  rc_authority_keypair :: string
  rc_payer_keypair :: string
  rc_interval_ms :: u64

datatype relayer_boot_config = RelayerDisabled | RelayerEnabled relayer_worker_config

definition default_relayer_interval_ms :: u64 where "default_relayer_interval_ms = 1000"

definition relayer_config_from_env :: "boot_env \<Rightarrow> (startup_error, relayer_boot_config) result" where
  "relayer_config_from_env B =
     and_then (env_flag (be_var B ''EXCHANGE_RELAYER_ENABLED'')) (\<lambda>enabled.
     if \<not> enabled then Inr RelayerDisabled
     else
       and_then (required_env B ''EXCHANGE_SOLANA_RPC_URL'') (\<lambda>url.
       and_then (parse_market_id_env B ''EXCHANGE_RELAYER_MARKET_ID'') (\<lambda>market.
       and_then (parse_pubkey_env B ''EXCHANGE_RELAYER_SETTLEMENT_AUTHORITY'') (\<lambda>authority.
       and_then (parse_pubkey_env B ''EXCHANGE_RELAYER_BASE_MINT'') (\<lambda>base.
       and_then (parse_pubkey_env B ''EXCHANGE_RELAYER_QUOTE_MINT'') (\<lambda>quote.
       and_then (parse_pubkey_env B ''EXCHANGE_RELAYER_PAYER'') (\<lambda>payer.
       and_then (required_env B ''EXCHANGE_RELAYER_SETTLEMENT_AUTHORITY_KEYPAIR'') (\<lambda>authority_key.
       and_then (required_env B ''EXCHANGE_RELAYER_PAYER_KEYPAIR'') (\<lambda>payer_key.
       and_then (validate_keypair B authority_key ''EXCHANGE_RELAYER_SETTLEMENT_AUTHORITY_KEYPAIR'') (\<lambda>_.
       and_then (validate_keypair B payer_key ''EXCHANGE_RELAYER_PAYER_KEYPAIR'') (\<lambda>_.
       and_then (case be_var B ''EXCHANGE_RELAYER_INTERVAL_MS'' of
                   None \<Rightarrow> Inr default_relayer_interval_ms
                 | Some v \<Rightarrow> parse_interval_ms v) (\<lambda>interval.
         Inr (RelayerEnabled
           \<lparr>rc_bridge = \<lparr>br_market_id = market, br_authority = authority, br_base_mint = base,
              br_quote_mint = quote, br_payer = payer\<rparr>,
            rc_rpc_url = url, rc_authority_keypair = authority_key, rc_payer_keypair = payer_key,
            rc_interval_ms = interval\<rparr>)))))))))))))"

datatype boot_mode = BootLocal | BootPostgres

definition boot_mode_parse :: "string \<Rightarrow> (startup_error, boot_mode) result" where
  "boot_mode_parse v =
     (if v = [] \<or> v = ''local'' then Inr BootLocal
      else if v = ''postgres'' then Inr BootPostgres
      else Inl (Config (''unsupported EXCHANGE_BOOT_MODE: '' @ v)))"

record boot_config =
  bc_mode :: boot_mode
  bc_database_url :: "string option"
  bc_api_key :: "string option"
  bc_relayer :: relayer_boot_config

definition boot_config_from_values ::
  "string option \<Rightarrow> string option \<Rightarrow> string option \<Rightarrow> (startup_error, boot_config) result" where
  "boot_config_from_values mode_value database_url api_key =
     and_then (case mode_value of None \<Rightarrow> Inr BootLocal | Some v \<Rightarrow> boot_mode_parse v) (\<lambda>mode.
     if mode = BootPostgres \<and> database_url = None then Inl (Config ''DATABASE_URL is required'')
     else Inr \<lparr>bc_mode = mode, bc_database_url = database_url,
            bc_api_key = (case api_key of Some v \<Rightarrow> if v = [] then None else Some v | None \<Rightarrow> None),
            bc_relayer = RelayerDisabled\<rparr>)"

definition boot_config_from_env :: "boot_env \<Rightarrow> (startup_error, boot_config) result" where
  "boot_config_from_env B =
     and_then (boot_config_from_values (be_var B ''EXCHANGE_BOOT_MODE'') (be_var B ''DATABASE_URL'')
       (be_var B ''EXCHANGE_API_KEY'')) (\<lambda>config.
     and_then (relayer_config_from_env B) (\<lambda>relayer.
       Inr (config\<lparr>bc_relayer := relayer\<rparr>)))"

section \<open>Building the service\<close>

definition default_market :: market_spec where
  "default_market = projr (market_spec_new (projr (asset_id_new 1)) (projr (asset_id_new 2))
     (projr (non_zero_new TickSize 1)) (projr (non_zero_new LotSize 1)))"

definition counters_default :: service_counters where
  "counters_default = \<lparr>sm_http_requests = 0, sm_ready_checks = 0, sm_snapshot_requests = 0,
     sm_deposits_accepted = 0, sm_orders_accepted = 0, sm_api_errors = 0\<rparr>"

definition app_with_settlement ::
  "string \<Rightarrow> ready_boot_mode \<Rightarrow> journal_mode \<Rightarrow> market_spec \<Rightarrow> 'k actor \<Rightarrow> string option
    \<Rightarrow> settlement_bridge option \<Rightarrow> 'j outbox option \<Rightarrow> ('k, 'j) service" where
  "app_with_settlement market_id mode journal market actor api_key bridge outbox =
     \<lparr>sv_market_id = market_id, sv_boot_mode = mode, sv_journal_mode = journal, sv_market = market,
      sv_actor = actor, sv_closed = False,
      sv_settlement = \<lparr>sw_edge = edge_default, sw_outbox = outbox, sw_queued_total = 0,
        sw_submitted_total = 0, sw_failed_total = 0\<rparr>,
      sv_counters = counters_default, sv_api_key = api_key, sv_bridge = bridge\<rparr>"

text \<open>With a relayer its market is the one settlements are bridged for.\<close>

definition app_with_relayer ::
  "string \<Rightarrow> ready_boot_mode \<Rightarrow> journal_mode \<Rightarrow> market_spec \<Rightarrow> 'k actor \<Rightarrow> string option
    \<Rightarrow> relayer_boot_config \<Rightarrow> 'j outbox option \<Rightarrow> ('k, 'j) service" where
  "app_with_relayer market_id mode journal market actor api_key relayer outbox =
     app_with_settlement market_id mode journal market actor api_key
       (case relayer of RelayerDisabled \<Rightarrow> None | RelayerEnabled c \<Rightarrow> Some (rc_bridge c)) outbox"

text \<open>The signers of the worker, which does not start when a key is refused.\<close>

definition worker_signers :: "boot_env \<Rightarrow> relayer_boot_config \<Rightarrow> keypair list option" where
  "worker_signers B relayer =
     (case relayer of
        RelayerDisabled \<Rightarrow> None
      | RelayerEnabled c \<Rightarrow>
          (case be_keypair B (rc_authority_keypair c) of
             Inl _ \<Rightarrow> None
           | Inr authority \<Rightarrow>
               (case be_keypair B (rc_payer_keypair c) of
                  Inl _ \<Rightarrow> None
                | Inr payer \<Rightarrow> Some [authority, payer])))"

definition market_sol_usdc :: string where "market_sol_usdc = ''SOL-USDC''"

definition app_local :: "string option \<Rightarrow> relayer_boot_config \<Rightarrow> (unit, 'j) service" where
  "app_local api_key relayer =
     app_with_relayer market_sol_usdc ReadyLocal JournalNoop default_market
       (spawn_from_app (app_new default_market) ()) api_key relayer None"

text \<open>The database holds the rows of the journal and the outbox.  \<open>db_fault\<close> is the failure of the
  connection, the migrations or the query, if there is one; \<open>db_faults\<close> are those of later appends.\<close>

record ('r, 'j) database =
  db_fault :: "string option"
  db_rows :: "'r event_record list"
  db_faults :: "string option list"
  db_outbox :: "'j outbox"

definition app_with_postgres ::
  "'r serde \<Rightarrow> ('r, 'j) database \<Rightarrow> string option \<Rightarrow> relayer_boot_config
    \<Rightarrow> (startup_error, ('r pg_journal, 'j) service) result" where
  "app_with_postgres S db api_key relayer =
     (case db_fault db of
        Some msg \<Rightarrow> Inl (PersistenceStartup (Sql msg))
      | None \<Rightarrow>
          and_then (map_err PersistenceStartup (journal_read_all S (db_rows db))) (\<lambda>events.
          and_then (map_err ApplicationStartup (replay default_market events)) (\<lambda>exchange.
            Inr (app_with_relayer market_sol_usdc ReadyPostgres JournalPostgres default_market
              (spawn_from_app exchange \<lparr>pg_rows = db_rows db, pg_faults = db_faults db\<rparr>)
              api_key relayer (Some (db_outbox db))))))"

lemma default_market_new:
  "market_spec_new (AssetId 1) (AssetId 2) (TickSize 1) (LotSize 1) = Inr default_market"
  by (simp add: default_market_def asset_id_new_def non_zero_new_def
      market_spec_new_def)

section \<open>Reading a configuration back\<close>

lemma parse_digits_append:
  "parse_digits limit n (xs @ ys) = and_then (parse_digits limit n xs) (\<lambda>m. parse_digits limit m ys)"
  by (induction xs arbitrary: n) auto

lemma parse_digits_decimal: "n < limit \<Longrightarrow> parse_digits limit 0 (decimal n) = Inr n"
proof (induction n rule: decimal.induct)
  case (1 n)
  show ?case
  proof (cases "n < 10")
    case True
    with 1 show ?thesis by (subst decimal.simps) (simp add: is_digit_digit digit_code)
  next
    case False
    with 1 have "parse_digits limit 0 (decimal (n div 10)) = Inr (n div 10)" by simp
    with False 1(2) show ?thesis
      by (subst decimal.simps) (simp add: parse_digits_append is_digit_digit digit_code)
  qed
qed

lemma parse_unsigned_decimal: "n < limit \<Longrightarrow> parse_unsigned limit (decimal n) = Inr n"
proof -
  assume n: "n < limit"
  have "is_digit (hd (decimal n))" "decimal n \<noteq> []" using decimal_digits [of n] by (auto simp: list_all_iff)
  moreover have "\<not> is_digit CHR ''+''" by (simp add: is_digit_def)
  ultimately have "hd (decimal n) \<noteq> CHR ''+''" "decimal n \<noteq> ''+''" by (metis, metis list.sel(1))
  then show ?thesis
    using n decimal_digits [of n] parse_digits_decimal [OF n] by (simp add: parse_unsigned_def)
qed

text \<open>The environment that a deployment sets up for a configuration of the relayer.\<close>

definition relayer_env :: "(pubkey \<Rightarrow> string) \<Rightarrow> relayer_worker_config \<Rightarrow> string \<Rightarrow> string option" where
  "relayer_env key_text c =
     [''EXCHANGE_RELAYER_ENABLED'' \<mapsto> ''true'',
      ''EXCHANGE_SOLANA_RPC_URL'' \<mapsto> rc_rpc_url c,
      ''EXCHANGE_RELAYER_MARKET_ID'' \<mapsto> decimal (unat (market_id_get (br_market_id (rc_bridge c)))),
      ''EXCHANGE_RELAYER_SETTLEMENT_AUTHORITY'' \<mapsto> key_text (br_authority (rc_bridge c)),
      ''EXCHANGE_RELAYER_BASE_MINT'' \<mapsto> key_text (br_base_mint (rc_bridge c)),
      ''EXCHANGE_RELAYER_QUOTE_MINT'' \<mapsto> key_text (br_quote_mint (rc_bridge c)),
      ''EXCHANGE_RELAYER_PAYER'' \<mapsto> key_text (br_payer (rc_bridge c)),
      ''EXCHANGE_RELAYER_SETTLEMENT_AUTHORITY_KEYPAIR'' \<mapsto> rc_authority_keypair c,
      ''EXCHANGE_RELAYER_PAYER_KEYPAIR'' \<mapsto> rc_payer_keypair c,
      ''EXCHANGE_RELAYER_INTERVAL_MS'' \<mapsto> decimal (unat (rc_interval_ms c))]"

lemma relayer_config_roundtrip:
  assumes "be_var B = relayer_env key_text c"
    and keys: "\<And>k. be_pubkey B (key_text k) = Inr k \<and> key_text k \<noteq> []"
    and "be_keypair B (rc_authority_keypair c) = Inr ka" and "be_keypair B (rc_payer_keypair c) = Inr kp"
    and "rc_rpc_url c \<noteq> []" and "rc_authority_keypair c \<noteq> []" and "rc_payer_keypair c \<noteq> []"
    and "market_id_get (br_market_id (rc_bridge c)) \<noteq> 0"
  shows "relayer_config_from_env B = Inr (RelayerEnabled c)"
proof -
  let ?m = "market_id_get (br_market_id (rc_bridge c))"
  have v: "unat ?m < 2 ^ 32" "unat (rc_interval_ms c) < 2 ^ 64"
    using unsigned_less [of ?m, where ?'a = nat] unsigned_less [of "rc_interval_ms c", where ?'a = nat] by simp_all
  have "decimal (unat ?m) \<noteq> []" using decimal_digits by blast
  then have "parse_market_id_env B ''EXCHANGE_RELAYER_MARKET_ID'' = Inr (br_market_id (rc_bridge c))"
    using assms(1,8) parse_unsigned_decimal [OF v(1)]
    by (simp add: parse_market_id_env_def required_env_def relayer_env_def market_id_new_def non_zero_new_def)
  moreover have "parse_interval_ms (decimal (unat (rc_interval_ms c))) = Inr (rc_interval_ms c)"
    using parse_unsigned_decimal [OF v(2)] by (simp add: parse_interval_ms_def)
  ultimately show ?thesis
    using assms
    by (simp add: relayer_config_from_env_def env_flag_def required_env_def parse_pubkey_env_def relayer_env_def
        validate_keypair_def)
qed

end
