(* ===== verification/Service_Guarantees.thy ===== *)
theory Service_Guarantees
  imports Service_Boot Settlement_Liveness
begin

text \<open>
  What the exchange service guarantees over requests and restarts.  The lemmas on handlers are
  proved once for every journal that keeps the contract \<open>durable_journal\<close> of the market actor.
\<close>

section \<open>Requests become acceptable commands\<close>

lemma api_ids_ok:
  "api_command_id v = Inr c \<Longrightarrow> command_id_get c \<noteq> 0"
  "api_trader_id v' = Inr t \<Longrightarrow> trader_id_get t \<noteq> 0"
  "api_asset_id v'' = Inr a \<Longrightarrow> asset_id_get a \<noteq> 0"
  by (auto simp: api_command_id_def command_id_new_def api_trader_id_def api_asset_id_def newtype_new_defs
      checked_ok split: if_splits)

lemma order_of_request_ok: "order_of_request m q = Inr x \<Longrightarrow> order_ids_ok x \<and> fresh_order x"
  by (auto simp: order_of_request_def api_order_id_def api_trader_id_def newtype_new_defs order_sequence_new_def
      checked_ok Let_def order_ids_ok_def fresh_order_def order_new_def)

lemma and_handle_record:
  "and_handle (record_api_error x) f s = (case x of Inl e \<Rightarrow> (Inl e, count_api_error s) | Inr y \<Rightarrow> f y s)"
  by (simp add: and_handle_def record_api_error_def split: sum.split)

lemma and_handle_authorized:
  "and_handle (authorized header) f s =
     (case authorize_api_key header s of Inl e \<Rightarrow> (Inl e, count_api_error s) | Inr _ \<Rightarrow> f () s)"
  by (simp add: and_handle_def authorized_def record_api_error_def split: sum.split)

lemma and_handle_record_state:
  "and_handle (\<lambda>s. record_api_error (g s) s) f s =
     (case g s of Inl e \<Rightarrow> (Inl e, count_api_error s) | Inr y \<Rightarrow> f y s)"
  by (simp add: and_handle_def record_api_error_def split: sum.split)

lemmas handling = and_handle_record and_handle_record_state and_handle_authorized

text \<open>The parts of the service that only the actor and the settlement side touch.\<close>

definition same_market :: "('k, 'j) service \<Rightarrow> ('k, 'j) service \<Rightarrow> bool" where
  "same_market s s' \<longleftrightarrow> sv_actor s' = sv_actor s \<and> sv_closed s' = sv_closed s"

lemma count_frame [simp]:
  "sv_actor (count f s) = sv_actor s" "sv_closed (count f s) = sv_closed s"
  "sv_settlement (count f s) = sv_settlement s" "sv_market (count f s) = sv_market s"
  "sv_bridge (count f s) = sv_bridge s" "sv_api_key (count f s) = sv_api_key s"
  "sv_counters (count f s) = f (sv_counters s)"
  by (simp_all add: count_def)

lemmas counting = record_http_request_def record_ready_check_def record_snapshot_request_def
  record_deposit_accepted_def record_order_accepted_def count_api_error_def

lemma same_market_refl [simp]: "same_market s s"
  by (simp add: same_market_def)

lemma pending_count_frame:
  "same_market s (snd (pending_settlement_count fault s))"
  "sv_market (snd (pending_settlement_count fault s)) = sv_market s"
  by (auto simp: pending_settlement_count_def same_market_def split: option.splits prod.splits)

section \<open>The market over requests\<close>

context durable_journal
begin

definition service_sound :: "market_spec \<Rightarrow> ('j, 'o) service \<Rightarrow> bool" where
  "service_sound m s \<longleftrightarrow> in_sync m (sv_actor s) \<or> (sv_closed s \<and> poisoned m (sv_actor s))"

lemma sound_same: "same_market s s' \<Longrightarrow> service_sound m s \<Longrightarrow> service_sound m s'"
  by (simp add: service_sound_def same_market_def)

lemma send_sound:
  assumes "service_sound m s" and "command_ok cmd" and "send_command put cmd s = (r, s')"
  shows "service_sound m s'"
proof (cases "sv_closed s")
  case False
  let ?a = "(sv_actor s)\<lparr>act_metrics := record_command_received (act_metrics (sv_actor s))\<rparr>"
  obtain reply stop a where h: "handle_command put cmd ?a = ((reply, stop), a)" by (metis surj_pair)
  have "in_sync m a \<or> (stop \<and> poisoned m a)"
    using handle_keeps [OF _ assms(2) h, of m] assms(1) False by (auto simp: service_sound_def)
  with h False assms(3) show ?thesis by (auto simp: send_command_def service_sound_def)
qed (use assms in \<open>simp add: send_command_def\<close>)

lemma send_frame:
  "send_command put cmd s = (r, s') \<Longrightarrow>
     sv_settlement s' = sv_settlement s \<and> sv_market s' = sv_market s \<and> sv_bridge s' = sv_bridge s \<and>
     sv_counters s' = sv_counters s"
  by (auto simp: send_command_def split: if_splits prod.splits)

text \<open>A step of the service: nothing of the market moves, or one acceptable command is handled.\<close>

definition market_step :: "('j, 'o) service \<Rightarrow> ('j, 'o) service \<Rightarrow> bool" where
  "market_step s s' \<longleftrightarrow> same_market s s' \<or>
     (\<exists>cmd r s0 s1. same_market s s0 \<and> command_ok cmd \<and> send_command put cmd s0 = (r, s1) \<and> same_market s1 s')"

lemma market_step_sound: "market_step s s' \<Longrightarrow> service_sound m s \<Longrightarrow> service_sound m s'"
  unfolding market_step_def using sound_same send_sound by blast

lemma stay_step: "same_market s s' \<Longrightarrow> market_step s s'"
  by (simp add: market_step_def)

lemma call_step:
  assumes "and_handle (call_actor E cmd) f s = (r, s')" and "se_put E = put" and "command_ok cmd"
    and f: "\<And>reply s1. same_market s1 (snd (f reply s1))"
  shows "market_step s s'"
proof -
  obtain reply s1 where c: "send_command put cmd s = (reply, s1)" by fastforce
  have "same_market s1 s'"
    using assms(1,2) c f [of s1 "projr reply"]
    by (cases reply) (auto simp: and_handle_def call_actor_def record_api_error_def same_market_def counting)
  then show ?thesis using c assms(3) unfolding market_step_def same_market_def by blast
qed

lemma deposit_step:
  assumes "se_put E = put" and "http_credit_deposit E rid header q s = (r, s')"
  shows "market_step s s'"
  using assms(2) unfolding http_credit_deposit_def
  by (auto simp: handling same_market_def counting assms(1) dest!: api_ids_ok split: sum.splits market_reply.splits
      intro: stay_step elim!: call_step)

lemma order_step:
  assumes "se_put E = put" and "http_place_order E rid header q s = (r, s')"
  shows "market_step s s'"
  using assms(2) unfolding http_place_order_def
  by (auto simp: handling same_market_def counting assms(1) Let_def
      dest!: api_ids_ok order_of_request_ok split: sum.splits market_reply.splits intro: stay_step elim!: call_step)

lemma snapshot_call_step:
  assumes "se_put E = put" and "and_handle (\<lambda>s. case actor_snapshot E rid s of (r, s1) \<Rightarrow> record_api_error r s1) f s = (r, s')"
    and f: "\<And>n s1. same_market s1 (snd (f n s1))"
  shows "market_step s s'"
proof -
  obtain reply s1 where c: "send_command put (CmdSnapshot (Some rid)) s = (reply, s1)" by fastforce
  have "s' = count_api_error s1 \<or> (\<exists>n. s' = snd (f n s1))"
    using assms(1,2) c
    by (auto simp: and_handle_def actor_snapshot_def record_api_error_def split: sum.splits market_reply.splits)
      (metis snd_conv)
  then have "same_market s1 s'" using f [of s1] by (auto simp: same_market_def counting)
  moreover have "command_ok (CmdSnapshot (Some rid))" by simp
  ultimately show ?thesis using c unfolding market_step_def same_market_def by blast
qed

lemma request_step:
  assumes "se_put E = put" and "handle_request E rid header req s = (x, s')"
  shows "market_step s s'"
proof -
  have s: "same_market s (record_http_request s)" by (simp add: same_market_def counting)
  have "market_step (record_http_request s) s'"
  proof (cases req)
    case (PostDeposits q)
    with assms(2) obtain r where "http_credit_deposit E rid header q (record_http_request s) = (r, s')"
      by (auto simp: handle_request_def route_def answer_def split: prod.splits sum.splits)
    then show ?thesis by (rule deposit_step [OF assms(1)])
  next
    case (PostOrders q)
    with assms(2) obtain r where "http_place_order E rid header q (record_http_request s) = (r, s')"
      by (auto simp: handle_request_def route_def answer_def split: prod.splits sum.splits)
    then show ?thesis by (rule order_step [OF assms(1)])
  next
    case GetReady
    obtain r where "http_ready E rid (record_http_request s) = (r, s')"
      using GetReady assms by (auto simp: handle_request_def route_def answer_def split: prod.splits sum.splits)
    then have "market_step (record_ready_check (record_http_request s)) s'"
      unfolding http_ready_def by (rule snapshot_call_step [OF assms(1)]) (simp add: same_market_def)
    then show ?thesis by (auto simp: market_step_def same_market_def counting)
  next
    case (GetSnapshot market)
    obtain r where h: "http_snapshot E rid market (record_http_request s) = (r, s')"
      using GetSnapshot assms by (auto simp: handle_request_def route_def answer_def split: prod.splits sum.splits)
    show ?thesis
    proof (cases "market = sv_market_id (record_snapshot_request (record_http_request s))")
      case True
      with h have "market_step (record_snapshot_request (record_http_request s)) s'"
        unfolding http_snapshot_def Let_def
        by (intro snapshot_call_step [OF assms(1), where f = "\<lambda>n s. (Inr (market, n), s)"])
          (auto simp: same_market_def)
      then show ?thesis by (auto simp: market_step_def same_market_def counting)
    next
      case False
      with h show ?thesis by (intro stay_step) (auto simp: http_snapshot_def Let_def same_market_def counting)
    qed
  next
    case (PostSignedOrders q)
    with assms show ?thesis
      by (intro stay_step)
        (auto simp: handle_request_def route_def answer_def http_register_signed_order_def handling same_market_def
          counting store_signed_order_def split: prod.splits sum.splits)
  next
    case GetSettlementsOutbox
    with assms show ?thesis
      by (intro stay_step)
        (auto simp: handle_request_def route_def answer_def list_settlement_outbox_def handling same_market_def
          counting record_api_error_def split: prod.splits sum.splits option.splits)
  qed (use assms(2) pending_count_frame(1) [of "record_http_request s" "se_fault E"] in
      \<open>auto simp: handle_request_def route_def http_metrics_def intro!: stay_step split: prod.splits\<close>)
  with s show ?thesis by (auto simp: market_step_def same_market_def)
qed

lemma serve_sound:
  "serve E reqs s = (xs, s') \<Longrightarrow> se_put E = put \<Longrightarrow> service_sound m s \<Longrightarrow> service_sound m s'"
proof (induction reqs arbitrary: s xs)
  case (Cons req reqs)
  obtain rid header q where req: "req = (rid, header, q)" by (cases req)
  obtain x s1 where h: "handle_request E rid header q s = (x, s1)" by fastforce
  obtain ys where t: "serve E reqs s1 = (ys, s')"
    using Cons.prems(1) h by (auto simp: req split: prod.splits)
  from Cons.IH [OF t Cons.prems(2)] market_step_sound [OF request_step [OF Cons.prems(2) h] Cons.prems(3)]
  show ?case by blast
qed simp

end

section \<open>Errors leave the market alone\<close>

definition client_error :: "api_error \<Rightarrow> bool" where
  "client_error e \<longleftrightarrow> (\<forall>msg. e \<noteq> Internal msg)"

text \<open>Nothing but the counters differs, and the errors have gone up by one.\<close>

definition untouched :: "('k, 'j) service \<Rightarrow> ('k, 'j) service \<Rightarrow> bool" where
  "untouched s s' \<longleftrightarrow>
     act_app (sv_actor s') = act_app (sv_actor s) \<and> act_journal (sv_actor s') = act_journal (sv_actor s) \<and>
     sv_closed s' = sv_closed s \<and> sv_settlement s' = sv_settlement s \<and>
     sm_api_errors (sv_counters s') = sm_api_errors (sv_counters s) + 1"

lemma deposit_apply_error:
  assumes "credit_deposit_event c t a v app = Inr ev" and "apply_event ev app = (Inl e, app')"
  shows "api_error_of_app e = Internal ''domain error''"
proof -
  from assms(1) have ev: "ev = DepositCredited c t a v" and fresh: "reject_duplicate c app = Inr ()"
    by (auto simp: credit_deposit_event_def checked_ok)
  obtain r b where s: "sheet_credit_available t a v (app_balances app) = (r, b)" by fastforce
  have "e = DomainError ArithmeticOverflow"
    using assms(2) s fresh
    by (auto simp: ev apply_event_def reject_duplicate_def record_applied_event_def sheet_defs
        balance_credit_available_def ba_checked_add_def checked_err Let_def
        split: sum.splits if_splits prod.splits option.splits)
  then show ?thesis by (simp add: api_error_of_domain_def)
qed

context durable_journal
begin

lemma handle_error:
  assumes "in_sync m a" and "command_ok cmd" and h: "handle_command put cmd a = ((Inl e, stop), a')"
    and "client_error (api_error_of_app e)"
  shows "act_app a' = act_app a \<and> act_journal a' = act_journal a \<and> \<not> stop"
proof (cases cmd)
  case (CmdCreditDeposit rid c t as v)
  show ?thesis
  proof (cases "credit_deposit_event c t as v (act_app a)")
    case (Inl e')
    with CmdCreditDeposit h show ?thesis by (auto simp: handle_command_def)
  next
    case (Inr ev)
    with CmdCreditDeposit h assms(4) deposit_apply_error [OF Inr] show ?thesis
      by (fastforce simp: handle_command_def settle_metrics_def persist_and_apply_def client_error_def
          split: prod.splits sum.splits)
  qed
next
  case (CmdPlaceOrder rid c x)
  show ?thesis
  proof (cases "place_order_event c x (act_app a)")
    case (Inl e')
    with CmdPlaceOrder h show ?thesis by (auto simp: handle_command_def)
  next
    case (Inr p)
    obtain ev fs where p: "p = (ev, fs)" by (cases p)
    have "\<exists>app'. apply_event ev (act_app a) = (Inr (), app')"
      using place_order_event_storable [of m "act_app a" c x ev fs] assms(1,2) CmdPlaceOrder Inr p
      by (auto simp: in_sync_def)
    with CmdPlaceOrder Inr p h assms(4) show ?thesis
      by (auto simp: handle_command_def settle_metrics_def persist_and_apply_def client_error_def
          split: prod.splits sum.splits)
  qed
qed (use h in \<open>auto simp: handle_command_def\<close>)

lemma send_error:
  assumes "service_sound m s" and "command_ok cmd" and "send_command put cmd s = (Inl e, s')"
    and "client_error (api_error_of_app e)"
  shows "act_app (sv_actor s') = act_app (sv_actor s) \<and> act_journal (sv_actor s') = act_journal (sv_actor s) \<and>
    sv_closed s' = sv_closed s"
proof (cases "sv_closed s")
  case True
  with assms(3,4) show ?thesis by (simp add: send_command_def client_error_def)
next
  case False
  let ?a = "(sv_actor s)\<lparr>act_metrics := record_command_received (act_metrics (sv_actor s))\<rparr>"
  from False assms(3) obtain stop a where h: "handle_command put cmd ?a = ((Inl e, stop), a)"
    and s': "s' = s\<lparr>sv_actor := a, sv_closed := stop\<rparr>" by (auto simp: send_command_def split: prod.splits)
  have "in_sync m ?a" using False assms(1) by (simp add: service_sound_def)
  from handle_error [OF this assms(2) h assms(4)] False s' show ?thesis by simp
qed

lemma call_error:
  assumes "and_handle (call_actor E cmd) f s = (Inl e, s')" and "se_put E = put" and "command_ok cmd"
    and "service_sound m s" and "client_error e"
    and f: "\<And>reply s1 e s2. f reply s1 = (Inl e, s2) \<Longrightarrow> \<not> client_error e"
  shows "untouched s s'"
proof -
  obtain r s1 where c: "send_command put cmd s = (r, s1)" by fastforce
  with assms(1,2,5) f obtain e' where r: "r = Inl e'" "e = api_error_of_app e'" "s' = count_api_error s1"
    by (cases r) (auto simp: and_handle_def call_actor_def record_api_error_def)
  from send_error [OF assms(4,3), of e' s1] send_frame [of cmd s r s1] c r assms(5) show ?thesis
    by (simp add: untouched_def counting)
qed

lemma untouched_error: "untouched s (count_api_error s)"
  by (simp add: untouched_def counting)

lemma deposit_error:
  assumes "se_put E = put" and "http_credit_deposit E rid header q s = (Inl e, s')"
    and "service_sound m s" and "client_error e"
  shows "untouched s s'"
  using assms(2-) unfolding http_credit_deposit_def
  by (auto simp: handling assms(1) client_error_def [of "Internal _"] untouched_error
      dest!: api_ids_ok split: sum.splits market_reply.splits elim!: call_error)

lemma order_error:
  assumes "se_put E = put" and "http_place_order E rid header q s = (Inl e, s')"
    and "service_sound m s" and "client_error e"
  shows "untouched s s'"
  using assms(2-) unfolding http_place_order_def
  by (auto simp: handling assms(1) client_error_def [of "Internal _"] untouched_error Let_def
      dest!: api_ids_ok order_of_request_ok split: sum.splits market_reply.splits elim!: call_error)

lemma snapshot_error:
  assumes "se_put E = put"
    and "and_handle (\<lambda>s. case actor_snapshot E rid s of (r, s1) \<Rightarrow> record_api_error r s1) f s = (Inl e, s')"
    and "service_sound m s" and "client_error e" and f: "\<And>n s1 e s2. f n s1 \<noteq> (Inl e, s2)"
  shows "untouched s s'"
proof -
  obtain r s1 where c: "send_command put (CmdSnapshot (Some rid)) s = (r, s1)" by fastforce
  with assms(1,2,4) f obtain e' where r: "r = Inl e'" "e = api_error_of_app e'" "s' = count_api_error s1"
    by (auto simp: and_handle_def actor_snapshot_def record_api_error_def client_error_def
        split: sum.splits market_reply.splits)
  from send_error [OF assms(3), of "CmdSnapshot (Some rid)" e' s1] send_frame [of _ s r s1] c r assms(4)
  show ?thesis by (simp add: untouched_def counting)
qed

lemma request_error:
  assumes "se_put E = put" and h: "handle_request E rid header req s = (ErrorAnswer e, s')"
    and "service_sound m s" and "client_error e"
  shows "untouched s s'"
proof -
  let ?s = "record_http_request s"
  have sound: "service_sound m ?s" using assms(3) by (simp add: service_sound_def counting)
  have "untouched ?s s'"
  proof (cases req)
    case (PostDeposits q)
    with h have "http_credit_deposit E rid header q ?s = (Inl e, s')"
      by (auto simp: handle_request_def route_def answer_def split: prod.splits sum.splits)
    from deposit_error [OF assms(1) this sound assms(4)] show ?thesis .
  next
    case (PostOrders q)
    with h have "http_place_order E rid header q ?s = (Inl e, s')"
      by (auto simp: handle_request_def route_def answer_def split: prod.splits sum.splits)
    from order_error [OF assms(1) this sound assms(4)] show ?thesis .
  next
    case GetReady
    with h have "http_ready E rid ?s = (Inl e, s')"
      by (auto simp: handle_request_def route_def answer_def split: prod.splits sum.splits)
    then have "untouched (record_ready_check ?s) s'"
      unfolding http_ready_def using sound assms(4)
      by (elim snapshot_error [OF assms(1)]) (auto simp: service_sound_def counting)
    then show ?thesis by (simp add: untouched_def counting)
  next
    case (GetSnapshot market)
    with h have snap: "http_snapshot E rid market ?s = (Inl e, s')"
      by (auto simp: handle_request_def route_def answer_def split: prod.splits sum.splits)
    show ?thesis
    proof (cases "market = sv_market_id (record_snapshot_request ?s)")
      case True
      with snap have "untouched (record_snapshot_request ?s) s'"
        unfolding http_snapshot_def Let_def using sound assms(4)
        by (intro snapshot_error [OF assms(1), where f = "\<lambda>n s. (Inr (market, n), s)"])
          (auto simp: service_sound_def counting)
      then show ?thesis by (simp add: untouched_def counting)
    next
      case False
      with snap show ?thesis by (auto simp: http_snapshot_def Let_def untouched_def counting)
    qed
  next
    case (PostSignedOrders q)
    with h show ?thesis
      by (auto simp: handle_request_def route_def answer_def http_register_signed_order_def handling
          untouched_error store_signed_order_def split: prod.splits sum.splits)
  next
    case GetSettlementsOutbox
    with h assms(4) show ?thesis
      by (auto simp: handle_request_def route_def answer_def list_settlement_outbox_def handling
          untouched_error record_api_error_def client_error_def checked_err
          split: prod.splits sum.splits option.splits)
  qed (use h in \<open>auto simp: handle_request_def route_def http_metrics_def split: prod.splits\<close>)
  then show ?thesis by (simp add: untouched_def counting)
qed

end

interpretation noop: durable_journal noop_append "\<lambda>_ _. True"
  by unfold_locales simp_all

section \<open>Lives of the service\<close>

text \<open>The databases that services leave behind, life after life, from an empty journal.  The outbox
  and the faults of the next life may be any.\<close>

inductive db_reach :: "'r serde \<Rightarrow> ('r, 'o) database \<Rightarrow> bool" for S where
  empty: "db_rows db = [] \<Longrightarrow> db_reach S db"
| life: "db_reach S db \<Longrightarrow> app_with_postgres S db key relayer = Inr s \<Longrightarrow> se_put E = pg_append S \<Longrightarrow>
    serve E reqs s = (xs, s') \<Longrightarrow> db_rows db' = pg_rows (act_journal (sv_actor s')) \<Longrightarrow> db_reach S db'"

text \<open>The rows are the log of an application, perhaps with a deposit that does not apply at its end.\<close>

definition rows_sound :: "'r serde \<Rightarrow> exchange_app \<Rightarrow> 'r event_record list \<Rightarrow> bool" where
  "rows_sound S app rows \<longleftrightarrow> app_reach default_market app \<and> app_orders_ok app \<and> journal_wf S rows (app_events app)"

definition rows_poisoned :: "'r serde \<Rightarrow> exchange_app \<Rightarrow> 'r event_record list \<Rightarrow> bool" where
  "rows_poisoned S app rows \<longleftrightarrow> app_reach default_market app \<and>
     (\<exists>c t as v e. journal_wf S rows (app_events app @ [DepositCredited c t as v]) \<and>
        apply_event (DepositCredited c t as v) app = (Inl e, app))"

lemma boot_sound:
  assumes "serde_ok S" and "rows_sound S app (db_rows db)" and "db_fault db = None"
  shows "\<exists>s. app_with_postgres S db key relayer = Inr s \<and> act_app (sv_actor s) = app \<and>
    pg.service_sound S default_market s"
proof -
  have "journal_read_all S (db_rows db) = Inr (app_events app)"
    using journal_wf_read [OF assms(1)] assms(2) by (simp add: rows_sound_def)
  moreover have "replay default_market (app_events app) = Inr app"
    using assms(2) app_reach_log by (simp add: rows_sound_def replay_def)
  ultimately show ?thesis
    using assms(2,3)
    by (simp add: app_with_postgres_def app_with_relayer_def app_with_settlement_def spawn_from_app_def
        pg.service_sound_def pg.in_sync_def rows_sound_def pg_holds_def)
qed

lemma boot_poisoned:
  assumes "serde_ok S" and "rows_poisoned S app (db_rows db)" and "db_fault db = None"
  shows "\<exists>e. app_with_postgres S db key relayer = Inl (ApplicationStartup e)"
proof -
  from assms(2) obtain c t as v e where
    h: "journal_wf S (db_rows db) (app_events app @ [DepositCredited c t as v])"
    and f: "apply_event (DepositCredited c t as v) app = (Inl e, app)" and r: "app_reach default_market app"
    by (auto simp: rows_poisoned_def)
  have "replay default_market (app_events app @ [DepositCredited c t as v]) = Inl e"
    using app.rebuild_poisoned [OF app_reach_log [OF r] f] by (simp add: replay_def)
  with journal_wf_read [OF assms(1) h] assms(3) show ?thesis by (simp add: app_with_postgres_def)
qed

lemma sound_rows:
  assumes "pg.service_sound S default_market s"
  shows "rows_sound S (act_app (sv_actor s)) (pg_rows (act_journal (sv_actor s))) \<or>
    (sv_closed s \<and> rows_poisoned S (act_app (sv_actor s)) (pg_rows (act_journal (sv_actor s))))"
  using assms
  by (auto simp: pg.service_sound_def pg.in_sync_def pg.poisoned_def rows_sound_def rows_poisoned_def pg_holds_def)

lemma db_reach_sound:
  assumes "serde_ok S" and "db_reach S db"
  shows "\<exists>app. rows_sound S app (db_rows db) \<or> rows_poisoned S app (db_rows db)"
  using assms(2)
proof induction
  case (empty db)
  have "rows_sound S (app_new default_market) []"
    using app_reach.start [of default_market]
    by (simp add: rows_sound_def app_orders_ok_def app_new_def resting_orders_def engine_new_ok journal_wf_def)
  with empty show ?case by metis
next
  case (life db key relayer s E reqs xs s' db')
  have f: "db_fault db = None" using life.hyps(2) by (auto simp: app_with_postgres_def split: option.splits)
  from life.IH life.hyps(2) boot_sound [OF assms(1) _ f] boot_poisoned [OF assms(1) _ f]
  have "pg.service_sound S default_market s" by (metis Inl_Inr_False Inr_inject)
  from sound_rows [OF pg.serve_sound [OF life.hyps(4,3) this]] life.hyps(5) show ?case by auto
qed

lemma boot_reach_sound:
  assumes "serde_ok S" and "db_reach S db" and "app_with_postgres S db key relayer = Inr s"
  shows "pg.service_sound S default_market s"
proof -
  have f: "db_fault db = None" using assms(3) by (auto simp: app_with_postgres_def split: option.splits)
  show ?thesis
    using db_reach_sound [OF assms(1,2)] assms(3) boot_sound [OF assms(1) _ f] boot_poisoned [OF assms(1) _ f]
    by (metis Inl_Inr_False Inr_inject)
qed

text \<open>C34: Restarting the service is safe, however often: a service that is started on a database that
  earlier lives left behind, whatever requests it serves, leaves rows from which the next start
  rebuilds the very same market, unless its actor has stopped on a deposit that does not apply;
  then every further start fails.\<close>

theorem service_survives_restarts:
  assumes "serde_ok S" and "db_reach S db" and "app_with_postgres S db key relayer = Inr s"
    and "se_put E = pg_append S" and "serve E reqs s = (xs, s')"
    and "db_rows db' = pg_rows (act_journal (sv_actor s'))" and "db_fault db' = None"
  shows "(\<exists>s1. app_with_postgres S db' key' relayer' = Inr s1 \<and> act_app (sv_actor s1) = act_app (sv_actor s')) \<or>
    (sv_closed s' \<and> (\<exists>e. app_with_postgres S db' key' relayer' = Inl (ApplicationStartup e)))"
  using sound_rows [OF pg.serve_sound [OF assms(5,4) boot_reach_sound [OF assms(1-3)]]]
    boot_sound [OF assms(1) _ assms(7)] boot_poisoned [OF assms(1) _ assms(7)] assms(6) by metis

text \<open>C35: A request that is answered with a client error (401, 400, 404 or 409) has no effect: the market,
  its journal, the signed orders and the queued settlements are what they were, the actor still
  runs if it did, and exactly one error is counted.\<close>

theorem client_errors_inert:
  assumes "serde_ok S" and "db_reach S db" and "app_with_postgres S db key relayer = Inr s0"
    and "se_put E = pg_append S" and "serve E reqs s0 = (xs, s)"
    and "handle_request E rid header req s = (ErrorAnswer e, s')" and "fst (api_error_response e) < 500"
  shows "act_app (sv_actor s') = act_app (sv_actor s) \<and> act_journal (sv_actor s') = act_journal (sv_actor s) \<and>
    sv_closed s' = sv_closed s \<and> sv_settlement s' = sv_settlement s \<and>
    sm_api_errors (sv_counters s') = sm_api_errors (sv_counters s) + 1"
proof -
  have "client_error e" using assms(7) by (cases e) (auto simp: client_error_def)
  from pg.request_error [OF assms(4,6) pg.serve_sound [OF assms(5,4) boot_reach_sound [OF assms(1-3)]] this]
  show ?thesis by (simp add: untouched_def)
qed

end
