(* ===== verification/Service_Settlements.thy ===== *)
theory Service_Settlements
  imports Service_Guarantees Signed_Orders
begin

text \<open>
  How the service and the settlement side fit together: the settlements an accepted order queues,
  the ids it gives them across restarts, and what keeps a settlement from being carried out.  The
  concrete requests at the end witness the guarantees of the service.
\<close>

section \<open>From orders to settlements\<close>

lemma place_order_accepted:
  assumes "http_place_order E rid header q s = (Inr frs, s')"
  obtains x fills where "order_of_request (sv_market s) q = Inr x" "frs = map fill_response_of fills"
    "sv_settlement s' = queue_settlement_requests (se_env E) (se_codec E) (se_fault E) (sv_bridge s)
       (oq_command_id q) x fills (sv_settlement s)"
proof -
  from assms obtain x c where x: "order_of_request (sv_market s) q = Inr x"
    and call: "and_handle (call_actor E (CmdPlaceOrder (Some rid) c x)) (\<lambda>reply s.
       case reply of
         ReplyOrderPlaced fills \<Rightarrow>
           let s1 = record_order_accepted s;
               s2 = s1\<lparr>sv_settlement := queue_settlement_requests (se_env E) (se_codec E) (se_fault E)
                 (sv_bridge s1) (oq_command_id q) x fills (sv_settlement s1)\<rparr> in
           (Inr (map fill_response_of fills), s2)
       | _ \<Rightarrow> (Inl (Internal ''unexpected order reply''), s)) s = (Inr frs, s')"
    unfolding http_place_order_def by (auto simp: handling split: sum.splits)
  obtain r s1 where c: "send_command (se_put E) (CmdPlaceOrder (Some rid) c x) s = (r, s1)" by fastforce
  with call obtain fills where f: "frs = map fill_response_of fills"
    "sv_settlement s' = queue_settlement_requests (se_env E) (se_codec E) (se_fault E)
                 (sv_bridge s1) (oq_command_id q) x fills (sv_settlement s1)"
    by (cases r) (auto simp: and_handle_def call_actor_def record_api_error_def counting Let_def split: market_reply.splits)
  have "sv_settlement s1 = sv_settlement s \<and> sv_bridge s1 = sv_bridge s"
    using c by (auto simp: send_command_def split: if_splits prod.splits)
  with x f that show ?thesis by simp
qed

text \<open>What queueing does in the mode without a database.\<close>

lemma queue_memory:
  assumes "sw_outbox w = None" and "queue_settlement_requests env c fault (Some b) command taker fills w = w'"
  shows "\<exists>qs. es_queued (sw_edge w') = es_queued (sw_edge w) @ qs \<and>
    (qs = [] \<or> (\<exists>cid. requests_from_batch env b (batch_from_order_fills cid taker fills)
       (es_signed_orders (sw_edge w)) (es_next_settlement_id (sw_edge w)) = Inr qs))"
proof -
  obtain r edge1 where al: "allocate_settlement_ids (length fills) (sw_edge w) = (r, edge1)" by fastforce
  have e: "es_queued edge1 = es_queued (sw_edge w)" "es_signed_orders edge1 = es_signed_orders (sw_edge w)"
    using al by (auto simp: allocate_settlement_ids_def split: if_splits option.splits)
  have f: "first = es_next_settlement_id (sw_edge w)" if "r = Inr (Some first)" for first
    using al that by (auto simp: allocate_settlement_ids_def split: if_splits option.splits)
  have l: "signed_order_lookup edge1 = es_signed_orders (sw_edge w)"
    using e(2) by (auto simp: signed_order_lookup_def)
  show ?thesis
    using assms al e f l
    by (auto simp: queue_settlement_requests_def Let_def record_settlement_requests_queued_def queue_settlements_def
        split: if_splits sum.splits option.splits)
qed

lemma batch_intents [simp]: "sb_intents (batch_from_order_fills cid taker fills) = map (intent_from_fill taker) fills"
  by (simp add: batch_from_order_fills_def)

text \<open>The request that settles one fill of an answer: its price and quantity, and the registered signed
  orders of its maker and taker, a bid and an ask of the bridged market that both allow it.\<close>

definition settles_fill ::
  "anchor_env \<Rightarrow> settlement_bridge \<Rightarrow> (order_id \<Rightarrow> bridge_signed_order option) \<Rightarrow> fill_response
    \<Rightarrow> settlement_request \<Rightarrow> bool" where
  "settles_fill env b lookup fr rq \<longleftrightarrow>
     (let a = rq_args rq; bid = sa_buyer_order a; ask = sa_seller_order a in
      sa_fill_price a = fr_price fr \<and> sa_fill_quantity a = fr_quantity fr \<and>
      sp_side bid = SignedBid \<and> sp_side ask = SignedAsk \<and>
      sp_market bid = bridge_market_config env b \<and> sp_market ask = bridge_market_config env b \<and>
      sp_price ask \<le> fr_price fr \<and> fr_price fr \<le> sp_price bid \<and>
      fr_quantity fr \<le> sp_quantity bid \<and> fr_quantity fr \<le> sp_quantity ask \<and>
      {Some bid, Some ask} =
        {map_option bo_order (lookup (OrderId (fr_maker_order_id fr))),
         map_option bo_order (lookup (OrderId (fr_taker_order_id fr)))})"

lemma request_settles_fill:
  assumes "request_fits env b lookup first k (intent_from_fill x f) rq"
  shows "settles_fill env b lookup (fill_response_of f) rq"
proof -
  have i: "si_price (intent_from_fill x f) = fill_price f" "si_quantity (intent_from_fill x f) = fill_quantity f"
    "si_maker_order (intent_from_fill x f) = fill_maker_order f"
    "si_taker_order (intent_from_fill x f) = fill_taker_order f"
    by (simp_all add: intent_from_fill_def split: side.split)
  let ?bid = "sa_buyer_order (rq_args rq)" and ?ask = "sa_seller_order (rq_args rq)"
  from assms obtain buyer seller where
    "{Some buyer, Some seller} = {lookup (fill_maker_order f), lookup (fill_taker_order f)}"
    "bo_order buyer = ?bid" "bo_order seller = ?ask"
    unfolding request_fits_def Let_def i by blast
  then have "{Some ?bid, Some ?ask} = map_option bo_order ` {lookup (fill_maker_order f), lookup (fill_taker_order f)}"
    by (metis image_empty image_insert option.simps(9))
  then show ?thesis
    using assms by (clarsimp simp: request_fits_def settles_fill_def Let_def i fill_response_of_def)
qed


section \<open>Settlement ids across restarts\<close>

lemma enqueue_appends:
  "enqueue_settlement_requests c fault qs t = (r, t') \<Longrightarrow>
     \<exists>rs. ot_rows t' = ot_rows t @ rs \<and>
       (rs \<noteq> [] \<longrightarrow> qs \<noteq> [] \<and> oc_to_json c (json_of_request c (hd qs)) = Inr (ob_payload (hd rs)))"
proof (induction qs arbitrary: t)
  case (Cons q qs)
  show ?case
  proof (cases "oc_to_json c (json_of_request c q)")
    case (Inr payload)
    obtain x t1 where s: "statement fault (insert_row payload) t = (x, t1)" by fastforce
    show ?thesis
    proof (cases x)
      case (Inl e)
      with Cons.prems Inr s show ?thesis by (auto simp: statement_def Let_def split: option.splits prod.splits)
    next
      case ok: (Inr u)
      with Cons.prems Inr s have "enqueue_settlement_requests c fault qs t1 = (r, t')" by simp
      with Cons.IH obtain rs where "ot_rows t' = ot_rows t1 @ rs" by blast
      moreover obtain row where "ot_rows t1 = ot_rows t @ [row]" "ob_payload row = payload"
        using s ok by (auto simp: statement_def insert_row_def Let_def split: option.splits prod.splits)
      ultimately show ?thesis using Inr by auto
    qed
  qed (use Cons.prems in auto)
qed simp

text \<open>A service that has just been started gives its first settlement the id 0, whatever rows earlier
  lives have left in the outbox and whatever they have settled.\<close>

lemma restart_repeats_ids:
  assumes "codec_ok c" and "es_next_settlement_id (sw_edge w) = 0"
    and "sw_outbox w = Some t"
    and "queue_settlement_requests env c fault config command taker fills w = w'"
    and "sw_outbox w' = Some t'" and "ot_rows t' = ot_rows t @ r # rs" and "item_of_row c r = Inr i"
  shows "sa_settlement_id (rq_args (oi_request i)) = 0"
proof -
  obtain res edge1 where al: "allocate_settlement_ids (length fills) (sw_edge w) = (res, edge1)" by fastforce
  have f: "first = 0" if "res = Inr (Some first)" for first
    using al that assms(2) by (auto simp: allocate_settlement_ids_def split: if_splits option.splits)
  obtain b cid qs x where
    q: "requests_from_batch env b (batch_from_order_fills cid taker fills) (signed_order_lookup edge1) 0 = Inr qs"
    and n: "enqueue_settlement_requests c fault qs t = (x, t')"
    using assms(3-6) al f
    by (auto simp: queue_settlement_requests_def Let_def record_settlement_requests_queued_def
        split: if_splits sum.splits option.splits prod.splits)
  from enqueue_appends [OF n] assms(6) have "qs \<noteq> []"
    and p: "oc_to_json c (json_of_request c (hd qs)) = Inr (ob_payload r)" by auto
  moreover have "unat (sa_settlement_id (rq_args (hd qs))) = 0"
    using arg_cong [OF conjunct1 [OF requests_have_ids [OF q]], of hd] \<open>qs \<noteq> []\<close> by (simp add: hd_map)
  ultimately have "sa_settlement_id (rq_args (hd qs)) = 0" by (simp add: unat_eq_0)
  moreover have "oi_request i = hd qs"
    using assms(1,7) p request_json_roundtrip [OF assms(1), of "hd qs"]
    by (auto simp: item_of_row_def checked_ok codec_ok_def)
  ultimately show ?thesis by simp
qed

lemma booted_service_ids:
  assumes "app_with_postgres S db key relayer = Inr s"
  shows "es_next_settlement_id (sw_edge (sv_settlement s)) = 0 \<and> sw_outbox (sv_settlement s) = Some (db_outbox db)"
  using assms
  by (auto simp: app_with_postgres_def app_with_relayer_def app_with_settlement_def edge_default_def checked_ok
      split: option.splits)

section \<open>Rows that block the outbox\<close>

lemma claim_rows_parts:
  "claim_rows n rows = (claimed, rows') \<Longrightarrow>
     claimed = map claimed_row (take n (pending_rows rows)) \<and>
     pending_rows rows' = map claimed_row (take n (pending_rows rows)) @ drop n (pending_rows rows) \<and>
     map ob_status rows' = map ob_status rows"
proof (induction n rows arbitrary: claimed rows' rule: claim_rows.induct)
  case (3 n r rs)
  show ?case
  proof (cases "ob_status r = Pending")
    case True
    obtain cl rw where c: "claim_rows n rs = (cl, rw)" by fastforce
    from 3(1) [OF True refl c] True c 3(3) show ?thesis
      by (auto simp: pending_rows_def Let_def claimed_row_def)
  next
    case False
    obtain cl rw where c: "claim_rows (Suc n) rs = (cl, rw)" by fastforce
    from 3(2) [OF False c] False c 3(3) show ?thesis by (auto simp: pending_rows_def)
  qed
qed (auto simp: pending_rows_def)

lemma collect_results_fails: "r \<in> set rs \<Longrightarrow> r = Inl e \<Longrightarrow> \<exists>e'. collect_results rs = Inl e'"
proof (induction rs)
  case (Cons x xs)
  then show ?case by (cases x) auto
qed simp

text \<open>One of the next rows to be claimed has a payload that cannot be read.\<close>

definition unreadable :: "'j outbox_codec \<Rightarrow> 'j outbox_row \<Rightarrow> bool" where
  "unreadable c r \<longleftrightarrow> (\<exists>e. and_then (map_err Serde (oc_from_json c (ob_payload r))) (request_of_json c) = Inl e)"

definition outbox_blocked :: "'j outbox_codec \<Rightarrow> 'j outbox \<Rightarrow> bool" where
  "outbox_blocked c t \<longleftrightarrow> list_ex (unreadable c) (take 32 (pending_rows (ot_rows t)))"

lemma unreadable_item: "unreadable c r \<Longrightarrow> \<exists>e. item_of_row c (claimed_row r) = Inl e"
  by (auto simp: unreadable_def item_of_row_def checked_err)

lemma unreadable_claimed [simp]: "unreadable c (claimed_row r) = unreadable c r"
  by (simp add: unreadable_def)

lemma blocked_claim:
  assumes "outbox_blocked c t" and "claim_pending_settlements c fault settlement_worker_batch_limit t = (r, t')"
  shows "(\<exists>e. r = Inl e) \<and> outbox_blocked c t' \<and> map ob_status (ot_rows t') = map ob_status (ot_rows t)"
proof -
  obtain claimed rows' where c: "claim_rows 32 (ot_rows t) = (claimed, rows')" by fastforce
  note parts = claim_rows_parts [OF c]
  from assms(1) obtain x where x: "x \<in> set (take 32 (pending_rows (ot_rows t)))" "unreadable c x"
    by (auto simp: outbox_blocked_def list_ex_iff)
  then obtain e where "item_of_row c (claimed_row x) = Inl e" using unreadable_item by blast
  with x obtain e' where e': "collect_results (map (item_of_row c) claimed) = Inl e'"
    using parts collect_results_fails [of "Inl e" "map (item_of_row c) claimed" e]
    by (fastforce simp: image_iff)
  have "list_ex (unreadable c) (take 32 (pending_rows rows'))"
    using parts x by (auto simp: list_ex_iff intro!: bexI [of _ "claimed_row x"])
  moreover have "r = Inl e' \<or> (\<exists>msg. r = Inl (Sql msg))" "ot_rows t' = rows' \<or> ot_rows t' = ot_rows t"
    using assms(2) c e'
    by (auto simp: claim_pending_settlements_def statement_def settlement_worker_batch_limit_def Let_def
        split: option.splits prod.splits)
  ultimately show ?thesis using assms(1) parts by (auto simp: outbox_blocked_def)
qed

text \<open>The worker never gets past an unreadable row: as long as one is among the next 32 pending rows,
  every claim fails as a whole, and no row ever changes its status, for any submitter.\<close>

lemma outbox_blocked_forever:
  assumes "sw_outbox w = Some t" and "outbox_blocked c t"
  shows "\<exists>t'. sw_outbox (fst (worker_cycles cl et c fault submit n (w, s))) = Some t' \<and> outbox_blocked c t' \<and>
    map ob_status (ot_rows t') = map ob_status (ot_rows t) \<and> snd (worker_cycles cl et c fault submit n (w, s)) = s"
  using assms
proof (induction n arbitrary: w t)
  case (Suc n)
  obtain r t1 where c: "claim_pending_settlements c fault settlement_worker_batch_limit t = (r, t1)" by fastforce
  from blocked_claim [OF Suc.prems(2) c] obtain e where b: "r = Inl e" "outbox_blocked c t1"
    "map ob_status (ot_rows t1) = map ob_status (ot_rows t)" by blast
  with c Suc.prems(1) have "worker_cycle cl et c fault submit (w, s) = (w\<lparr>sw_outbox := Some t1\<rparr>, s)"
    by (simp add: worker_cycle_def claim_settlement_work_def)
  then show ?case using Suc.IH [of "w\<lparr>sw_outbox := Some t1\<rparr>" t1] b by simp
qed simp

section \<open>Two layouts under one tag\<close>

text \<open>The preimage of the domain crate and that of the program start with the same tag and are never
  the same bytes, so that a signature over the one does not settle on the other.\<close>

lemma preimages_differ: "signing_preimage i \<noteq> payload_preimage p"
proof
  assume "signing_preimage i = payload_preimage p"
  then have "length (signing_preimage i) = length (payload_preimage p)" by simp
  then show False by (simp add: signing_preimage_def)
qed

section \<open>Concrete requests\<close>

definition demo_local_env :: "(unit, request_json) service_env" where
  "demo_local_env = \<lparr>se_put = noop_append, se_env = demo_env, se_codec = demo_codec, se_fault = no_fault\<rparr>"

text \<open>A market with a deposit of each trader and the ask of one; both orders are registered.\<close>

definition demo_open_app :: exchange_app where
  "demo_open_app =
     snd (app_place_order (CommandId 3)
       (order_new (OrderId 12) (TraderId 8) (MarketId 1) Ask (Price 4) (Quantity 8) (OrderSequence 1))
       (snd (credit_deposit (CommandId 2) (TraderId 8) (AssetId 1) (BalanceAmount 20)
         (snd (credit_deposit (CommandId 1) (TraderId 7) (AssetId 2) (BalanceAmount 100)
           (app_new default_market))))))"

definition demo_open :: "(unit, request_json) service" where
  "demo_open = (app_with_settlement market_sol_usdc ReadyLocal JournalNoop default_market
     (spawn_from_app demo_open_app ()) (Some ''key'') (Some demo_bridge) None)
     \<lparr>sv_settlement := \<lparr>sw_edge = demo_edge, sw_outbox = None, sw_queued_total = 0, sw_submitted_total = 0,
        sw_failed_total = 0\<rparr>\<rparr>"

definition demo_bid_request :: order_request where
  "demo_bid_request = \<lparr>oq_command_id = 4, oq_order_id = 11, oq_trader_id = 7, oq_market_id = 1,
     oq_side = DtoBid, oq_price = 5, oq_quantity = 10, oq_sequence = 2\<rparr>"

lemma demo_bid_order: "order_of_request default_market demo_bid_request = Inr demo_taker"
  by code_simp

lemma demo_bid_event:
  "place_order_event (CommandId 4) demo_taker demo_open_app =
     Inr (OrderPlaced (CommandId 4) demo_taker [demo_fill], [demo_fill])"
  by code_simp

lemma place_order_answer:
  assumes "authorize_api_key header s = Inr ()" and "order_of_request (sv_market s) q = Inr x"
    and "api_command_id (oq_command_id q) = Inr c"
    and "send_command (se_put E) (CmdPlaceOrder (Some rid) c x) s = (Inr (ReplyOrderPlaced fills), s1)"
  shows "http_place_order E rid header q s = (Inr (map fill_response_of fills),
    (record_order_accepted s1)\<lparr>sv_settlement := queue_settlement_requests (se_env E) (se_codec E) (se_fault E)
      (sv_bridge s1) (oq_command_id q) x fills (sv_settlement s1)\<rparr>)"
proof -
  have "call_actor E (CmdPlaceOrder (Some rid) c x) s = (Inr (ReplyOrderPlaced fills), s1)"
    using assms(4) by (simp add: call_actor_def record_api_error_def)
  then show ?thesis
    using assms(1-3) by (simp add: http_place_order_def handling and_handle_def [of "call_actor _ _"] counting Let_def)
qed

lemma demo_bid_sent:
  "\<exists>s'. handle_request demo_local_env ''r6'' (Some ''key'') (PostOrders demo_bid_request) demo_open =
       (OrderAccepted [fill_response_of demo_fill], s') \<and>
     es_queued (sw_edge (sv_settlement s')) = [demo_request]"
proof -
  let ?s = "record_http_request demo_open"
  obtain app1 where a: "apply_event (OrderPlaced (CommandId 4) demo_taker [demo_fill]) demo_open_app = (Inr (), app1)"
    using place_order_event_applies [OF demo_bid_event] by blast
  have k: "authorize_api_key (Some ''key'') ?s = Inr ()" "sv_market ?s = default_market"
    by (simp_all add: authorize_api_key_def counting demo_open_def app_with_settlement_def)
  have c: "api_command_id (oq_command_id demo_bid_request) = Inr (CommandId 4)"
    by (simp add: api_command_id_def demo_bid_request_def command_id_new_def)
  obtain s1 where s1: "send_command noop_append (CmdPlaceOrder (Some ''r6'') (CommandId 4) demo_taker) ?s =
      (Inr (ReplyOrderPlaced [demo_fill]), s1)" "sv_settlement s1 = sv_settlement demo_open" "sv_bridge s1 = Some demo_bridge"
    using a demo_bid_event
    by (simp add: send_command_def handle_command_def persist_and_apply_def noop_append_def settle_metrics_def counting
        demo_open_def app_with_settlement_def spawn_from_app_def)
  have q: "queue_settlement_requests demo_env demo_codec no_fault (Some demo_bridge) 4 demo_taker [demo_fill]
      (sv_settlement demo_open) = record_settlement_requests_queued 1 ((sv_settlement demo_open)
        \<lparr>sw_edge := demo_edge\<lparr>es_next_settlement_id := 2, es_queued := [demo_request]\<rparr>\<rparr>)"
  proof -
    have al: "allocate_settlement_ids 1 demo_edge = (Inr (Some 1), demo_edge\<lparr>es_next_settlement_id := 2\<rparr>)"
      by (simp add: allocate_settlement_ids_def demo_edge_def checked_add_code)
    have "signed_order_lookup (demo_edge\<lparr>es_next_settlement_id := 2\<rparr>) = signed_order_lookup demo_edge"
      by (auto simp: signed_order_lookup_def)
    moreover have "requests_from_batch demo_env demo_bridge (batch_from_order_fills (CommandId 4) demo_taker [demo_fill])
        (signed_order_lookup demo_edge) 1 = Inr [demo_request]"
      using demo_bridged by (simp add: requests_from_batch_def)
    ultimately show ?thesis using al
      by (simp add: queue_settlement_requests_def demo_open_def Let_def command_id_new_def queue_settlements_def)
        (simp add: demo_edge_def)
  qed
  have "http_place_order demo_local_env ''r6'' (Some ''key'') demo_bid_request ?s =
      (Inr [fill_response_of demo_fill], (record_order_accepted s1)\<lparr>sv_settlement :=
         queue_settlement_requests demo_env demo_codec no_fault (Some demo_bridge) 4 demo_taker [demo_fill]
           (sv_settlement demo_open)\<rparr>)"
    using place_order_answer [of "Some ''key''" ?s demo_bid_request demo_taker "CommandId 4" demo_local_env "''r6''"]
      k c s1 demo_bid_order
    by (simp add: demo_local_env_def) (simp add: demo_bid_request_def)
  then show ?thesis
    by (simp add: handle_request_def route_def answer_def q record_settlement_requests_queued_def)
qed


text \<open>The service on an empty database serves a deposit.\<close>

definition demo_db :: "(deposit_payload + order_placed_payload, request_json) database" where
  "demo_db = \<lparr>db_fault = None, db_rows = [], db_faults = [], db_outbox = demo_outbox\<rparr>"

definition demo_pg_env :: "((deposit_payload + order_placed_payload) pg_journal, request_json) service_env" where
  "demo_pg_env = \<lparr>se_put = pg_append plain_serde, se_env = demo_env, se_codec = demo_codec, se_fault = no_fault\<rparr>"

definition demo_deposit :: http_request where
  "demo_deposit = PostDeposits \<lparr>dq_command_id = 1, dq_trader_id = 7, dq_asset_id = 2, dq_amount = 100\<rparr>"

definition demo_command :: "string \<Rightarrow> market_command" where
  "demo_command rid = CmdCreditDeposit (Some rid) (CommandId 1) (TraderId 7) (AssetId 2) (BalanceAmount 100)"

definition demo_pg :: "((deposit_payload + order_placed_payload) pg_journal, request_json) service" where
  "demo_pg = app_with_relayer market_sol_usdc ReadyPostgres JournalPostgres default_market
     (spawn_from_app (app_new default_market) \<lparr>pg_rows = [], pg_faults = []\<rparr>) None RelayerDisabled
     (Some demo_outbox)"

lemma demo_boot: "app_with_postgres plain_serde demo_db None RelayerDisabled = Inr demo_pg"
  by (simp add: demo_pg_def app_with_postgres_def demo_db_def journal_read_all_def replay_def)

lemma demo_db_reach: "db_reach plain_serde demo_db"
  by (rule db_reach.empty) (simp add: demo_db_def)

text \<open>The actor after the deposit.\<close>

definition demo_paid :: "(deposit_payload + order_placed_payload) pg_journal actor" where
  "demo_paid = snd (handle_command (pg_append plain_serde) (demo_command ''r1'')
     \<lparr>act_app = app_new default_market, act_journal = \<lparr>pg_rows = [], pg_faults = []\<rparr>,
      act_metrics = record_command_received metrics_default\<rparr>)"

lemma demo_paid_reply:
  "handle_command (pg_append plain_serde) (demo_command ''r1'')
     \<lparr>act_app = app_new default_market, act_journal = \<lparr>pg_rows = [], pg_faults = []\<rparr>,
      act_metrics = record_command_received metrics_default\<rparr> = ((Inr ReplyDepositCredited, False), demo_paid)"
proof -
  have "fst (handle_command (pg_append plain_serde) (demo_command ''r1'')
     \<lparr>act_app = app_new default_market, act_journal = \<lparr>pg_rows = [], pg_faults = []\<rparr>,
      act_metrics = record_command_received metrics_default\<rparr>) = (Inr ReplyDepositCredited, False)"
    by code_simp
  then show ?thesis unfolding demo_paid_def by (metis prod.collapse)
qed

lemma demo_paid_seen: "CommandId 1 \<in> app_seen (act_app demo_paid)"
  by code_simp

lemma demo_deposit_sent:
  assumes "sv_api_key s = None" and "se_put E = put"
  shows "send_command put (demo_command rid) (record_http_request s) = (Inr ReplyDepositCredited, s1) \<Longrightarrow>
      handle_request E rid None demo_deposit s = (DepositAccepted True, record_deposit_accepted s1)"
    and "send_command put (demo_command rid) (record_http_request s) = (Inl e, s1) \<Longrightarrow>
      handle_request E rid None demo_deposit s = (ErrorAnswer (api_error_of_app e), count_api_error s1)"
proof -
  have a: "authorize_api_key None (record_http_request s) = Inr ()"
    using assms(1) by (simp add: authorize_api_key_def counting)
  have h: "handle_request E rid None demo_deposit s =
      answer DepositAccepted (and_handle (call_actor E (demo_command rid)) (\<lambda>reply s.
       case reply of
         ReplyDepositCredited \<Rightarrow> (Inr True, record_deposit_accepted s)
       | _ \<Rightarrow> (Inl (Internal ''unexpected deposit reply''), s)) (record_http_request s))"
    by (simp add: handle_request_def route_def demo_deposit_def http_credit_deposit_def handling a demo_command_def
        api_command_id_def command_id_new_def api_trader_id_def api_asset_id_def newtype_new_defs non_zero_new_def)
  show "send_command put (demo_command rid) (record_http_request s) = (Inr ReplyDepositCredited, s1) \<Longrightarrow>
      handle_request E rid None demo_deposit s = (DepositAccepted True, record_deposit_accepted s1)"
    "send_command put (demo_command rid) (record_http_request s) = (Inl e, s1) \<Longrightarrow>
      handle_request E rid None demo_deposit s = (ErrorAnswer (api_error_of_app e), count_api_error s1)"
    using assms(2) by (simp_all add: h and_handle_def call_actor_def record_api_error_def answer_def)
qed

definition demo_served :: "((deposit_payload + order_placed_payload) pg_journal, request_json) service" where
  "demo_served = record_deposit_accepted ((record_http_request demo_pg)\<lparr>sv_actor := demo_paid\<rparr>)"

lemma demo_pg_put: "se_put demo_pg_env = pg_append plain_serde"
  by (simp add: demo_pg_env_def)

lemma demo_serve:
  "serve demo_pg_env [(''r1'', None, demo_deposit)] demo_pg = ([DepositAccepted True], demo_served)"
proof -
  have "send_command (pg_append plain_serde) (demo_command ''r1'') (record_http_request demo_pg) =
      (Inr ReplyDepositCredited, (record_http_request demo_pg)\<lparr>sv_actor := demo_paid\<rparr>)"
    using demo_paid_reply
    by (simp add: send_command_def counting demo_pg_def app_with_relayer_def app_with_settlement_def spawn_from_app_def count_def)
  from demo_deposit_sent(1) [OF _ demo_pg_put this] show ?thesis
    by (simp add: demo_served_def demo_pg_def app_with_relayer_def app_with_settlement_def)
qed

lemma demo_again:
  "\<exists>s'. handle_request demo_pg_env ''r2'' None demo_deposit demo_served =
     (ErrorAnswer (Conflict ''duplicate command''), s')"
proof -
  have s: "sv_api_key demo_served = None" "\<not> sv_closed demo_served" "sv_actor demo_served = demo_paid"
    by (simp_all add: demo_served_def counting demo_pg_def app_with_relayer_def app_with_settlement_def count_def)
  have "\<exists>s1. send_command (pg_append plain_serde) (demo_command ''r2'') (record_http_request demo_served) =
      (Inl DuplicateCommand, s1)"
    using s demo_paid_seen
    by (simp add: send_command_def counting handle_command_def demo_command_def credit_deposit_event_def reject_duplicate_def)
  then obtain s1 where "send_command (pg_append plain_serde) (demo_command ''r2'') (record_http_request demo_served) =
      (Inl DuplicateCommand, s1)" by blast
  from demo_deposit_sent(2) [OF s(1) demo_pg_put this] show ?thesis by simp
qed

lemma client_errors_inert_witness:
  "\<exists>s'. handle_request demo_pg_env ''r2'' None demo_deposit demo_served =
      (ErrorAnswer (Conflict ''duplicate command''), s') \<and>
    act_journal (sv_actor s') = act_journal (sv_actor demo_served)"
proof -
  obtain s' where s': "handle_request demo_pg_env ''r2'' None demo_deposit demo_served =
      (ErrorAnswer (Conflict ''duplicate command''), s')" using demo_again by blast
  from client_errors_inert [OF plain_serde_ok demo_db_reach demo_boot demo_pg_put demo_serve s'] s'
  show ?thesis by simp
qed

lemma service_survives_restarts_witness:
  "\<exists>s1. app_with_postgres plain_serde (demo_db\<lparr>db_rows := pg_rows (act_journal (sv_actor demo_served))\<rparr>) None
      RelayerDisabled = Inr s1 \<and> act_app (sv_actor s1) = act_app (sv_actor demo_served)"
proof -
  let ?db = "demo_db\<lparr>db_rows := pg_rows (act_journal (sv_actor demo_served))\<rparr>"
  have "\<not> sv_closed demo_served"
    by (simp add: demo_served_def counting demo_pg_def app_with_relayer_def app_with_settlement_def count_def)
  then show ?thesis
    using service_survives_restarts [OF plain_serde_ok demo_db_reach demo_boot demo_pg_put demo_serve,
        of ?db None RelayerDisabled]
    by (simp add: demo_db_def)
qed

end
