(* ===== verification/Service_Edge.thy ===== *)
theory Service_Edge
  imports Service_Guarantees
begin

text \<open>
  The edges of \<open>services/exchange-service/src/lib.rs\<close>: how \<open>main\<close> starts the service from its
  environment, with the texts of the errors it may end with, and the middleware that gives every
  request an id.  Reading an address, binding a listener and connecting to a database are
  parameters, and so are the two conversions of header values.
\<close>

section \<open>Errors of the start\<close>

fun persistence_error_text :: "persistence_error \<Rightarrow> string" where
  "persistence_error_text (PApplication e) = app_error_text e"
| "persistence_error_text (PDomain e) = domain_error_text e"
| "persistence_error_text (Serde e) = ''serde error: '' @ e"
| "persistence_error_text (Sql e) = ''sql error: '' @ e"
| "persistence_error_text (UnknownEventType t) = ''unknown event type: '' @ t"

fun startup_error_text :: "startup_error \<Rightarrow> string" where
  "startup_error_text (Config e) = ''configuration startup failed: '' @ e"
| "startup_error_text (PersistenceStartup e) = ''persistence startup failed: '' @ persistence_error_text e"
| "startup_error_text (ApplicationStartup e) = ''application replay failed: '' @ app_error_text e"

section \<open>Building the service\<close>

definition app_with_actor_api_key_and_relayer ::
  "string \<Rightarrow> ready_boot_mode \<Rightarrow> journal_mode \<Rightarrow> market_spec \<Rightarrow> 'k actor \<Rightarrow> string option
    \<Rightarrow> relayer_boot_config \<Rightarrow> ('k, 'j) service" where
  "app_with_actor_api_key_and_relayer market_id mode journal market actor api_key relayer =
     app_with_relayer market_id mode journal market actor api_key relayer None"

definition app_with_actor_and_api_key ::
  "string \<Rightarrow> ready_boot_mode \<Rightarrow> journal_mode \<Rightarrow> market_spec \<Rightarrow> 'k actor \<Rightarrow> string option
    \<Rightarrow> ('k, 'j) service" where
  "app_with_actor_and_api_key market_id mode journal market actor api_key =
     app_with_actor_api_key_and_relayer market_id mode journal market actor api_key RelayerDisabled"

definition app_with_actor ::
  "string \<Rightarrow> ready_boot_mode \<Rightarrow> journal_mode \<Rightarrow> market_spec \<Rightarrow> 'k actor \<Rightarrow> ('k, 'j) service" where
  "app_with_actor market_id mode journal market actor =
     app_with_actor_and_api_key market_id mode journal market actor None"

definition app_with_actor_api_key_and_settlement ::
  "string \<Rightarrow> ready_boot_mode \<Rightarrow> journal_mode \<Rightarrow> market_spec \<Rightarrow> 'k actor \<Rightarrow> string option
    \<Rightarrow> settlement_bridge option \<Rightarrow> ('k, 'j) service" where
  "app_with_actor_api_key_and_settlement market_id mode journal market actor api_key bridge =
     app_with_settlement market_id mode journal market actor api_key bridge None"

definition app :: "(unit, 'j) service" where
  "app = app_with_actor market_sol_usdc ReadyLocal JournalNoop default_market
     (spawn_from_app (app_new default_market) ())"

text \<open>\<open>Router\<close> hides the journal of the actor; the two modes are a sum here.  \<open>connect\<close> gives the
  database behind an URL.\<close>

type_synonym ('r, 'j) running = "(unit, 'j) service + ('r pg_journal, 'j) service"

definition app_with_postgres_url ::
  "'r serde \<Rightarrow> (string \<Rightarrow> ('r, 'j) database) \<Rightarrow> string
    \<Rightarrow> (startup_error, ('r pg_journal, 'j) service) result" where
  "app_with_postgres_url S connect url = app_with_postgres S (connect url) None RelayerDisabled"

definition app_from_config ::
  "'r serde \<Rightarrow> (string \<Rightarrow> ('r, 'j) database) \<Rightarrow> boot_config \<Rightarrow> (startup_error, ('r, 'j) running) result" where
  "app_from_config S connect config =
     (case bc_mode config of
        BootLocal \<Rightarrow> Inr (Inl (app_local (bc_api_key config) (bc_relayer config)))
      | BootPostgres \<Rightarrow>
          and_then (ok_or (bc_database_url config) (Config ''DATABASE_URL is required'')) (\<lambda>url.
          and_then (app_with_postgres S (connect url) (bc_api_key config) (bc_relayer config)) (\<lambda>s.
            Inr (Inr s))))"

definition app_from_env ::
  "'r serde \<Rightarrow> (string \<Rightarrow> ('r, 'j) database) \<Rightarrow> boot_env \<Rightarrow> (startup_error, ('r, 'j) running) result" where
  "app_from_env S connect B = and_then (boot_config_from_env B) (app_from_config S connect)"

definition http_addr_from_value ::
  "(string \<Rightarrow> (string, 'a) result) \<Rightarrow> string option \<Rightarrow> (startup_error, 'a) result" where
  "http_addr_from_value parse v =
     map_err (\<lambda>e. Config (''invalid EXCHANGE_HTTP_ADDR: '' @ e))
       (parse (case v of None \<Rightarrow> ''127.0.0.1:3000'' | Some l \<Rightarrow> l))"

definition http_addr_from_env ::
  "(string \<Rightarrow> (string, 'a) result) \<Rightarrow> boot_env \<Rightarrow> (startup_error, 'a) result" where
  "http_addr_from_env parse B = http_addr_from_value parse (be_var B ''EXCHANGE_HTTP_ADDR'')"

text \<open>\<open>main\<close>: the listener is bound before the service is built; both kinds of errors end the process.\<close>

datatype main_error = StartupFailed startup_error | BindFailed string

definition exchange_main ::
  "'r serde \<Rightarrow> (string \<Rightarrow> ('r, 'j) database) \<Rightarrow> (string \<Rightarrow> (string, 'a) result) \<Rightarrow> ('a \<Rightarrow> (string, 'l) result)
    \<Rightarrow> boot_env \<Rightarrow> (main_error, 'l \<times> ('r, 'j) running) result" where
  "exchange_main S connect parse bind B =
     and_then (map_err StartupFailed (http_addr_from_env parse B)) (\<lambda>addr.
     and_then (map_err BindFailed (bind addr)) (\<lambda>listener.
     and_then (map_err StartupFailed (app_from_env S connect B)) (\<lambda>service.
       Inr (listener, service))))"

section \<open>What the environment decides\<close>

lemma app_is_local: "app = app_local None RelayerDisabled"
  by (simp add: app_def app_with_actor_def app_with_actor_and_api_key_def app_with_actor_api_key_and_relayer_def
      app_local_def)

lemma mode_from_values:
  "boot_config_from_values mv url key = Inr c \<Longrightarrow>
     bc_mode c = BootPostgres \<Longrightarrow> \<exists>l. url = Some l \<and> bc_database_url c = Some l"
  by (auto simp: boot_config_from_values_def checked_ok split: if_splits option.splits)

lemma config_from_env:
  "boot_config_from_env B = Inr c \<Longrightarrow>
     \<exists>c0. boot_config_from_values (be_var B ''EXCHANGE_BOOT_MODE'') (be_var B ''DATABASE_URL'')
       (be_var B ''EXCHANGE_API_KEY'') = Inr c0 \<and> relayer_config_from_env B = Inr (bc_relayer c) \<and>
       bc_mode c = bc_mode c0 \<and> bc_database_url c = bc_database_url c0 \<and> bc_api_key c = bc_api_key c0"
  by (auto simp: boot_config_from_env_def checked_ok)

text \<open>A configuration that was read from the environment never fails for want of an URL.\<close>

lemma database_url_checked_once:
  assumes "boot_config_from_env B = Inr c"
  shows "app_from_config S connect c \<noteq> Inl (Config msg)"
proof (cases "bc_mode c")
  case BootPostgres
  with config_from_env [OF assms] mode_from_values obtain l where "bc_database_url c = Some l" by metis
  moreover have "app_with_postgres S (connect l) (bc_api_key c) (bc_relayer c) \<noteq> Inl (Config msg)"
    by (auto simp: app_with_postgres_def checked_err split: option.splits)
  ultimately show ?thesis by (auto simp: app_from_config_def BootPostgres ok_or_def checked_err)
qed (simp add: app_from_config_def)

text \<open>Without the database the start depends on the environment alone, and the market is empty.\<close>

lemma local_start:
  assumes "boot_config_from_env B = Inr c" and "bc_mode c = BootLocal"
  shows "app_from_env S connect B = Inr (Inl (app_local (bc_api_key c) (bc_relayer c)))"
    and "app_reach default_market (act_app (sv_actor (app_local (bc_api_key c) (bc_relayer c))))"
  using assms app_reach.start [of default_market]
  by (simp_all add: app_from_env_def app_from_config_def app_local_def app_with_relayer_def app_with_settlement_def
      spawn_from_app_def)

text \<open>On a database that earlier lives left behind the start succeeds or ends with the text of a
  replay that failed.\<close>

lemma postgres_start:
  assumes "serde_ok S" and "db_reach S (connect url)" and "db_fault (connect url) = None"
    and "boot_config_from_env B = Inr c" and "bc_mode c = BootPostgres" and "bc_database_url c = Some url"
  shows "(\<exists>s. app_from_env S connect B = Inr (Inr s) \<and> pg.service_sound S default_market s) \<or>
    (\<exists>e. app_from_env S connect B = Inl (ApplicationStartup e))"
  using db_reach_sound [OF assms(1,2)]
proof (elim exE disjE)
  fix app1
  assume "rows_sound S app1 (db_rows (connect url))"
  from boot_sound [OF assms(1) this assms(3), of "bc_api_key c" "bc_relayer c"] assms(4-6) show ?thesis
    by (auto simp: app_from_env_def app_from_config_def ok_or_def)
next
  fix app1
  assume "rows_poisoned S app1 (db_rows (connect url))"
  from boot_poisoned [OF assms(1) this assms(3), of "bc_api_key c" "bc_relayer c"] assms(4-6) show ?thesis
    by (auto simp: app_from_env_def app_from_config_def ok_or_def)
qed

section \<open>Request ids\<close>

text \<open>\<open>HeaderValue::to_str\<close> and \<open>HeaderValue::from_str\<close> of the web framework.\<close>

record 'h header_lib =
  hl_to_str :: "'h \<Rightarrow> string option"
  hl_from_str :: "string \<Rightarrow> 'h option"

text \<open>The counter of the process starts at 1.\<close>

definition request_counter_start :: u64 where "request_counter_start = 1"

definition request_id_generated :: "nat \<Rightarrow> u64 \<Rightarrow> string \<times> u64" where
  "request_id_generated pid counter =
     (''req-'' @ decimal pid @ ''-'' @ decimal (unat counter), counter + 1)"

definition request_id_from_header :: "'h header_lib \<Rightarrow> 'h \<Rightarrow> string option" where
  "request_id_from_header H v =
     (case hl_to_str H v of None \<Rightarrow> None | Some l \<Rightarrow> if l = [] then None else Some l)"

text \<open>The id of a request, and the counter after it.\<close>

definition request_id :: "'h header_lib \<Rightarrow> nat \<Rightarrow> 'h option \<Rightarrow> u64 \<Rightarrow> string \<times> u64" where
  "request_id H pid header counter =
     (case Option.bind header (request_id_from_header H) of
        Some l \<Rightarrow> (l, counter)
      | None \<Rightarrow> request_id_generated pid counter)"

text \<open>\<open>next\<close> is the rest of the router, for the id; the answer carries a header when the id makes one.\<close>

definition request_id_middleware ::
  "'h header_lib \<Rightarrow> nat \<Rightarrow> (string \<Rightarrow> 's \<Rightarrow> 'x \<times> 's) \<Rightarrow> 'h option \<Rightarrow> u64 \<times> 's
    \<Rightarrow> ('x \<times> 'h option) \<times> u64 \<times> 's" where
  "request_id_middleware H pid rest header = (\<lambda>(counter, s).
     case request_id H pid header counter of
       (rid, counter1) \<Rightarrow> (case rest rid s of (x, s1) \<Rightarrow> ((x, hl_from_str H rid), counter1, s1)))"

definition handle_http ::
  "'h header_lib \<Rightarrow> nat \<Rightarrow> ('k, 'j) service_env \<Rightarrow> 'h option \<times> string option \<times> http_request
    \<Rightarrow> u64 \<times> ('k, 'j) service \<Rightarrow> (http_response \<times> 'h option) \<times> u64 \<times> ('k, 'j) service" where
  "handle_http H pid E = (\<lambda>(id_header, key_header, req).
     request_id_middleware H pid (\<lambda>rid. handle_request E rid key_header req) id_header)"

fun serve_http ::
  "'h header_lib \<Rightarrow> nat \<Rightarrow> ('k, 'j) service_env \<Rightarrow> ('h option \<times> string option \<times> http_request) list
    \<Rightarrow> u64 \<times> ('k, 'j) service \<Rightarrow> (http_response \<times> 'h option) list \<times> u64 \<times> ('k, 'j) service" where
  "serve_http H pid E [] cs = ([], cs)"
| "serve_http H pid E (req # reqs) cs =
     (case handle_http H pid E req cs of
        (x, cs1) \<Rightarrow> (case serve_http H pid E reqs cs1 of (xs, cs2) \<Rightarrow> (x # xs, cs2)))"

text \<open>The ids of a sequence of requests.\<close>

fun request_ids :: "'h header_lib \<Rightarrow> nat \<Rightarrow> 'h option list \<Rightarrow> u64 \<Rightarrow> string list" where
  "request_ids H pid [] counter = []"
| "request_ids H pid (h # hs) counter =
     (case request_id H pid h counter of (rid, counter1) \<Rightarrow> rid # request_ids H pid hs counter1)"

definition client_id :: "'h header_lib \<Rightarrow> 'h option \<Rightarrow> string option" where
  "client_id H header = Option.bind header (request_id_from_header H)"

lemma request_id_client: "client_id H header = Some l \<Longrightarrow> request_id H pid header n = (l, n)"
  by (simp add: client_id_def request_id_def)

lemma request_id_fresh:
  "client_id H header = None \<Longrightarrow> request_id H pid header n = request_id_generated pid n"
  by (simp add: client_id_def request_id_def)

lemma length_request_ids [simp]: "length (request_ids H pid hs n) = length hs"
  by (induction H pid hs n rule: request_ids.induct) (auto split: prod.split)

lemma decimal_inject [simp]: "decimal m = decimal n \<longleftrightarrow> m = n"
  by (metis decimal_value_decimal)

text \<open>A generated id is one of a counter value that this part of the run goes through.\<close>

lemma generated_ids:
  assumes "unat n + length hs < 2 ^ 64" and "i < length hs" and "client_id H (hs ! i) = None"
  shows "\<exists>k. request_ids H pid hs n ! i = ''req-'' @ decimal pid @ ''-'' @ decimal k \<and>
    unat n \<le> k \<and> k = unat n + length (filter (\<lambda>h. client_id H h = None) (take i hs))"
  using assms
proof (induction hs arbitrary: i n)
  case (Cons h hs)
  show ?case
  proof (cases "client_id H h")
    case None
    have n: "unat (n + 1) = Suc (unat n)" using Cons.prems(1) by (simp add: unat_word_ariths)
    with Cons.IH [of "n + 1" "i - 1"] Cons.prems None show ?thesis
      by (cases i) (auto simp: request_id_fresh request_id_generated_def)
  next
    case (Some l)
    with Cons.IH [of n "i - 1"] Cons.prems show ?thesis by (cases i) (auto simp: request_id_client)
  qed
qed simp

text \<open>The ids that clients sent are kept, and no two requests of a process get the same generated id.\<close>

lemma request_ids_identify:
  assumes "length hs < 2 ^ 64 - 1" and "i < length hs"
  shows "client_id H (hs ! i) = Some l \<Longrightarrow> request_ids H pid hs n ! i = l"
    and "client_id H (hs ! i) = None \<Longrightarrow> k < i \<Longrightarrow> client_id H (hs ! k) = None \<Longrightarrow>
      request_ids H pid hs request_counter_start ! i \<noteq> request_ids H pid hs request_counter_start ! k"
proof -
  show "request_ids H pid hs n ! i = l" if "client_id H (hs ! i) = Some l"
    using assms(2) that
  proof (induction hs arbitrary: i n)
    case (Cons h hs)
    then show ?case by (cases i) (auto simp: request_id_client split: prod.split)
  qed simp
next
  assume none: "client_id H (hs ! i) = None" "client_id H (hs ! k) = None" and k: "k < i"
  let ?P = "\<lambda>h. client_id H h = None"
  have "take i hs = take k hs @ hs ! k # drop (Suc k) (take i hs)"
    using id_take_nth_drop [of k "take i hs"] k assms(2) by (simp add: min_absorb1)
  then have "filter ?P (take i hs) = filter ?P (take k hs @ hs ! k # drop (Suc k) (take i hs))" by (rule arg_cong)
  then have "length (filter ?P (take i hs)) > length (filter ?P (take k hs))" by (simp add: none(2))
  moreover have n: "unat request_counter_start + length hs < 2 ^ 64" using assms(1) by (simp add: request_counter_start_def)
  from generated_ids [OF n assms(2) none(1), of pid] generated_ids [OF n less_trans [OF k assms(2)] none(2), of pid]
  obtain a b where "request_ids H pid hs request_counter_start ! i = ''req-'' @ decimal pid @ ''-'' @ decimal a"
    "request_ids H pid hs request_counter_start ! k = ''req-'' @ decimal pid @ ''-'' @ decimal b"
    "a = unat request_counter_start + length (filter ?P (take i hs))"
    "b = unat request_counter_start + length (filter ?P (take k hs))" by blast
  ultimately show "request_ids H pid hs request_counter_start ! i \<noteq> request_ids H pid hs request_counter_start ! k"
    by simp
qed

section \<open>The service behind the middleware\<close>

text \<open>The answers and the state are those of \<open>serve\<close>; each answer carries the id of its request.\<close>

lemma serve_http_refines:
  "serve_http H pid E reqs (n, s) = (ys, n', s') \<Longrightarrow>
     \<exists>xs. serve E (zip (request_ids H pid (map fst reqs) n) (map snd reqs)) s = (xs, s') \<and>
       ys = zip xs (map (hl_from_str H) (request_ids H pid (map fst reqs) n))"
proof (induction reqs arbitrary: n s ys)
  case (Cons req reqs)
  obtain h key r where req: "req = (h, key, r)" by (cases req)
  obtain rid n1 where i: "request_id H pid h n = (rid, n1)" by fastforce
  obtain x s1 where h: "handle_request E rid key r s = (x, s1)" by fastforce
  obtain zs where t: "serve_http H pid E reqs (n1, s1) = (zs, n', s')" and ys: "ys = (x, hl_from_str H rid) # zs"
    using Cons.prems by (auto simp: req handle_http_def request_id_middleware_def i h split: prod.splits)
  from Cons.IH [OF t] show ?case by (auto simp: req i h ys)
qed simp

text \<open>Ids only reach the log: a request is answered and handled the same under any other id.\<close>

lemma handle_command_anonymous:
  "handle_command put (CmdCreditDeposit rid c t a v) = handle_command put (CmdCreditDeposit rid' c t a v)"
  "handle_command put (CmdPlaceOrder rid c x) = handle_command put (CmdPlaceOrder rid' c x)"
  "handle_command put (CmdSnapshot rid) = handle_command put (CmdSnapshot rid')"
  by (simp_all add: handle_command_def fun_eq_iff)

lemma call_anonymous:
  "call_actor E (CmdCreditDeposit rid c t a v) = call_actor E (CmdCreditDeposit rid' c t a v)"
  "call_actor E (CmdPlaceOrder rid c x) = call_actor E (CmdPlaceOrder rid' c x)"
  "actor_snapshot E r = actor_snapshot E r'"
  by (simp_all add: call_actor_def actor_snapshot_def send_command_def fun_eq_iff
      handle_command_anonymous(1) [of _ rid _ _ _ _ rid'] handle_command_anonymous(2) [of _ rid _ _ rid']
      handle_command_anonymous(3) [of _ "Some r" "Some r'"])

lemma request_id_irrelevant: "handle_request E rid header req = handle_request E rid' header req"
  by (cases req)
    (simp_all add: fun_eq_iff handle_request_def route_def http_ready_def http_snapshot_def http_credit_deposit_def
      http_place_order_def call_anonymous(1) [of _ "Some rid" _ _ _ _ "Some rid'"]
      call_anonymous(2) [of _ "Some rid" _ _ "Some rid'"] call_anonymous(3) [of E rid rid'] cong: if_cong)

lemma serve_ids_irrelevant:
  "length ids = length reqs \<Longrightarrow> length ids' = length reqs \<Longrightarrow> serve E (zip ids reqs) s = serve E (zip ids' reqs) s"
proof (induction reqs arbitrary: ids ids' s)
  case (Cons req reqs)
  then obtain i js i' js' where "ids = i # js" "ids' = i' # js'" by (metis length_Suc_conv)
  moreover obtain key r where "req = (key, r)" by (cases req)
  moreover have "serve E (zip js reqs) s1 = serve E (zip js' reqs) s1" for s1
    using Cons.IH [of js js' s1] Cons.prems calculation by simp
  ultimately show ?case by (simp add: request_id_irrelevant [of E i key r i'])
qed simp

end
