(* ===== verification/Settlement_Tasks.thy ===== *)
theory Settlement_Tasks
  imports Settlement_Liveness "HOL-Library.Multiset"
begin

text \<open>
  The settlement side of \<open>services/exchange-service/src/lib.rs\<close> under concurrency.  Every accepted
  order runs \<open>queue_settlement_requests\<close> in the task of its request, beside the tasks of other
  requests and the worker.  A task is cut where others can come between: the atomic allocation of
  the ids, the lookups of the signed orders of each fill, the extension of the queue under its lock
  or one \<open>INSERT\<close> for each row, the counter.  Each lookup takes the lock for itself, so the bridge
  may see signed orders of different moments: the loop of \<open>requests_from_batch\<close> is cut at every
  fill, and each of these steps is told what its two lookups find.
\<close>

section \<open>Tasks\<close>

datatype queue_task =
    Allocating u128 limit_order "fill list"
  | Bridging u64 u128 limit_order "fill list"
  | Requesting u64 nat "settlement_intent list" "settlement_request list"
  | Inserting nat "settlement_request list"
  | Counting nat
  | Finished

text \<open>One step of a task; the third part of the result are the requests that the step has queued.\<close>

fun advance_task ::
  "anchor_env \<Rightarrow> 'j outbox_codec \<Rightarrow> fault \<Rightarrow> settlement_bridge \<Rightarrow> (order_id \<Rightarrow> bridge_signed_order option)
    \<Rightarrow> queue_task \<Rightarrow> 'j settlement_world \<Rightarrow> queue_task \<times> 'j settlement_world \<times> settlement_request list" where
  "advance_task env c fault bridge lookup (Allocating command taker fills) w =
     (if fills = [] then (Finished, w, [])
      else
        (case allocate_settlement_ids (length fills) (sw_edge w) of
           (Inr (Some first), edge1) \<Rightarrow> (Bridging first command taker fills, w\<lparr>sw_edge := edge1\<rparr>, [])
         | (_, edge1) \<Rightarrow> (Finished, w\<lparr>sw_edge := edge1\<rparr>, [])))"
| "advance_task env c fault bridge lookup (Bridging first command taker fills) w =
     (case command_id_new command of
        Inl _ \<Rightarrow> (Finished, w, [])
      | Inr command_id \<Rightarrow>
          (Requesting first 0 (sb_intents (batch_from_order_fills command_id taker fills)) [], w, []))"
| "advance_task env c fault bridge lookup (Requesting first index (i # is) qs) w =
     (case request_of_intent env bridge lookup first index i of
        Inl _ \<Rightarrow> (Finished, w, [])
      | Inr q \<Rightarrow> (Requesting first (Suc index) is (qs @ [q]), w, []))"
| "advance_task env c fault bridge lookup (Requesting first index [] qs) w =
     (case sw_outbox w of
        Some _ \<Rightarrow> (Inserting (length qs) qs, w, [])
      | None \<Rightarrow> (Counting (length qs), w\<lparr>sw_edge := queue_settlements qs (sw_edge w)\<rparr>, qs))"
| "advance_task env c fault bridge lookup (Inserting n []) w = (Counting n, w, [])"
| "advance_task env c fault bridge lookup (Inserting n (q # qs)) w =
     (case sw_outbox w of
        None \<Rightarrow> (Finished, w, [])
      | Some t \<Rightarrow>
          (case map_err Serde (oc_to_json c (json_of_request c q)) of
             Inl e \<Rightarrow> (Finished, w, [])
           | Inr payload \<Rightarrow>
               (case statement fault (insert_row payload) t of
                  (Inl e, t1) \<Rightarrow> (Finished, w\<lparr>sw_outbox := Some t1\<rparr>, [])
                | (Inr _, t1) \<Rightarrow> (Inserting n qs, w\<lparr>sw_outbox := Some t1\<rparr>, [q]))))"
| "advance_task env c fault bridge lookup (Counting n) w = (Finished, record_settlement_requests_queued n w, [])"
| "advance_task env c fault bridge lookup Finished w = (Finished, w, [])"

section \<open>The service and its worker\<close>

text \<open>\<open>qg_log\<close> and \<open>qg_done\<close> only observe: all requests queued so far, and the items the worker is
  done with.\<close>

record ('j, 's) queueing =
  qg_tasks :: "queue_task list"
  qg_world :: "'j settlement_world"
  qg_work :: "work_item list"
  qg_done :: "work_item list"
  qg_submitter :: 's
  qg_log :: "settlement_request list"

datatype queue_event =
    OrderAnswered u128 limit_order "fill list"
  | Advance nat "order_id \<Rightarrow> bridge_signed_order option"
  | Register order_id bridge_signed_order
  | Claim
  | Process

definition queue_event ::
  "anchor_env \<Rightarrow> client_env \<Rightarrow> (submission_error \<Rightarrow> string) \<Rightarrow> 'j outbox_codec \<Rightarrow> fault \<Rightarrow> settlement_bridge
    \<Rightarrow> 's submitter \<Rightarrow> queue_event \<Rightarrow> ('j, 's) queueing \<Rightarrow> ('j, 's) queueing" where
  "queue_event env cl et c fault bridge submit ev g =
     (case ev of
        OrderAnswered command taker fills \<Rightarrow> g\<lparr>qg_tasks := qg_tasks g @ [Allocating command taker fills]\<rparr>
      | Advance k lookup \<Rightarrow>
          if k < length (qg_tasks g)
          then
            (case advance_task env c fault bridge lookup (qg_tasks g ! k) (qg_world g) of
               (task, w, qs) \<Rightarrow> g\<lparr>qg_tasks := (qg_tasks g)[k := task], qg_world := w, qg_log := qg_log g @ qs\<rparr>)
          else g
      | Register i so \<Rightarrow>
          g\<lparr>qg_world := (qg_world g)\<lparr>sw_edge := snd (store_signed_order i so (sw_edge (qg_world g)))\<rparr>\<rparr>
      | Claim \<Rightarrow>
          if qg_work g = []
          then (case claim_settlement_work c fault (qg_world g) of (work, w) \<Rightarrow> g\<lparr>qg_work := work, qg_world := w\<rparr>)
          else g
      | Process \<Rightarrow>
          (case qg_work g of
             [] \<Rightarrow> g
           | item # work \<Rightarrow>
               (case process_item cl et fault submit item (qg_world g, qg_submitter g) of
                  (w, s) \<Rightarrow> g\<lparr>qg_work := work, qg_done := qg_done g @ [item], qg_world := w, qg_submitter := s\<rparr>)))"

definition queue_run ::
  "anchor_env \<Rightarrow> client_env \<Rightarrow> (submission_error \<Rightarrow> string) \<Rightarrow> 'j outbox_codec \<Rightarrow> fault \<Rightarrow> settlement_bridge
    \<Rightarrow> 's submitter \<Rightarrow> queue_event list \<Rightarrow> ('j, 's) queueing \<Rightarrow> ('j, 's) queueing" where
  "queue_run env cl et c fault bridge submit evs g = fold (queue_event env cl et c fault bridge submit) evs g"

text \<open>A fresh process, on an empty outbox if it has one.\<close>

definition queue_start :: "bool \<Rightarrow> 's \<Rightarrow> ('j, 's) queueing" where
  "queue_start database s =
     \<lparr>qg_tasks = [],
      qg_world = \<lparr>sw_edge = edge_default,
        sw_outbox = (if database then Some \<lparr>ot_statements = 0, ot_next_id = 1, ot_rows = []\<rparr> else None),
        sw_queued_total = 0, sw_submitted_total = 0, sw_failed_total = 0\<rparr>,
      qg_work = [], qg_done = [], qg_submitter = s, qg_log = []\<rparr>"

section \<open>A task that is not disturbed is the handler\<close>

text \<open>The steps of one task alone; the lookups find what is registered.\<close>

fun task_alone ::
  "anchor_env \<Rightarrow> 'j outbox_codec \<Rightarrow> fault \<Rightarrow> settlement_bridge \<Rightarrow> nat \<Rightarrow> queue_task \<Rightarrow> 'j settlement_world
    \<Rightarrow> queue_task \<times> 'j settlement_world" where
  "task_alone env c fault bridge 0 task w = (task, w)"
| "task_alone env c fault bridge (Suc n) task w =
     (case advance_task env c fault bridge (signed_order_lookup (sw_edge w)) task w of
        (task1, w1, _) \<Rightarrow> task_alone env c fault bridge n task1 w1)"

lemma finished_alone [simp]: "task_alone env c fault bridge n Finished w = (Finished, w)"
  by (induction n) auto

lemma inserting_alone:
  assumes "sw_outbox w = Some t" and "enqueue_settlement_requests c fault qs t = (r, t')" and "length qs + 2 \<le> k"
  shows "task_alone env c fault bridge k (Inserting n qs) w =
    (Finished, case r of Inl _ \<Rightarrow> w\<lparr>sw_outbox := Some t'\<rparr>
       | Inr _ \<Rightarrow> record_settlement_requests_queued n (w\<lparr>sw_outbox := Some t'\<rparr>))"
  using assms
proof (induction qs arbitrary: t w k)
  case Nil
  then obtain k' where "k = Suc (Suc k')" by (cases k; cases "k - 1") auto
  with Nil show ?case by (cases w) auto
next
  case (Cons q qs)
  then obtain k' where k: "k = Suc k'" "length qs + 2 \<le> k'" by (cases k) auto
  show ?case
  proof (cases "map_err Serde (oc_to_json c (json_of_request c q))")
    case (Inl e)
    with Cons.prems show ?thesis by (auto simp: k(1))
  next
    case (Inr payload)
    obtain x t1 where st: "statement fault (insert_row payload) t = (x, t1)" by fastforce
    show ?thesis
    proof (cases x)
      case (Inl e)
      with Cons.prems Inr st show ?thesis by (auto simp: k(1))
    next
      case (Inr u)
      have "enqueue_settlement_requests c fault qs t1 = (r, t')"
        using Cons.prems(2) \<open>map_err Serde _ = Inr payload\<close> st Inr by simp
      from Cons.IH [OF _ this k(2), of "w\<lparr>sw_outbox := Some t1\<rparr>"]
      show ?thesis using Cons.prems(1) \<open>map_err Serde _ = Inr payload\<close> st Inr
        by (simp add: k(1) split: sum.split)
    qed
  qed
qed

lemma requesting_alone:
  "task_alone env c fault bridge (length is + k) (Requesting first index is qs) w =
     (case requests_from_intents env bridge (signed_order_lookup (sw_edge w)) first index is of
        Inl _ \<Rightarrow> (Finished, w)
      | Inr rs \<Rightarrow> task_alone env c fault bridge k (Requesting first (index + length is) [] (qs @ rs)) w)"
proof (induction "is" arbitrary: index qs)
  case (Cons i "is")
  then show ?case
    by (cases "request_of_intent env bridge (signed_order_lookup (sw_edge w)) first index i")
      (auto split: sum.split)
qed simp

lemma task_alone_is_handler:
  assumes "2 * length fills + 5 \<le> k"
  shows "task_alone env c fault bridge k (Allocating command taker fills) w =
    (Finished, queue_settlement_requests env c fault (Some bridge) command taker fills w)"
proof -
  obtain k' where k: "k = Suc (Suc (length fills + Suc k'))" "length fills + 2 \<le> k'"
    using that [of "k - length fills - 3"] assms by simp
  show ?thesis
  proof (cases "fills = [] \<or> (\<nexists>first edge1. allocate_settlement_ids (length fills) (sw_edge w) = (Inr (Some first), edge1))")
    case True
    then show ?thesis
      by (cases "allocate_settlement_ids (length fills) (sw_edge w)")
        (auto simp: k queue_settlement_requests_def split: sum.split option.split)
  next
    case False
    then obtain first edge1 where al: "fills \<noteq> []"
      "allocate_settlement_ids (length fills) (sw_edge w) = (Inr (Some first), edge1)" by blast
    let ?w = "w\<lparr>sw_edge := edge1\<rparr>" and ?is = "\<lambda>cid. sb_intents (batch_from_order_fills cid taker fills)"
    have len: "length (?is cid) = length fills" for cid by (simp add: batch_from_order_fills_def)
    have loop: "task_alone env c fault bridge (length fills + Suc k') (Requesting first 0 (?is cid) []) ?w =
        (case requests_from_batch env bridge (batch_from_order_fills cid taker fills) (signed_order_lookup edge1) first of
           Inl _ \<Rightarrow> (Finished, ?w)
         | Inr qs \<Rightarrow> task_alone env c fault bridge (Suc k') (Requesting first (length fills) [] qs) ?w)" for cid
      using requesting_alone [of env c fault bridge "?is cid" "Suc k'" first 0 "[]" ?w]
      by (simp add: len requests_from_batch_def del: add_Suc_right task_alone.simps cong: sum.case_cong)
    show ?thesis
    proof (cases "\<exists>cid qs. command_id_new command = Inr cid \<and> requests_from_batch env bridge
        (batch_from_order_fills cid taker fills) (signed_order_lookup edge1) first = Inr qs")
      case False
      then show ?thesis
        using al by (auto simp: k loop queue_settlement_requests_def Let_def simp del: add_Suc_right split: sum.split)
    next
      case True
      then obtain cid qs where q: "command_id_new command = Inr cid" "requests_from_batch env bridge
        (batch_from_order_fills cid taker fills) (signed_order_lookup edge1) first = Inr qs" by blast
      have n: "length qs = length fills"
        using requests_have_ids [OF q(2)] by (simp add: batch_from_order_fills_def)
      show ?thesis
      proof (cases "sw_outbox w")
        case None
        obtain k1 where "k' = Suc k1" using k(2) by (cases k') auto
        then show ?thesis using al q None loop [of cid]
          by (simp add: k queue_settlement_requests_def Let_def del: add_Suc_right)
      next
        case (Some t)
        obtain r t' where e: "enqueue_settlement_requests c fault qs t = (r, t')" by fastforce
        have "length qs + 2 \<le> k'" using k(2) n by simp
        from inserting_alone [of ?w, OF _ e this, of env bridge "length qs"] Some al q e loop [of cid] show ?thesis
          by (simp add: k queue_settlement_requests_def Let_def del: add_Suc_right split: sum.split)
      qed
    qed
  qed
qed

section \<open>Every id is given to one request\<close>

definition sid :: "settlement_request \<Rightarrow> nat" where
  "sid q = unat (sa_settlement_id (rq_args q))"

text \<open>The ids a task may still put on requests.\<close>

fun owned :: "queue_task \<Rightarrow> nat list" where
  "owned (Bridging first command taker fills) = [unat first ..< unat first + length fills]"
| "owned (Requesting first index is qs) = map sid qs @ [unat first + index ..< unat first + index + length is]"
| "owned (Inserting n qs) = map sid qs"
| "owned _ = []"

definition next_id :: "'j settlement_world \<Rightarrow> nat" where
  "next_id w = unat (es_next_settlement_id (sw_edge w))"

lemma advance_owned:
  assumes "advance_task env c fault bridge lookup task w = (task', w', qs)"
  shows "next_id w \<le> next_id w' \<and>
    mset (map sid qs) + mset (owned task') \<subseteq># mset (owned task) + mset [next_id w ..< next_id w']"
proof (cases task)
  case (Allocating command taker fills)
  show ?thesis
  proof (cases "\<exists>first edge1. allocate_settlement_ids (length fills) (sw_edge w) = (Inr (Some first), edge1)")
    case True
    then obtain first edge1 where al: "allocate_settlement_ids (length fills) (sw_edge w) = (Inr (Some first), edge1)" by blast
    from allocate_ids [OF al] assms Allocating al show ?thesis
      by (auto simp: next_id_def split: if_splits)
  next
    case False
    then have "w' = w \<and> task' = Finished \<and> qs = [] \<or> fills = []"
      using assms Allocating by (auto simp: allocate_settlement_ids_def split: if_splits option.splits)
    with assms Allocating show ?thesis by auto
  qed
next
  case (Bridging first command taker fills)
  with assms show ?thesis by (auto simp: batch_from_order_fills_def split: sum.splits)
next
  case (Requesting first index "is" rs)
  show ?thesis
  proof (cases "is")
    case Nil
    with assms Requesting show ?thesis by (auto simp: next_id_def queue_settlements_def split: option.splits)
  next
    case (Cons i is')
    have "sid q = unat first + index" if "request_of_intent env bridge lookup first index i = Inr q" for q
      using request_of_intent_fits [OF that] by (simp add: request_fits_def sid_def Let_def)
    moreover have "[unat first + index ..< unat first + index + length (i # is')] =
        (unat first + index) # [unat first + Suc index ..< unat first + Suc index + length is']"
      by (simp add: upt_conv_Cons del: upt_Suc)
    ultimately have "owned task' = owned task \<and> w' = w \<and> qs = [] \<or> task' = Finished \<and> w' = w \<and> qs = []"
      using assms Requesting Cons by (auto simp del: upt_Suc split: sum.splits)
    then show ?thesis by auto
  qed
next
  case (Inserting n rs)
  with assms show ?thesis
    by (cases rs) (auto simp: next_id_def split: option.splits sum.splits prod.splits)
qed (use assms in \<open>auto simp: next_id_def record_settlement_requests_queued_def\<close>)

text \<open>Rows keep their payloads.\<close>

definition row_request :: "'j outbox_codec \<Rightarrow> 'j outbox_row \<Rightarrow> (persistence_error, settlement_request) result" where
  "row_request c r = and_then (map_err Serde (oc_from_json c (ob_payload r))) (request_of_json c)"

definition rows_hold :: "'j outbox_codec \<Rightarrow> 'j outbox \<Rightarrow> settlement_request list \<Rightarrow> bool" where
  "rows_hold c t qs \<longleftrightarrow> map (row_request c) (ot_rows t) = map Inr qs"

lemma rows_hold_payloads:
  "map ob_payload (ot_rows t') = map ob_payload (ot_rows t) \<Longrightarrow> rows_hold c t' qs = rows_hold c t qs"
proof -
  have m: "map (row_request c) (ot_rows s) =
      map (\<lambda>p. and_then (map_err Serde (oc_from_json c p)) (request_of_json c)) (map ob_payload (ot_rows s))" for s
    by (simp add: row_request_def)
  assume "map ob_payload (ot_rows t') = map ob_payload (ot_rows t)"
  then show "rows_hold c t' qs = rows_hold c t qs"
    unfolding rows_hold_def m [of t'] m [of t] by (rule arg_cong)
qed

lemma claim_rows_payloads: "map ob_payload (snd (claim_rows n rows)) = map ob_payload rows"
  by (induction n rows rule: claim_rows.induct) (auto simp: Let_def split: prod.splits)

lemma claim_payloads: "map ob_payload (ot_rows (snd (claim_pending_settlements c fault limit t))) = map ob_payload (ot_rows t)"
  using claim_rows_payloads [of "nat (max limit 1)" "ot_rows t"]
  by (auto simp: claim_pending_settlements_def statement_def Let_def split: option.splits prod.splits)

lemma mark_payloads:
  "map ob_payload (ot_rows (snd (keep_settlement_pending fault i e t))) = map ob_payload (ot_rows t)"
  "map ob_payload (ot_rows (snd (mark_settlement_submitted fault i sig t))) = map ob_payload (ot_rows t)"
  "map ob_payload (ot_rows (snd (mark_settlement_failed fault i e t))) = map ob_payload (ot_rows t)"
  by (auto simp: keep_settlement_pending_def mark_settlement_submitted_def mark_settlement_failed_def statement_def
      update_row_def Let_def split: option.splits)

lemma insert_holds:
  assumes "codec_ok c" and "oc_to_json c (json_of_request c q) = Inr payload" and "rows_hold c t qs"
    and "statement fault (insert_row payload) t = (Inr u, t')"
  shows "rows_hold c t' (qs @ [q])"
  using assms request_json_roundtrip [OF assms(1), of q]
  by (auto simp: rows_hold_def row_request_def codec_ok_def statement_def insert_row_def Let_def split: option.splits)

definition ids_in_use :: "('j, 's) queueing \<Rightarrow> nat list" where
  "ids_in_use g = map sid (qg_log g) @ concat (map owned (qg_tasks g))"

text \<open>Where the logged requests are: in the rows, or with the worker and then in the queue.\<close>

definition log_kept :: "'j outbox_codec \<Rightarrow> 'j settlement_world \<Rightarrow> work_item list \<Rightarrow> settlement_request list \<Rightarrow> bool" where
  "log_kept c w items qs \<longleftrightarrow>
     (case sw_outbox w of
        Some t \<Rightarrow> rows_hold c t qs
      | None \<Rightarrow> qs = map wi_request items @ es_queued (sw_edge w))"

definition queue_inv :: "'j outbox_codec \<Rightarrow> ('j, 's) queueing \<Rightarrow> bool" where
  "queue_inv c g \<longleftrightarrow> distinct (ids_in_use g) \<and> (\<forall>i \<in> set (ids_in_use g). i < next_id (qg_world g)) \<and>
     log_kept c (qg_world g) (qg_done g @ qg_work g) (qg_log g)"

lemma distinct_submset:
  assumes "mset xs \<subseteq># mset ys" and "distinct ys"
  shows "distinct xs"
proof -
  have "count (mset xs) x \<le> count (mset ys) x" for x by (rule mset_subset_eq_count [OF assms(1)])
  moreover have "count (mset ys) x \<le> 1" for x
    using assms(2) distinct_count_atmost_1 [of ys] by simp
  ultimately have "count (mset xs) x \<le> 1" for x by (rule le_trans)
  then have "count (mset xs) x = (if x \<in> set xs then 1 else 0)" for x
    using count_greater_zero_iff [of "mset xs" x] le_antisym [of "count (mset xs) x" 1]
    by (auto simp: Suc_le_eq not_in_iff)
  then show ?thesis by (simp add: distinct_count_atmost_1)
qed

lemma ids_extend:
  assumes "mset xs \<subseteq># mset ys + mset [m ..< n]" and "m \<le> n" and "distinct ys" and "\<forall>i \<in> set ys. i < m"
  shows "distinct xs \<and> (\<forall>i \<in> set xs. i < n)"
proof -
  have s: "mset xs \<subseteq># mset (ys @ [m ..< n])" using assms(1) by simp
  have "distinct (ys @ [m ..< n])" using assms(3,4) by auto
  then have "distinct xs" using distinct_submset [OF s] by blast
  moreover have "set xs \<subseteq> set (ys @ [m ..< n])" using set_mset_mono [OF s] by (simp only: set_mset_mset)
  ultimately show ?thesis using assms(2,4) by fastforce
qed

lemma owned_update:
  assumes "k < length ts"
  shows "mset (concat (map owned (ts[k := t]))) + mset (owned (ts ! k)) = mset (concat (map owned ts)) + mset (owned t)"
  using assms
proof (induction ts arbitrary: k)
  case (Cons u ts)
  then show ?case by (cases k) (auto simp: ac_simps simp del: mset_concat)
qed simp

lemma advance_ids:
  assumes "k < length (qg_tasks g)" and "queue_inv c g"
    and "advance_task env c fault bridge lookup (qg_tasks g ! k) (qg_world g) = (task, w, qs)"
  shows "distinct (ids_in_use (g\<lparr>qg_tasks := (qg_tasks g)[k := task], qg_world := w, qg_log := qg_log g @ qs\<rparr>)) \<and>
    (\<forall>i \<in> set (ids_in_use (g\<lparr>qg_tasks := (qg_tasks g)[k := task], qg_world := w, qg_log := qg_log g @ qs\<rparr>)). i < next_id w)"
    (is "distinct ?ids \<and> _")
proof -
  note a = advance_owned [OF assms(3)]
  let ?C = "mset (concat (map owned (qg_tasks g)))" and ?C' = "mset (concat (map owned ((qg_tasks g)[k := task])))"
    and ?o = "mset (owned (qg_tasks g ! k))" and ?new = "mset [next_id (qg_world g) ..< next_id w]"
  have u: "?C' + ?o = ?C + mset (owned task)" by (rule owned_update [OF assms(1)])
  have "mset (map sid qs) + ?C' + ?o = ?C + (mset (map sid qs) + mset (owned task))" using u by (simp only: ac_simps)
  also have "\<dots> \<subseteq># ?C + (?o + ?new)" using a by (simp only: mset_subset_eq_mono_add_left_cancel)
  finally have "mset (map sid qs) + ?C' + ?o \<subseteq># (?C + ?new) + ?o" by (simp only: ac_simps)
  then have "mset (map sid qs) + ?C' \<subseteq># ?C + ?new" by (simp only: mset_subset_eq_mono_add_right_cancel)
  then have "mset (map sid (qg_log g)) + (mset (map sid qs) + ?C') \<subseteq># mset (map sid (qg_log g)) + (?C + ?new)"
    by (simp only: mset_subset_eq_mono_add_left_cancel)
  moreover have "mset ?ids = mset (map sid (qg_log g)) + (mset (map sid qs) + ?C')"
    by (simp add: ids_in_use_def)
  moreover have "mset (ids_in_use g) + ?new = mset (map sid (qg_log g)) + (?C + ?new)"
    by (simp add: ids_in_use_def)
  ultimately have "mset ?ids \<subseteq># mset (ids_in_use g) + ?new" by (simp only:)
  from ids_extend [OF this] a assms(2) show ?thesis by (simp add: queue_inv_def)
qed

lemma advance_log:
  assumes "codec_ok c" and "advance_task env c fault bridge lookup task w = (task', w', qs)"
    and "log_kept c w items log"
  shows "log_kept c w' items (log @ qs)"
proof (cases task)
  case (Allocating command taker fills)
  have "es_queued e' = es_queued (sw_edge w)" if "allocate_settlement_ids n (sw_edge w) = (r, e')" for n r e'
    using that by (auto simp: allocate_settlement_ids_def split: if_splits option.splits)
  with assms(2,3) Allocating show ?thesis
    by (auto simp: log_kept_def split: if_splits prod.splits sum.splits option.splits)
next
  case (Bridging first command taker fills)
  with assms(2,3) show ?thesis by (auto split: sum.splits)
next
  case (Requesting first index "is" rs)
  with assms(2,3) show ?thesis
    by (cases "is") (auto simp: log_kept_def queue_settlements_def split: sum.splits option.splits)
next
  case (Inserting n rs)
  show ?thesis
  proof (cases rs)
    case (Cons q rs')
    show ?thesis
    proof (cases "sw_outbox w")
      case (Some t)
      show ?thesis
      proof (cases "oc_to_json c (json_of_request c q)")
        case (Inl e)
        with Some Cons Inserting assms(2,3) show ?thesis by (auto simp: log_kept_def)
      next
        case (Inr payload)
        obtain x t1 where st: "statement fault (insert_row payload) t = (x, t1)" by fastforce
        have "rows_hold c t1 log" if "x = Inl e" for e
          using st that assms(3) Some
          by (auto simp: log_kept_def rows_hold_def statement_def Let_def split: option.splits prod.splits)
        moreover have "rows_hold c t1 (log @ [q])" if "x = Inr u" for u
          using insert_holds [OF assms(1) Inr, of t log fault u t1] st that assms(3) Some by (simp add: log_kept_def)
        ultimately show ?thesis
          using st Inr Some Cons Inserting assms(2) by (cases x) (auto simp: log_kept_def)
      qed
    qed (use assms Inserting Cons in \<open>simp add: log_kept_def\<close>)
  qed (use assms Inserting in \<open>simp add: log_kept_def\<close>)
qed (use assms in \<open>auto simp: log_kept_def record_settlement_requests_queued_def split: option.split\<close>)

lemma claim_keeps:
  assumes "claim_settlement_work c fault w = (work, w')" and "log_kept c w items log"
  shows "log_kept c w' (items @ work) log \<and> next_id w' = next_id w"
proof (cases "sw_outbox w")
  case (Some t)
  obtain r t' where cl: "claim_pending_settlements c fault settlement_worker_batch_limit t = (r, t')" by fastforce
  from claim_payloads [of c fault settlement_worker_batch_limit t] cl
  have "rows_hold c t' log = rows_hold c t log" by (intro rows_hold_payloads) simp
  with assms Some cl show ?thesis
    by (auto simp: claim_settlement_work_def log_kept_def next_id_def split: sum.splits)
qed (use assms in \<open>auto simp: claim_settlement_work_def drain_queued_settlement_requests_def log_kept_def next_id_def comp_def\<close>)

lemma update_keeps:
  assumes "\<And>i t. map ob_payload (ot_rows (snd (run i t))) = map ob_payload (ot_rows t)"
  shows "log_kept c (update_outbox item run w) items log = log_kept c w items log \<and>
    next_id (update_outbox item run w) = next_id w"
  using rows_hold_payloads [OF assms]
  by (auto simp: update_outbox_def log_kept_def next_id_def split: option.splits)

lemma process_keeps:
  assumes "process_item cl et fault submit item (w, s) = (w', s')"
  shows "log_kept c w' items log = log_kept c w items log \<and> next_id w' = next_id w"
proof -
  have counts: "log_kept c (record_settlement_requests_submitted n v) items log = log_kept c v items log"
    "next_id (record_settlement_requests_submitted n v) = next_id v"
    "log_kept c (record_settlement_requests_failed n v) items log = log_kept c v items log"
    "next_id (record_settlement_requests_failed n v) = next_id v" for n and v :: "'a settlement_world"
    by (auto simp: record_settlement_requests_submitted_def record_settlement_requests_failed_def log_kept_def
        next_id_def split: option.split)
  show ?thesis
    using assms
    by (auto simp: process_item_def Let_def counts update_keeps mark_payloads
        split: prod.splits list.splits if_splits)
qed

lemma event_inv:
  assumes "codec_ok c" and "queue_inv c g"
  shows "queue_inv c (queue_event env cl et c fault bridge submit ev g)"
proof (cases ev)
  case (OrderAnswered command taker fills)
  with assms(2) show ?thesis by (simp add: queue_event_def queue_inv_def ids_in_use_def)
next
  case (Advance k lookup)
  show ?thesis
  proof (cases "k < length (qg_tasks g)")
    case True
    obtain task w qs where a: "advance_task env c fault bridge lookup (qg_tasks g ! k) (qg_world g) = (task, w, qs)"
      by (metis prod_cases3)
    from advance_ids [OF True assms(2) a] advance_log [OF assms(1) a] assms(2) Advance True a show ?thesis
      by (auto simp: queue_event_def queue_inv_def)
  qed (use Advance assms in \<open>simp add: queue_event_def\<close>)
next
  case (Register i so)
  with assms(2) show ?thesis
    by (auto simp: queue_event_def queue_inv_def ids_in_use_def next_id_def log_kept_def store_signed_order_def
        split: option.split)
next
  case Claim
  obtain work w where cl: "claim_settlement_work c fault (qg_world g) = (work, w)" by fastforce
  from claim_keeps [OF cl, of "qg_done g" "qg_log g"] Claim assms(2) cl show ?thesis
    by (auto simp: queue_event_def queue_inv_def ids_in_use_def)
next
  case Process
  show ?thesis
  proof (cases "qg_work g")
    case (Cons item work)
    obtain w s where pr: "process_item cl et fault submit item (qg_world g, qg_submitter g) = (w, s)" by fastforce
    from process_keeps [OF pr, of c "qg_done g @ item # work" "qg_log g"] Process Cons assms(2) pr show ?thesis
      by (simp add: queue_event_def queue_inv_def ids_in_use_def)
  qed (use Process assms in \<open>simp add: queue_event_def\<close>)
qed

lemma start_inv: "queue_inv c (queue_start database s)"
  by (simp add: queue_inv_def queue_start_def ids_in_use_def log_kept_def rows_hold_def edge_default_def)

lemma queue_run_inv:
  "codec_ok c \<Longrightarrow> queue_inv c g \<Longrightarrow> queue_inv c (queue_run env cl et c fault bridge submit evs g)"
  unfolding queue_run_def by (induction evs arbitrary: g) (auto intro: event_inv)

text \<open>C33: No settlement id is given to two requests, and no queued request is lost, altered or reordered,
  however the tasks of concurrent orders, the registrations, the worker and the failures of the
  database interleave: from the start of a process on an empty outbox, all requests ever queued
  have different ids; with a database the rows, whatever their status, are these requests in the
  order of queueing; without one the requests the worker has taken up, those it still has to
  submit and those in the queue are.\<close>

theorem settlement_ids_unique:
  assumes "codec_ok c" and "queue_run env cl et c fault bridge submit evs (queue_start database s) = g"
  shows "distinct (map (\<lambda>q. unat (sa_settlement_id (rq_args q))) (qg_log g)) \<and>
    (case sw_outbox (qg_world g) of
       Some t \<Rightarrow> map (row_request c) (ot_rows t) = map Inr (qg_log g)
     | None \<Rightarrow> map wi_request (qg_done g) @ map wi_request (qg_work g) @ es_queued (sw_edge (qg_world g)) = qg_log g)"
  using queue_run_inv [OF assms(1) start_inv, of env cl et fault bridge submit evs database s]
  unfolding assms(2)
  by (auto simp: queue_inv_def ids_in_use_def sid_def [abs_def] log_kept_def rows_hold_def split: option.splits)

section \<open>Two orders that overtake each other\<close>

definition demo_events :: "queue_event list" where
  "demo_events =
     [OrderAnswered 5 demo_taker [demo_fill], OrderAnswered 6 demo_taker [demo_fill],
      Advance 0 Map.empty, Advance 1 Map.empty, Advance 1 Map.empty,
      Advance 1 (signed_order_lookup demo_edge), Advance 1 Map.empty, Advance 1 Map.empty, Claim,
      Advance 0 Map.empty, Advance 0 (signed_order_lookup demo_edge), Advance 0 Map.empty]"

definition demo_queueing :: "(request_json, nat) queueing" where
  "demo_queueing = queue_run demo_env demo_client (\<lambda>_. ''timeout'') demo_codec no_fault demo_bridge lost_submitter
     demo_events (queue_start False 0)"

definition demo_request_with :: "u64 \<Rightarrow> settlement_request" where
  "demo_request_with i = demo_request\<lparr>rq_args := demo_fill_args\<lparr>sa_settlement_id := i\<rparr>\<rparr>"

lemma demo_bridged_with:
  "request_of_intent demo_env demo_bridge (signed_order_lookup demo_edge) i 0
     (intent_from_fill demo_taker demo_fill) = Inr (demo_request_with i)"
proof -
  have "bridge_market_config demo_env demo_bridge = 562575"
    by (simp add: bridge_market_config_def market_config_pda_def demo_bridge_def)
  moreover have "checked_add i 0 = Some i"
    using unsigned_less [of i, where ?'a = nat] by (simp add: checked_add_Some)
  ultimately show ?thesis
    by (simp add: requests_from_batch_def batch_from_order_fills_def intent_from_fill_def demo_taker_def order_new_def
      demo_fill_def fill_from_parts_def request_of_intent_def demo_bridge_def signed_order_lookup_def demo_edge_def
      bid_ask_orders_def validate_order_def order_id_u64_def validate_bridge_fill_def demo_bid_def demo_ask_def
      demo_request_with_def demo_request_def demo_fill_args_def)
qed

lemma demo_log: "qg_log demo_queueing = [demo_request_with 1, demo_request_with 0]"
  by (simp add: demo_queueing_def demo_events_def queue_run_def queue_event_def queue_start_def edge_default_def
      allocate_settlement_ids_def checked_add_code command_id_new_def batch_from_order_fills_def demo_bridged_with queue_settlements_def
      claim_settlement_work_def drain_queued_settlement_requests_def record_settlement_requests_queued_def)

lemma settlement_ids_unique_witness:
  "distinct (map (\<lambda>q. unat (sa_settlement_id (rq_args q))) (qg_log demo_queueing)) \<and>
     length (qg_log demo_queueing) = 2"
  using settlement_ids_unique [OF demo_codec_ok demo_queueing_def [symmetric]] by (simp add: demo_log)

end
