(* ===== verification/Actor_Mailbox.thy ===== *)
theory Actor_Mailbox
  imports Runtime_Actor
begin

text \<open>
  \<open>MarketActorHandle\<close> of \<open>crates/runtime/src/lib.rs\<close>: the clones of a handle share one bounded
  mailbox, in which the calls of many clients wait for the one task that runs the actor.  A call
  creates its answer channel (here a number, which no other call has), sends its command and waits
  for the answer.  The channels of the runtime library are used as documented: the mailbox keeps
  the order of sending, a send waits while the mailbox is full and fails once the receiver is gone,
  and an answer channel whose sender is dropped fails.  (That channel refuses a capacity of 0 with a
  panic, so a mailbox of the code has room for at least one command; the model has no such case and
  would never accept one.)  A schedule says in which order the sends
  and the turns of the task happen.
\<close>

section \<open>The handle\<close>

type_synonym call_answer = "(app_error, market_reply) result"

record 'j mailbox =
  mb_capacity :: nat
  mb_open :: bool
  mb_queue :: "(nat \<times> market_command) list"
  mb_actor :: "'j actor"
  mb_answers :: "nat \<rightharpoonup> call_answer"

definition mailbox_from_app :: "exchange_app \<Rightarrow> nat \<Rightarrow> 'j \<Rightarrow> 'j mailbox" where
  "mailbox_from_app app capacity j =
     \<lparr>mb_capacity = capacity, mb_open = True, mb_queue = [], mb_actor = spawn_from_app app j,
      mb_answers = (\<lambda>_. None)\<rparr>"

definition spawn_with_journal :: "market_spec \<Rightarrow> nat \<Rightarrow> 'j \<Rightarrow> 'j mailbox" where
  "spawn_with_journal m capacity j = mailbox_from_app (app_new m) capacity j"

text \<open>The journal of \<open>spawn\<close> is \<open>NoopEventJournal\<close>, which has no state.\<close>

definition spawn :: "market_spec \<Rightarrow> nat \<Rightarrow> unit mailbox" where
  "spawn m capacity = spawn_with_journal m capacity ()"

definition handle_metrics_snapshot :: "'j mailbox \<Rightarrow> runtime_metrics" where
  "handle_metrics_snapshot b = act_metrics (mb_actor b)"

text \<open>A command on its way to the mailbox: \<open>None\<close> while there is no room for it.\<close>

definition send_to_mailbox :: "nat \<Rightarrow> market_command \<Rightarrow> 'j mailbox \<Rightarrow> 'j mailbox option" where
  "send_to_mailbox i cmd b =
     (if \<not> mb_open b then Some (b\<lparr>mb_answers := (mb_answers b)(i \<mapsto> Inl ActorClosed)\<rparr>)
      else if length (mb_queue b) < mb_capacity b then Some (b\<lparr>mb_queue := mb_queue b @ [(i, cmd)]\<rparr>)
      else None)"

text \<open>The methods of the handle.\<close>

definition credit_deposit_with_request_id ::
  "string option \<Rightarrow> command_id \<Rightarrow> trader_id \<Rightarrow> asset_id \<Rightarrow> balance_amount \<Rightarrow> nat
    \<Rightarrow> 'j mailbox \<Rightarrow> 'j mailbox option" where
  "credit_deposit_with_request_id rid c t a v i b = send_to_mailbox i (CmdCreditDeposit rid c t a v) b"

definition handle_credit_deposit ::
  "command_id \<Rightarrow> trader_id \<Rightarrow> asset_id \<Rightarrow> balance_amount \<Rightarrow> nat \<Rightarrow> 'j mailbox \<Rightarrow> 'j mailbox option" where
  "handle_credit_deposit c t a v i b = credit_deposit_with_request_id None c t a v i b"

definition place_order_with_request_id ::
  "string option \<Rightarrow> command_id \<Rightarrow> limit_order \<Rightarrow> nat \<Rightarrow> 'j mailbox \<Rightarrow> 'j mailbox option" where
  "place_order_with_request_id rid c x i b = send_to_mailbox i (CmdPlaceOrder rid c x) b"

definition handle_place_order :: "command_id \<Rightarrow> limit_order \<Rightarrow> nat \<Rightarrow> 'j mailbox \<Rightarrow> 'j mailbox option" where
  "handle_place_order c x i b = place_order_with_request_id None c x i b"

definition snapshot_with_request_id :: "string option \<Rightarrow> nat \<Rightarrow> 'j mailbox \<Rightarrow> 'j mailbox option" where
  "snapshot_with_request_id rid i b = send_to_mailbox i (CmdSnapshot rid) b"

definition handle_snapshot :: "nat \<Rightarrow> 'j mailbox \<Rightarrow> 'j mailbox option" where
  "handle_snapshot i b = snapshot_with_request_id None i b"

definition shutdown_with_request_id :: "string option \<Rightarrow> nat \<Rightarrow> 'j mailbox \<Rightarrow> 'j mailbox option" where
  "shutdown_with_request_id rid i b = send_to_mailbox i (CmdShutdown rid) b"

definition handle_shutdown :: "nat \<Rightarrow> 'j mailbox \<Rightarrow> 'j mailbox option" where
  "handle_shutdown i b = shutdown_with_request_id None i b"

section \<open>The task of the actor\<close>

text \<open>The answers of calls whose command is dropped with the receiver.\<close>

fun answer_closed :: "(nat \<times> market_command) list \<Rightarrow> (nat \<rightharpoonup> call_answer) \<Rightarrow> nat \<rightharpoonup> call_answer" where
  "answer_closed [] answers = answers"
| "answer_closed ((i, cmd) # q) answers = answer_closed q (answers(i \<mapsto> Inl ActorClosed))"

text \<open>One round of the loop; an empty mailbox makes the task wait, and after the loop nothing happens.\<close>

definition actor_turn :: "'j journal_append \<Rightarrow> 'j mailbox \<Rightarrow> 'j mailbox" where
  "actor_turn put b =
     (if \<not> mb_open b then b
      else
        (case mb_queue b of
           [] \<Rightarrow> b
         | (i, cmd) # q \<Rightarrow>
             (case handle_command put cmd
                 ((mb_actor b)\<lparr>act_metrics := record_command_received (act_metrics (mb_actor b))\<rparr>) of
                ((reply, stop), a) \<Rightarrow>
                  if stop
                  then b\<lparr>mb_open := False, mb_queue := [], mb_actor := a,
                         mb_answers := answer_closed q ((mb_answers b)(i \<mapsto> reply))\<rparr>
                  else b\<lparr>mb_queue := q, mb_actor := a, mb_answers := (mb_answers b)(i \<mapsto> reply)\<rparr>)))"

datatype mailbox_step = Send nat market_command | Turn

fun mailbox_run :: "'j journal_append \<Rightarrow> mailbox_step list \<Rightarrow> 'j mailbox \<Rightarrow> 'j mailbox option" where
  "mailbox_run put [] b = Some b"
| "mailbox_run put (Send i cmd # steps) b =
     Option.bind (send_to_mailbox i cmd b) (mailbox_run put steps)"
| "mailbox_run put (Turn # steps) b = mailbox_run put steps (actor_turn put b)"

text \<open>The calls of a schedule, in the order in which they are sent.\<close>

fun sent :: "mailbox_step list \<Rightarrow> (nat \<times> market_command) list" where
  "sent [] = []"
| "sent (Send i cmd # steps) = (i, cmd) # sent steps"
| "sent (Turn # steps) = sent steps"

section \<open>The sequential run\<close>

lemma run_append:
  "run_market_actor put (xs @ ys) a =
     (case run_market_actor put xs a of
        ((rs, stop), a1) \<Rightarrow>
          if stop then ((rs @ map (\<lambda>_. Inl ActorClosed) ys, True), a1)
          else (case run_market_actor put ys a1 of ((rs2, stop2), a2) \<Rightarrow> ((rs @ rs2, stop2), a2)))"
  by (induction xs arbitrary: a) (auto split: prod.splits)

lemma run_length: "run_market_actor put xs a = ((rs, stop), a') \<Longrightarrow> length rs = length xs"
  by (induction xs arbitrary: a rs stop) (auto split: prod.splits if_splits)

text \<open>The answers to the first calls of a list, call by call.\<close>

definition answered :: "(nat \<times> market_command) list \<Rightarrow> call_answer list \<Rightarrow> nat \<rightharpoonup> call_answer" where
  "answered cs rs = map_of (zip (map fst cs) rs)"

lemma answered_append:
  assumes "length rs = length cs" and "i \<notin> fst ` set cs"
  shows "answered (cs @ [(i, cmd)]) (rs @ [r]) = (answered cs rs)(i \<mapsto> r)"
proof -
  have n: "map_of (zip (map fst cs) rs) i = None"
    using assms by (metis domIff dom_map_of_zip length_map list.set_map)
  then have "[i \<mapsto> r] ++ answered cs rs = answered cs rs ++ [i \<mapsto> r]"
    unfolding answered_def by (intro map_add_comm) (auto simp only: domIff fun_upd_apply split: if_splits)
  then show ?thesis using assms(1) by (simp add: answered_def)
qed

lemma answered_closed:
  assumes "length rs = length cs" and "distinct (map fst (cs @ q))"
  shows "answer_closed q (answered cs rs) = answered (cs @ q) (rs @ map (\<lambda>_. Inl ActorClosed) q)"
  using assms
proof (induction q arbitrary: cs rs)
  case (Cons p q)
  obtain i cmd where p: "p = (i, cmd)" by (cases p)
  have "i \<notin> fst ` set cs" using Cons.prems(2) by (auto simp: p)
  from Cons.IH [of "rs @ [Inl ActorClosed]" "cs @ [(i, cmd)]"] Cons.prems
  have "answer_closed q (answered (cs @ [(i, cmd)]) (rs @ [Inl ActorClosed])) =
      answered (cs @ (i, cmd) # q) (rs @ Inl ActorClosed # map (\<lambda>_. Inl ActorClosed) q)" by (simp add: p)
  then show ?case
    unfolding answered_append [OF Cons.prems(1) \<open>i \<notin> fst ` set cs\<close>] by (simp add: p)
qed (simp add: answered_def)

section \<open>Every schedule is a sequential run\<close>

text \<open>What the mailbox of an actor that began as \<open>a0\<close> holds after the calls \<open>cs\<close>.\<close>

definition serial :: "'j journal_append \<Rightarrow> 'j actor \<Rightarrow> (nat \<times> market_command) list \<Rightarrow> 'j mailbox \<Rightarrow> bool" where
  "serial put a0 cs b \<longleftrightarrow>
     (\<exists>dn rs. cs = dn @ mb_queue b \<and> (mb_open b \<or> mb_queue b = []) \<and>
        run_market_actor put (map snd dn) a0 = ((rs, \<not> mb_open b), mb_actor b) \<and>
        mb_answers b = answered dn rs)"

lemma serial_send:
  assumes "serial put a0 cs b" and "send_to_mailbox i cmd b = Some b'" and "distinct (map fst (cs @ [(i, cmd)]))"
  shows "serial put a0 (cs @ [(i, cmd)]) b'"
proof -
  from assms(1) obtain dn rs where cs: "cs = dn @ mb_queue b" and o: "mb_open b \<or> mb_queue b = []"
    and r: "run_market_actor put (map snd dn) a0 = ((rs, \<not> mb_open b), mb_actor b)"
    and a: "mb_answers b = answered dn rs" by (auto simp: serial_def)
  show ?thesis
  proof (cases "mb_open b")
    case True
    with assms(2) have "b' = b\<lparr>mb_queue := mb_queue b @ [(i, cmd)]\<rparr>"
      by (auto simp: send_to_mailbox_def split: if_splits)
    with cs r a True show ?thesis by (auto simp: serial_def)
  next
    case False
    with assms(2) have b': "b' = b\<lparr>mb_answers := (answered dn rs)(i \<mapsto> Inl ActorClosed)\<rparr>"
      by (simp add: send_to_mailbox_def a)
    have dn: "dn = cs" "length rs = length dn" "i \<notin> fst ` set dn"
      using False cs o assms(3) run_length [OF r] by auto
    have "run_market_actor put (map snd (cs @ [(i, cmd)])) a0 = ((rs @ [Inl ActorClosed], True), mb_actor b)"
      using r False dn(1) by (simp add: run_append)
    with b' False o dn answered_append [OF dn(2,3), of cmd "Inl ActorClosed"] show ?thesis
      unfolding serial_def by (intro exI [of _ "cs @ [(i, cmd)]"] exI [of _ "rs @ [Inl ActorClosed]"]) simp
  qed
qed

lemma serial_turn:
  assumes "serial put a0 cs b" and "distinct (map fst cs)"
  shows "serial put a0 cs (actor_turn put b)"
proof (cases "mb_open b \<and> mb_queue b \<noteq> []")
  case True
  then obtain i cmd q where q: "mb_queue b = (i, cmd) # q" by (cases "mb_queue b") auto
  let ?a = "(mb_actor b)\<lparr>act_metrics := record_command_received (act_metrics (mb_actor b))\<rparr>"
  obtain reply stop a where h: "handle_command put cmd ?a = ((reply, stop), a)" by (metis surj_pair)
  from assms(1) True obtain dn rs where cs: "cs = dn @ (i, cmd) # q"
    and r: "run_market_actor put (map snd dn) a0 = ((rs, False), mb_actor b)"
    and a: "mb_answers b = answered dn rs" by (auto simp: serial_def q)
  have dn: "length rs = length dn" "i \<notin> fst ` set dn" using assms(2) run_length [OF r] by (auto simp: cs)
  have one: "(mb_answers b)(i \<mapsto> reply) = answered (dn @ [(i, cmd)]) (rs @ [reply])"
    by (simp add: a answered_append [OF dn])
  show ?thesis
  proof (cases stop)
    case False
    then have "actor_turn put b = b\<lparr>mb_queue := q, mb_actor := a, mb_answers := answered (dn @ [(i, cmd)]) (rs @ [reply])\<rparr>"
      using True by (simp add: actor_turn_def q h one)
    moreover have "run_market_actor put (map snd (dn @ [(i, cmd)])) a0 = ((rs @ [reply], False), a)"
      using r h False by (simp add: run_append)
    ultimately show ?thesis
      using True cs unfolding serial_def by (intro exI [of _ "dn @ [(i, cmd)]"] exI [of _ "rs @ [reply]"]) simp
  next
    case stop: True
    let ?rs = "rs @ reply # map (\<lambda>_. Inl ActorClosed) q"
    have "answer_closed q (answered (dn @ [(i, cmd)]) (rs @ [reply])) = answered cs ?rs"
      using answered_closed [of "rs @ [reply]" "dn @ [(i, cmd)]" q] assms(2) dn(1) by (simp add: cs)
    then have "actor_turn put b = b\<lparr>mb_open := False, mb_queue := [], mb_actor := a, mb_answers := answered cs ?rs\<rparr>"
      using True stop by (simp add: actor_turn_def q h one)
    moreover have "run_market_actor put (map snd cs) a0 = ((?rs, True), a)"
      using r h stop by (simp add: run_append cs comp_def)
    ultimately show ?thesis
      unfolding serial_def by (intro exI [of _ cs] exI [of _ ?rs]) simp
  qed
next
  case False
  then have "actor_turn put b = b" by (auto simp: actor_turn_def split: list.split)
  with assms(1) show ?thesis by simp
qed

lemma serial_run:
  assumes "mailbox_run put steps b = Some b'" and "serial put a0 cs b" and "distinct (map fst (cs @ sent steps))"
  shows "serial put a0 (cs @ sent steps) b'"
  using assms
proof (induction put steps b arbitrary: cs rule: mailbox_run.induct)
  case (2 put i cmd steps b)
  from 2(2) obtain b1 where s: "send_to_mailbox i cmd b = Some b1" and t: "mailbox_run put steps b1 = Some b'"
    by (auto simp: bind_eq_Some_conv)
  have "serial put a0 (cs @ [(i, cmd)]) b1" using serial_send [OF 2(3) s] 2(4) by simp
  from 2(1) [OF s t this] 2(4) show ?case by simp
next
  case (3 put steps b)
  from 3(1) [of "cs"] 3(2,4) serial_turn [OF 3(3)] show ?case by simp
qed simp

text \<open>The turns that are left answer every call.\<close>

definition drain :: "'j journal_append \<Rightarrow> 'j mailbox \<Rightarrow> 'j mailbox" where
  "drain put b = (actor_turn put ^^ length (mb_queue b)) b"

lemma turn_queue: "mb_open b \<or> mb_queue b = [] \<Longrightarrow>
  length (mb_queue (actor_turn put b)) \<le> length (mb_queue b) - 1 \<and>
    (mb_open (actor_turn put b) \<or> mb_queue (actor_turn put b) = [])"
  by (auto simp: actor_turn_def split: list.splits prod.splits)

lemma turns_empty:
  "length (mb_queue b) \<le> n \<Longrightarrow> mb_open b \<or> mb_queue b = [] \<Longrightarrow> mb_queue ((actor_turn put ^^ n) b) = []"
proof (induction n arbitrary: b)
  case (Suc n)
  have "length (mb_queue (actor_turn put b)) \<le> n" "mb_open (actor_turn put b) \<or> mb_queue (actor_turn put b) = []"
    using turn_queue [OF Suc.prems(2), of put] Suc.prems(1) by linarith+
  from Suc.IH [OF this] show ?case by (simp add: funpow_Suc_right del: funpow.simps)
qed simp

lemma serial_turns:
  "serial put a0 cs b \<Longrightarrow> distinct (map fst cs) \<Longrightarrow> serial put a0 cs ((actor_turn put ^^ n) b)"
  by (induction n) (auto intro: serial_turn)

lemma serial_drain:
  assumes "serial put a0 cs b" and "distinct (map fst cs)"
  shows "serial put a0 cs (drain put b)" "mb_queue (drain put b) = []"
proof -
  show "serial put a0 cs (drain put b)" unfolding drain_def by (rule serial_turns [OF assms])
  show "mb_queue (drain put b) = []"
    unfolding drain_def using assms(1) by (intro turns_empty) (auto simp: serial_def)
qed

lemma serial_start: "serial put (spawn_from_app app j) [] (mailbox_from_app app capacity j)"
  by (simp add: serial_def mailbox_from_app_def answered_def)

lemma turn_capacity:
  "mb_capacity (actor_turn put b) = mb_capacity b \<and> length (mb_queue (actor_turn put b)) \<le> length (mb_queue b)"
  by (auto simp: actor_turn_def split: list.splits prod.splits)

lemma run_capacity:
  "mailbox_run put steps b = Some b' \<Longrightarrow> length (mb_queue b) \<le> mb_capacity b \<Longrightarrow>
     length (mb_queue b') \<le> mb_capacity b' \<and> mb_capacity b' = mb_capacity b"
proof (induction put steps b rule: mailbox_run.induct)
  case (2 put i cmd steps b)
  then show ?case by (fastforce simp: bind_eq_Some_conv send_to_mailbox_def split: if_splits)
next
  case (3 put steps b)
  with turn_capacity [of put b] show ?case by simp
qed simp

section \<open>Answers are final\<close>

lemma answered_more: "length rs = length dn \<Longrightarrow> answered dn rs \<subseteq>\<^sub>m answered (dn @ q) (rs @ rs')"
  by (auto simp: answered_def map_le_def map_add_def split: option.split)

lemma serial_answers:
  assumes "serial put a0 cs b" and "run_market_actor put (map snd cs) a0 = ((rs, stop), a)"
  shows "mb_answers b \<subseteq>\<^sub>m answered cs rs"
proof -
  from assms(1) obtain dn rs1 where cs: "cs = dn @ mb_queue b"
    and r: "run_market_actor put (map snd dn) a0 = ((rs1, \<not> mb_open b), mb_actor b)"
    and a: "mb_answers b = answered dn rs1" by (auto simp: serial_def)
  have "\<exists>rs'. rs = rs1 @ rs'"
    using assms(2) r unfolding cs by (auto simp: run_append split: if_splits prod.splits)
  then show ?thesis
    using answered_more [of rs1 dn "mb_queue b"] run_length [OF r] by (auto simp: a cs)
qed

lemma serial_complete:
  assumes "serial put a0 cs b" and "mb_queue b = []" and "distinct (map fst cs)"
    and "run_market_actor put (map snd cs) a0 = ((rs, stop), a)"
  shows "mb_actor b = a \<and> mb_open b = (\<not> stop) \<and> map (mb_answers b) (map fst cs) = map Some rs \<and>
    dom (mb_answers b) = set (map fst cs)"
proof -
  from assms(1,2,4) have a: "mb_answers b = answered cs rs" and "mb_actor b = a" "mb_open b = (\<not> stop)"
    by (auto simp: serial_def)
  moreover have l: "length rs = length cs" using run_length [OF assms(4)] by simp
  moreover have "answered cs rs (map fst cs ! i) = Some (rs ! i)" if "i < length cs" for i
    unfolding answered_def by (rule map_of_zip_nth) (use assms(3) l that in simp_all)
  then have "map (answered cs rs) (map fst cs) = map Some rs"
    using l by (intro nth_equalityI) (simp_all only: length_map nth_map)
  moreover have "dom (answered cs rs) = set (map fst cs)"
    using l by (simp add: answered_def dom_map_of_zip)
  ultimately show ?thesis by simp
qed

text \<open>C21: Concurrent clients cannot tell the actor from a sequential one.  Whatever clients call, however
  their sends and the turns of the task interleave, and however small the mailbox: it never holds
  more than its capacity; after at most as many turns as it holds commands every call has been
  answered, once, with the answer that the sequential run of the calls in the order of sending
  gives this very call, \<open>ActorClosed\<close> after the stop included; the actor is in the state of that
  run; and an answer that was given before is the final one.\<close>

theorem concurrent_calls_serial:
  assumes "mailbox_run put steps (mailbox_from_app app capacity j) = Some b"
    and "distinct (map fst (sent steps))"
    and "run_market_actor put (map snd (sent steps)) (spawn_from_app app j) = ((replies, stop), a)"
  shows "length (mb_queue b) \<le> capacity \<and>
    (\<exists>b'. b' = (actor_turn put ^^ length (mb_queue b)) b \<and> mb_queue b' = [] \<and>
       mb_actor b' = a \<and> mb_open b' = (\<not> stop) \<and>
       map (mb_answers b') (map fst (sent steps)) = map Some replies \<and>
       dom (mb_answers b') = set (map fst (sent steps)) \<and> mb_answers b \<subseteq>\<^sub>m mb_answers b')"
proof -
  let ?a0 = "spawn_from_app app j"
  have s: "serial put ?a0 (sent steps) b"
    using serial_run [OF assms(1) serial_start] assms(2) by simp
  note d = serial_drain [OF s assms(2)]
  have "mb_answers b \<subseteq>\<^sub>m mb_answers (drain put b)"
    using serial_answers [OF s assms(3)] d assms(3) by (auto simp: serial_def)
  moreover have "length (mb_queue b) \<le> capacity"
    using run_capacity [OF assms(1)] by (simp add: mailbox_from_app_def)
  ultimately show ?thesis
    using serial_complete [OF d assms(2,3)] d(2) by (auto simp: drain_def)
qed

section \<open>Journals under concurrent calls\<close>

text \<open>\<open>NoopEventJournal\<close> fulfils the contract of a journal that promises nothing about its contents.\<close>

interpretation noop: durable_journal noop_append "\<lambda>_ _. True"
  by unfold_locales simp_all

context durable_journal
begin

lemma mailbox_keeps:
  assumes "mailbox_run put steps (mailbox_from_app app capacity j) = Some b"
    and "distinct (map fst (sent steps))" and "\<forall>cmd \<in> set (map snd (sent steps)). command_ok cmd"
    and "in_sync m (spawn_from_app app j)"
  shows "in_sync m (mb_actor b) \<or> (\<not> mb_open b \<and> poisoned m (mb_actor b))"
proof -
  from serial_run [OF assms(1) serial_start] assms(2)
  have "serial put (spawn_from_app app j) (sent steps) b" by simp
  then obtain dn rs where "sent steps = dn @ mb_queue b"
    and r: "run_market_actor put (map snd dn) (spawn_from_app app j) = ((rs, \<not> mb_open b), mb_actor b)"
    by (auto simp: serial_def)
  with assms(3) have "\<forall>cmd \<in> set (map snd dn). command_ok cmd" by simp
  from run_keeps [OF assms(4) this r] show ?thesis .
qed

end

text \<open>The market of \<open>spawn\<close>, which keeps no journal, under concurrent calls.\<close>

lemma spawned_market_reachable:
  assumes "mailbox_run noop_append steps (spawn m capacity) = Some b"
    and "distinct (map fst (sent steps))" and "\<forall>cmd \<in> set (map snd (sent steps)). command_ok cmd"
  shows "app_reach m (act_app (mb_actor b))"
proof -
  have "noop.in_sync m (spawn_from_app (app_new m) ())"
    using app_reach.start [of m]
    by (simp add: noop.in_sync_def spawn_from_app_def app_orders_ok_def app_new_def resting_orders_def engine_new_ok)
  from noop.mailbox_keeps [OF assms(1) [unfolded spawn_def spawn_with_journal_def] assms(2,3) this]
  show ?thesis by (auto simp: noop.in_sync_def noop.poisoned_def)
qed

section \<open>A concrete schedule\<close>

text \<open>Three clients share a mailbox for two commands.\<close>

definition demo_steps :: "mailbox_step list" where
  "demo_steps =
     [Send 7 (demo_commands ! 0), Send 9 (demo_commands ! 1), Turn, Send 8 (demo_commands ! 2), Turn]"

definition demo_mailbox :: "(deposit_payload + order_placed_payload) pg_journal mailbox" where
  "demo_mailbox = mailbox_from_app (app_new demo_market) 2 \<lparr>pg_rows = [], pg_faults = []\<rparr>"

lemma demo_mailbox_runs: "\<not> Option.is_none (mailbox_run (pg_append plain_serde) demo_steps demo_mailbox)"
  by code_simp

lemma demo_sent: "sent demo_steps = zip [7, 9, 8] demo_commands"
  by (simp add: demo_steps_def demo_commands_def)

lemma concurrent_calls_serial_witness:
  "\<exists>b' :: (deposit_payload + order_placed_payload) pg_journal mailbox. map (mb_answers b') [7, 9, 8] =
     map Some [Inr ReplyDepositCredited, Inr (ReplyOrderPlaced []), Inl DuplicateCommand] \<and>
     mb_actor b' = snd (run_market_actor (pg_append plain_serde) demo_commands demo_actor) \<and>
     mb_queue b' = [] \<and> mb_open b'"
proof -
  from demo_mailbox_runs obtain b where b: "mailbox_run (pg_append plain_serde) demo_steps demo_mailbox = Some b"
    by (auto simp: Option.is_none_def)
  have m: "map fst (sent demo_steps) = [7, 9, 8]" "map snd (sent demo_steps) = demo_commands"
    by (simp_all add: demo_sent demo_commands_def)
  have "distinct [7, 9, 8 :: nat]" by simp
  from concurrent_calls_serial [OF b [unfolded demo_mailbox_def], unfolded m, OF this demo_run_pair [unfolded demo_actor_def]]
  show ?thesis unfolding demo_actor_def by (elim conjE exE) (intro exI conjI, assumption+, simp)
qed

end
