(* ===== verification/Issuer_Program.thy ===== *)
theory Issuer_Program
  imports Anchor_Base
begin

text \<open>
  \<open>programs/stablecoin_issuer\<close>: accounts and errors (\<open>state.rs\<close>, \<open>error.rs\<close>,
  \<open>constants.rs\<close>) and the seven instructions.  The Token-2022 program and the system program's
  \<open>create_account\<close> are one parameter, a function from an instruction and its signers to the new
  store.  What the libraries compute (account sizes, rent) are fields of \<open>issuer_env\<close>.
\<close>

section \<open>State\<close>

datatype issuer_error =
    ProtocolPaused
  | IssuerPaused
  | UnauthorizedIssuer
  | IssuerLimitExceeded
  | GlobalSupplyCapExceeded
  | InvalidGlobalSupplyCap
  | StablecoinMintAlreadyCreated
  | InvalidIssuerMintLimit
  | BurnAmountExceedsOutstanding

record issuer_protocol =
  isp_admin :: pubkey
  isp_pending_admin :: pubkey
  isp_stablecoin_mint :: pubkey
  isp_global_supply_cap :: u64
  isp_paused :: bool
  isp_bump :: u8

record stablecoin_mint_config =
  smc_protocol :: pubkey
  smc_mint :: pubkey
  smc_mint_authority :: pubkey
  smc_supply_stats :: pubkey
  smc_decimals :: u8
  smc_mint_authority_bump :: u8
  smc_bump :: u8

record global_supply_stats =
  gss_protocol :: pubkey
  gss_mint :: pubkey
  gss_current_supply :: u64
  gss_total_minted :: u64
  gss_total_burned :: u64
  gss_bump :: u8

record issuer_config =
  icf_protocol :: pubkey
  icf_authority :: pubkey
  icf_stats :: pubkey
  icf_mint_limit :: u64
  icf_paused :: bool
  icf_bump :: u8

record issuer_stats =
  ist_protocol :: pubkey
  ist_issuer_config :: pubkey
  ist_authority :: pubkey
  ist_current_outstanding :: u64
  ist_total_minted :: u64
  ist_total_burned :: u64
  ist_bump :: u8

text \<open>
  What Token-2022 keeps in the accounts it owns, as far as the supply of a mint depends on it;
  \<open>TokenOther\<close> is an account that is created and not yet initialised.
\<close>

record mint_2022 =
  m22_supply :: u64
  m22_authority :: pubkey
  m22_decimals :: u8

record holder_2022 =
  h22_mint :: pubkey
  h22_owner :: pubkey
  h22_amount :: u64

datatype issuer_account =
    IssuerProtocolAcc issuer_protocol
  | MintConfigAcc stablecoin_mint_config
  | SupplyStatsAcc global_supply_stats
  | IssuerConfigAcc issuer_config
  | IssuerStatsAcc issuer_stats
  | Mint2022 mint_2022
  | Holder2022 holder_2022
  | TokenOther

fun as_issuer_protocol :: "issuer_account \<Rightarrow> issuer_protocol option" where
  "as_issuer_protocol (IssuerProtocolAcc x) = Some x" | "as_issuer_protocol _ = None"
fun as_mint_config :: "issuer_account \<Rightarrow> stablecoin_mint_config option" where
  "as_mint_config (MintConfigAcc x) = Some x" | "as_mint_config _ = None"
fun as_supply_stats :: "issuer_account \<Rightarrow> global_supply_stats option" where
  "as_supply_stats (SupplyStatsAcc x) = Some x" | "as_supply_stats _ = None"
fun as_issuer_config :: "issuer_account \<Rightarrow> issuer_config option" where
  "as_issuer_config (IssuerConfigAcc x) = Some x" | "as_issuer_config _ = None"
fun as_issuer_stats :: "issuer_account \<Rightarrow> issuer_stats option" where
  "as_issuer_stats (IssuerStatsAcc x) = Some x" | "as_issuer_stats _ = None"

type_synonym issuer_store = "issuer_account accounts"
type_synonym issuer_failure = "issuer_error program_error"
type_synonym issuer_result = "(issuer_failure, issuer_store) result"

section \<open>Calls of other programs\<close>

datatype token_call =
    CreateAccount pubkey pubkey u64 u64                 \<comment> \<open>payer, new account, lamports, space\<close>
  | MetadataPointerInitialize pubkey pubkey pubkey      \<comment> \<open>mint, authority, metadata address\<close>
  | PermanentDelegateInitialize pubkey pubkey           \<comment> \<open>mint, delegate\<close>
  | InitializeMint2 pubkey u8 pubkey pubkey             \<comment> \<open>mint, decimals, authority, freeze authority\<close>
  | TokenMetadataInitialize pubkey pubkey pubkey string string string
  | InitializeAccount3 pubkey pubkey pubkey             \<comment> \<open>account, mint, owner\<close>
  | MintToChecked pubkey pubkey pubkey u64 u8           \<comment> \<open>mint, destination, authority, amount, decimals\<close>
  | BurnChecked pubkey pubkey pubkey u64 u8             \<comment> \<open>mint, source, authority, amount, decimals\<close>

type_synonym token_2022 = "token_call \<Rightarrow> pubkey list \<Rightarrow> issuer_store \<Rightarrow> issuer_store option"

record issuer_env =
  ie_anchor :: anchor_env
  ie_token :: token_2022
  ie_extended_mint_len :: "u64 option"
  ie_token_account_len :: "u64 option"
  ie_metadata_tlv_len :: "pubkey \<Rightarrow> string \<Rightarrow> string \<Rightarrow> string \<Rightarrow> u64 option"
  ie_minimum_balance :: "u64 \<Rightarrow> u64 option"

definition invoke_token ::
  "issuer_env \<Rightarrow> token_call \<Rightarrow> pubkey list \<Rightarrow> issuer_store \<Rightarrow> issuer_result" where
  "invoke_token env call signers accs = ok_or (ie_token env call signers accs) CpiFailed"

text \<open>\<open>PodMint::SIZE_OF\<close> and \<open>TokenAccount::SIZE_OF\<close> of the token library.\<close>

definition pod_mint_size :: u64 where "pod_mint_size = 82"
definition token_account_size :: u64 where "token_account_size = 165"
definition standalone_tlv_header_len :: u64 where "standalone_tlv_header_len = 8"

section \<open>Seeds\<close>

definition issuer_protocol_seeds :: "u8 list list" where
  "issuer_protocol_seeds = [ascii_bytes ''protocol'']"
definition mint_authority_seeds :: "u8 list list" where
  "mint_authority_seeds = [ascii_bytes ''mint-authority'']"
definition stablecoin_mint_seeds :: "u8 list list" where
  "stablecoin_mint_seeds = [ascii_bytes ''stablecoin-mint'']"
definition issuer_seeds :: "pubkey \<Rightarrow> u8 list list" where
  "issuer_seeds authority = [ascii_bytes ''issuer'', key_bytes authority]"
definition issuer_stats_seeds :: "pubkey \<Rightarrow> u8 list list" where
  "issuer_stats_seeds authority = [ascii_bytes ''issuer-stats'', key_bytes authority]"
definition supply_stats_seeds :: "u8 list list" where
  "supply_stats_seeds = [ascii_bytes ''supply-stats'']"

section \<open>Account validation\<close>

definition load_issuer_protocol ::
  "anchor_env \<Rightarrow> issuer_store \<Rightarrow> pubkey \<Rightarrow> (issuer_failure, issuer_protocol) result" where
  "load_issuer_protocol env accs k =
     and_then (load as_issuer_protocol accs k) (\<lambda>pc.
     and_then (check_seeds_bump env k issuer_protocol_seeds (isp_bump pc)) (\<lambda>_. Inr pc))"

text \<open>The protocol account of an instruction of the admin: \<open>admin: Signer\<close> and \<open>has_one = admin\<close>.\<close>

definition load_as_admin ::
  "anchor_env \<Rightarrow> pubkey list \<Rightarrow> issuer_store \<Rightarrow> pubkey \<Rightarrow> pubkey \<Rightarrow> (issuer_failure, issuer_protocol) result"
  where
  "load_as_admin env signers accs admin k =
     and_then (need_signer admin signers) (\<lambda>_.
     and_then (load_issuer_protocol env accs k) (\<lambda>pc.
     and_then (ensure (isp_admin pc = admin) ConstraintHasOne) (\<lambda>_. Inr pc)))"

definition load_issuer ::
  "anchor_env \<Rightarrow> issuer_store \<Rightarrow> pubkey \<Rightarrow> pubkey \<Rightarrow> pubkey \<Rightarrow> (issuer_failure, issuer_config) result" where
  "load_issuer env accs protocol authority k =
     and_then (load as_issuer_config accs k) (\<lambda>ic.
     and_then (check_seeds_bump env k (issuer_seeds authority) (icf_bump ic)) (\<lambda>_.
     and_then (ensure (icf_protocol ic = protocol) ConstraintRaw) (\<lambda>_.
     and_then (ensure (icf_authority ic = authority) ConstraintRaw) (\<lambda>_. Inr ic))))"

definition load_issuer_stats ::
  "anchor_env \<Rightarrow> issuer_store \<Rightarrow> pubkey \<Rightarrow> pubkey \<Rightarrow> pubkey \<Rightarrow> pubkey
    \<Rightarrow> (issuer_failure, issuer_stats) result" where
  "load_issuer_stats env accs protocol issuer authority k =
     and_then (load as_issuer_stats accs k) (\<lambda>st.
     and_then (check_seeds_bump env k (issuer_stats_seeds authority) (ist_bump st)) (\<lambda>_.
     and_then (ensure (ist_protocol st = protocol) ConstraintRaw) (\<lambda>_.
     and_then (ensure (ist_issuer_config st = issuer) ConstraintRaw) (\<lambda>_.
     and_then (ensure (ist_authority st = authority) ConstraintRaw) (\<lambda>_. Inr st)))))"

section \<open>Setup by the admin\<close>

record initialize_issuer_accounts =
  ii_admin :: pubkey
  ii_protocol :: pubkey

definition initialize_issuer_protocol ::
  "issuer_env \<Rightarrow> pubkey list \<Rightarrow> initialize_issuer_accounts \<Rightarrow> u64 \<Rightarrow> issuer_store \<Rightarrow> issuer_result" where
  "initialize_issuer_protocol env signers ctx cap accs =
     and_then (need_signer (ii_admin ctx) signers) (\<lambda>_.
     and_then (check_seeds (ie_anchor env) (ii_protocol ctx) issuer_protocol_seeds) (\<lambda>bump.
     and_then (init_fresh accs (ii_protocol ctx) ()) (\<lambda>_.
     and_then (require (cap > 0) InvalidGlobalSupplyCap) (\<lambda>_.
       Inr (accs(ii_protocol ctx \<mapsto> IssuerProtocolAcc
         \<lparr>isp_admin = ii_admin ctx, isp_pending_admin = 0, isp_stablecoin_mint = 0,
          isp_global_supply_cap = cap, isp_paused = False, isp_bump = bump\<rparr>))))))"

record create_mint_accounts =
  cm_admin :: pubkey
  cm_protocol :: pubkey
  cm_mint_config :: pubkey
  cm_supply_stats :: pubkey
  cm_mint_authority :: pubkey
  cm_mint :: pubkey

definition zero_mint_config :: stablecoin_mint_config where
  "zero_mint_config =
     \<lparr>smc_protocol = 0, smc_mint = 0, smc_mint_authority = 0, smc_supply_stats = 0,
      smc_decimals = 0, smc_mint_authority_bump = 0, smc_bump = 0\<rparr>"

definition zero_supply_stats :: global_supply_stats where
  "zero_supply_stats =
     \<lparr>gss_protocol = 0, gss_mint = 0, gss_current_supply = 0, gss_total_minted = 0,
      gss_total_burned = 0, gss_bump = 0\<rparr>"

text \<open>The lengths of the mint account: the space asked for now, and its rent with the metadata.\<close>

definition mint_space ::
  "issuer_env \<Rightarrow> pubkey \<Rightarrow> string \<Rightarrow> string \<Rightarrow> string \<Rightarrow> (issuer_failure, u64 \<times> u64) result" where
  "mint_space env mint name symbol uri =
     and_then (ok_or (ie_extended_mint_len env) LibraryFailed) (\<lambda>fixed.
     and_then (ok_or (ie_metadata_tlv_len env mint name symbol uri) LibraryFailed) (\<lambda>tlv.
     and_then (ok_or (checked_sub tlv standalone_tlv_header_len) InvalidAccountData) (\<lambda>metadata.
     and_then (ok_or (checked_add fixed metadata) InvalidAccountData) (\<lambda>final.
     and_then (ok_or (ie_minimum_balance env final) SysvarMissing) (\<lambda>rent.
     and_then (ensure (fixed > pod_mint_size) InvalidAccountData) (\<lambda>_. Inr (fixed, rent)))))))"

definition create_mint_account ::
  "issuer_env \<Rightarrow> pubkey list \<Rightarrow> create_mint_accounts \<Rightarrow> u8 \<Rightarrow> u8 \<Rightarrow> string \<Rightarrow> string \<Rightarrow> string
    \<Rightarrow> issuer_store \<Rightarrow> issuer_result" where
  "create_mint_account env signers ctx authority_bump decimals name symbol uri accs =
     (let mint = cm_mint ctx; authority = cm_mint_authority ctx in
     and_then (mint_space env mint name symbol uri) (\<lambda>(space, rent).
     and_then (invoke_token env (CreateAccount (cm_admin ctx) mint rent space) signers accs) (\<lambda>accs1.
     and_then (invoke_token env (MetadataPointerInitialize mint authority mint) signers accs1) (\<lambda>accs2.
     and_then (invoke_token env (PermanentDelegateInitialize mint authority) signers accs2) (\<lambda>accs3.
     and_then (invoke_token env (InitializeMint2 mint decimals authority authority) signers accs3) (\<lambda>accs4.
     and_then (ok_or (create_pda (ie_anchor env) mint_authority_seeds authority_bump) CpiFailed)
       (\<lambda>pda_signer.
       invoke_token env (TokenMetadataInitialize mint authority authority name symbol uri)
         (signers @ [pda_signer]) accs4)))))))"

definition create_stablecoin_mint ::
  "issuer_env \<Rightarrow> pubkey list \<Rightarrow> create_mint_accounts \<Rightarrow> u8 \<Rightarrow> string \<Rightarrow> string \<Rightarrow> string
    \<Rightarrow> issuer_store \<Rightarrow> issuer_result" where
  "create_stablecoin_mint env signers ctx decimals name symbol uri accs =
     (let anchor = ie_anchor env in
     and_then (load_as_admin anchor signers accs (cm_admin ctx) (cm_protocol ctx)) (\<lambda>pc.
     and_then (check_seeds anchor (cm_mint_config ctx) stablecoin_mint_seeds) (\<lambda>config_bump.
     and_then (check_seeds anchor (cm_supply_stats ctx) supply_stats_seeds) (\<lambda>supply_bump.
     and_then (init_both accs (cm_mint_config ctx) (cm_supply_stats ctx)) (\<lambda>_.
     and_then (check_seeds anchor (cm_mint_authority ctx) mint_authority_seeds) (\<lambda>authority_bump.
     and_then (need_signer (cm_mint ctx) signers) (\<lambda>_.
     and_then (require (isp_stablecoin_mint pc = 0) StablecoinMintAlreadyCreated) (\<lambda>_.
     and_then (create_mint_account env signers ctx authority_bump decimals name symbol uri
       (accs(cm_mint_config ctx \<mapsto> MintConfigAcc zero_mint_config,
             cm_supply_stats ctx \<mapsto> SupplyStatsAcc zero_supply_stats))) (\<lambda>accs1.
       Inr (accs1(
         cm_protocol ctx \<mapsto> IssuerProtocolAcc (pc\<lparr>isp_stablecoin_mint := cm_mint ctx\<rparr>),
         cm_mint_config ctx \<mapsto> MintConfigAcc
           \<lparr>smc_protocol = cm_protocol ctx, smc_mint = cm_mint ctx,
            smc_mint_authority = cm_mint_authority ctx, smc_supply_stats = cm_supply_stats ctx,
            smc_decimals = decimals, smc_mint_authority_bump = authority_bump,
            smc_bump = config_bump\<rparr>,
         cm_supply_stats ctx \<mapsto> SupplyStatsAcc
           \<lparr>gss_protocol = cm_protocol ctx, gss_mint = cm_mint ctx, gss_current_supply = 0,
            gss_total_minted = 0, gss_total_burned = 0, gss_bump = supply_bump\<rparr>)))))))))))"

record register_issuer_accounts =
  ri_admin :: pubkey
  ri_protocol :: pubkey
  ri_issuer :: pubkey
  ri_stats :: pubkey
  ri_authority :: pubkey

definition register_issuer ::
  "issuer_env \<Rightarrow> pubkey list \<Rightarrow> register_issuer_accounts \<Rightarrow> u64 \<Rightarrow> issuer_store \<Rightarrow> issuer_result" where
  "register_issuer env signers ctx mint_limit accs =
     and_then (load_as_admin (ie_anchor env) signers accs (ri_admin ctx) (ri_protocol ctx)) (\<lambda>pc.
     and_then (check_seeds (ie_anchor env) (ri_issuer ctx) (issuer_seeds (ri_authority ctx))) (\<lambda>issuer_bump.
     and_then (check_seeds (ie_anchor env) (ri_stats ctx) (issuer_stats_seeds (ri_authority ctx)))
       (\<lambda>stats_bump.
     and_then (init_both accs (ri_issuer ctx) (ri_stats ctx)) (\<lambda>_.
     and_then (require (mint_limit > 0) InvalidIssuerMintLimit) (\<lambda>_.
       Inr (accs(
         ri_issuer ctx \<mapsto> IssuerConfigAcc
           \<lparr>icf_protocol = ri_protocol ctx, icf_authority = ri_authority ctx, icf_stats = ri_stats ctx,
            icf_mint_limit = mint_limit, icf_paused = False, icf_bump = issuer_bump\<rparr>,
         ri_stats ctx \<mapsto> IssuerStatsAcc
           \<lparr>ist_protocol = ri_protocol ctx, ist_issuer_config = ri_issuer ctx,
            ist_authority = ri_authority ctx, ist_current_outstanding = 0, ist_total_minted = 0,
            ist_total_burned = 0, ist_bump = stats_bump\<rparr>)))))))"

record set_issuer_paused_accounts =
  sp_admin :: pubkey
  sp_protocol :: pubkey
  sp_issuer :: pubkey
  sp_authority :: pubkey

definition set_issuer_paused ::
  "issuer_env \<Rightarrow> pubkey list \<Rightarrow> set_issuer_paused_accounts \<Rightarrow> bool \<Rightarrow> issuer_store \<Rightarrow> issuer_result" where
  "set_issuer_paused env signers ctx paused accs =
     and_then (load_as_admin (ie_anchor env) signers accs (sp_admin ctx) (sp_protocol ctx)) (\<lambda>pc.
     and_then (load_issuer (ie_anchor env) accs (sp_protocol ctx) (sp_authority ctx) (sp_issuer ctx)) (\<lambda>ic.
       Inr (accs(sp_issuer ctx \<mapsto> IssuerConfigAcc (ic\<lparr>icf_paused := paused\<rparr>)))))"

record rotate_accounts =
  ro_admin :: pubkey
  ro_protocol :: pubkey
  ro_issuer :: pubkey
  ro_stats :: pubkey
  ro_new_issuer :: pubkey
  ro_new_stats :: pubkey
  ro_authority :: pubkey
  ro_new_authority :: pubkey

definition rotate_issuer_authority ::
  "issuer_env \<Rightarrow> pubkey list \<Rightarrow> rotate_accounts \<Rightarrow> issuer_store \<Rightarrow> issuer_result" where
  "rotate_issuer_authority env signers ctx accs =
     (let anchor = ie_anchor env in
     and_then (load_as_admin anchor signers accs (ro_admin ctx) (ro_protocol ctx)) (\<lambda>pc.
     and_then (load_issuer anchor accs (ro_protocol ctx) (ro_authority ctx) (ro_issuer ctx)) (\<lambda>ic.
     and_then (ensure (icf_stats ic = ro_stats ctx) ConstraintRaw) (\<lambda>_.
     and_then (load_issuer_stats anchor accs (ro_protocol ctx) (ro_issuer ctx) (ro_authority ctx)
       (ro_stats ctx)) (\<lambda>st.
     and_then (check_seeds anchor (ro_new_issuer ctx) (issuer_seeds (ro_new_authority ctx))) (\<lambda>issuer_bump.
     and_then (check_seeds anchor (ro_new_stats ctx) (issuer_stats_seeds (ro_new_authority ctx)))
       (\<lambda>stats_bump.
     and_then (init_both accs (ro_new_issuer ctx) (ro_new_stats ctx)) (\<lambda>_.
       Inr (accs(
         ro_new_issuer ctx \<mapsto> IssuerConfigAcc
           \<lparr>icf_protocol = ro_protocol ctx, icf_authority = ro_new_authority ctx,
            icf_stats = ro_new_stats ctx, icf_mint_limit = icf_mint_limit ic,
            icf_paused = icf_paused ic, icf_bump = issuer_bump\<rparr>,
         ro_new_stats ctx \<mapsto> IssuerStatsAcc
           \<lparr>ist_protocol = ro_protocol ctx, ist_issuer_config = ro_new_issuer ctx,
            ist_authority = ro_new_authority ctx,
            ist_current_outstanding = ist_current_outstanding st,
            ist_total_minted = ist_total_minted st, ist_total_burned = ist_total_burned st,
            ist_bump = stats_bump\<rparr>,
         ro_issuer ctx \<mapsto> IssuerConfigAcc (ic\<lparr>icf_mint_limit := 0, icf_paused := True\<rparr>)))))))))))"

section \<open>Issuance\<close>

text \<open>The accounts that \<open>MintToUser\<close> and \<open>BurnFromUser\<close> declare with the same constraints.\<close>

record issuance_accounts =
  ia_authority :: pubkey
  ia_protocol :: pubkey
  ia_mint_config :: pubkey
  ia_supply_stats :: pubkey
  ia_issuer :: pubkey
  ia_stats :: pubkey
  ia_mint_authority :: pubkey
  ia_mint :: pubkey
  ia_user_token :: pubkey

record issuance =
  iss_protocol :: issuer_protocol
  iss_mint_config :: stablecoin_mint_config
  iss_supply :: global_supply_stats
  iss_issuer :: issuer_config
  iss_stats :: issuer_stats

definition load_issuance ::
  "anchor_env \<Rightarrow> pubkey list \<Rightarrow> 'z issuance_accounts_scheme \<Rightarrow> issuer_store
    \<Rightarrow> (issuer_failure, issuance) result" where
  "load_issuance env signers ctx accs =
     and_then (need_signer (ia_authority ctx) signers) (\<lambda>_.
     and_then (load_issuer_protocol env accs (ia_protocol ctx)) (\<lambda>pc.
     and_then (load as_mint_config accs (ia_mint_config ctx)) (\<lambda>mc.
     and_then (check_seeds_bump env (ia_mint_config ctx) stablecoin_mint_seeds (smc_bump mc)) (\<lambda>_.
     and_then (ensure (smc_protocol mc = ia_protocol ctx) ConstraintRaw) (\<lambda>_.
     and_then (ensure (smc_mint mc = ia_mint ctx) ConstraintRaw) (\<lambda>_.
     and_then (ensure (smc_mint_authority mc = ia_mint_authority ctx) ConstraintRaw) (\<lambda>_.
     and_then (ensure (smc_supply_stats mc = ia_supply_stats ctx) ConstraintRaw) (\<lambda>_.
     and_then (load as_supply_stats accs (ia_supply_stats ctx)) (\<lambda>ss.
     and_then (check_seeds_bump env (ia_supply_stats ctx) supply_stats_seeds (gss_bump ss)) (\<lambda>_.
     and_then (ensure (gss_protocol ss = ia_protocol ctx) ConstraintRaw) (\<lambda>_.
     and_then (ensure (gss_mint ss = ia_mint ctx) ConstraintRaw) (\<lambda>_.
     and_then (load_issuer env accs (ia_protocol ctx) (ia_authority ctx) (ia_issuer ctx)) (\<lambda>ic.
     and_then (ensure (icf_stats ic = ia_stats ctx) ConstraintRaw) (\<lambda>_.
     and_then (load_issuer_stats env accs (ia_protocol ctx) (ia_issuer ctx) (ia_authority ctx)
       (ia_stats ctx)) (\<lambda>st.
     and_then (check_seeds_bump env (ia_mint_authority ctx) mint_authority_seeds
       (smc_mint_authority_bump mc)) (\<lambda>_.
     and_then (check_distinct_mut env [ia_supply_stats ctx, ia_issuer ctx, ia_stats ctx]) (\<lambda>_.
       Inr \<lparr>iss_protocol = pc, iss_mint_config = mc, iss_supply = ss, iss_issuer = ic,
            iss_stats = st\<rparr>)))))))))))))))))"

record mint_to_user_accounts = issuance_accounts +
  mu_user :: pubkey

text \<open>The limits that a mint of \<open>amount\<close> has to keep; the new outstanding amount and supply.\<close>

definition mint_limits :: "u64 \<Rightarrow> issuance \<Rightarrow> (issuer_failure, u64 \<times> u64) result" where
  "mint_limits amount s =
     and_then (require (\<not> isp_paused (iss_protocol s)) ProtocolPaused) (\<lambda>_.
     and_then (require (\<not> icf_paused (iss_issuer s)) IssuerPaused) (\<lambda>_.
     and_then (require_some (checked_add (ist_current_outstanding (iss_stats s)) amount)
       IssuerLimitExceeded) (\<lambda>outstanding.
     and_then (require (outstanding \<le> icf_mint_limit (iss_issuer s)) IssuerLimitExceeded) (\<lambda>_.
     and_then (require_some (checked_add (gss_current_supply (iss_supply s)) amount)
       GlobalSupplyCapExceeded) (\<lambda>supply.
     and_then (require (supply \<le> isp_global_supply_cap (iss_protocol s)) GlobalSupplyCapExceeded)
       (\<lambda>_. Inr (outstanding, supply)))))))"

definition deliver_mint ::
  "issuer_env \<Rightarrow> pubkey list \<Rightarrow> mint_to_user_accounts \<Rightarrow> u64 \<Rightarrow> stablecoin_mint_config
    \<Rightarrow> issuer_store \<Rightarrow> issuer_result" where
  "deliver_mint env signers ctx amount mc accs =
     and_then (ok_or (ie_token_account_len env) LibraryFailed) (\<lambda>space.
     and_then (ok_or (ie_minimum_balance env space) SysvarMissing) (\<lambda>rent.
     and_then (ensure (space = token_account_size) InvalidAccountData) (\<lambda>_.
     and_then (invoke_token env (CreateAccount (ia_authority ctx) (ia_user_token ctx) rent space)
       signers accs) (\<lambda>accs1.
     and_then (invoke_token env (InitializeAccount3 (ia_user_token ctx) (ia_mint ctx) (mu_user ctx))
       signers accs1) (\<lambda>accs2.
     and_then (ok_or (create_pda (ie_anchor env) mint_authority_seeds (smc_mint_authority_bump mc))
       CpiFailed) (\<lambda>pda_signer.
       invoke_token env (MintToChecked (ia_mint ctx) (ia_user_token ctx) (ia_mint_authority ctx) amount
         (smc_decimals mc)) (signers @ [pda_signer]) accs2))))))"

definition mint_to_user ::
  "issuer_env \<Rightarrow> pubkey list \<Rightarrow> mint_to_user_accounts \<Rightarrow> u64 \<Rightarrow> issuer_store \<Rightarrow> issuer_result" where
  "mint_to_user env signers ctx amount accs =
     and_then (load_issuance (ie_anchor env) signers ctx accs) (\<lambda>s.
     and_then (need_signer (ia_user_token ctx) signers) (\<lambda>_.
     and_then (mint_limits amount s) (\<lambda>(outstanding, supply).
     and_then (deliver_mint env signers ctx amount (iss_mint_config s) accs) (\<lambda>accs1.
     and_then (require_some (checked_add (ist_total_minted (iss_stats s)) amount) IssuerLimitExceeded)
       (\<lambda>issuer_minted.
     and_then (require_some (checked_add (gss_total_minted (iss_supply s)) amount)
       GlobalSupplyCapExceeded) (\<lambda>total_minted.
       Inr (accs1(
         ia_supply_stats ctx \<mapsto> SupplyStatsAcc ((iss_supply s)
           \<lparr>gss_current_supply := supply, gss_total_minted := total_minted\<rparr>),
         ia_stats ctx \<mapsto> IssuerStatsAcc ((iss_stats s)
           \<lparr>ist_current_outstanding := outstanding, ist_total_minted := issuer_minted\<rparr>)))))))))"

definition burn_limits :: "u64 \<Rightarrow> issuance \<Rightarrow> (issuer_failure, u64 \<times> u64) result" where
  "burn_limits amount s =
     and_then (require (\<not> isp_paused (iss_protocol s)) ProtocolPaused) (\<lambda>_.
     and_then (require (\<not> icf_paused (iss_issuer s)) IssuerPaused) (\<lambda>_.
     and_then (require_some (checked_sub (ist_current_outstanding (iss_stats s)) amount)
       BurnAmountExceedsOutstanding) (\<lambda>outstanding.
     and_then (require_some (checked_sub (gss_current_supply (iss_supply s)) amount)
       BurnAmountExceedsOutstanding) (\<lambda>supply. Inr (outstanding, supply)))))"

definition burn_from_user ::
  "issuer_env \<Rightarrow> pubkey list \<Rightarrow> issuance_accounts \<Rightarrow> u64 \<Rightarrow> issuer_store \<Rightarrow> issuer_result" where
  "burn_from_user env signers ctx amount accs =
     and_then (load_issuance (ie_anchor env) signers ctx accs) (\<lambda>s.
     and_then (burn_limits amount s) (\<lambda>(outstanding, supply).
     and_then (ok_or (create_pda (ie_anchor env) mint_authority_seeds
       (smc_mint_authority_bump (iss_mint_config s))) CpiFailed) (\<lambda>pda_signer.
     and_then (invoke_token env (BurnChecked (ia_mint ctx) (ia_user_token ctx) (ia_mint_authority ctx)
       amount (smc_decimals (iss_mint_config s))) (signers @ [pda_signer]) accs) (\<lambda>accs1.
     and_then (require_some (checked_add (ist_total_burned (iss_stats s)) amount)
       BurnAmountExceedsOutstanding) (\<lambda>issuer_burned.
     and_then (require_some (checked_add (gss_total_burned (iss_supply s)) amount)
       BurnAmountExceedsOutstanding) (\<lambda>total_burned.
       Inr (accs1(
         ia_supply_stats ctx \<mapsto> SupplyStatsAcc ((iss_supply s)
           \<lparr>gss_current_supply := supply, gss_total_burned := total_burned\<rparr>),
         ia_stats ctx \<mapsto> IssuerStatsAcc ((iss_stats s)
           \<lparr>ist_current_outstanding := outstanding, ist_total_burned := issuer_burned\<rparr>)))))))))"

section \<open>The program\<close>

datatype issuer_instruction =
    InitializeIssuerProtocol initialize_issuer_accounts u64
  | CreateStablecoinMint create_mint_accounts u8 string string string
  | RegisterIssuer register_issuer_accounts u64
  | SetIssuerPaused set_issuer_paused_accounts bool
  | RotateIssuerAuthority rotate_accounts
  | MintToUser mint_to_user_accounts u64
  | BurnFromUser issuance_accounts u64

fun stablecoin_issuer ::
  "issuer_env \<Rightarrow> pubkey list \<Rightarrow> issuer_instruction \<Rightarrow> issuer_store \<Rightarrow> issuer_result" where
  "stablecoin_issuer env signers (InitializeIssuerProtocol ctx cap) accs =
     initialize_issuer_protocol env signers ctx cap accs"
| "stablecoin_issuer env signers (CreateStablecoinMint ctx decimals name symbol uri) accs =
     create_stablecoin_mint env signers ctx decimals name symbol uri accs"
| "stablecoin_issuer env signers (RegisterIssuer ctx mint_limit) accs =
     register_issuer env signers ctx mint_limit accs"
| "stablecoin_issuer env signers (SetIssuerPaused ctx paused) accs =
     set_issuer_paused env signers ctx paused accs"
| "stablecoin_issuer env signers (RotateIssuerAuthority ctx) accs =
     rotate_issuer_authority env signers ctx accs"
| "stablecoin_issuer env signers (MintToUser ctx amount) accs = mint_to_user env signers ctx amount accs"
| "stablecoin_issuer env signers (BurnFromUser ctx amount) accs =
     burn_from_user env signers ctx amount accs"

end
