(* ===== verification/Issuer_Safety.thy ===== *)
theory Issuer_Safety
  imports Issuer_Program
begin

text \<open>
  Safety of the stablecoin issuer: what each successful instruction has checked and done, the type
  of every account the program owns, and the invariant that ties the supply statistics, the
  issuers' statistics, the caps and the real supply of the mint together.
\<close>

section \<open>What a successful instruction did\<close>

lemma as_issuer_accounts [simp]:
  "as_issuer_protocol a = Some pc \<longleftrightarrow> a = IssuerProtocolAcc pc"
  "as_mint_config a = Some mc \<longleftrightarrow> a = MintConfigAcc mc"
  "as_supply_stats a = Some ss \<longleftrightarrow> a = SupplyStatsAcc ss"
  "as_issuer_config a = Some ic \<longleftrightarrow> a = IssuerConfigAcc ic"
  "as_issuer_stats a = Some st \<longleftrightarrow> a = IssuerStatsAcc st"
  by (cases a; auto)+

lemma load_issuer_protocol_ok [checked_ok]:
  "load_issuer_protocol env accs k = Inr pc \<longleftrightarrow> accs k = Some (IssuerProtocolAcc pc) \<and>
     create_pda env issuer_protocol_seeds (isp_bump pc) = Some k"
  by (auto simp: load_issuer_protocol_def checked_ok)

lemma load_as_admin_ok [checked_ok]:
  "load_as_admin env signers accs admin k = Inr pc \<longleftrightarrow> admin \<in> set signers \<and> isp_admin pc = admin \<and>
     load_issuer_protocol env accs k = Inr pc"
  by (auto simp: load_as_admin_def checked_ok)

lemma load_issuer_ok [checked_ok]:
  "load_issuer env accs protocol authority k = Inr ic \<longleftrightarrow> accs k = Some (IssuerConfigAcc ic) \<and>
     create_pda env (issuer_seeds authority) (icf_bump ic) = Some k \<and>
     icf_protocol ic = protocol \<and> icf_authority ic = authority"
  by (auto simp: load_issuer_def checked_ok)

lemma load_issuer_stats_ok [checked_ok]:
  "load_issuer_stats env accs protocol issuer authority k = Inr st \<longleftrightarrow>
     accs k = Some (IssuerStatsAcc st) \<and>
     create_pda env (issuer_stats_seeds authority) (ist_bump st) = Some k \<and>
     ist_protocol st = protocol \<and> ist_issuer_config st = issuer \<and> ist_authority st = authority"
  by (auto simp: load_issuer_stats_def checked_ok)

lemma invoke_token_ok [checked_ok]:
  "invoke_token env call signers accs = Inr accs' \<longleftrightarrow> ie_token env call signers accs = Some accs'"
  by (simp add: invoke_token_def checked_ok)

lemma load_issuance_ok [checked_ok]:
  "load_issuance env signers ctx accs = Inr s \<longleftrightarrow>
     ia_authority ctx \<in> set signers \<and>
     load_issuer_protocol env accs (ia_protocol ctx) = Inr (iss_protocol s) \<and>
     accs (ia_mint_config ctx) = Some (MintConfigAcc (iss_mint_config s)) \<and>
     create_pda env stablecoin_mint_seeds (smc_bump (iss_mint_config s)) = Some (ia_mint_config ctx) \<and>
     smc_protocol (iss_mint_config s) = ia_protocol ctx \<and>
     smc_mint (iss_mint_config s) = ia_mint ctx \<and>
     smc_mint_authority (iss_mint_config s) = ia_mint_authority ctx \<and>
     smc_supply_stats (iss_mint_config s) = ia_supply_stats ctx \<and>
     accs (ia_supply_stats ctx) = Some (SupplyStatsAcc (iss_supply s)) \<and>
     create_pda env supply_stats_seeds (gss_bump (iss_supply s)) = Some (ia_supply_stats ctx) \<and>
     gss_protocol (iss_supply s) = ia_protocol ctx \<and> gss_mint (iss_supply s) = ia_mint ctx \<and>
     load_issuer env accs (ia_protocol ctx) (ia_authority ctx) (ia_issuer ctx) = Inr (iss_issuer s) \<and>
     icf_stats (iss_issuer s) = ia_stats ctx \<and>
     load_issuer_stats env accs (ia_protocol ctx) (ia_issuer ctx) (ia_authority ctx) (ia_stats ctx) =
       Inr (iss_stats s) \<and>
     create_pda env mint_authority_seeds (smc_mint_authority_bump (iss_mint_config s)) =
       Some (ia_mint_authority ctx) \<and>
     (rejects_duplicates env \<longrightarrow> distinct [ia_supply_stats ctx, ia_issuer ctx, ia_stats ctx])"
  (is "?l \<longleftrightarrow> ?r")
proof
  assume ?l
  then show ?r by (auto simp: load_issuance_def checked_ok)
next
  assume ?r
  then show ?l
    by (cases s) (simp add: load_issuance_def checked_ok)
qed

lemma mint_limits_ok [checked_ok]:
  "mint_limits amount s = Inr p \<longleftrightarrow>
     \<not> isp_paused (iss_protocol s) \<and> \<not> icf_paused (iss_issuer s) \<and>
     unat (fst p) = unat (ist_current_outstanding (iss_stats s)) + unat amount \<and>
     fst p \<le> icf_mint_limit (iss_issuer s) \<and>
     unat (snd p) = unat (gss_current_supply (iss_supply s)) + unat amount \<and>
     snd p \<le> isp_global_supply_cap (iss_protocol s)"
  by (cases p) (auto simp: mint_limits_def checked_ok)

lemma burn_limits_ok [checked_ok]:
  "burn_limits amount s = Inr p \<longleftrightarrow>
     \<not> isp_paused (iss_protocol s) \<and> \<not> icf_paused (iss_issuer s) \<and>
     unat (ist_current_outstanding (iss_stats s)) = unat amount + unat (fst p) \<and>
     unat (gss_current_supply (iss_supply s)) = unat amount + unat (snd p)"
  by (cases p) (auto simp: burn_limits_def checked_ok)

lemma initialize_issuer_protocol_ok:
  assumes "initialize_issuer_protocol env signers ctx cap accs = Inr accs'"
  shows "\<exists>bump. ii_admin ctx \<in> set signers \<and> cap \<noteq> 0 \<and> accs (ii_protocol ctx) = None \<and>
    find_pda (ie_anchor env) issuer_protocol_seeds = (ii_protocol ctx, bump) \<and>
    accs' = accs(ii_protocol ctx \<mapsto> IssuerProtocolAcc
         \<lparr>isp_admin = ii_admin ctx, isp_pending_admin = 0, isp_stablecoin_mint = 0,
          isp_global_supply_cap = cap, isp_paused = False, isp_bump = bump\<rparr>)"
  using assms by (auto simp: initialize_issuer_protocol_def checked_ok word_gt_0)

lemma register_issuer_ok:
  assumes "register_issuer env signers ctx mint_limit accs = Inr accs'"
  shows "\<exists>pc ib sb. load_as_admin (ie_anchor env) signers accs (ri_admin ctx) (ri_protocol ctx) = Inr pc \<and>
    accs (ri_issuer ctx) = None \<and> accs (ri_stats ctx) = None \<and> ri_issuer ctx \<noteq> ri_stats ctx \<and>
    find_pda (ie_anchor env) (issuer_seeds (ri_authority ctx)) = (ri_issuer ctx, ib) \<and>
    find_pda (ie_anchor env) (issuer_stats_seeds (ri_authority ctx)) = (ri_stats ctx, sb) \<and>
    mint_limit \<noteq> 0 \<and>
    accs' = accs(
      ri_issuer ctx \<mapsto> IssuerConfigAcc
        \<lparr>icf_protocol = ri_protocol ctx, icf_authority = ri_authority ctx, icf_stats = ri_stats ctx,
            icf_mint_limit = mint_limit, icf_paused = False, icf_bump = ib\<rparr>,
      ri_stats ctx \<mapsto> IssuerStatsAcc
        \<lparr>ist_protocol = ri_protocol ctx, ist_issuer_config = ri_issuer ctx,
            ist_authority = ri_authority ctx, ist_current_outstanding = 0, ist_total_minted = 0,
            ist_total_burned = 0, ist_bump = sb\<rparr>)"
  using assms unfolding register_issuer_def
  by (auto simp only: and_then_ok require_ok init_both_ok check_seeds_ok word_gt_0 sum.inject)

lemma set_issuer_paused_ok:
  assumes "set_issuer_paused env signers ctx paused accs = Inr accs'"
  shows "\<exists>pc ic. load_as_admin (ie_anchor env) signers accs (sp_admin ctx) (sp_protocol ctx) = Inr pc \<and>
    load_issuer (ie_anchor env) accs (sp_protocol ctx) (sp_authority ctx) (sp_issuer ctx) = Inr ic \<and>
    accs' = accs(sp_issuer ctx \<mapsto> IssuerConfigAcc (ic\<lparr>icf_paused := paused\<rparr>))"
  using assms by (auto simp: set_issuer_paused_def and_then_ok)

lemma rotate_ok:
  assumes "rotate_issuer_authority env signers ctx accs = Inr accs'"
  shows "\<exists>pc ic st ib sb.
    load_as_admin (ie_anchor env) signers accs (ro_admin ctx) (ro_protocol ctx) = Inr pc \<and>
    load_issuer (ie_anchor env) accs (ro_protocol ctx) (ro_authority ctx) (ro_issuer ctx) = Inr ic \<and>
    icf_stats ic = ro_stats ctx \<and>
    load_issuer_stats (ie_anchor env) accs (ro_protocol ctx) (ro_issuer ctx) (ro_authority ctx)
      (ro_stats ctx) = Inr st \<and>
    accs (ro_new_issuer ctx) = None \<and> accs (ro_new_stats ctx) = None \<and>
    ro_new_issuer ctx \<noteq> ro_new_stats ctx \<and>
    find_pda (ie_anchor env) (issuer_seeds (ro_new_authority ctx)) = (ro_new_issuer ctx, ib) \<and>
    find_pda (ie_anchor env) (issuer_stats_seeds (ro_new_authority ctx)) = (ro_new_stats ctx, sb) \<and>
    accs' = accs(
      ro_new_issuer ctx \<mapsto> IssuerConfigAcc
        \<lparr>icf_protocol = ro_protocol ctx, icf_authority = ro_new_authority ctx,
            icf_stats = ro_new_stats ctx, icf_mint_limit = icf_mint_limit ic,
            icf_paused = icf_paused ic, icf_bump = ib\<rparr>,
      ro_new_stats ctx \<mapsto> IssuerStatsAcc
        \<lparr>ist_protocol = ro_protocol ctx, ist_issuer_config = ro_new_issuer ctx,
            ist_authority = ro_new_authority ctx,
            ist_current_outstanding = ist_current_outstanding st,
            ist_total_minted = ist_total_minted st, ist_total_burned = ist_total_burned st,
            ist_bump = sb\<rparr>,
      ro_issuer ctx \<mapsto> IssuerConfigAcc (ic\<lparr>icf_mint_limit := 0, icf_paused := True\<rparr>))"
proof -
  note unfolded = assms [unfolded rotate_issuer_authority_def Let_def and_then_ok ensure_ok check_seeds_ok
    init_both_ok sum.inject]
  from unfolded show ?thesis
    apply (elim exE conjE)
    subgoal for pc ic _ st ib sb
      by (rule exI [of _ pc], rule exI [of _ ic], rule exI [of _ st], rule exI [of _ ib],
          rule exI [of _ sb]) simp
    done
qed

lemma create_mint_account_ok:
  assumes "create_mint_account env signers ctx b decimals name symbol uri accs = Inr accs'"
  shows "\<exists>lamports space pda accs1 accs2 accs3 accs4.
    ie_token env (CreateAccount (cm_admin ctx) (cm_mint ctx) lamports space) signers accs = Some accs1 \<and>
    ie_token env (MetadataPointerInitialize (cm_mint ctx) (cm_mint_authority ctx) (cm_mint ctx)) signers
      accs1 = Some accs2 \<and>
    ie_token env (PermanentDelegateInitialize (cm_mint ctx) (cm_mint_authority ctx)) signers accs2 =
      Some accs3 \<and>
    ie_token env (InitializeMint2 (cm_mint ctx) decimals (cm_mint_authority ctx) (cm_mint_authority ctx))
      signers accs3 = Some accs4 \<and>
    ie_token env (TokenMetadataInitialize (cm_mint ctx) (cm_mint_authority ctx) (cm_mint_authority ctx)
      name symbol uri) (signers @ [pda]) accs4 = Some accs'"
  using assms unfolding create_mint_account_def Let_def
  by (clarsimp simp: and_then_ok invoke_token_ok) blast

lemma create_stablecoin_mint_ok:
  assumes "create_stablecoin_mint env signers ctx decimals name symbol uri accs = Inr accs'"
  shows "\<exists>pc mb sb ab accs1.
    load_as_admin (ie_anchor env) signers accs (cm_admin ctx) (cm_protocol ctx) = Inr pc \<and>
    find_pda (ie_anchor env) stablecoin_mint_seeds = (cm_mint_config ctx, mb) \<and>
    find_pda (ie_anchor env) supply_stats_seeds = (cm_supply_stats ctx, sb) \<and>
    find_pda (ie_anchor env) mint_authority_seeds = (cm_mint_authority ctx, ab) \<and>
    accs (cm_mint_config ctx) = None \<and> accs (cm_supply_stats ctx) = None \<and>
    cm_mint_config ctx \<noteq> cm_supply_stats ctx \<and>
    cm_mint ctx \<in> set signers \<and> isp_stablecoin_mint pc = 0 \<and>
    create_mint_account env signers ctx ab decimals name symbol uri
       (accs(cm_mint_config ctx \<mapsto> MintConfigAcc zero_mint_config,
             cm_supply_stats ctx \<mapsto> SupplyStatsAcc zero_supply_stats)) = Inr accs1 \<and>
    accs' = accs1(
         cm_protocol ctx \<mapsto> IssuerProtocolAcc (pc\<lparr>isp_stablecoin_mint := cm_mint ctx\<rparr>),
         cm_mint_config ctx \<mapsto> MintConfigAcc
           \<lparr>smc_protocol = cm_protocol ctx, smc_mint = cm_mint ctx,
            smc_mint_authority = cm_mint_authority ctx, smc_supply_stats = cm_supply_stats ctx,
            smc_decimals = decimals, smc_mint_authority_bump = ab, smc_bump = mb\<rparr>,
         cm_supply_stats ctx \<mapsto> SupplyStatsAcc
           \<lparr>gss_protocol = cm_protocol ctx, gss_mint = cm_mint ctx, gss_current_supply = 0,
            gss_total_minted = 0, gss_total_burned = 0, gss_bump = sb\<rparr>)"
proof -
  note unfolded = assms [unfolded create_stablecoin_mint_def Let_def and_then_ok require_ok check_seeds_ok
    init_both_ok need_signer_ok sum.inject]
  from unfolded show ?thesis
    apply (elim exE conjE)
    subgoal for pc mb sb _ ab _ _ accs1
      by (rule exI [of _ pc], rule exI [of _ mb], rule exI [of _ sb], rule exI [of _ ab],
          rule exI [of _ accs1]) simp
    done
qed

lemma deliver_mint_ok:
  assumes "deliver_mint env signers ctx amount mc accs = Inr accs'"
  shows "\<exists>lamports space pda accs1 accs2.
    ie_token env (CreateAccount (ia_authority ctx) (ia_user_token ctx) lamports space) signers accs =
      Some accs1 \<and>
    ie_token env (InitializeAccount3 (ia_user_token ctx) (ia_mint ctx) (mu_user ctx)) signers accs1 =
      Some accs2 \<and>
    create_pda (ie_anchor env) mint_authority_seeds (smc_mint_authority_bump mc) = Some pda \<and>
    ie_token env (MintToChecked (ia_mint ctx) (ia_user_token ctx) (ia_mint_authority ctx) amount
      (smc_decimals mc)) (signers @ [pda]) accs2 = Some accs'"
  using assms unfolding deliver_mint_def by (clarsimp simp: and_then_ok invoke_token_ok ok_or_ok) blast

lemma mint_to_user_ok:
  assumes "mint_to_user env signers ctx amount accs = Inr accs'"
  shows "\<exists>s outstanding supply issuer_minted total_minted accs1.
    load_issuance (ie_anchor env) signers ctx accs = Inr s \<and>
    mint_limits amount s = Inr (outstanding, supply) \<and>
    deliver_mint env signers ctx amount (iss_mint_config s) accs = Inr accs1 \<and>
    unat issuer_minted = unat (ist_total_minted (iss_stats s)) + unat amount \<and>
    unat total_minted = unat (gss_total_minted (iss_supply s)) + unat amount \<and>
    accs' = accs1(
         ia_supply_stats ctx \<mapsto> SupplyStatsAcc ((iss_supply s)
           \<lparr>gss_current_supply := supply, gss_total_minted := total_minted\<rparr>),
         ia_stats ctx \<mapsto> IssuerStatsAcc ((iss_stats s)
           \<lparr>ist_current_outstanding := outstanding, ist_total_minted := issuer_minted\<rparr>))"
  using assms unfolding mint_to_user_def
  apply (simp only: and_then_ok require_some_ok checked_add_Some sum.inject split_paired_Ex prod.case)
  apply (elim exE conjE)
  subgoal by (intro exI conjI) (assumption | simp)+
  done

lemma burn_from_user_ok:
  assumes "burn_from_user env signers ctx amount accs = Inr accs'"
  shows "\<exists>s outstanding supply pda issuer_burned total_burned accs1.
    load_issuance (ie_anchor env) signers ctx accs = Inr s \<and>
    burn_limits amount s = Inr (outstanding, supply) \<and>
    ie_token env (BurnChecked (ia_mint ctx) (ia_user_token ctx) (ia_mint_authority ctx)
       amount (smc_decimals (iss_mint_config s))) (signers @ [pda]) accs = Some accs1 \<and>
    unat issuer_burned = unat (ist_total_burned (iss_stats s)) + unat amount \<and>
    unat total_burned = unat (gss_total_burned (iss_supply s)) + unat amount \<and>
    accs' = accs1(
         ia_supply_stats ctx \<mapsto> SupplyStatsAcc ((iss_supply s)
           \<lparr>gss_current_supply := supply, gss_total_burned := total_burned\<rparr>),
         ia_stats ctx \<mapsto> IssuerStatsAcc ((iss_stats s)
           \<lparr>ist_current_outstanding := outstanding, ist_total_burned := issuer_burned\<rparr>))"
  using assms unfolding burn_from_user_def
  apply (simp only: and_then_ok require_some_ok checked_add_Some ok_or_ok invoke_token_ok sum.inject
      split_paired_Ex prod.case)
  apply (elim exE conjE)
  subgoal by (intro exI conjI) (assumption | simp)+
  done

end
