(* ===== verification/Issuer_Invariant.thy ===== *)
theory Issuer_Invariant
  imports Issuer_Safety
begin

text \<open>
  The invariant of the stablecoin issuer: every account the program owns is at the address derived
  for its contents, and the supply statistics, the issuers' statistics, the caps and the real supply
  of the mint agree.  Every instruction keeps it, and so does what other programs may do to the
  token accounts in between.
\<close>

section \<open>Token-2022\<close>

fun token_owned :: "issuer_account option \<Rightarrow> bool" where
  "token_owned None = True"
| "token_owned (Some (Mint2022 _)) = True"
| "token_owned (Some (Holder2022 _)) = True"
| "token_owned (Some TokenOther) = True"
| "token_owned (Some _) = False"

definition supply_of :: "issuer_store \<Rightarrow> pubkey \<Rightarrow> nat" where
  "supply_of accs m = (case accs m of Some (Mint2022 x) \<Rightarrow> unat (m22_supply x) | _ \<Rightarrow> 0)"

definition authority_of :: "issuer_store \<Rightarrow> pubkey \<Rightarrow> pubkey option" where
  "authority_of accs m = (case accs m of Some (Mint2022 x) \<Rightarrow> Some (m22_authority x) | _ \<Rightarrow> None)"

fun minted_by :: "token_call \<Rightarrow> pubkey \<Rightarrow> nat" where
  "minted_by (MintToChecked mint _ _ amount _) m = (if m = mint then unat amount else 0)"
| "minted_by _ _ = 0"

fun burned_by :: "token_call \<Rightarrow> pubkey \<Rightarrow> nat" where
  "burned_by (BurnChecked mint _ _ amount _) m = (if m = mint then unat amount else 0)"
| "burned_by _ _ = 0"

fun authority_after :: "token_call \<Rightarrow> issuer_store \<Rightarrow> pubkey \<Rightarrow> pubkey option" where
  "authority_after (InitializeMint2 mint _ authority _) accs m =
     (if m = mint then Some authority else authority_of accs m)"
| "authority_after _ accs m = authority_of accs m"

fun call_applies :: "token_call \<Rightarrow> issuer_store \<Rightarrow> bool" where
  "call_applies (CreateAccount _ k _ _) accs \<longleftrightarrow> accs k = None"
| "call_applies _ accs \<longleftrightarrow> True"

text \<open>
  What the documentation of Token-2022 and of the system program says of these calls: they write
  token accounts only, create accounts that are not there, change the supply of a mint by what is
  minted and burned, and leave its authority alone once it is set.
\<close>

definition token_2022_ok :: "token_2022 \<Rightarrow> bool" where
  "token_2022_ok token \<longleftrightarrow>
     (\<forall>call signers accs accs'. token call signers accs = Some accs' \<longrightarrow>
        call_applies call accs \<and>
        (\<forall>k. accs' k = accs k \<or> token_owned (accs k) \<and> token_owned (accs' k)) \<and>
        (\<forall>m. supply_of accs' m + burned_by call m = supply_of accs m + minted_by call m) \<and>
        (\<forall>m. authority_of accs' m = authority_after call accs m))"

definition token_frame :: "issuer_store \<Rightarrow> issuer_store \<Rightarrow> bool" where
  "token_frame accs accs' \<longleftrightarrow> (\<forall>k. accs' k = accs k \<or> token_owned (accs k) \<and> token_owned (accs' k))"

lemma token_call_effect:
  assumes "token_2022_ok token" and "token call signers accs = Some accs'"
  shows "call_applies call accs" "token_frame accs accs'"
    "supply_of accs' m + burned_by call m = supply_of accs m + minted_by call m"
    "authority_of accs' m = authority_after call accs m"
  using assms unfolding token_2022_ok_def token_frame_def by blast+

lemma token_frame_refl [simp]: "token_frame accs accs"
  by (simp add: token_frame_def)

lemma token_frame_trans:
  assumes "token_frame a b" and "token_frame b c"
  shows "token_frame a c"
  unfolding token_frame_def
proof
  fix k
  show "c k = a k \<or> token_owned (a k) \<and> token_owned (c k)"
    using assms unfolding token_frame_def by metis
qed

lemma token_frame_owned:
  "token_frame accs accs' \<Longrightarrow> \<not> token_owned (Some a) \<Longrightarrow> accs' k = Some a \<longleftrightarrow> accs k = Some a"
  unfolding token_frame_def by (metis (full_types))

section \<open>The invariant\<close>

text \<open>Every account of the program is where its contents say; the pause flag has no setter.\<close>

fun account_typed :: "anchor_env \<Rightarrow> pubkey \<Rightarrow> issuer_account \<Rightarrow> bool" where
  "account_typed env k (IssuerProtocolAcc pc) \<longleftrightarrow>
     find_pda env issuer_protocol_seeds = (k, isp_bump pc) \<and>
     0 < isp_global_supply_cap pc \<and> \<not> isp_paused pc \<and> isp_pending_admin pc = 0"
| "account_typed env k (MintConfigAcc mc) \<longleftrightarrow>
     find_pda env stablecoin_mint_seeds = (k, smc_bump mc) \<and>
     find_pda env mint_authority_seeds = (smc_mint_authority mc, smc_mint_authority_bump mc) \<and>
     fst (find_pda env supply_stats_seeds) = smc_supply_stats mc"
| "account_typed env k (SupplyStatsAcc ss) \<longleftrightarrow> find_pda env supply_stats_seeds = (k, gss_bump ss)"
| "account_typed env k (IssuerConfigAcc ic) \<longleftrightarrow>
     find_pda env (issuer_seeds (icf_authority ic)) = (k, icf_bump ic) \<and>
     fst (find_pda env (issuer_stats_seeds (icf_authority ic))) = icf_stats ic"
| "account_typed env k (IssuerStatsAcc st) \<longleftrightarrow>
     find_pda env (issuer_stats_seeds (ist_authority st)) = (k, ist_bump st) \<and>
     fst (find_pda env (issuer_seeds (ist_authority st))) = ist_issuer_config st"
| "account_typed env k _ \<longleftrightarrow> True"

definition issuer_typed :: "anchor_env \<Rightarrow> issuer_store \<Rightarrow> bool" where
  "issuer_typed env accs \<longleftrightarrow> (\<forall>k a. accs k = Some a \<longrightarrow> account_typed env k a)"

definition protocol_of :: "anchor_env \<Rightarrow> issuer_store \<Rightarrow> issuer_protocol option" where
  "protocol_of env accs = Option.bind (accs (fst (find_pda env issuer_protocol_seeds))) as_issuer_protocol"

definition stats_of :: "anchor_env \<Rightarrow> issuer_store \<Rightarrow> global_supply_stats option" where
  "stats_of env accs = Option.bind (accs (fst (find_pda env supply_stats_seeds))) as_supply_stats"

definition total_minted :: "anchor_env \<Rightarrow> issuer_store \<Rightarrow> nat" where
  "total_minted env accs = (case stats_of env accs of None \<Rightarrow> 0 | Some ss \<Rightarrow> unat (gss_total_minted ss))"

definition total_burned :: "anchor_env \<Rightarrow> issuer_store \<Rightarrow> nat" where
  "total_burned env accs = (case stats_of env accs of None \<Rightarrow> 0 | Some ss \<Rightarrow> unat (gss_total_burned ss))"

definition supply_sound :: "anchor_env \<Rightarrow> issuer_store \<Rightarrow> global_supply_stats \<Rightarrow> bool" where
  "supply_sound env accs ss \<longleftrightarrow>
     unat (gss_current_supply ss) + unat (gss_total_burned ss) = unat (gss_total_minted ss) \<and>
     (\<exists>pc. protocol_of env accs = Some pc \<and> gss_current_supply ss \<le> isp_global_supply_cap pc) \<and>
     supply_of accs (gss_mint ss) \<le> unat (gss_current_supply ss) \<and>
     authority_of accs (gss_mint ss) = Some (fst (find_pda env mint_authority_seeds))"

definition issuer_sound :: "anchor_env \<Rightarrow> issuer_store \<Rightarrow> issuer_stats \<Rightarrow> bool" where
  "issuer_sound env accs st \<longleftrightarrow>
     unat (ist_current_outstanding st) + unat (ist_total_burned st) = unat (ist_total_minted st) \<and>
     unat (ist_total_minted st) \<le> total_minted env accs \<and>
     unat (ist_total_burned st) \<le> total_burned env accs \<and>
     (\<exists>ic. accs (ist_issuer_config st) = Some (IssuerConfigAcc ic) \<and>
        (icf_mint_limit ic = 0 \<or> ist_current_outstanding st \<le> icf_mint_limit ic))"

definition issuer_inv :: "anchor_env \<Rightarrow> issuer_store \<Rightarrow> bool" where
  "issuer_inv env accs \<longleftrightarrow> issuer_typed env accs \<and>
     (\<forall>ss. stats_of env accs = Some ss \<longrightarrow> supply_sound env accs ss) \<and>
     (\<forall>k st. accs k = Some (IssuerStatsAcc st) \<longrightarrow> issuer_sound env accs st)"

lemma protocol_of_eq: "protocol_of env accs = Some pc \<longleftrightarrow>
    accs (fst (find_pda env issuer_protocol_seeds)) = Some (IssuerProtocolAcc pc)"
  by (auto simp: protocol_of_def Option.bind_eq_Some_conv)

lemma stats_of_eq: "stats_of env accs = Some ss \<longleftrightarrow>
    accs (fst (find_pda env supply_stats_seeds)) = Some (SupplyStatsAcc ss)"
  by (auto simp: stats_of_def Option.bind_eq_Some_conv)

lemma token_accounts_typed [simp]: "token_owned (Some a) \<Longrightarrow> account_typed env k a"
  by (cases a) auto

lemma issuer_inv_empty:
  assumes o: "\<And>k. token_owned (accs k)"
  shows "issuer_inv env accs"
proof -
  have "stats_of env accs \<noteq> Some ss" for ss
    using o [of "fst (find_pda env supply_stats_seeds)"] by (auto simp: stats_of_eq)
  moreover have "accs k = Some a \<Longrightarrow> account_typed env k a" for k a
    using o [of k] by simp
  moreover have "accs k \<noteq> Some (IssuerStatsAcc st)" for k st using o [of k] by auto
  ultimately show ?thesis by (simp add: issuer_inv_def issuer_typed_def)
qed

text \<open>What the invariant says of the accounts an instruction has loaded.\<close>

lemma typed_protocol:
  "issuer_typed env accs \<Longrightarrow> accs k = Some (IssuerProtocolAcc pc) \<Longrightarrow>
     find_pda env issuer_protocol_seeds = (k, isp_bump pc) \<and> protocol_of env accs = Some pc"
  by (fastforce simp: issuer_typed_def protocol_of_eq)

lemma typed_supply_stats:
  "issuer_typed env accs \<Longrightarrow> accs k = Some (SupplyStatsAcc ss) \<Longrightarrow>
     find_pda env supply_stats_seeds = (k, gss_bump ss) \<and> stats_of env accs = Some ss"
  by (fastforce simp: issuer_typed_def stats_of_eq)

lemma typed_account: "issuer_typed env accs \<Longrightarrow> accs k = Some a \<Longrightarrow> account_typed env k a"
  by (simp add: issuer_typed_def)

lemma issuer_typed_change:
  assumes "issuer_typed env accs"
    and "\<And>k a. accs' k = Some a \<Longrightarrow> accs k = Some a \<or> token_owned (Some a) \<or> account_typed env k a"
  shows "issuer_typed env accs'"
  unfolding issuer_typed_def
proof (intro allI impI)
  fix k a
  assume "accs' k = Some a"
  from assms(2) [OF this] show "account_typed env k a"
    using assms(1) by (auto simp: issuer_typed_def)
qed

text \<open>Writes to accounts of the program do not touch the mints.\<close>

lemma program_write [simp]:
  assumes "\<not> token_owned (Some a)" and "accs k = None \<or> \<not> token_owned (accs k)"
  shows "supply_of (accs(k \<mapsto> a)) m = supply_of accs m"
    "authority_of (accs(k \<mapsto> a)) m = authority_of accs m"
  using assms by (cases a; auto simp: supply_of_def authority_of_def split: option.splits
      issuer_account.splits)+

lemma option_eqI: "(\<And>x. a = Some x \<longleftrightarrow> b = Some x) \<Longrightarrow> a = b"
  by (cases a; cases b) auto

lemma protocol_of_cong:
  "(\<And>k pc. accs k = Some (IssuerProtocolAcc pc) \<longleftrightarrow> accs' k = Some (IssuerProtocolAcc pc)) \<Longrightarrow>
     protocol_of env accs' = protocol_of env accs"
  by (rule option_eqI) (simp add: protocol_of_eq)

lemma stats_of_cong:
  "(\<And>k ss. accs k = Some (SupplyStatsAcc ss) \<longleftrightarrow> accs' k = Some (SupplyStatsAcc ss)) \<Longrightarrow>
     stats_of env accs' = stats_of env accs"
  by (rule option_eqI) (simp add: stats_of_eq)

lemma token_frame_of:
  assumes "token_frame accs accs'"
  shows "protocol_of env accs' = protocol_of env accs" "stats_of env accs' = stats_of env accs"
  using token_frame_owned [OF assms]
  by (auto intro!: protocol_of_cong stats_of_cong)

section \<open>Mint and burn\<close>

text \<open>A write of the supply statistics and of one issuer's statistics after calls of Token-2022.\<close>

lemma issuance_write:
  assumes inv: "issuer_inv env accs" and ld: "load_issuance env signers ctx accs = Inr s"
    and fr: "token_frame accs accs1"
    and accs': "accs' = accs1(ia_supply_stats ctx \<mapsto> SupplyStatsAcc ss, ia_stats ctx \<mapsto> IssuerStatsAcc st)"
    and ids: "gss_bump ss = gss_bump (iss_supply s)" "gss_mint ss = gss_mint (iss_supply s)"
      "ist_bump st = ist_bump (iss_stats s)" "ist_authority st = ist_authority (iss_stats s)"
      "ist_issuer_config st = ist_issuer_config (iss_stats s)"
    and books: "unat (gss_current_supply ss) + unat (gss_total_burned ss) = unat (gss_total_minted ss)"
      "gss_current_supply ss \<le> isp_global_supply_cap (iss_protocol s)"
      "unat (gss_total_minted (iss_supply s)) \<le> unat (gss_total_minted ss)"
      "unat (gss_total_burned (iss_supply s)) \<le> unat (gss_total_burned ss)"
    and real: "supply_of accs1 (gss_mint ss) \<le> unat (gss_current_supply ss)"
      "authority_of accs1 (gss_mint ss) = authority_of accs (gss_mint ss)"
    and own: "unat (ist_current_outstanding st) + unat (ist_total_burned st) = unat (ist_total_minted st)"
      "unat (ist_total_minted st) \<le> unat (gss_total_minted ss)"
      "unat (ist_total_burned st) \<le> unat (gss_total_burned ss)"
      "icf_mint_limit (iss_issuer s) = 0 \<or> ist_current_outstanding st \<le> icf_mint_limit (iss_issuer s)"
  shows "issuer_inv env accs'"
proof -
  let ?S = "ia_supply_stats ctx" and ?T = "ia_stats ctx"
  have typed: "issuer_typed env accs" using inv by (simp add: issuer_inv_def)
  have loaded: "accs (ia_protocol ctx) = Some (IssuerProtocolAcc (iss_protocol s))"
      "accs ?S = Some (SupplyStatsAcc (iss_supply s))" "accs ?T = Some (IssuerStatsAcc (iss_stats s))"
      "accs (ia_issuer ctx) = Some (IssuerConfigAcc (iss_issuer s))"
      "ist_issuer_config (iss_stats s) = ia_issuer ctx"
    using ld by (simp_all add: load_issuance_ok load_issuer_protocol_ok load_issuer_ok load_issuer_stats_ok)
  then have ne: "?S \<noteq> ?T" "ia_protocol ctx \<noteq> ?S" "ia_protocol ctx \<noteq> ?T" "ia_issuer ctx \<noteq> ?S"
      "ia_issuer ctx \<noteq> ?T" by auto
  have kept: "accs1 k = Some a \<longleftrightarrow> accs k = Some a" if "\<not> token_owned (Some a)" for k a
    by (rule token_frame_owned [OF fr that])
  have here: "accs1 ?S = Some (SupplyStatsAcc (iss_supply s))" "accs1 ?T = Some (IssuerStatsAcc (iss_stats s))"
    using loaded kept by simp_all
  have pS: "find_pda env supply_stats_seeds = (?S, gss_bump ss)" "stats_of env accs = Some (iss_supply s)"
    using typed_supply_stats [OF typed loaded(2)] ids by simp_all
  have pP: "protocol_of env accs = Some (iss_protocol s)"
    using typed_protocol [OF typed loaded(1)] by simp
  have pT: "account_typed env ?T (IssuerStatsAcc st)"
    using typed_account [OF typed loaded(3)] ids by simp
  have "issuer_typed env accs'"
    by (rule issuer_typed_change [OF typed]) (use pS pT kept in \<open>auto simp: accs' split: if_splits\<close>)
  moreover have prot: "protocol_of env accs' = Some (iss_protocol s)"
  proof -
    have "protocol_of env accs1 = protocol_of env accs" by (rule token_frame_of(1) [OF fr])
    moreover have "protocol_of env accs' = protocol_of env accs1"
      by (rule protocol_of_cong) (auto simp: accs' here)
    ultimately show ?thesis by (simp add: pP)
  qed
  moreover have stats: "stats_of env accs' = Some ss"
    using ne(1) pS by (simp add: stats_of_eq accs')
  moreover have sup: "supply_of accs' m = supply_of accs1 m" "authority_of accs' m = authority_of accs1 m" for m
    using here ne(1) by (simp_all add: accs')
  moreover have "supply_sound env accs' ss"
    using books real sup prot inv pS ids by (simp add: supply_sound_def issuer_inv_def)
  moreover have "issuer_sound env accs' st'" if "accs' k = Some (IssuerStatsAcc st')" for k st'
  proof (cases "k = ?T")
    case True
    with that have "st' = st" by (simp add: accs')
    moreover have "accs' (ia_issuer ctx) = Some (IssuerConfigAcc (iss_issuer s))"
      using ne loaded kept by (simp add: accs')
    ultimately show ?thesis
      using own ids loaded stats by (simp add: issuer_sound_def total_minted_def total_burned_def)
  next
    case False
    with that have "accs k = Some (IssuerStatsAcc st')"
      using kept by (simp add: accs' split: if_splits)
    then have old: "issuer_sound env accs st'" using inv by (simp add: issuer_inv_def)
    then obtain ic where ic: "accs (ist_issuer_config st') = Some (IssuerConfigAcc ic)"
        "icf_mint_limit ic = 0 \<or> ist_current_outstanding st' \<le> icf_mint_limit ic"
      by (auto simp: issuer_sound_def)
    then have "accs' (ist_issuer_config st') = Some (IssuerConfigAcc ic)"
      using loaded kept by (auto simp: accs')
    with ic(2) old books pS stats show ?thesis
      by (auto simp: issuer_sound_def total_minted_def total_burned_def)
  qed
  ultimately show ?thesis by (simp add: issuer_inv_def)
qed

lemma loaded_issuance:
  assumes inv: "issuer_inv env accs" and ld: "load_issuance env signers ctx accs = Inr s"
  shows "gss_mint (iss_supply s) = ia_mint ctx"
    "unat (gss_current_supply (iss_supply s)) + unat (gss_total_burned (iss_supply s)) =
       unat (gss_total_minted (iss_supply s))"
    "gss_current_supply (iss_supply s) \<le> isp_global_supply_cap (iss_protocol s)"
    "supply_of accs (ia_mint ctx) \<le> unat (gss_current_supply (iss_supply s))"
    "unat (ist_current_outstanding (iss_stats s)) + unat (ist_total_burned (iss_stats s)) =
       unat (ist_total_minted (iss_stats s))"
    "unat (ist_total_minted (iss_stats s)) \<le> unat (gss_total_minted (iss_supply s))"
    "unat (ist_total_burned (iss_stats s)) \<le> unat (gss_total_burned (iss_supply s))"
    "icf_mint_limit (iss_issuer s) = 0 \<or>
       ist_current_outstanding (iss_stats s) \<le> icf_mint_limit (iss_issuer s)"
    "\<not> isp_paused (iss_protocol s)"
proof -
  have typed: "issuer_typed env accs" using inv by (simp add: issuer_inv_def)
  have l: "accs (ia_protocol ctx) = Some (IssuerProtocolAcc (iss_protocol s))"
      "accs (ia_supply_stats ctx) = Some (SupplyStatsAcc (iss_supply s))"
      "accs (ia_stats ctx) = Some (IssuerStatsAcc (iss_stats s))"
      "accs (ia_issuer ctx) = Some (IssuerConfigAcc (iss_issuer s))"
      "ist_issuer_config (iss_stats s) = ia_issuer ctx" and mint: "gss_mint (iss_supply s) = ia_mint ctx"
    using ld by (simp_all add: load_issuance_ok load_issuer_protocol_ok load_issuer_ok load_issuer_stats_ok)
  have st: "stats_of env accs = Some (iss_supply s)" and pc: "protocol_of env accs = Some (iss_protocol s)"
    using typed_supply_stats [OF typed l(2)] typed_protocol [OF typed l(1)] by simp_all
  have "supply_sound env accs (iss_supply s)" "issuer_sound env accs (iss_stats s)"
    using inv l st by (auto simp: issuer_inv_def)
  with l st pc mint show "gss_mint (iss_supply s) = ia_mint ctx"
    "unat (gss_current_supply (iss_supply s)) + unat (gss_total_burned (iss_supply s)) =
       unat (gss_total_minted (iss_supply s))"
    "gss_current_supply (iss_supply s) \<le> isp_global_supply_cap (iss_protocol s)"
    "supply_of accs (ia_mint ctx) \<le> unat (gss_current_supply (iss_supply s))"
    "unat (ist_current_outstanding (iss_stats s)) + unat (ist_total_burned (iss_stats s)) =
       unat (ist_total_minted (iss_stats s))"
    "unat (ist_total_minted (iss_stats s)) \<le> unat (gss_total_minted (iss_supply s))"
    "unat (ist_total_burned (iss_stats s)) \<le> unat (gss_total_burned (iss_supply s))"
    "icf_mint_limit (iss_issuer s) = 0 \<or>
       ist_current_outstanding (iss_stats s) \<le> icf_mint_limit (iss_issuer s)"
    by (auto simp: supply_sound_def issuer_sound_def total_minted_def total_burned_def)
  show "\<not> isp_paused (iss_protocol s)" using typed_account [OF typed l(1)] by simp
qed

lemma deliver_mint_effect:
  assumes tok: "token_2022_ok (ie_token env)"
    and d: "deliver_mint env signers ctx amount mc accs = Inr accs'"
  shows "token_frame accs accs'"
    "supply_of accs' (ia_mint ctx) = supply_of accs (ia_mint ctx) + unat amount"
    "authority_of accs' m = authority_of accs m"
proof -
  from deliver_mint_ok [OF d] obtain lamports space pda accs1 accs2 where
    c: "ie_token env (CreateAccount (ia_authority ctx) (ia_user_token ctx) lamports space) signers accs =
      Some accs1"
      "ie_token env (InitializeAccount3 (ia_user_token ctx) (ia_mint ctx) (mu_user ctx)) signers accs1 =
      Some accs2"
      "ie_token env (MintToChecked (ia_mint ctx) (ia_user_token ctx) (ia_mint_authority ctx) amount
      (smc_decimals mc)) (signers @ [pda]) accs2 = Some accs'"
    by (elim exE conjE)
  note e = token_call_effect [OF tok c(1)] token_call_effect [OF tok c(2)] token_call_effect [OF tok c(3)]
  show "token_frame accs accs'" by (blast intro: token_frame_trans e)
  show "supply_of accs' (ia_mint ctx) = supply_of accs (ia_mint ctx) + unat amount"
    using e(3,7,11) [of "ia_mint ctx"] by simp
  show "authority_of accs' m = authority_of accs m" using e(4,8,12) [of m] by simp
qed

lemma mint_to_user_inv:
  assumes tok: "token_2022_ok (ie_token env)" and inv: "issuer_inv (ie_anchor env) accs"
    and m: "mint_to_user env signers ctx amount accs = Inr accs'"
  shows "issuer_inv (ie_anchor env) accs'"
proof -
  from mint_to_user_ok [OF m] obtain s outstanding new_supply issuer_minted minted accs1 where
    ld: "load_issuance (ie_anchor env) signers ctx accs = Inr s"
    and lim: "mint_limits amount s = Inr (outstanding, new_supply)"
    and d: "deliver_mint env signers ctx amount (iss_mint_config s) accs = Inr accs1"
    and n: "unat issuer_minted = unat (ist_total_minted (iss_stats s)) + unat amount"
      "unat minted = unat (gss_total_minted (iss_supply s)) + unat amount"
    and a: "accs' = accs1(
         ia_supply_stats ctx \<mapsto> SupplyStatsAcc ((iss_supply s)
           \<lparr>gss_current_supply := new_supply, gss_total_minted := minted\<rparr>),
         ia_stats ctx \<mapsto> IssuerStatsAcc ((iss_stats s)
           \<lparr>ist_current_outstanding := outstanding, ist_total_minted := issuer_minted\<rparr>))"
    by (elim exE conjE)
  note e = deliver_mint_effect [OF tok d]
  note l = loaded_issuance [OF inv ld]
  show ?thesis
    by (rule issuance_write [OF inv ld e(1) a])
      (use n lim e l in \<open>auto simp: mint_limits_ok\<close>)
qed

lemma burn_from_user_inv:
  assumes tok: "token_2022_ok (ie_token env)" and inv: "issuer_inv (ie_anchor env) accs"
    and m: "burn_from_user env signers ctx amount accs = Inr accs'"
  shows "issuer_inv (ie_anchor env) accs'"
proof -
  from burn_from_user_ok [OF m] obtain s outstanding new_supply pda issuer_burned burned accs1 where
    ld: "load_issuance (ie_anchor env) signers ctx accs = Inr s"
    and lim: "burn_limits amount s = Inr (outstanding, new_supply)"
    and d: "ie_token env (BurnChecked (ia_mint ctx) (ia_user_token ctx) (ia_mint_authority ctx)
       amount (smc_decimals (iss_mint_config s))) (signers @ [pda]) accs = Some accs1"
    and n: "unat issuer_burned = unat (ist_total_burned (iss_stats s)) + unat amount"
      "unat burned = unat (gss_total_burned (iss_supply s)) + unat amount"
    and a: "accs' = accs1(
         ia_supply_stats ctx \<mapsto> SupplyStatsAcc ((iss_supply s)
           \<lparr>gss_current_supply := new_supply, gss_total_burned := burned\<rparr>),
         ia_stats ctx \<mapsto> IssuerStatsAcc ((iss_stats s)
           \<lparr>ist_current_outstanding := outstanding, ist_total_burned := issuer_burned\<rparr>))"
    by (elim exE conjE)
  note e = token_call_effect [OF tok d]
  note l = loaded_issuance [OF inv ld]
  have "supply_of accs1 (ia_mint ctx) + unat amount = supply_of accs (ia_mint ctx)"
    using e(3) [of "ia_mint ctx"] by simp
  then show ?thesis
    by (intro issuance_write [OF inv ld e(2) a])
      (use n lim e(4) l in \<open>auto simp: burn_limits_ok word_le_nat_alt\<close>)
qed

section \<open>Setup\<close>

lemma issuer_inv_keep:
  assumes inv: "issuer_inv env accs" and typed: "issuer_typed env accs'"
    and p: "\<And>k pc. accs k = Some (IssuerProtocolAcc pc) \<longleftrightarrow> accs' k = Some (IssuerProtocolAcc pc)"
    and s: "\<And>k ss. accs k = Some (SupplyStatsAcc ss) \<longleftrightarrow> accs' k = Some (SupplyStatsAcc ss)"
    and m: "\<And>ss. stats_of env accs = Some ss \<Longrightarrow> authority_of accs' (gss_mint ss) = authority_of accs (gss_mint ss)"
      "\<And>ss. stats_of env accs = Some ss \<Longrightarrow> supply_of accs' (gss_mint ss) \<le> supply_of accs (gss_mint ss)"
    and i: "\<And>k st. accs' k = Some (IssuerStatsAcc st) \<Longrightarrow> issuer_sound env accs' st"
  shows "issuer_inv env accs'"
proof -
  have "protocol_of env accs' = protocol_of env accs" by (rule protocol_of_cong [OF p])
  moreover have st: "stats_of env accs' = stats_of env accs" by (rule stats_of_cong [OF s])
  moreover have "supply_sound env accs' ss" if "stats_of env accs = Some ss" for ss
    using inv that m [OF that] calculation(1) by (fastforce simp: issuer_inv_def supply_sound_def)
  ultimately show ?thesis using typed i by (simp add: issuer_inv_def)
qed

lemma totals_cong:
  "stats_of env accs' = stats_of env accs \<Longrightarrow> total_minted env accs' = total_minted env accs"
  "stats_of env accs' = stats_of env accs \<Longrightarrow> total_burned env accs' = total_burned env accs"
  by (simp_all add: total_minted_def total_burned_def)

lemma issuer_sound_keep:
  assumes "issuer_sound env accs st" and st: "stats_of env accs' = stats_of env accs"
    and "\<And>ic. accs (ist_issuer_config st) = Some (IssuerConfigAcc ic) \<Longrightarrow>
      \<exists>ic'. accs' (ist_issuer_config st) = Some (IssuerConfigAcc ic') \<and>
        (icf_mint_limit ic' = icf_mint_limit ic \<or> icf_mint_limit ic' = 0)"
  shows "issuer_sound env accs' st"
  using assms(1,3) totals_cong [OF st] by (fastforce simp: issuer_sound_def)

lemma initialize_issuer_protocol_inv:
  assumes inv: "issuer_inv (ie_anchor env) accs"
    and i: "initialize_issuer_protocol env signers ctx cap accs = Inr accs'"
  shows "issuer_inv (ie_anchor env) accs'"
proof -
  let ?env = "ie_anchor env"
  from initialize_issuer_protocol_ok [OF i] obtain bump where
    n: "cap \<noteq> 0" "accs (ii_protocol ctx) = None" "find_pda ?env issuer_protocol_seeds = (ii_protocol ctx, bump)"
    and a: "accs' = accs(ii_protocol ctx \<mapsto> IssuerProtocolAcc
         \<lparr>isp_admin = ii_admin ctx, isp_pending_admin = 0, isp_stablecoin_mint = 0,
          isp_global_supply_cap = cap, isp_paused = False, isp_bump = bump\<rparr>)" by blast
  have "protocol_of ?env accs = None"
    using n by (simp add: protocol_of_def)
  then have none: "stats_of ?env accs = None"
    using inv by (cases "stats_of ?env accs") (auto simp: issuer_inv_def supply_sound_def)
  then have none': "stats_of ?env accs' = None"
    using n stats_of_cong [of accs accs' ?env] by (auto simp: a)
  have "issuer_typed ?env accs'"
    by (rule issuer_typed_change) (use inv n in \<open>auto simp: a issuer_inv_def word_gt_0 split: if_splits\<close>)
  moreover have "issuer_sound ?env accs' st" if "accs' k = Some (IssuerStatsAcc st)" for k st
    by (rule issuer_sound_keep [of _ accs])
      (use that inv n none none' in \<open>auto simp: a issuer_inv_def split: if_splits\<close>)
  ultimately show ?thesis by (simp add: issuer_inv_def none')
qed

lemma register_issuer_inv:
  assumes inv: "issuer_inv (ie_anchor env) accs"
    and i: "register_issuer env signers ctx mint_limit accs = Inr accs'"
  shows "issuer_inv (ie_anchor env) accs'"
proof -
  let ?env = "ie_anchor env"
  from register_issuer_ok [OF i] obtain ib sb where
    n: "accs (ri_issuer ctx) = None" "accs (ri_stats ctx) = None" "ri_issuer ctx \<noteq> ri_stats ctx"
      "find_pda ?env (issuer_seeds (ri_authority ctx)) = (ri_issuer ctx, ib)"
      "find_pda ?env (issuer_stats_seeds (ri_authority ctx)) = (ri_stats ctx, sb)"
    and a: "accs' = accs(
      ri_issuer ctx \<mapsto> IssuerConfigAcc
        \<lparr>icf_protocol = ri_protocol ctx, icf_authority = ri_authority ctx, icf_stats = ri_stats ctx,
            icf_mint_limit = mint_limit, icf_paused = False, icf_bump = ib\<rparr>,
      ri_stats ctx \<mapsto> IssuerStatsAcc
        \<lparr>ist_protocol = ri_protocol ctx, ist_issuer_config = ri_issuer ctx,
            ist_authority = ri_authority ctx, ist_current_outstanding = 0, ist_total_minted = 0,
            ist_total_burned = 0, ist_bump = sb\<rparr>)"
    by blast
  have st: "stats_of ?env accs' = stats_of ?env accs" by (rule stats_of_cong) (use n in \<open>auto simp: a\<close>)
  show ?thesis
  proof (rule issuer_inv_keep [OF inv])
    show "issuer_typed ?env accs'"
      by (rule issuer_typed_change) (use inv n in \<open>auto simp: a issuer_inv_def split: if_splits\<close>)
    show "issuer_sound ?env accs' st" if s: "accs' k = Some (IssuerStatsAcc st)" for k st
    proof (cases "k = ri_stats ctx")
      case True
      with s n show ?thesis by (auto simp: a issuer_sound_def)
    next
      case False
      with s have old: "accs k = Some (IssuerStatsAcc st)" by (simp add: a split: if_splits)
      show ?thesis
        by (rule issuer_sound_keep [of _ accs]) (use inv n old st in \<open>auto simp: issuer_inv_def a\<close>)
    qed
  qed (use n in \<open>auto simp: a\<close>)
qed

lemma set_issuer_paused_inv:
  assumes inv: "issuer_inv (ie_anchor env) accs"
    and i: "set_issuer_paused env signers ctx paused accs = Inr accs'"
  shows "issuer_inv (ie_anchor env) accs'"
proof -
  let ?env = "ie_anchor env"
  from set_issuer_paused_ok [OF i] obtain ic where
    n: "accs (sp_issuer ctx) = Some (IssuerConfigAcc ic)"
    and a: "accs' = accs(sp_issuer ctx \<mapsto> IssuerConfigAcc (ic\<lparr>icf_paused := paused\<rparr>))"
    by (auto simp: load_issuer_ok)
  have st: "stats_of ?env accs' = stats_of ?env accs" by (rule stats_of_cong) (use n in \<open>auto simp: a\<close>)
  have t: "account_typed ?env (sp_issuer ctx) (IssuerConfigAcc ic)"
    by (rule typed_account [of _ accs]) (use inv n in \<open>simp_all add: issuer_inv_def\<close>)
  show ?thesis
  proof (rule issuer_inv_keep [OF inv])
    show "issuer_typed ?env accs'"
      by (rule issuer_typed_change) (use inv t in \<open>auto simp: a issuer_inv_def split: if_splits\<close>)
    show "issuer_sound ?env accs' st" if s: "accs' k = Some (IssuerStatsAcc st)" for k st
      by (rule issuer_sound_keep [of _ accs])
        (use inv n s st in \<open>auto simp: issuer_inv_def a split: if_splits\<close>)
  qed (use n in \<open>auto simp: a\<close>)
qed

lemma rotate_inv:
  assumes inv: "issuer_inv (ie_anchor env) accs"
    and i: "rotate_issuer_authority env signers ctx accs = Inr accs'"
  shows "issuer_inv (ie_anchor env) accs'"
proof -
  let ?env = "ie_anchor env"
  from rotate_ok [OF i] obtain ic st ib sb where
    n: "accs (ro_new_issuer ctx) = None" "accs (ro_new_stats ctx) = None"
      "ro_new_issuer ctx \<noteq> ro_new_stats ctx"
      "find_pda ?env (issuer_seeds (ro_new_authority ctx)) = (ro_new_issuer ctx, ib)"
      "find_pda ?env (issuer_stats_seeds (ro_new_authority ctx)) = (ro_new_stats ctx, sb)"
    and o: "accs (ro_issuer ctx) = Some (IssuerConfigAcc ic)"
      "accs (ro_stats ctx) = Some (IssuerStatsAcc st)" "ist_issuer_config st = ro_issuer ctx"
    and a: "accs' = accs(
      ro_new_issuer ctx \<mapsto> IssuerConfigAcc
        \<lparr>icf_protocol = ro_protocol ctx, icf_authority = ro_new_authority ctx,
            icf_stats = ro_new_stats ctx, icf_mint_limit = icf_mint_limit ic,
            icf_paused = icf_paused ic, icf_bump = ib\<rparr>,
      ro_new_stats ctx \<mapsto> IssuerStatsAcc
        \<lparr>ist_protocol = ro_protocol ctx, ist_issuer_config = ro_new_issuer ctx,
            ist_authority = ro_new_authority ctx,
            ist_current_outstanding = ist_current_outstanding st,
            ist_total_minted = ist_total_minted st, ist_total_burned = ist_total_burned st,
            ist_bump = sb\<rparr>,
      ro_issuer ctx \<mapsto> IssuerConfigAcc (ic\<lparr>icf_mint_limit := 0, icf_paused := True\<rparr>))"
    by (auto simp: load_issuer_ok load_issuer_stats_ok)
  have ne: "ro_issuer ctx \<noteq> ro_new_issuer ctx" "ro_issuer ctx \<noteq> ro_new_stats ctx" using n o by auto
  have sts: "stats_of ?env accs' = stats_of ?env accs"
    by (rule stats_of_cong) (use n o in \<open>auto simp: a\<close>)
  have t: "account_typed ?env (ro_issuer ctx) (IssuerConfigAcc ic)"
    by (rule typed_account [of _ accs]) (use inv o in \<open>simp_all add: issuer_inv_def\<close>)
  have old: "issuer_sound ?env accs st" using inv o by (auto simp: issuer_inv_def)
  show ?thesis
  proof (rule issuer_inv_keep [OF inv])
    show "issuer_typed ?env accs'"
      by (rule issuer_typed_change) (use inv t n in \<open>auto simp: a issuer_inv_def split: if_splits\<close>)
    show "issuer_sound ?env accs' st'" if s: "accs' k = Some (IssuerStatsAcc st')" for k st'
    proof (cases "k = ro_new_stats ctx")
      case True
      with s n ne old o totals_cong [OF sts] show ?thesis by (auto simp: a issuer_sound_def)
    next
      case False
      with s have "accs k = Some (IssuerStatsAcc st')" by (simp add: a split: if_splits)
      then have sound: "issuer_sound ?env accs st'" using inv by (simp add: issuer_inv_def)
      show ?thesis
      proof (rule issuer_sound_keep [OF sound sts])
        fix ic'
        assume c: "accs (ist_issuer_config st') = Some (IssuerConfigAcc ic')"
        then have "ist_issuer_config st' \<notin> {ro_new_issuer ctx, ro_new_stats ctx}" using n by auto
        with c ne o(1) show "\<exists>ic''. accs' (ist_issuer_config st') = Some (IssuerConfigAcc ic'') \<and>
            (icf_mint_limit ic'' = icf_mint_limit ic' \<or> icf_mint_limit ic'' = 0)"
          by (cases "ist_issuer_config st' = ro_issuer ctx") (auto simp: a)
      qed
    qed
  qed (use n ne o in \<open>auto simp: a\<close>)
qed

lemma create_mint_account_effect:
  assumes tok: "token_2022_ok (ie_token env)"
    and c: "create_mint_account env signers ctx b decimals name symbol uri accs = Inr accs'"
  shows "accs (cm_mint ctx) = None" "token_frame accs accs'" "supply_of accs' (cm_mint ctx) = 0"
    "authority_of accs' (cm_mint ctx) = Some (cm_mint_authority ctx)"
proof -
  let ?m = "cm_mint ctx"
  from create_mint_account_ok [OF c] obtain lamports space pda accs2 accs3 accs4 accs5 where
    t: "ie_token env (CreateAccount (cm_admin ctx) ?m lamports space) signers accs = Some accs2"
      "ie_token env (MetadataPointerInitialize ?m (cm_mint_authority ctx) ?m) signers accs2 = Some accs3"
      "ie_token env (PermanentDelegateInitialize ?m (cm_mint_authority ctx)) signers accs3 = Some accs4"
      "ie_token env (InitializeMint2 ?m decimals (cm_mint_authority ctx) (cm_mint_authority ctx))
        signers accs4 = Some accs5"
      "ie_token env (TokenMetadataInitialize ?m (cm_mint_authority ctx) (cm_mint_authority ctx)
        name symbol uri) (signers @ [pda]) accs5 = Some accs'"
    by (elim exE conjE)
  note e = token_call_effect [OF tok t(1)] token_call_effect [OF tok t(2)] token_call_effect [OF tok t(3)]
    token_call_effect [OF tok t(4)] token_call_effect [OF tok t(5)]
  show new: "accs ?m = None" using e(1) by (simp only: call_applies.simps)
  show "token_frame accs accs'"
    by (rule token_frame_trans [OF e(2) token_frame_trans [OF e(6) token_frame_trans [OF e(10)
      token_frame_trans [OF e(14) e(18)]]]])
  have "supply_of accs ?m = 0" unfolding supply_of_def new by simp
  then show "supply_of accs' ?m = 0"
    using e(3,7,11,15,19) [of ?m] by (simp only: minted_by.simps burned_by.simps add_0_right)
  show "authority_of accs' ?m = Some (cm_mint_authority ctx)" using e(16,20) [of ?m] by simp
qed

lemma create_stablecoin_mint_inv:
  assumes tok: "token_2022_ok (ie_token env)" and inv: "issuer_inv (ie_anchor env) accs"
    and i: "create_stablecoin_mint env signers ctx decimals name symbol uri accs = Inr accs'"
  shows "issuer_inv (ie_anchor env) accs'"
proof -
  let ?env = "ie_anchor env" and ?m = "cm_mint ctx"
  let ?accs0 = "accs(cm_mint_config ctx \<mapsto> MintConfigAcc zero_mint_config,
             cm_supply_stats ctx \<mapsto> SupplyStatsAcc zero_supply_stats)"
  from create_stablecoin_mint_ok [OF i] obtain pc mb sb ab accs1 where
    n: "load_as_admin ?env signers accs (cm_admin ctx) (cm_protocol ctx) = Inr pc"
      "find_pda ?env stablecoin_mint_seeds = (cm_mint_config ctx, mb)"
      "find_pda ?env supply_stats_seeds = (cm_supply_stats ctx, sb)"
      "find_pda ?env mint_authority_seeds = (cm_mint_authority ctx, ab)"
      "accs (cm_mint_config ctx) = None" "accs (cm_supply_stats ctx) = None"
      "cm_mint_config ctx \<noteq> cm_supply_stats ctx"
    and c: "create_mint_account env signers ctx ab decimals name symbol uri ?accs0 = Inr accs1"
    and a: "accs' = accs1(
         cm_protocol ctx \<mapsto> IssuerProtocolAcc (pc\<lparr>isp_stablecoin_mint := cm_mint ctx\<rparr>),
         cm_mint_config ctx \<mapsto> MintConfigAcc
           \<lparr>smc_protocol = cm_protocol ctx, smc_mint = cm_mint ctx,
            smc_mint_authority = cm_mint_authority ctx, smc_supply_stats = cm_supply_stats ctx,
            smc_decimals = decimals, smc_mint_authority_bump = ab, smc_bump = mb\<rparr>,
         cm_supply_stats ctx \<mapsto> SupplyStatsAcc
           \<lparr>gss_protocol = cm_protocol ctx, gss_mint = cm_mint ctx, gss_current_supply = 0,
            gss_total_minted = 0, gss_total_burned = 0, gss_bump = sb\<rparr>)"
    by (elim exE conjE)
  note e = create_mint_account_effect [OF tok c]
  note fr = e(2) and sup1 = e(3) and auth1 = e(4)
  have kept: "accs1 k = Some x \<longleftrightarrow> ?accs0 k = Some x" if "\<not> token_owned (Some x)" for k x
    by (rule token_frame_owned [OF fr that])
  have pc: "accs (cm_protocol ctx) = Some (IssuerProtocolAcc pc)"
    using n(1) by (simp add: load_as_admin_ok load_issuer_protocol_ok)
  have ne: "cm_protocol ctx \<noteq> cm_mint_config ctx" "cm_protocol ctx \<noteq> cm_supply_stats ctx"
    using pc n by auto
  have here: "accs1 (cm_protocol ctx) = Some (IssuerProtocolAcc pc)"
    "accs1 (cm_mint_config ctx) = Some (MintConfigAcc zero_mint_config)"
    "accs1 (cm_supply_stats ctx) = Some (SupplyStatsAcc zero_supply_stats)"
    using pc ne n(7) kept by simp_all
  have typed: "issuer_typed ?env accs" using inv by (simp add: issuer_inv_def)
  note tp = typed_account [OF typed pc]
  have none: "stats_of ?env accs = None" using n by (simp add: stats_of_def)
  have t': "issuer_typed ?env accs'"
  proof (rule issuer_typed_change [OF typed])
    fix k x
    assume s: "accs' k = Some x"
    show "accs k = Some x \<or> token_owned (Some x) \<or> account_typed ?env k x"
    proof (cases "k \<in> {cm_protocol ctx, cm_mint_config ctx, cm_supply_stats ctx}")
      case True
      with s n tp show ?thesis by (auto simp: a split: if_splits)
    next
      case False
      with s have "accs1 k = Some x" by (simp add: a)
      with False kept [of x k] show ?thesis by (cases "token_owned (Some x)") simp_all
    qed
  qed
  have stats: "stats_of ?env accs' = Some \<lparr>gss_protocol = cm_protocol ctx, gss_mint = ?m,
      gss_current_supply = 0, gss_total_minted = 0, gss_total_burned = 0, gss_bump = sb\<rparr>"
    using n(3) by (simp add: stats_of_eq a)
  have "protocol_of ?env accs' = Some (pc\<lparr>isp_stablecoin_mint := cm_mint ctx\<rparr>)"
    using tp ne by (simp add: protocol_of_eq a)
  moreover have "supply_of accs' ?m = 0" "authority_of accs' ?m = Some (cm_mint_authority ctx)"
    using sup1 auth1 here ne n(7) by (simp_all add: a)
  ultimately have "\<forall>ss. stats_of ?env accs' = Some ss \<longrightarrow> supply_sound ?env accs' ss"
    using n(4) by (simp add: stats supply_sound_def)
  moreover have "issuer_sound ?env accs' st" if s: "accs' k = Some (IssuerStatsAcc st)" for k st
  proof -
    have old: "accs k = Some (IssuerStatsAcc st)" using s kept by (simp add: a split: if_splits)
    then have sound: "issuer_sound ?env accs st" using inv by (simp add: issuer_inv_def)
    then obtain ic where ic: "accs (ist_issuer_config st) = Some (IssuerConfigAcc ic)"
      by (auto simp: issuer_sound_def)
    then have "ist_issuer_config st \<notin> {cm_protocol ctx, cm_mint_config ctx, cm_supply_stats ctx}"
      using pc n by auto
    with ic kept have "accs' (ist_issuer_config st) = Some (IssuerConfigAcc ic)" by (simp add: a)
    with sound ic none stats show ?thesis
      by (auto simp: issuer_sound_def total_minted_def total_burned_def)
  qed
  ultimately show ?thesis using t' by (simp add: issuer_inv_def)
qed

section \<open>Runs\<close>

text \<open>
  What other programs may do to an account between two instructions: the runtime lets them write
  the accounts they own, and only its authority, for which this program alone signs, raises the
  supply of the stablecoin.
\<close>

definition issuer_outside :: "anchor_env \<Rightarrow> pubkey \<Rightarrow> issuer_account option \<Rightarrow> issuer_store \<Rightarrow> bool" where
  "issuer_outside env k v accs \<longleftrightarrow> token_owned (accs k) \<and> token_owned v \<and>
     (authority_of accs k = Some (fst (find_pda env mint_authority_seeds)) \<longrightarrow>
        authority_of (accs(k := v)) k = authority_of accs k \<and>
        supply_of (accs(k := v)) k \<le> supply_of accs k)"

datatype issuer_event =
    IssuerTransaction "pubkey list" issuer_instruction
  | OutsideWrite pubkey "issuer_account option"

fun issuer_exec :: "issuer_env \<Rightarrow> issuer_event \<Rightarrow> issuer_store \<Rightarrow> issuer_result" where
  "issuer_exec env (IssuerTransaction signers i) accs = stablecoin_issuer env signers i accs"
| "issuer_exec env (OutsideWrite k v) accs =
     (if issuer_outside (ie_anchor env) k v accs then Inr (accs(k := v)) else Inl AccountLoad)"

lemma stablecoin_issuer_inv:
  assumes "token_2022_ok (ie_token env)" and "issuer_inv (ie_anchor env) accs"
    and "stablecoin_issuer env signers i accs = Inr accs'"
  shows "issuer_inv (ie_anchor env) accs'"
  using assms(3)
  by (cases i)
    (auto intro: mint_to_user_inv [OF assms(1,2)] burn_from_user_inv [OF assms(1,2)]
      create_stablecoin_mint_inv [OF assms(1,2)] initialize_issuer_protocol_inv [OF assms(2)]
      register_issuer_inv [OF assms(2)] set_issuer_paused_inv [OF assms(2)] rotate_inv [OF assms(2)])

lemma outside_write_inv:
  assumes inv: "issuer_inv env accs" and o: "issuer_outside env k v accs"
  shows "issuer_inv env (accs(k := v))"
proof -
  have kept: "(accs(k := v)) j = Some a \<longleftrightarrow> accs j = Some a" if "\<not> token_owned (Some a)" for j a
    using o that by (auto simp: issuer_outside_def)
  have mint: "authority_of (accs(k := v)) m = authority_of accs m \<and> supply_of (accs(k := v)) m \<le> supply_of accs m"
    if "authority_of accs m = Some (fst (find_pda env mint_authority_seeds))" for m
    using o that by (cases "m = k") (auto simp: issuer_outside_def supply_of_def authority_of_def)
  have st: "stats_of env (accs(k := v)) = stats_of env accs" by (rule stats_of_cong) (simp only: kept token_owned.simps simp_thms)
  show ?thesis
  proof (rule issuer_inv_keep [OF inv])
    show "issuer_typed env (accs(k := v))"
      by (rule issuer_typed_change [of _ accs]) (use inv kept in \<open>auto simp: issuer_inv_def\<close>)
    show "issuer_sound env (accs(k := v)) st'" if s: "(accs(k := v)) j = Some (IssuerStatsAcc st')" for j st'
    proof (rule issuer_sound_keep [OF _ st])
      show "issuer_sound env accs st'" using inv s kept by (auto simp: issuer_inv_def)
    qed (use kept in auto)
  qed (use inv mint kept in \<open>auto simp: issuer_inv_def supply_sound_def\<close>)
qed

interpretation issuer: stable_program "issuer_exec env"
    "\<lambda>accs. token_2022_ok (ie_token env) \<longrightarrow> issuer_inv (ie_anchor env) accs" for env
proof
  fix accs ev accs'
  assume "token_2022_ok (ie_token env) \<longrightarrow> issuer_inv (ie_anchor env) accs"
    and "issuer_exec env ev accs = Inr accs'"
  then show "token_2022_ok (ie_token env) \<longrightarrow> issuer_inv (ie_anchor env) accs'"
    by (cases ev) (auto intro: stablecoin_issuer_inv outside_write_inv split: if_splits)
qed

lemma issuer_run_inv:
  assumes "token_2022_ok (ie_token env)" and "issuer_inv (ie_anchor env) accs"
  shows "issuer_inv (ie_anchor env) (run_transactions (issuer_exec env) txs accs)"
  using issuer.run_inv [of env accs txs] assms by simp

end
