(* ===== verification/Security_Invariants.thy ===== *)
theory Security_Invariants
  imports Prelude
begin

text \<open>
  \<open>crates/security_invariants/src/lib.rs\<close>: the reference models of issuance, redemption and admin
  transfer that the stablecoin's tests run beside the programs.  A method that takes
  \<open>&mut self\<close> is a function from the model to its result and the new model, so that what a failing
  call leaves behind is visible.  Identities are \<open>u64\<close> in the code and a type parameter here.
\<close>

section \<open>Errors\<close>

text \<open>\<open>ModelUnreachable\<close> is the panic of \<open>unreachable!()\<close>.\<close>

datatype protocol_error =
    ModelOverflow
  | ModelIssuerLimitExceeded
  | ModelGlobalCapExceeded
  | ModelOutstandingExceeded
  | ModelRequestNotPending
  | ModelUnauthorized
  | ModelMissingPendingAdmin
  | ModelUnreachable

type_synonym 'm model_call = "'m \<Rightarrow> (protocol_error, unit) result \<times> 'm"

text \<open>A method that changes nothing when it fails.\<close>

definition atomically :: "('m \<Rightarrow> (protocol_error, 'm) result) \<Rightarrow> 'm model_call" where
  "atomically f m = (case f m of Inl e \<Rightarrow> (Inl e, m) | Inr m' \<Rightarrow> (Inr (), m'))"

section \<open>Issuance\<close>

record issuance_model =
  iam_global_cap :: u64
  iam_issuer_limit :: u64
  iam_current_supply :: u64
  iam_issuer_outstanding :: u64
  iam_total_minted :: u64
  iam_total_burned :: u64

definition issuance_new :: "u64 \<Rightarrow> u64 \<Rightarrow> issuance_model" where
  "issuance_new cap limit =
     \<lparr>iam_global_cap = cap, iam_issuer_limit = limit, iam_current_supply = 0,
      iam_issuer_outstanding = 0, iam_total_minted = 0, iam_total_burned = 0\<rparr>"

definition issuance_mint :: "u64 \<Rightarrow> issuance_model model_call" where
  "issuance_mint amount = atomically (\<lambda>m.
     and_then (ok_or (checked_add (iam_current_supply m) amount) ModelOverflow) (\<lambda>new_supply.
     and_then (ok_or (checked_add (iam_issuer_outstanding m) amount) ModelOverflow) (\<lambda>new_outstanding.
     and_then (ok_or (checked_add (iam_total_minted m) amount) ModelOverflow) (\<lambda>new_total_minted.
     and_then (ensure (\<not> new_supply > iam_global_cap m) ModelGlobalCapExceeded) (\<lambda>_.
     and_then (ensure (\<not> new_outstanding > iam_issuer_limit m) ModelIssuerLimitExceeded) (\<lambda>_.
       Inr (m\<lparr>iam_current_supply := new_supply, iam_issuer_outstanding := new_outstanding,
              iam_total_minted := new_total_minted\<rparr>)))))))"

text \<open>A burn has written the supply and the outstanding amount when the total overflows.\<close>

definition issuance_burn :: "u64 \<Rightarrow> issuance_model model_call" where
  "issuance_burn amount m =
     (if amount > iam_issuer_outstanding m \<or> amount > iam_current_supply m
      then (Inl ModelOutstandingExceeded, m)
      else case checked_sub (iam_current_supply m) amount of
        None \<Rightarrow> (Inl ModelOutstandingExceeded, m)
      | Some supply1 \<Rightarrow>
          let m1 = m\<lparr>iam_current_supply := supply1\<rparr> in
          (case checked_sub (iam_issuer_outstanding m1) amount of
             None \<Rightarrow> (Inl ModelOutstandingExceeded, m1)
           | Some outstanding1 \<Rightarrow>
               let m2 = m1\<lparr>iam_issuer_outstanding := outstanding1\<rparr> in
               (case checked_add (iam_total_burned m2) amount of
                  None \<Rightarrow> (Inl ModelOverflow, m2)
                | Some burned1 \<Rightarrow> (Inr (), m2\<lparr>iam_total_burned := burned1\<rparr>))))"

text \<open>\<open>assert_invariants\<close> as the condition under which it does not panic.\<close>

definition issuance_asserts :: "issuance_model \<Rightarrow> bool" where
  "issuance_asserts m \<longleftrightarrow> iam_current_supply m \<le> iam_global_cap m \<and>
     iam_issuer_outstanding m \<le> iam_issuer_limit m \<and>
     checked_sub (iam_total_minted m) (iam_total_burned m) = Some (iam_current_supply m)"

section \<open>Redemption\<close>

datatype model_status = ModelPending | ModelCancelled | ModelCompleted | ModelRejected

record redemption_model =
  rdm_amount :: u64
  rdm_status :: model_status
  rdm_outstanding :: u64
  rdm_total_completed :: u64
  rdm_total_cancelled :: u64
  rdm_total_rejected :: u64

definition redemption_new :: "u64 \<Rightarrow> redemption_model" where
  "redemption_new amount =
     \<lparr>rdm_amount = amount, rdm_status = ModelPending, rdm_outstanding = amount,
      rdm_total_completed = 0, rdm_total_cancelled = 0, rdm_total_rejected = 0\<rparr>"

definition model_settle :: "model_status \<Rightarrow> redemption_model model_call" where
  "model_settle next_status m =
     (if rdm_status m \<noteq> ModelPending then (Inl ModelRequestNotPending, m)
      else case checked_sub (rdm_outstanding m) (rdm_amount m) of
        None \<Rightarrow> (Inl ModelOutstandingExceeded, m)
      | Some outstanding1 \<Rightarrow>
          let m1 = m\<lparr>rdm_outstanding := outstanding1, rdm_status := next_status\<rparr> in
          (case next_status of
             ModelCancelled \<Rightarrow> (Inr (), m1\<lparr>rdm_total_cancelled := rdm_amount m1\<rparr>)
           | ModelCompleted \<Rightarrow> (Inr (), m1\<lparr>rdm_total_completed := rdm_amount m1\<rparr>)
           | ModelRejected \<Rightarrow> (Inr (), m1\<lparr>rdm_total_rejected := rdm_amount m1\<rparr>)
           | ModelPending \<Rightarrow> (Inl ModelUnreachable, m1)))"

definition model_cancel :: "redemption_model model_call" where
  "model_cancel = model_settle ModelCancelled"
definition model_complete :: "redemption_model model_call" where
  "model_complete = model_settle ModelCompleted"
definition model_reject :: "redemption_model model_call" where
  "model_reject = model_settle ModelRejected"

text \<open>The sums of the assertion panic when they overflow.\<close>

definition redemption_asserts :: "redemption_model \<Rightarrow> bool" where
  "redemption_asserts m \<longleftrightarrow>
     (case Option.bind (checked_add (rdm_total_completed m) (rdm_total_cancelled m))
        (\<lambda>t. checked_add t (rdm_total_rejected m)) of
        None \<Rightarrow> False
      | Some terminal \<Rightarrow> terminal \<le> rdm_amount m \<and>
          (if rdm_status m = ModelPending then rdm_outstanding m = rdm_amount m \<and> terminal = 0
           else rdm_outstanding m = 0 \<and> terminal = rdm_amount m))"

section \<open>Admin transfer\<close>

record 'k admin_transfer_model =
  atm_admin :: 'k
  atm_pending_admin :: "'k option"

definition admin_transfer_new :: "'k \<Rightarrow> 'k admin_transfer_model" where
  "admin_transfer_new admin = \<lparr>atm_admin = admin, atm_pending_admin = None\<rparr>"

definition model_begin :: "'k \<Rightarrow> 'k \<Rightarrow> 'k admin_transfer_model model_call" where
  "model_begin signer new_admin = atomically (\<lambda>m.
     and_then (ensure (\<not> signer \<noteq> atm_admin m) ModelUnauthorized) (\<lambda>_.
       Inr (m\<lparr>atm_pending_admin := Some new_admin\<rparr>)))"

definition model_accept :: "'k \<Rightarrow> 'k admin_transfer_model model_call" where
  "model_accept signer = atomically (\<lambda>m.
     and_then (ok_or (atm_pending_admin m) ModelMissingPendingAdmin) (\<lambda>pending.
     and_then (ensure (\<not> signer \<noteq> pending) ModelUnauthorized) (\<lambda>_.
       Inr (m\<lparr>atm_admin := signer, atm_pending_admin := None\<rparr>))))"

section \<open>Transfer hook accounts\<close>

record 'k transfer_hook_accounts =
  tha_source_token_account :: 'k
  tha_destination_token_account :: 'k
  tha_source_compliance_user :: 'k
  tha_destination_compliance_user :: 'k

definition validate_hook_accounts ::
  "'k transfer_hook_accounts \<Rightarrow> (protocol_error, unit) result" where
  "validate_hook_accounts a =
     and_then (ensure (\<not> tha_source_token_account a \<noteq> tha_source_compliance_user a) ModelUnauthorized)
       (\<lambda>_. ensure (\<not> tha_destination_token_account a \<noteq> tha_destination_compliance_user a)
          ModelUnauthorized)"

section \<open>What the models promise\<close>

lemma atomically_ok: "atomically f m = (Inr u, m') \<longleftrightarrow> f m = Inr m'"
  by (cases "f m") (auto simp: atomically_def)

lemma atomically_err: "fst (atomically f m) = Inl e \<longleftrightarrow> f m = Inl e"
  by (cases "f m") (auto simp: atomically_def)

lemma issuance_mint_ok:
  "issuance_mint amount m = (Inr u, m') \<longleftrightarrow>
     unat (iam_current_supply m') = unat (iam_current_supply m) + unat amount \<and>
     unat (iam_issuer_outstanding m') = unat (iam_issuer_outstanding m) + unat amount \<and>
     unat (iam_total_minted m') = unat (iam_total_minted m) + unat amount \<and>
     iam_current_supply m' \<le> iam_global_cap m \<and> iam_issuer_outstanding m' \<le> iam_issuer_limit m \<and>
     m' = m\<lparr>iam_current_supply := iam_current_supply m', iam_issuer_outstanding := iam_issuer_outstanding m',
            iam_total_minted := iam_total_minted m'\<rparr>"
  by (cases m; cases m') (auto simp: issuance_mint_def atomically_ok checked_ok not_less)

lemma issuance_burn_ok:
  "issuance_burn amount m = (Inr u, m') \<longleftrightarrow>
     unat (iam_current_supply m) = unat amount + unat (iam_current_supply m') \<and>
     unat (iam_issuer_outstanding m) = unat amount + unat (iam_issuer_outstanding m') \<and>
     unat (iam_total_burned m') = unat (iam_total_burned m) + unat amount \<and>
     m' = m\<lparr>iam_current_supply := iam_current_supply m', iam_issuer_outstanding := iam_issuer_outstanding m',
            iam_total_burned := iam_total_burned m'\<rparr>"
  (is "?l \<longleftrightarrow> ?r")
proof
  assume ?l
  then show ?r
    by (auto simp: issuance_burn_def checked_ok Let_def split: option.splits if_splits)
next
  assume r: ?r
  then have "checked_sub (iam_current_supply m) amount = Some (iam_current_supply m')"
    "checked_sub (iam_issuer_outstanding m) amount = Some (iam_issuer_outstanding m')"
    "checked_add (iam_total_burned m) amount = Some (iam_total_burned m')"
    by (simp_all add: checked_ok)
  moreover have "\<not> (amount > iam_issuer_outstanding m \<or> amount > iam_current_supply m)"
    using r by (simp add: not_less word_le_nat_alt)
  ultimately show ?l using r by (simp add: issuance_burn_def)
qed

text \<open>The assertions hold initially and after every call that succeeds.\<close>

lemma issuance_asserts_kept:
  "issuance_asserts (issuance_new cap limit)"
  "issuance_asserts m \<Longrightarrow> issuance_mint amount m = (Inr u, m') \<Longrightarrow> issuance_asserts m'"
  "issuance_asserts m \<Longrightarrow> issuance_burn amount m = (Inr u, m') \<Longrightarrow> issuance_asserts m'"
proof -
  show "issuance_asserts (issuance_new cap limit)"
    by (simp add: issuance_asserts_def issuance_new_def checked_ok)
  show "issuance_asserts m'" if a: "issuance_asserts m" "issuance_mint amount m = (Inr u, m')"
  proof -
    note mi = a(2) [unfolded issuance_mint_ok]
    have "iam_global_cap m' = iam_global_cap m" "iam_issuer_limit m' = iam_issuer_limit m"
      "iam_total_burned m' = iam_total_burned m"
      by (subst mi [THEN conjunct2, THEN conjunct2, THEN conjunct2, THEN conjunct2, THEN conjunct2], simp)+
    then show ?thesis using a(1) mi by (simp add: issuance_asserts_def checked_ok)
  qed
  show "issuance_asserts m'" if a: "issuance_asserts m" "issuance_burn amount m = (Inr u, m')"
  proof -
    note bu = a(2) [unfolded issuance_burn_ok]
    have "iam_global_cap m' = iam_global_cap m" "iam_issuer_limit m' = iam_issuer_limit m"
      "iam_total_minted m' = iam_total_minted m"
      by (subst bu [THEN conjunct2, THEN conjunct2, THEN conjunct2], simp)+
    then show ?thesis using a(1) bu by (simp add: issuance_asserts_def checked_ok word_le_nat_alt)
  qed
qed

lemma redemption_asserts_kept:
  "redemption_asserts (redemption_new amount)"
  "redemption_asserts m \<Longrightarrow> model_settle s m = (Inr u, m') \<Longrightarrow> redemption_asserts m'"
proof -
  show "redemption_asserts (redemption_new amount)"
    by (simp add: redemption_asserts_def redemption_new_def checked_add_def)
  assume a: "redemption_asserts m" and s: "model_settle s m = (Inr u, m')"
  then have p: "rdm_status m = ModelPending" by (auto simp: model_settle_def split: if_splits)
  have "checked_add x y = Some 0 \<Longrightarrow> x = 0 \<and> y = 0" for x y :: u64 by (simp add: checked_add_Some unat_eq_zero)
  with a p have z: "rdm_outstanding m = rdm_amount m" "rdm_total_completed m = 0"
      "rdm_total_cancelled m = 0" "rdm_total_rejected m = 0"
    by (auto simp: redemption_asserts_def split: option.splits bind_splits)
  have "checked_sub (rdm_amount m) (rdm_amount m) = Some 0" by (simp add: checked_sub_def)
  moreover have "checked_add w 0 = Some w" "checked_add 0 w = Some w" for w :: u64
    by (simp_all add: checked_add_Some)
  ultimately show "redemption_asserts m'"
    using s p z by (cases s) (auto simp: model_settle_def Let_def redemption_asserts_def)
qed

end
