(* ===== verification/Issuer_Refinement.thy ===== *)
theory Issuer_Refinement
  imports Issuer_Invariant Security_Invariants
begin

text \<open>
  The issuer program against the issuance model of \<open>crates/security_invariants\<close>: the numbers of an
  issuer and of the protocol are a state of the model, and \<open>mint_to_user\<close> and \<open>burn_from_user\<close>
  succeed exactly when the model's \<open>mint\<close> and \<open>burn\<close> do, with the model's new state.  Then the
  accounts each instruction may change, and the sum of the issuers' outstanding amounts.
\<close>

section \<open>The model's state of an issuer\<close>

definition issuance_view :: "issuance \<Rightarrow> issuance_model" where
  "issuance_view s =
     \<lparr>iam_global_cap = isp_global_supply_cap (iss_protocol s),
      iam_issuer_limit = icf_mint_limit (iss_issuer s),
      iam_current_supply = gss_current_supply (iss_supply s),
      iam_issuer_outstanding = ist_current_outstanding (iss_stats s),
      iam_total_minted = gss_total_minted (iss_supply s),
      iam_total_burned = gss_total_burned (iss_supply s)\<rparr>"

text \<open>An instruction that rewrites the statistics leaves the accounts valid.\<close>

lemma load_issuance_again:
  assumes ld: "load_issuance env signers ctx accs = Inr s" and fr: "token_frame accs accs1"
    and accs': "accs' = accs1(ia_supply_stats ctx \<mapsto> SupplyStatsAcc ss, ia_stats ctx \<mapsto> IssuerStatsAcc st)"
    and ids: "gss_bump ss = gss_bump (iss_supply s)" "gss_mint ss = gss_mint (iss_supply s)"
      "gss_protocol ss = gss_protocol (iss_supply s)"
      "ist_bump st = ist_bump (iss_stats s)" "ist_authority st = ist_authority (iss_stats s)"
      "ist_issuer_config st = ist_issuer_config (iss_stats s)" "ist_protocol st = ist_protocol (iss_stats s)"
  shows "load_issuance env signers ctx accs' = Inr (s\<lparr>iss_supply := ss, iss_stats := st\<rparr>)"
proof -
  note l = ld [unfolded load_issuance_ok load_issuer_protocol_ok load_issuer_ok load_issuer_stats_ok]
  have kept: "accs1 k = Some a" if "accs k = Some a" "\<not> token_owned (Some a)" for k a
    using token_frame_owned [OF fr that(2)] that(1) by simp
  have "ia_supply_stats ctx \<noteq> ia_stats ctx" "ia_protocol ctx \<notin> {ia_supply_stats ctx, ia_stats ctx}"
    "ia_mint_config ctx \<notin> {ia_supply_stats ctx, ia_stats ctx}"
    "ia_issuer ctx \<notin> {ia_supply_stats ctx, ia_stats ctx}"
    using l by auto
  with l ids kept show ?thesis
    by (simp add: load_issuance_ok load_issuer_protocol_ok load_issuer_ok load_issuer_stats_ok accs')
qed

lemma mint_to_user_view:
  assumes tok: "token_2022_ok (ie_token env)" and ld: "load_issuance (ie_anchor env) signers ctx accs = Inr s"
    and m: "mint_to_user env signers ctx amount accs = Inr accs'"
  shows "\<exists>s'. load_issuance (ie_anchor env) signers ctx accs' = Inr s' \<and>
    issuance_mint amount (issuance_view s) = (Inr (), issuance_view s')"
proof -
  from mint_to_user_ok [OF m] obtain s1 outstanding new_supply issuer_minted minted accs1 where
    ld1: "load_issuance (ie_anchor env) signers ctx accs = Inr s1"
    and lim: "mint_limits amount s1 = Inr (outstanding, new_supply)"
    and d: "deliver_mint env signers ctx amount (iss_mint_config s1) accs = Inr accs1"
    and n: "unat issuer_minted = unat (ist_total_minted (iss_stats s1)) + unat amount"
      "unat minted = unat (gss_total_minted (iss_supply s1)) + unat amount"
    and a: "accs' = accs1(
         ia_supply_stats ctx \<mapsto> SupplyStatsAcc ((iss_supply s1)
           \<lparr>gss_current_supply := new_supply, gss_total_minted := minted\<rparr>),
         ia_stats ctx \<mapsto> IssuerStatsAcc ((iss_stats s1)
           \<lparr>ist_current_outstanding := outstanding, ist_total_minted := issuer_minted\<rparr>))"
    by (elim exE conjE)
  have s1: "s1 = s" using ld ld1 by simp
  have "load_issuance (ie_anchor env) signers ctx accs' = Inr (s\<lparr>
      iss_supply := (iss_supply s)\<lparr>gss_current_supply := new_supply, gss_total_minted := minted\<rparr>,
      iss_stats := (iss_stats s)\<lparr>ist_current_outstanding := outstanding,
        ist_total_minted := issuer_minted\<rparr>\<rparr>)" (is "_ = Inr ?s'")
    by (rule load_issuance_again [OF ld deliver_mint_effect(1) [OF tok d] a [unfolded s1]]) simp_all
  moreover have "issuance_mint amount (issuance_view s) = (Inr (), issuance_view ?s')"
    using lim n by (simp add: issuance_mint_ok issuance_view_def mint_limits_ok s1)
  ultimately show ?thesis by blast
qed

lemma burn_from_user_view:
  assumes tok: "token_2022_ok (ie_token env)" and ld: "load_issuance (ie_anchor env) signers ctx accs = Inr s"
    and m: "burn_from_user env signers ctx amount accs = Inr accs'"
  shows "\<exists>s'. load_issuance (ie_anchor env) signers ctx accs' = Inr s' \<and>
    issuance_burn amount (issuance_view s) = (Inr (), issuance_view s')"
proof -
  from burn_from_user_ok [OF m] obtain s1 outstanding new_supply pda issuer_burned burned accs1 where
    ld1: "load_issuance (ie_anchor env) signers ctx accs = Inr s1"
    and lim: "burn_limits amount s1 = Inr (outstanding, new_supply)"
    and d: "ie_token env (BurnChecked (ia_mint ctx) (ia_user_token ctx) (ia_mint_authority ctx)
       amount (smc_decimals (iss_mint_config s1))) (signers @ [pda]) accs = Some accs1"
    and n: "unat issuer_burned = unat (ist_total_burned (iss_stats s1)) + unat amount"
      "unat burned = unat (gss_total_burned (iss_supply s1)) + unat amount"
    and a: "accs' = accs1(
         ia_supply_stats ctx \<mapsto> SupplyStatsAcc ((iss_supply s1)
           \<lparr>gss_current_supply := new_supply, gss_total_burned := burned\<rparr>),
         ia_stats ctx \<mapsto> IssuerStatsAcc ((iss_stats s1)
           \<lparr>ist_current_outstanding := outstanding, ist_total_burned := issuer_burned\<rparr>))"
    by (elim exE conjE)
  have s1: "s1 = s" using ld ld1 by simp
  have "load_issuance (ie_anchor env) signers ctx accs' = Inr (s\<lparr>
      iss_supply := (iss_supply s)\<lparr>gss_current_supply := new_supply, gss_total_burned := burned\<rparr>,
      iss_stats := (iss_stats s)\<lparr>ist_current_outstanding := outstanding,
        ist_total_burned := issuer_burned\<rparr>\<rparr>)" (is "_ = Inr ?s'")
    by (rule load_issuance_again [OF ld token_call_effect(2) [OF tok d] a [unfolded s1]]) simp_all
  moreover have "issuance_burn amount (issuance_view s) = (Inr (), issuance_view ?s')"
    using lim n by (simp add: issuance_burn_ok issuance_view_def burn_limits_ok s1)
  ultimately show ?thesis by blast
qed

text \<open>
  Conversely a mint the model allows goes through: an issuer's totals never exceed the protocol's,
  so its checked additions cannot fail when the model's do not.
\<close>

lemma mint_to_user_succeeds:
  assumes inv: "issuer_inv (ie_anchor env) accs" and ld: "load_issuance (ie_anchor env) signers ctx accs = Inr s"
    and ok: "issuance_mint amount (issuance_view s) = (Inr (), m')"
    and run: "\<not> icf_paused (iss_issuer s)" "ia_user_token ctx \<in> set signers"
      "deliver_mint env signers ctx amount (iss_mint_config s) accs = Inr accs1"
  shows "is_ok (mint_to_user env signers ctx amount accs)"
proof -
  note l = loaded_issuance [OF inv ld]
  have n: "unat (iam_current_supply m') = unat (gss_current_supply (iss_supply s)) + unat amount"
    "unat (iam_issuer_outstanding m') = unat (ist_current_outstanding (iss_stats s)) + unat amount"
    "unat (iam_total_minted m') = unat (gss_total_minted (iss_supply s)) + unat amount"
    "iam_current_supply m' \<le> isp_global_supply_cap (iss_protocol s)"
    "iam_issuer_outstanding m' \<le> icf_mint_limit (iss_issuer s)"
    using ok by (simp_all add: issuance_mint_ok issuance_view_def)
  have "mint_limits amount s = Inr (iam_issuer_outstanding m', iam_current_supply m')"
    using n l run by (simp add: mint_limits_ok)
  moreover have "checked_add (gss_total_minted (iss_supply s)) amount = Some (iam_total_minted m')"
    using n by (simp add: checked_add_Some)
  moreover have "\<exists>v. checked_add (ist_total_minted (iss_stats s)) amount = Some v"
    using l(6) n(3) unsigned_less [of "iam_total_minted m'", where ?'a = nat]
    by (simp add: checked_add_def)
  ultimately show ?thesis
    using ld run by (auto simp: mint_to_user_def need_signer_def)
qed

lemma burn_from_user_succeeds:
  assumes inv: "issuer_inv (ie_anchor env) accs" and ld: "load_issuance (ie_anchor env) signers ctx accs = Inr s"
    and ok: "issuance_burn amount (issuance_view s) = (Inr (), m')"
    and run: "\<not> icf_paused (iss_issuer s)"
      "create_pda (ie_anchor env) mint_authority_seeds (smc_mint_authority_bump (iss_mint_config s)) = Some pda"
      "ie_token env (BurnChecked (ia_mint ctx) (ia_user_token ctx) (ia_mint_authority ctx)
       amount (smc_decimals (iss_mint_config s))) (signers @ [pda]) accs = Some accs1"
  shows "is_ok (burn_from_user env signers ctx amount accs)"
proof -
  note l = loaded_issuance [OF inv ld]
  have n: "unat (gss_current_supply (iss_supply s)) = unat amount + unat (iam_current_supply m')"
    "unat (ist_current_outstanding (iss_stats s)) = unat amount + unat (iam_issuer_outstanding m')"
    "unat (iam_total_burned m') = unat (gss_total_burned (iss_supply s)) + unat amount"
    using ok by (simp_all add: issuance_burn_ok issuance_view_def)
  have "burn_limits amount s = Inr (iam_issuer_outstanding m', iam_current_supply m')"
    using n l run by (simp add: burn_limits_ok)
  moreover have "checked_add (gss_total_burned (iss_supply s)) amount = Some (iam_total_burned m')"
    using n by (simp add: checked_add_Some)
  moreover have "\<exists>v. checked_add (ist_total_burned (iss_stats s)) amount = Some v"
    using l(7) n(3) unsigned_less [of "iam_total_burned m'", where ?'a = nat]
    by (simp add: checked_add_def)
  ultimately show ?thesis
    using ld run by (auto simp: burn_from_user_def invoke_token_def)
qed

section \<open>Who changes an issuer's statistics\<close>

lemma mint_to_user_writes:
  assumes tok: "token_2022_ok (ie_token env)" and m: "mint_to_user env signers ctx amount accs = Inr accs'"
    and k: "\<not> token_owned (accs k)" "accs' k \<noteq> accs k"
  shows "k = ia_supply_stats ctx \<or> k = ia_stats ctx"
proof -
  from mint_to_user_ok [OF m] obtain mc accs1 a b where
    "deliver_mint env signers ctx amount mc accs = Inr accs1"
    "accs' = accs1(ia_supply_stats ctx \<mapsto> a, ia_stats ctx \<mapsto> b)"
    by (elim exE conjE) (rule that; assumption)
  then show ?thesis
    using deliver_mint_effect(1) [OF tok, of signers ctx amount mc accs accs1] k
    by (auto simp: token_frame_def split: if_splits)
qed

lemma burn_from_user_writes:
  assumes tok: "token_2022_ok (ie_token env)" and m: "burn_from_user env signers ctx amount accs = Inr accs'"
    and k: "\<not> token_owned (accs k)" "accs' k \<noteq> accs k"
  shows "k = ia_supply_stats ctx \<or> k = ia_stats ctx"
proof -
  from burn_from_user_ok [OF m] obtain call ss accs1 a b where
    "ie_token env call ss accs = Some accs1"
    "accs' = accs1(ia_supply_stats ctx \<mapsto> a, ia_stats ctx \<mapsto> b)"
    by (elim exE conjE) (rule that; assumption)
  then show ?thesis
    using token_call_effect(2) [OF tok, of call ss accs accs1] k
    by (auto simp: token_frame_def split: if_splits)
qed

lemma create_stablecoin_mint_writes:
  assumes tok: "token_2022_ok (ie_token env)"
    and c: "create_stablecoin_mint env signers ctx decimals name symbol uri accs = Inr accs'"
    and k: "\<not> token_owned (accs k)" "accs' k \<noteq> accs k"
  shows "k = cm_protocol ctx"
proof -
  from create_stablecoin_mint_ok [OF c] obtain ab accs1 x y z where
    n: "accs (cm_mint_config ctx) = None" "accs (cm_supply_stats ctx) = None"
    and m: "create_mint_account env signers ctx ab decimals name symbol uri
       (accs(cm_mint_config ctx \<mapsto> MintConfigAcc zero_mint_config,
             cm_supply_stats ctx \<mapsto> SupplyStatsAcc zero_supply_stats)) = Inr accs1"
    and a: "accs' = accs1(cm_protocol ctx \<mapsto> x, cm_mint_config ctx \<mapsto> y, cm_supply_stats ctx \<mapsto> z)"
    by (elim exE conjE) (rule that; assumption)
  have ne: "k \<noteq> cm_mint_config ctx" "k \<noteq> cm_supply_stats ctx" using k n by auto
  have "accs1 k = accs k"
    using create_mint_account_effect(2) [OF tok m, unfolded token_frame_def, rule_format, of k] k(1) ne
    by simp
  then show ?thesis using k(2) ne by (auto simp: a split: if_splits)
qed

text \<open>
  The statistics of an issuer change only in instructions that its own authority has signed.
\<close>

lemma stats_change_signed:
  assumes tok: "token_2022_ok (ie_token env)" and s: "stablecoin_issuer env signers i accs = Inr accs'"
    and k: "accs k = Some (IssuerStatsAcc st)" "accs' k \<noteq> accs k"
  shows "ist_authority st \<in> set signers \<and> (\<exists>ctx amount. i = MintToUser ctx amount \<or>
    (\<exists>ctx. i = BurnFromUser ctx amount))"
proof (cases i)
  case (MintToUser ctx amount)
  with s have m: "mint_to_user env signers ctx amount accs = Inr accs'" by simp
  from mint_to_user_ok [OF m] obtain s' where ld: "load_issuance (ie_anchor env) signers ctx accs = Inr s'"
    by blast
  have "k = ia_supply_stats ctx \<or> k = ia_stats ctx"
    by (rule mint_to_user_writes [OF tok m]) (use k in auto)
  then show ?thesis using ld k MintToUser by (auto simp: load_issuance_ok load_issuer_stats_ok)
next
  case (BurnFromUser ctx amount)
  with s have m: "burn_from_user env signers ctx amount accs = Inr accs'" by simp
  from burn_from_user_ok [OF m] obtain s' where ld: "load_issuance (ie_anchor env) signers ctx accs = Inr s'"
    by blast
  have "k = ia_supply_stats ctx \<or> k = ia_stats ctx"
    by (rule burn_from_user_writes [OF tok m]) (use k in auto)
  then show ?thesis using ld k BurnFromUser by (auto simp: load_issuance_ok load_issuer_stats_ok)
next
  case (CreateStablecoinMint ctx decimals name symbol uri)
  with s have c: "create_stablecoin_mint env signers ctx decimals name symbol uri accs = Inr accs'" by simp
  have "k = cm_protocol ctx" by (rule create_stablecoin_mint_writes [OF tok c]) (use k in auto)
  moreover from create_stablecoin_mint_ok [OF c] obtain pc where
    "load_as_admin (ie_anchor env) signers accs (cm_admin ctx) (cm_protocol ctx) = Inr pc" by blast
  ultimately show ?thesis using k by (simp add: load_as_admin_ok load_issuer_protocol_ok)
next
  case (InitializeIssuerProtocol ctx cap)
  with s initialize_issuer_protocol_ok [of env signers ctx cap accs accs'] k show ?thesis
    by (auto split: if_splits)
next
  case (RegisterIssuer ctx limit)
  with s register_issuer_ok [of env signers ctx limit accs accs'] k show ?thesis
    by (auto split: if_splits)
next
  case (SetIssuerPaused ctx paused)
  with s set_issuer_paused_ok [of env signers ctx paused accs accs'] k show ?thesis
    by (auto simp: load_issuer_ok split: if_splits)
next
  case (RotateIssuerAuthority ctx)
  with s rotate_ok [of env signers ctx accs accs'] k show ?thesis
    by (auto simp: load_issuer_ok split: if_splits)
qed

section \<open>The sum of the issuers' outstanding amounts\<close>

fun outstanding_in :: "issuer_account option \<Rightarrow> nat" where
  "outstanding_in (Some (IssuerStatsAcc st)) = unat (ist_current_outstanding st)"
| "outstanding_in _ = 0"

definition issuers_outstanding :: "issuer_store \<Rightarrow> nat" where
  "issuers_outstanding = account_sum outstanding_in"

definition supply_in :: "anchor_env \<Rightarrow> issuer_store \<Rightarrow> nat" where
  "supply_in env accs =
     (case stats_of env accs of None \<Rightarrow> 0 | Some ss \<Rightarrow> unat (gss_current_supply ss))"

lemma outstanding_token [simp]: "token_owned a \<Longrightarrow> outstanding_in a = 0"
  by (cases a rule: token_owned.cases) auto

lemma outstanding_frame: "token_frame accs accs' \<Longrightarrow> outstanding_in (accs' k) = outstanding_in (accs k)"
  unfolding token_frame_def by (metis outstanding_token)

lemma issuance_write_outstanding:
  assumes ld: "load_issuance env signers ctx accs = Inr s" and fr: "token_frame accs accs1"
  shows "issuers_outstanding (accs1(ia_supply_stats ctx \<mapsto> SupplyStatsAcc ss, ia_stats ctx \<mapsto> IssuerStatsAcc st)) +
      unat (ist_current_outstanding (iss_stats s)) =
    issuers_outstanding accs + unat (ist_current_outstanding st)"
proof -
  have l: "accs (ia_supply_stats ctx) = Some (SupplyStatsAcc (iss_supply s))"
    "accs (ia_stats ctx) = Some (IssuerStatsAcc (iss_stats s))"
    using ld by (simp_all add: load_issuance_ok load_issuer_stats_ok)
  show ?thesis
    using account_sum_change [of "ia_stats ctx" outstanding_in
        "accs1(ia_supply_stats ctx \<mapsto> SupplyStatsAcc ss, ia_stats ctx \<mapsto> IssuerStatsAcc st)" accs]
      l outstanding_frame [OF fr]
    by (auto simp: issuers_outstanding_def)
qed

text \<open>
  A rotation copies the outstanding amount to the new issuer and leaves it with the old one, so the
  sum grows by it; every other instruction moves the sum and the supply by the same amount.
\<close>

fun rotated_in :: "issuer_event \<Rightarrow> issuer_store \<Rightarrow> nat" where
  "rotated_in (IssuerTransaction _ (RotateIssuerAuthority ctx)) accs = outstanding_in (accs (ro_stats ctx))"
| "rotated_in _ _ = 0"

lemma supply_in_cong: "stats_of env accs' = stats_of env accs \<Longrightarrow> supply_in env accs' = supply_in env accs"
  by (simp add: supply_in_def)

lemma loaded_supply:
  assumes "issuer_typed env accs" and "load_issuance env signers ctx accs = Inr s"
  shows "supply_in env accs = unat (gss_current_supply (iss_supply s))"
proof -
  have "accs (ia_supply_stats ctx) = Some (SupplyStatsAcc (iss_supply s))"
    using assms(2) by (simp add: load_issuance_ok)
  from typed_supply_stats [OF assms(1) this] show ?thesis by (simp add: supply_in_def)
qed

lemma mint_to_user_balance:
  assumes tok: "token_2022_ok (ie_token env)" and inv: "issuer_inv (ie_anchor env) accs"
    and m: "mint_to_user env signers ctx amount accs = Inr accs'"
  shows "issuers_outstanding accs' = issuers_outstanding accs + unat amount"
    "supply_in (ie_anchor env) accs' = supply_in (ie_anchor env) accs + unat amount"
proof -
  from mint_to_user_ok [OF m] obtain s outstanding new_supply issuer_minted minted accs1 where
    ld: "load_issuance (ie_anchor env) signers ctx accs = Inr s"
    and lim: "mint_limits amount s = Inr (outstanding, new_supply)"
    and d: "deliver_mint env signers ctx amount (iss_mint_config s) accs = Inr accs1"
    and a: "accs' = accs1(
         ia_supply_stats ctx \<mapsto> SupplyStatsAcc ((iss_supply s)
           \<lparr>gss_current_supply := new_supply, gss_total_minted := minted\<rparr>),
         ia_stats ctx \<mapsto> IssuerStatsAcc ((iss_stats s)
           \<lparr>ist_current_outstanding := outstanding, ist_total_minted := issuer_minted\<rparr>))"
    by (elim exE conjE)
  note fr = deliver_mint_effect(1) [OF tok d]
  show "issuers_outstanding accs' = issuers_outstanding accs + unat amount"
    using issuance_write_outstanding [OF ld fr, of "(iss_supply s)
           \<lparr>gss_current_supply := new_supply, gss_total_minted := minted\<rparr>" "(iss_stats s)
           \<lparr>ist_current_outstanding := outstanding, ist_total_minted := issuer_minted\<rparr>"] lim
    by (simp add: a mint_limits_ok)
  from mint_to_user_view [OF tok ld m] obtain s' where
    ld': "load_issuance (ie_anchor env) signers ctx accs' = Inr s'"
    and v: "issuance_mint amount (issuance_view s) = (Inr (), issuance_view s')" by blast
  have "issuer_typed (ie_anchor env) accs" "issuer_typed (ie_anchor env) accs'"
    using inv mint_to_user_inv [OF tok inv m] by (simp_all add: issuer_inv_def)
  from loaded_supply [OF this(1) ld] loaded_supply [OF this(2) ld'] v
  show "supply_in (ie_anchor env) accs' = supply_in (ie_anchor env) accs + unat amount"
    by (simp add: issuance_mint_ok issuance_view_def)
qed

lemma burn_from_user_balance:
  assumes tok: "token_2022_ok (ie_token env)" and inv: "issuer_inv (ie_anchor env) accs"
    and m: "burn_from_user env signers ctx amount accs = Inr accs'"
  shows "issuers_outstanding accs = issuers_outstanding accs' + unat amount"
    "supply_in (ie_anchor env) accs = supply_in (ie_anchor env) accs' + unat amount"
proof -
  from burn_from_user_ok [OF m] obtain s outstanding new_supply pda issuer_burned burned accs1 where
    ld: "load_issuance (ie_anchor env) signers ctx accs = Inr s"
    and lim: "burn_limits amount s = Inr (outstanding, new_supply)"
    and d: "ie_token env (BurnChecked (ia_mint ctx) (ia_user_token ctx) (ia_mint_authority ctx)
       amount (smc_decimals (iss_mint_config s))) (signers @ [pda]) accs = Some accs1"
    and a: "accs' = accs1(
         ia_supply_stats ctx \<mapsto> SupplyStatsAcc ((iss_supply s)
           \<lparr>gss_current_supply := new_supply, gss_total_burned := burned\<rparr>),
         ia_stats ctx \<mapsto> IssuerStatsAcc ((iss_stats s)
           \<lparr>ist_current_outstanding := outstanding, ist_total_burned := issuer_burned\<rparr>))"
    by (elim exE conjE)
  note fr = token_call_effect(2) [OF tok d]
  show "issuers_outstanding accs = issuers_outstanding accs' + unat amount"
    using issuance_write_outstanding [OF ld fr, of "(iss_supply s)
           \<lparr>gss_current_supply := new_supply, gss_total_burned := burned\<rparr>" "(iss_stats s)
           \<lparr>ist_current_outstanding := outstanding, ist_total_burned := issuer_burned\<rparr>"] lim
    by (simp add: a burn_limits_ok)
  from burn_from_user_view [OF tok ld m] obtain s' where
    ld': "load_issuance (ie_anchor env) signers ctx accs' = Inr s'"
    and v: "issuance_burn amount (issuance_view s) = (Inr (), issuance_view s')" by blast
  have "issuer_typed (ie_anchor env) accs" "issuer_typed (ie_anchor env) accs'"
    using inv burn_from_user_inv [OF tok inv m] by (simp_all add: issuer_inv_def)
  from loaded_supply [OF this(1) ld] loaded_supply [OF this(2) ld'] v
  show "supply_in (ie_anchor env) accs = supply_in (ie_anchor env) accs' + unat amount"
    by (simp add: issuance_burn_ok issuance_view_def)
qed

lemma issuers_outstanding_same:
  assumes "\<And>k. outstanding_in (accs' k) = outstanding_in (accs k)"
  shows "issuers_outstanding accs' = issuers_outstanding accs"
  unfolding issuers_outstanding_def by (rule account_sum_cong) (rule assms)

lemma create_stablecoin_mint_balance:
  assumes tok: "token_2022_ok (ie_token env)"
    and c: "create_stablecoin_mint env signers ctx decimals name symbol uri accs = Inr accs'"
  shows "issuers_outstanding accs' = issuers_outstanding accs"
    "supply_in (ie_anchor env) accs' = supply_in (ie_anchor env) accs"
proof -
  from create_stablecoin_mint_ok [OF c] obtain pc mb sb ab accs1 where
    n: "load_as_admin (ie_anchor env) signers accs (cm_admin ctx) (cm_protocol ctx) = Inr pc"
      "find_pda (ie_anchor env) supply_stats_seeds = (cm_supply_stats ctx, sb)"
      "accs (cm_mint_config ctx) = None" "accs (cm_supply_stats ctx) = None"
    and m: "create_mint_account env signers ctx ab decimals name symbol uri
       (accs(cm_mint_config ctx \<mapsto> MintConfigAcc zero_mint_config,
             cm_supply_stats ctx \<mapsto> SupplyStatsAcc zero_supply_stats)) = Inr accs1" (is "create_mint_account _ _ _ _ _ _ _ _ ?accs0 = _")
    and a: "accs' = accs1(
         cm_protocol ctx \<mapsto> IssuerProtocolAcc (pc\<lparr>isp_stablecoin_mint := cm_mint ctx\<rparr>),
         cm_mint_config ctx \<mapsto> MintConfigAcc
           \<lparr>smc_protocol = cm_protocol ctx, smc_mint = cm_mint ctx,
            smc_mint_authority = cm_mint_authority ctx, smc_supply_stats = cm_supply_stats ctx,
            smc_decimals = decimals, smc_mint_authority_bump = ab, smc_bump = mb\<rparr>,
         cm_supply_stats ctx \<mapsto> SupplyStatsAcc
           \<lparr>gss_protocol = cm_protocol ctx, gss_mint = cm_mint ctx, gss_current_supply = 0,
            gss_total_minted = 0, gss_total_burned = 0, gss_bump = sb\<rparr>)"
    by (elim exE conjE)
  have p: "accs (cm_protocol ctx) = Some (IssuerProtocolAcc pc)"
    using n by (simp add: load_as_admin_ok load_issuer_protocol_ok)
  have "outstanding_in (accs1 k) = outstanding_in (?accs0 k)" for k
    by (rule outstanding_frame [OF create_mint_account_effect(2) [OF tok m]])
  then show "issuers_outstanding accs' = issuers_outstanding accs"
    by (intro issuers_outstanding_same) (simp add: a n p)
  have "stats_of (ie_anchor env) accs = None" using n by (simp add: stats_of_def)
  moreover have "stats_of (ie_anchor env) accs' = Some
      \<lparr>gss_protocol = cm_protocol ctx, gss_mint = cm_mint ctx, gss_current_supply = 0,
            gss_total_minted = 0, gss_total_burned = 0, gss_bump = sb\<rparr>"
    using n by (simp add: stats_of_eq a)
  ultimately show "supply_in (ie_anchor env) accs' = supply_in (ie_anchor env) accs"
    by (simp add: supply_in_def)
qed

lemma rotate_balance:
  assumes r: "rotate_issuer_authority env signers ctx accs = Inr accs'"
  shows "issuers_outstanding accs' = issuers_outstanding accs + outstanding_in (accs (ro_stats ctx))"
    "supply_in (ie_anchor env) accs' = supply_in (ie_anchor env) accs"
proof -
  from rotate_ok [OF r] obtain pc ic st ib sb where
    l: "load_issuer (ie_anchor env) accs (ro_protocol ctx) (ro_authority ctx) (ro_issuer ctx) = Inr ic"
      "load_issuer_stats (ie_anchor env) accs (ro_protocol ctx) (ro_issuer ctx) (ro_authority ctx)
      (ro_stats ctx) = Inr st"
    and n: "accs (ro_new_issuer ctx) = None" "accs (ro_new_stats ctx) = None"
      "ro_new_issuer ctx \<noteq> ro_new_stats ctx"
    and a: "accs' = accs(
      ro_new_issuer ctx \<mapsto> IssuerConfigAcc
        \<lparr>icf_protocol = ro_protocol ctx, icf_authority = ro_new_authority ctx,
            icf_stats = ro_new_stats ctx, icf_mint_limit = icf_mint_limit ic,
            icf_paused = icf_paused ic, icf_bump = ib\<rparr>,
      ro_new_stats ctx \<mapsto> IssuerStatsAcc
        \<lparr>ist_protocol = ro_protocol ctx, ist_issuer_config = ro_new_issuer ctx,
            ist_authority = ro_new_authority ctx,
            ist_current_outstanding = ist_current_outstanding st,
            ist_total_minted = ist_total_minted st, ist_total_burned = ist_total_burned st,
            ist_bump = sb\<rparr>,
      ro_issuer ctx \<mapsto> IssuerConfigAcc (ic\<lparr>icf_mint_limit := 0, icf_paused := True\<rparr>))"
    by (elim exE conjE)
  have k: "accs (ro_issuer ctx) = Some (IssuerConfigAcc ic)" "accs (ro_stats ctx) = Some (IssuerStatsAcc st)"
    using l by (simp_all add: load_issuer_ok load_issuer_stats_ok)
  then have ne: "ro_issuer ctx \<noteq> ro_new_issuer ctx" "ro_issuer ctx \<noteq> ro_new_stats ctx" using n by auto
  have "outstanding_in (accs' j) = outstanding_in (accs j)" if "j \<noteq> ro_new_stats ctx" for j
    using that n k by (simp add: a)
  from account_sum_change [of "ro_new_stats ctx" outstanding_in accs' accs, OF this]
  show "issuers_outstanding accs' = issuers_outstanding accs + outstanding_in (accs (ro_stats ctx))"
    using n ne k by (simp add: issuers_outstanding_def a)
  show "supply_in (ie_anchor env) accs' = supply_in (ie_anchor env) accs"
    by (rule supply_in_cong, rule stats_of_cong) (use n k in \<open>auto simp: a\<close>)
qed

lemma issuer_exec_balance:
  assumes tok: "token_2022_ok (ie_token env)" and inv: "issuer_inv (ie_anchor env) accs"
    and s: "issuer_exec env ev accs = Inr accs'"
  shows "issuers_outstanding accs' + supply_in (ie_anchor env) accs =
    issuers_outstanding accs + supply_in (ie_anchor env) accs' + rotated_in ev accs"
proof (cases ev)
  case (OutsideWrite k v)
  with s have o: "token_owned (accs k)" "token_owned v" "accs' = accs(k := v)"
    by (auto simp: issuer_outside_def split: if_splits)
  then have "issuers_outstanding accs' = issuers_outstanding accs"
    by (intro issuers_outstanding_same) auto
  moreover have "supply_in (ie_anchor env) accs' = supply_in (ie_anchor env) accs"
    by (rule supply_in_cong, rule stats_of_cong) (use o in auto)
  ultimately show ?thesis using OutsideWrite by simp
next
  case (IssuerTransaction signers i)
  note ev = this
  show ?thesis
  proof (cases i)
    case (InitializeIssuerProtocol ctx cap)
    with s ev have "initialize_issuer_protocol env signers ctx cap accs = Inr accs'" by simp
    from initialize_issuer_protocol_ok [OF this] obtain pc where
      a: "accs (ii_protocol ctx) = None" "accs' = accs(ii_protocol ctx \<mapsto> IssuerProtocolAcc pc)" by blast
    then have "issuers_outstanding accs' = issuers_outstanding accs"
      by (intro issuers_outstanding_same) auto
    moreover have "supply_in (ie_anchor env) accs' = supply_in (ie_anchor env) accs"
      by (rule supply_in_cong, rule stats_of_cong) (use a in auto)
    ultimately show ?thesis by (simp add: ev InitializeIssuerProtocol)
  next
    case (CreateStablecoinMint ctx decimals name symbol uri)
    with s ev show ?thesis using create_stablecoin_mint_balance [OF tok] by simp
  next
    case (RegisterIssuer ctx limit)
    with s ev have "register_issuer env signers ctx limit accs = Inr accs'" by simp
    from register_issuer_ok [OF this] obtain ic st where
      a: "accs (ri_issuer ctx) = None" "accs (ri_stats ctx) = None" "ist_current_outstanding st = 0"
        "accs' = accs(ri_issuer ctx \<mapsto> IssuerConfigAcc ic, ri_stats ctx \<mapsto> IssuerStatsAcc st)"
      by (elim exE conjE) (rule that; (assumption | simp))
    then have "issuers_outstanding accs' = issuers_outstanding accs"
      by (intro issuers_outstanding_same) auto
    moreover have "supply_in (ie_anchor env) accs' = supply_in (ie_anchor env) accs"
      by (rule supply_in_cong, rule stats_of_cong) (use a in auto)
    ultimately show ?thesis by (simp add: ev RegisterIssuer)
  next
    case (SetIssuerPaused ctx paused)
    with s ev have "set_issuer_paused env signers ctx paused accs = Inr accs'" by simp
    from set_issuer_paused_ok [OF this] obtain ic where
      a: "accs (sp_issuer ctx) = Some (IssuerConfigAcc ic)"
        "accs' = accs(sp_issuer ctx \<mapsto> IssuerConfigAcc (ic\<lparr>icf_paused := paused\<rparr>))"
      by (auto simp: load_issuer_ok)
    then have "issuers_outstanding accs' = issuers_outstanding accs"
      by (intro issuers_outstanding_same) auto
    moreover have "supply_in (ie_anchor env) accs' = supply_in (ie_anchor env) accs"
      by (rule supply_in_cong, rule stats_of_cong) (use a in auto)
    ultimately show ?thesis by (simp add: ev SetIssuerPaused)
  next
    case (RotateIssuerAuthority ctx)
    with s ev show ?thesis using rotate_balance [of env signers ctx accs accs'] by simp
  next
    case (MintToUser ctx amount)
    with s ev show ?thesis using mint_to_user_balance [OF tok inv] by simp
  next
    case (BurnFromUser ctx amount)
    with s ev show ?thesis using burn_from_user_balance [OF tok inv, of signers ctx amount accs'] by simp
  qed
qed

fun rotated_total :: "issuer_env \<Rightarrow> issuer_event list \<Rightarrow> issuer_store \<Rightarrow> nat" where
  "rotated_total env [] accs = 0"
| "rotated_total env (ev # rest) accs =
     (case issuer_exec env ev accs of
        Inl _ \<Rightarrow> rotated_total env rest accs
      | Inr accs' \<Rightarrow> rotated_in ev accs + rotated_total env rest accs')"

lemma issuer_run_balance:
  assumes tok: "token_2022_ok (ie_token env)" and inv: "issuer_inv (ie_anchor env) accs"
  shows "issuers_outstanding (run_transactions (issuer_exec env) txs accs) + supply_in (ie_anchor env) accs =
    issuers_outstanding accs + supply_in (ie_anchor env) (run_transactions (issuer_exec env) txs accs) +
      rotated_total env txs accs"
  using inv
proof (induction txs arbitrary: accs)
  case Nil
  show ?case by simp
next
  case (Cons ev txs)
  show ?case
  proof (cases "issuer_exec env ev accs")
    case (Inl e)
    then show ?thesis using Cons by simp
  next
    case (Inr accs1)
    have "issuer_inv (ie_anchor env) accs1"
      using issuer.exec_inv [OF _ Inr] tok Cons.prems by simp
    from Cons.IH [OF this] issuer_exec_balance [OF tok Cons.prems Inr] Inr show ?thesis by simp
  qed
qed

end
