(* ===== verification/Issuer_Demo.thy ===== *)
theory Issuer_Demo
  imports Issuer_Refinement Anchor_Demo
begin

text \<open>
  A concrete world for the witnesses of the issuer's properties: a small Token-2022 program, and a
  run that sets the protocol up, registers an issuer, mints and burns.
\<close>

fun demo_token :: token_2022 where
  "demo_token (CreateAccount payer k _ _) signers accs =
     (if payer \<in> set signers \<and> k \<in> set signers \<and> accs k = None then Some (accs(k \<mapsto> TokenOther)) else None)"
| "demo_token (MetadataPointerInitialize m _ _) signers accs =
     (if accs m = Some TokenOther then Some accs else None)"
| "demo_token (PermanentDelegateInitialize m _) signers accs =
     (if accs m = Some TokenOther then Some accs else None)"
| "demo_token (InitializeMint2 m decimals authority _) signers accs =
     (if accs m = Some TokenOther
      then Some (accs(m \<mapsto> Mint2022 \<lparr>m22_supply = 0, m22_authority = authority, m22_decimals = decimals\<rparr>))
      else None)"
| "demo_token (TokenMetadataInitialize m _ authority _ _ _) signers accs =
     (if authority \<in> set signers \<and> accs m \<noteq> None then Some accs else None)"
| "demo_token (InitializeAccount3 k m owner) signers accs =
     (if accs k = Some TokenOther
      then Some (accs(k \<mapsto> Holder2022 \<lparr>h22_mint = m, h22_owner = owner, h22_amount = 0\<rparr>))
      else None)"
| "demo_token (MintToChecked m k authority amount decimals) signers accs =
     (case (accs m, accs k) of
        (Some (Mint2022 x), Some (Holder2022 h)) \<Rightarrow>
          (case (checked_add (m22_supply x) amount, checked_add (h22_amount h) amount) of
             (Some s, Some a) \<Rightarrow>
               if authority \<in> set signers \<and> m22_authority x = authority \<and> m22_decimals x = decimals
               then Some (accs(m \<mapsto> Mint2022 (x\<lparr>m22_supply := s\<rparr>), k \<mapsto> Holder2022 (h\<lparr>h22_amount := a\<rparr>)))
               else None
           | _ \<Rightarrow> None)
      | _ \<Rightarrow> None)"
| "demo_token (BurnChecked m k authority amount decimals) signers accs =
     (case (accs m, accs k) of
        (Some (Mint2022 x), Some (Holder2022 h)) \<Rightarrow>
          (case (checked_sub (m22_supply x) amount, checked_sub (h22_amount h) amount) of
             (Some s, Some a) \<Rightarrow>
               if authority \<in> set signers \<and> m22_authority x = authority \<and> m22_decimals x = decimals
               then Some (accs(m \<mapsto> Mint2022 (x\<lparr>m22_supply := s\<rparr>), k \<mapsto> Holder2022 (h\<lparr>h22_amount := a\<rparr>)))
               else None
           | _ \<Rightarrow> None)
      | _ \<Rightarrow> None)"

lemma demo_token_ok: "token_2022_ok demo_token"
  unfolding token_2022_ok_def
proof (intro allI impI)
  fix call signers accs accs'
  assume t: "demo_token call signers accs = Some accs'"
  show "call_applies call accs \<and> (\<forall>k. accs' k = accs k \<or> token_owned (accs k) \<and> token_owned (accs' k)) \<and>
    (\<forall>m. supply_of accs' m + burned_by call m = supply_of accs m + minted_by call m) \<and>
    (\<forall>m. authority_of accs' m = authority_after call accs m)"
  proof (cases call)
    case (MintToChecked m k authority amount decimals)
    with t obtain x h s a where "accs m = Some (Mint2022 x)" "accs k = Some (Holder2022 h)"
      "unat s = unat (m22_supply x) + unat amount"
      "accs' = accs(m \<mapsto> Mint2022 (x\<lparr>m22_supply := s\<rparr>), k \<mapsto> Holder2022 (h\<lparr>h22_amount := a\<rparr>))"
      by (auto simp: checked_add_Some split: option.splits issuer_account.splits if_splits)
    then show ?thesis by (auto simp: MintToChecked supply_of_def authority_of_def)
  next
    case (BurnChecked m k authority amount decimals)
    with t obtain x h s a where "accs m = Some (Mint2022 x)" "accs k = Some (Holder2022 h)"
      "unat (m22_supply x) = unat amount + unat s"
      "accs' = accs(m \<mapsto> Mint2022 (x\<lparr>m22_supply := s\<rparr>), k \<mapsto> Holder2022 (h\<lparr>h22_amount := a\<rparr>))"
      by (auto simp: checked_sub_Some split: option.splits issuer_account.splits if_splits)
    then show ?thesis by (auto simp: BurnChecked supply_of_def authority_of_def)
  qed (use t in \<open>auto simp: supply_of_def authority_of_def split: if_splits\<close>)
qed

definition demo_issuer :: issuer_env where
  "demo_issuer = \<lparr>ie_anchor = demo_env, ie_token = demo_token, ie_extended_mint_len = Some 200,
     ie_token_account_len = Some 165, ie_metadata_tlv_len = (\<lambda>_ _ _ _. Some 60),
     ie_minimum_balance = (\<lambda>n. Some (n * 10))\<rparr>"

lemma demo_issuer_sel [simp]: "ie_anchor demo_issuer = demo_env" "ie_token demo_issuer = demo_token"
  by (simp_all add: demo_issuer_def)

lemma demo_issuer_addresses [simp]:
  "demo_hash issuer_protocol_seeds = 248073"
  "demo_hash mint_authority_seeds = 248481"
  "demo_hash stablecoin_mint_seeds = 955712"
  "demo_hash supply_stats_seeds = 786251"
  "demo_hash (issuer_seeds 7) = 480894"
  "demo_hash (issuer_stats_seeds 7) = 54120"
  "demo_hash (issuer_seeds 9) = 782084"
  "demo_hash (issuer_stats_seeds 9) = 355310"
  by code_simp+

text \<open>The admin is 1, the mint 50, the issuer 7, its user 8 with the token account 60.\<close>

definition demo_issuance_accounts :: mint_to_user_accounts where
  "demo_issuance_accounts =
     \<lparr>ia_authority = 7, ia_protocol = 248073, ia_mint_config = 955712, ia_supply_stats = 786251,
      ia_issuer = 480894, ia_stats = 54120, ia_mint_authority = 248481, ia_mint = 50, ia_user_token = 60,
      mu_user = 8\<rparr>"

definition demo_burn_accounts :: issuance_accounts where
  "demo_burn_accounts = issuance_accounts.truncate demo_issuance_accounts"

definition demo_setup :: "issuer_event list" where
  "demo_setup =
     [IssuerTransaction [1] (InitializeIssuerProtocol
        \<lparr>ii_admin = 1, ii_protocol = 248073\<rparr> 1000),
      IssuerTransaction [1, 50] (CreateStablecoinMint
        \<lparr>cm_admin = 1, cm_protocol = 248073, cm_mint_config = 955712,
         cm_supply_stats = 786251, cm_mint_authority = 248481,
         cm_mint = 50\<rparr> 6 ''Stable'' ''STB'' ''uri''),
      IssuerTransaction [1] (RegisterIssuer
        \<lparr>ri_admin = 1, ri_protocol = 248073, ri_issuer = 480894,
         ri_stats = 54120, ri_authority = 7\<rparr> 500)]"

definition demo_issuer_run :: "issuer_event list" where
  "demo_issuer_run = demo_setup @
     [IssuerTransaction [7, 60] (MintToUser demo_issuance_accounts 100),
      IssuerTransaction [7] (BurnFromUser demo_burn_accounts 30),
      IssuerTransaction [1] (RotateIssuerAuthority
        \<lparr>ro_admin = 1, ro_protocol = 248073, ro_issuer = 480894,
         ro_stats = 54120, ro_new_issuer = 782084,
         ro_new_stats = 355310, ro_authority = 7, ro_new_authority = 9\<rparr>)]"

text \<open>The store after each transaction.\<close>

definition demo_pc :: "pubkey \<Rightarrow> issuer_protocol" where
  "demo_pc mint = \<lparr>isp_admin = 1, isp_pending_admin = 0, isp_stablecoin_mint = mint,
     isp_global_supply_cap = 1000, isp_paused = False, isp_bump = 255\<rparr>"

definition demo_mc :: stablecoin_mint_config where
  "demo_mc = \<lparr>smc_protocol = 248073, smc_mint = 50, smc_mint_authority = 248481, smc_supply_stats = 786251,
     smc_decimals = 6, smc_mint_authority_bump = 255, smc_bump = 255\<rparr>"

definition demo_ss :: "u64 \<Rightarrow> u64 \<Rightarrow> global_supply_stats" where
  "demo_ss minted burned = \<lparr>gss_protocol = 248073, gss_mint = 50, gss_current_supply = minted - burned,
     gss_total_minted = minted, gss_total_burned = burned, gss_bump = 255\<rparr>"

definition demo_ic :: issuer_config where
  "demo_ic = \<lparr>icf_protocol = 248073, icf_authority = 7, icf_stats = 54120, icf_mint_limit = 500,
     icf_paused = False, icf_bump = 255\<rparr>"

definition demo_ist :: "u64 \<Rightarrow> u64 \<Rightarrow> issuer_stats" where
  "demo_ist minted burned = \<lparr>ist_protocol = 248073, ist_issuer_config = 480894, ist_authority = 7,
     ist_current_outstanding = minted - burned, ist_total_minted = minted, ist_total_burned = burned,
     ist_bump = 255\<rparr>"

definition demo_m22 :: "u64 \<Rightarrow> issuer_account" where
  "demo_m22 n = Mint2022 \<lparr>m22_supply = n, m22_authority = 248481, m22_decimals = 6\<rparr>"

definition demo_h22 :: "u64 \<Rightarrow> issuer_account" where
  "demo_h22 n = Holder2022 \<lparr>h22_mint = 50, h22_owner = 8, h22_amount = n\<rparr>"

definition demo_store1 :: issuer_store where
  "demo_store1 = [248073 \<mapsto> IssuerProtocolAcc (demo_pc 0)]"

definition demo_store2 :: issuer_store where
  "demo_store2 = [248073 \<mapsto> IssuerProtocolAcc (demo_pc 50), 955712 \<mapsto> MintConfigAcc demo_mc,
     786251 \<mapsto> SupplyStatsAcc (demo_ss 0 0), 50 \<mapsto> demo_m22 0]"

definition demo_store3 :: issuer_store where
  "demo_store3 = demo_store2(480894 \<mapsto> IssuerConfigAcc demo_ic, 54120 \<mapsto> IssuerStatsAcc (demo_ist 0 0))"

definition demo_store4 :: issuer_store where
  "demo_store4 = demo_store3(786251 \<mapsto> SupplyStatsAcc (demo_ss 100 0), 54120 \<mapsto> IssuerStatsAcc (demo_ist 100 0),
     50 \<mapsto> demo_m22 100, 60 \<mapsto> demo_h22 100)"

definition demo_store5 :: issuer_store where
  "demo_store5 = demo_store3(786251 \<mapsto> SupplyStatsAcc (demo_ss 100 30), 54120 \<mapsto> IssuerStatsAcc (demo_ist 100 30),
     50 \<mapsto> demo_m22 70, 60 \<mapsto> demo_h22 70)"

lemmas demo_issuer_defs = demo_issuer_def demo_pc_def demo_mc_def demo_ss_def demo_ic_def demo_ist_def
  demo_m22_def demo_h22_def demo_store1_def demo_store2_def demo_store3_def demo_store4_def demo_store5_def
  demo_issuance_accounts_def demo_burn_accounts_def issuance_accounts.truncate_def

lemmas demo_issuer_eval = need_signer_def check_seeds_def check_seeds_bump_def load_def init_fresh_def
  init_both_def check_distinct_mut_def load_issuer_protocol_def load_as_admin_def load_issuer_def
  load_issuer_stats_def load_issuance_def invoke_token_def checked_add_def checked_sub_def

lemma demo_tx1: "issuer_exec demo_issuer (demo_issuer_run ! 0) (\<lambda>_. None) = Inr demo_store1"
  by (simp add: demo_issuer_run_def demo_setup_def initialize_issuer_protocol_def demo_issuer_defs demo_issuer_eval)

lemma demo_tx2: "issuer_exec demo_issuer (demo_issuer_run ! 1) demo_store1 = Inr demo_store2"
  by (simp add: demo_issuer_run_def demo_setup_def create_stablecoin_mint_def create_mint_account_def
      mint_space_def pod_mint_size_def standalone_tlv_header_len_def demo_issuer_defs demo_issuer_eval)
    (rule ext, simp)

lemma demo_tx3: "issuer_exec demo_issuer (demo_issuer_run ! 2) demo_store2 = Inr demo_store3"
  by (simp add: demo_issuer_run_def demo_setup_def register_issuer_def demo_issuer_defs demo_issuer_eval)

lemma demo_tx4: "issuer_exec demo_issuer (demo_issuer_run ! 3) demo_store3 = Inr demo_store4"
  by (simp add: demo_issuer_run_def demo_setup_def mint_to_user_def mint_limits_def deliver_mint_def
      token_account_size_def demo_issuer_defs demo_issuer_eval)
    (rule ext, simp)

lemma demo_tx5: "issuer_exec demo_issuer (demo_issuer_run ! 4) demo_store4 = Inr demo_store5"
  by (simp add: demo_issuer_run_def demo_setup_def burn_from_user_def burn_limits_def
      demo_issuer_defs demo_issuer_eval)
    (rule ext, simp)

definition demo_store6 :: issuer_store where
  "demo_store6 = demo_store5(
     782084 \<mapsto> IssuerConfigAcc (demo_ic\<lparr>icf_authority := 9, icf_stats := 355310\<rparr>),
     355310 \<mapsto> IssuerStatsAcc ((demo_ist 100 30)\<lparr>ist_issuer_config := 782084, ist_authority := 9\<rparr>),
     480894 \<mapsto> IssuerConfigAcc (demo_ic\<lparr>icf_mint_limit := 0, icf_paused := True\<rparr>))"

lemma demo_tx6: "issuer_exec demo_issuer (demo_issuer_run ! 5) demo_store5 = Inr demo_store6"
  by (simp add: demo_issuer_run_def demo_setup_def rotate_issuer_authority_def demo_store6_def
      demo_issuer_defs demo_issuer_eval)

lemmas demo_txs = demo_tx1 demo_tx2 demo_tx3 demo_tx4 demo_tx5 demo_tx6

lemma demo_issuer_run_list:
  "demo_issuer_run = [demo_issuer_run ! 0, demo_issuer_run ! 1, demo_issuer_run ! 2,
     demo_issuer_run ! 3, demo_issuer_run ! 4, demo_issuer_run ! 5]"
  by (simp add: demo_issuer_run_def demo_setup_def)

lemma demo_issuer_final: "run_transactions (issuer_exec demo_issuer) demo_issuer_run (\<lambda>_. None) = demo_store6"
  by (subst demo_issuer_run_list) (simp only: run_transactions.simps demo_txs sum.case)

lemma demo_rotated: "rotated_total demo_issuer demo_issuer_run (\<lambda>_. None) = 70"
proof -
  have "rotated_total demo_issuer demo_issuer_run (\<lambda>_. None) =
      rotated_in (demo_issuer_run ! 0) (\<lambda>_. None) + (rotated_in (demo_issuer_run ! 1) demo_store1 +
      (rotated_in (demo_issuer_run ! 2) demo_store2 + (rotated_in (demo_issuer_run ! 3) demo_store3 +
      (rotated_in (demo_issuer_run ! 4) demo_store4 + rotated_in (demo_issuer_run ! 5) demo_store5))))"
    by (subst demo_issuer_run_list) (simp only: rotated_total.simps demo_txs sum.case add_0_right)
  then show ?thesis
    by (simp add: demo_issuer_run_def demo_setup_def demo_issuer_defs)
qed

lemma demo_issuer_inv: "issuer_inv demo_env demo_store3" "issuer_inv demo_env demo_store4"
proof -
  have e: "issuer_inv demo_env (\<lambda>_. None)" by (rule issuer_inv_empty) simp
  have run: "issuer_inv demo_env (run_transactions (issuer_exec demo_issuer) txs (\<lambda>_. None))" for txs
    using issuer_run_inv [of demo_issuer "\<lambda>_. None" txs] e by (simp add: demo_token_ok)
  show "issuer_inv demo_env demo_store3" "issuer_inv demo_env demo_store4"
    using run [of "[demo_issuer_run ! 0, demo_issuer_run ! 1, demo_issuer_run ! 2]"]
      run [of "[demo_issuer_run ! 0, demo_issuer_run ! 1, demo_issuer_run ! 2, demo_issuer_run ! 3]"]
    by (simp_all only: run_transactions.simps demo_txs sum.case)
qed

definition demo_issuance :: "u64 \<Rightarrow> issuance" where
  "demo_issuance minted = \<lparr>iss_protocol = demo_pc 50, iss_mint_config = demo_mc, iss_supply = demo_ss minted 0,
     iss_issuer = demo_ic, iss_stats = demo_ist minted 0\<rparr>"

lemma demo_loaded:
  "load_issuance demo_env [7, 60] demo_issuance_accounts demo_store3 = Inr (demo_issuance 0)"
  "load_issuance demo_env [7] demo_burn_accounts demo_store4 = Inr (demo_issuance 100)"
  by (simp_all add: demo_issuance_def demo_issuer_defs demo_issuer_eval)

lemma demo_minted:
  "mint_to_user demo_issuer [7, 60] demo_issuance_accounts 100 demo_store3 = Inr demo_store4"
  "burn_from_user demo_issuer [7] demo_burn_accounts 30 demo_store4 = Inr demo_store5"
  using demo_tx4 demo_tx5 by (simp_all add: demo_issuer_run_def demo_setup_def)

lemma demo_delivered:
  "is_ok (deliver_mint demo_issuer [7, 60] demo_issuance_accounts 100 demo_mc demo_store3)"
  "is_ok (invoke_token demo_issuer (BurnChecked 50 60 248481 30 6) [7, 248481] demo_store4)"
  by (simp_all add: deliver_mint_def token_account_size_def demo_issuer_defs demo_issuer_eval)

lemma demo_issuance_sel [simp]:
  "iss_mint_config (demo_issuance n) = demo_mc" "\<not> icf_paused (iss_issuer (demo_issuance n))"
  "ia_user_token demo_issuance_accounts = 60" "ia_user_token demo_burn_accounts = 60"
  "ia_mint demo_burn_accounts = 50" "ia_mint_authority demo_burn_accounts = 248481"
  "smc_decimals demo_mc = 6" "smc_mint_authority_bump demo_mc = 255"
  by (simp_all add: demo_issuance_def demo_issuer_defs)

end
