(* ===== verification/Issuer_Properties.thy ===== *)
theory Issuer_Properties
  imports Issuer_Demo
begin

text \<open>
  The properties of the stablecoin issuer, over runs of transactions that start before the program
  owns an account and that other programs interrupt as the runtime allows them to.
\<close>

text \<open>C12: After any run the tracked supply is what was minted less what was burned and within the
  global cap, and the real supply of the mint does not exceed it.\<close>

theorem issuer_supply_capped:
  assumes "token_2022_ok (ie_token env)" and "\<And>k. token_owned (accs k)"
    and "accs' = run_transactions (issuer_exec env) txs accs"
    and "stats_of (ie_anchor env) accs' = Some ss"
  shows "\<exists>pc. protocol_of (ie_anchor env) accs' = Some pc \<and>
    gss_current_supply ss \<le> isp_global_supply_cap pc \<and>
    unat (gss_current_supply ss) + unat (gss_total_burned ss) = unat (gss_total_minted ss) \<and>
    supply_of accs' (gss_mint ss) \<le> unat (gss_current_supply ss)"
proof -
  have "issuer_inv (ie_anchor env) accs'"
    unfolding assms(3) by (rule issuer_run_inv [OF assms(1) issuer_inv_empty [OF assms(2)]])
  with assms(4) show ?thesis by (auto simp: issuer_inv_def supply_sound_def)
qed

theorem issuer_supply_capped_witness:
  "stats_of demo_env demo_store6 = Some (demo_ss 100 30) \<and>
   supply_of demo_store6 (gss_mint (demo_ss 100 30)) \<le> unat (gss_current_supply (demo_ss 100 30))"
proof -
  have st: "stats_of demo_env demo_store6 = Some (demo_ss 100 30)"
    by (simp add: stats_of_eq demo_store6_def demo_store5_def demo_store3_def)
  from issuer_supply_capped [of demo_issuer "\<lambda>_. None" demo_store6 demo_issuer_run "demo_ss 100 30"] st
  show ?thesis by (auto simp: demo_token_ok demo_issuer_final)
qed

text \<open>C13: Every account the program owns is, after any run, at the address derived from its contents
  and with the bump of that address, and refers to the accounts derived for the same authority.\<close>

theorem issuer_accounts_typed:
  assumes "token_2022_ok (ie_token env)" and "\<And>k. token_owned (accs k)"
  shows "issuer_typed (ie_anchor env) (run_transactions (issuer_exec env) txs accs)"
  using issuer_run_inv [OF assms(1) issuer_inv_empty [OF assms(2)], of txs] by (simp add: issuer_inv_def)

theorem issuer_accounts_typed_witness: "issuer_typed demo_env demo_store6"
  using issuer_accounts_typed [of demo_issuer "\<lambda>_. None" demo_issuer_run]
  by (simp add: demo_token_ok demo_issuer_final)

text \<open>C14: \<open>mint_to_user\<close> implements the reference model's \<open>mint\<close>: for a valid set of accounts, an
  unpaused issuer and a delivery the token program accepts it succeeds exactly when the model does,
  and the new accounts are then valid and carry the model's new state.\<close>

theorem mint_implements_model:
  assumes "token_2022_ok (ie_token env)" and "issuer_inv (ie_anchor env) accs"
    and "load_issuance (ie_anchor env) signers ctx accs = Inr s"
    and "\<not> icf_paused (iss_issuer s)" and "ia_user_token ctx \<in> set signers"
    and "is_ok (deliver_mint env signers ctx amount (iss_mint_config s) accs)"
  shows "case mint_to_user env signers ctx amount accs of
      Inl _ \<Rightarrow> \<not> is_ok (fst (issuance_mint amount (issuance_view s)))
    | Inr accs' \<Rightarrow> map_sum id issuance_view (load_issuance (ie_anchor env) signers ctx accs') =
        Inr (snd (issuance_mint amount (issuance_view s))) \<and>
        is_ok (fst (issuance_mint amount (issuance_view s)))"
proof (cases "mint_to_user env signers ctx amount accs")
  case (Inr accs')
  from mint_to_user_view [OF assms(1,3) Inr] Inr show ?thesis by auto
next
  case (Inl e)
  have "\<not> is_ok (fst (issuance_mint amount (issuance_view s)))"
  proof
    assume "is_ok (fst (issuance_mint amount (issuance_view s)))"
    then obtain m' where "issuance_mint amount (issuance_view s) = (Inr (), m')"
      by (auto simp: is_ok_iff) (metis prod.collapse)
    then have "is_ok (mint_to_user env signers ctx amount accs)"
      using mint_to_user_succeeds [OF assms(2,3)] assms(4-6) by (auto simp: is_ok_iff)
    with Inl show False by simp
  qed
  with Inl show ?thesis by simp
qed

theorem mint_implements_model_witness:
  "is_ok (fst (issuance_mint 100 (issuance_view (demo_issuance 0))))"
  using mint_implements_model [of demo_issuer demo_store3 "[7, 60]" demo_issuance_accounts "demo_issuance 0" 100]
  by (simp add: demo_token_ok demo_issuer_inv demo_loaded demo_minted demo_delivered)

text \<open>\<open>burn_from_user\<close> implements the reference model's \<open>burn\<close> in the same way.\<close>

theorem burn_implements_model:
  assumes "token_2022_ok (ie_token env)" and "issuer_inv (ie_anchor env) accs"
    and "load_issuance (ie_anchor env) signers ctx accs = Inr s"
    and "\<not> icf_paused (iss_issuer s)"
    and "create_pda (ie_anchor env) mint_authority_seeds (smc_mint_authority_bump (iss_mint_config s)) = Some pda"
    and "is_ok (invoke_token env (BurnChecked (ia_mint ctx) (ia_user_token ctx) (ia_mint_authority ctx)
      amount (smc_decimals (iss_mint_config s))) (signers @ [pda]) accs)"
  shows "case burn_from_user env signers ctx amount accs of
      Inl _ \<Rightarrow> \<not> is_ok (fst (issuance_burn amount (issuance_view s)))
    | Inr accs' \<Rightarrow> map_sum id issuance_view (load_issuance (ie_anchor env) signers ctx accs') =
        Inr (snd (issuance_burn amount (issuance_view s))) \<and>
        is_ok (fst (issuance_burn amount (issuance_view s)))"
proof (cases "burn_from_user env signers ctx amount accs")
  case (Inr accs')
  from burn_from_user_view [OF assms(1,3) Inr] Inr show ?thesis by auto
next
  case (Inl e)
  have "\<not> is_ok (fst (issuance_burn amount (issuance_view s)))"
  proof
    assume "is_ok (fst (issuance_burn amount (issuance_view s)))"
    then obtain m' where "issuance_burn amount (issuance_view s) = (Inr (), m')"
      by (auto simp: is_ok_iff) (metis prod.collapse)
    then have "is_ok (burn_from_user env signers ctx amount accs)"
      using burn_from_user_succeeds [OF assms(2,3)] assms(4-6) by (auto simp: is_ok_iff invoke_token_ok)
    with Inl show False by simp
  qed
  with Inl show ?thesis by simp
qed

theorem burn_implements_model_witness:
  "is_ok (fst (issuance_burn 30 (issuance_view (demo_issuance 100))))"
  using burn_implements_model [of demo_issuer demo_store4 "[7]" demo_burn_accounts "demo_issuance 100" 248481 30]
  by (simp add: demo_token_ok demo_issuer_inv demo_loaded demo_minted demo_delivered)

text \<open>The statistics of an issuer change only in a mint or a burn that the issuer's own authority has
  signed.\<close>

theorem issuer_stats_change_signed:
  assumes "token_2022_ok (ie_token env)" and "stablecoin_issuer env signers i accs = Inr accs'"
    and "accs k = Some (IssuerStatsAcc st)" and "accs' k \<noteq> accs k"
  shows "ist_authority st \<in> set signers \<and>
    (case i of MintToUser _ _ \<Rightarrow> True | BurnFromUser _ _ \<Rightarrow> True | _ \<Rightarrow> False)"
  using stats_change_signed [OF assms] by auto

theorem issuer_stats_change_signed_witness: "7 \<in> set [7, 60 :: pubkey]"
  using issuer_stats_change_signed [of demo_issuer "[7, 60]" "MintToUser demo_issuance_accounts 100"
      demo_store3 demo_store4 54120 "demo_ist 0 0"]
  by (simp add: demo_token_ok demo_minted demo_store3_def demo_store4_def demo_ist_def)

text \<open>C15: After any run the issuers' outstanding amounts add up to the tracked supply and what
  rotations of issuer authorities have copied: a rotation leaves the amount with the old authority
  too, and nothing else separates the two sides.\<close>

theorem issuers_outstanding_accounted:
  assumes "token_2022_ok (ie_token env)" and "\<And>k. token_owned (accs k)"
    and "accs' = run_transactions (issuer_exec env) txs accs"
  shows "issuers_outstanding accs' = supply_in (ie_anchor env) accs' + rotated_total env txs accs"
proof -
  have inv: "issuer_inv (ie_anchor env) accs" by (rule issuer_inv_empty) (rule assms(2))
  have "issuers_outstanding accs = 0"
    using assms(2) by (simp add: issuers_outstanding_def account_sum_def)
  moreover have "stats_of (ie_anchor env) accs = None"
    using assms(2) [of "fst (find_pda (ie_anchor env) supply_stats_seeds)"] stats_of_eq
    by (cases "stats_of (ie_anchor env) accs") auto
  ultimately show ?thesis
    using issuer_run_balance [OF assms(1) inv, of txs] assms(3) by (simp add: supply_in_def)
qed

text \<open>The tracked supply is 70 and the issuers' outstanding amounts add up to 140.\<close>

theorem issuers_outstanding_accounted_witness:
  "supply_in demo_env demo_store6 = 70 \<and> issuers_outstanding demo_store6 = 140"
proof -
  have "supply_in demo_env demo_store6 = 70"
    by (simp add: supply_in_def stats_of_def demo_store6_def demo_issuer_defs)
  with issuers_outstanding_accounted [of demo_issuer "\<lambda>_. None" demo_store6 demo_issuer_run]
  show ?thesis by (simp add: demo_token_ok demo_issuer_final demo_rotated)
qed

end
