(* ===== verification/Redemption_Program.thy ===== *)
theory Redemption_Program
  imports Anchor_Base
begin

text \<open>
  \<open>programs/stablecoin_redemption\<close>: accounts and errors (\<open>state.rs\<close>, \<open>error.rs\<close>,
  \<open>constants.rs\<close>) and all instructions (\<open>initialize.rs\<close>, \<open>redemption.rs\<close>, \<open>admin.rs\<close>).  The clock
  sysvar is a parameter; its time stamps are stored and never computed with, so \<open>i64\<close> is \<open>int\<close>.
\<close>

section \<open>State\<close>

datatype redemption_error =
    InvalidRedemptionAmount
  | RedemptionsPaused
  | RequestNotPending
  | UnauthorizedRequestOwner
  | UnauthorizedRedemptionAdmin
  | UnauthorizedPendingAdmin
  | MissingPendingAdmin
  | InvalidPendingAdmin
  | VaultOutstandingTooLow

datatype redemption_status = RequestPending | RequestCancelled | RequestCompleted | RequestRejected

datatype admin_action =
    CompleteRedemption
  | RejectRedemption
  | SetRedemptionsPaused
  | BeginAdminTransfer
  | AcceptAdminTransfer

record redemption_protocol =
  rdp_admin :: pubkey
  rdp_pending_admin :: pubkey
  rdp_redemptions_paused :: bool
  rdp_next_request_id :: u64
  rdp_next_admin_action_id :: u64
  rdp_bump :: u8

record redemption_vault =
  rdv_protocol :: pubkey
  rdv_outstanding_amount :: u64
  rdv_total_requested :: u64
  rdv_total_completed :: u64
  rdv_total_cancelled :: u64
  rdv_total_rejected :: u64
  rdv_bump :: u8

record redemption_request =
  rdr_protocol :: pubkey
  rdr_vault :: pubkey
  rdr_request_id :: u64
  rdr_owner :: pubkey
  rdr_amount :: u64
  rdr_status :: redemption_status
  rdr_created_at :: int
  rdr_updated_at :: int
  rdr_bump :: u8

record admin_action_log =
  aal_protocol :: pubkey
  aal_action_id :: u64
  aal_admin :: pubkey
  aal_action :: admin_action
  aal_target :: pubkey
  aal_amount :: u64
  aal_created_at :: int
  aal_bump :: u8

datatype redemption_account =
    RedemptionProtocolAcc redemption_protocol
  | RedemptionVaultAcc redemption_vault
  | RedemptionRequestAcc redemption_request
  | AdminActionLogAcc admin_action_log

fun as_redemption_protocol :: "redemption_account \<Rightarrow> redemption_protocol option" where
  "as_redemption_protocol (RedemptionProtocolAcc x) = Some x" | "as_redemption_protocol _ = None"
fun as_redemption_vault :: "redemption_account \<Rightarrow> redemption_vault option" where
  "as_redemption_vault (RedemptionVaultAcc x) = Some x" | "as_redemption_vault _ = None"
fun as_redemption_request :: "redemption_account \<Rightarrow> redemption_request option" where
  "as_redemption_request (RedemptionRequestAcc x) = Some x" | "as_redemption_request _ = None"

type_synonym redemption_store = "redemption_account accounts"
type_synonym redemption_failure = "redemption_error program_error"
type_synonym redemption_result = "(redemption_failure, redemption_store) result"

text \<open>The addresses of the program and what \<open>Clock::get()\<close> returns.\<close>

record redemption_env =
  re_anchor :: anchor_env
  re_clock :: "int option"

definition unix_timestamp :: "redemption_env \<Rightarrow> (redemption_failure, int) result" where
  "unix_timestamp env = ok_or (re_clock env) SysvarMissing"

section \<open>Seeds\<close>

definition redemption_protocol_seeds :: "u8 list list" where
  "redemption_protocol_seeds = [ascii_bytes ''protocol'']"
definition redemption_vault_seeds :: "pubkey \<Rightarrow> u8 list list" where
  "redemption_vault_seeds protocol = [ascii_bytes ''redemption_vault'', key_bytes protocol]"
definition redemption_request_seeds :: "pubkey \<Rightarrow> u64 \<Rightarrow> u8 list list" where
  "redemption_request_seeds protocol i =
     [ascii_bytes ''redemption_request'', key_bytes protocol, u64_bytes i]"
definition admin_action_log_seeds :: "pubkey \<Rightarrow> u64 \<Rightarrow> u8 list list" where
  "admin_action_log_seeds protocol i =
     [ascii_bytes ''admin_action_log'', key_bytes protocol, u64_bytes i]"

section \<open>Account validation\<close>

definition load_redemption_protocol ::
  "anchor_env \<Rightarrow> redemption_store \<Rightarrow> pubkey \<Rightarrow> (redemption_failure, redemption_protocol) result" where
  "load_redemption_protocol env accs k =
     and_then (load as_redemption_protocol accs k) (\<lambda>pc.
     and_then (check_seeds_bump env k redemption_protocol_seeds (rdp_bump pc)) (\<lambda>_. Inr pc))"

definition load_redemption_vault ::
  "anchor_env \<Rightarrow> redemption_store \<Rightarrow> pubkey \<Rightarrow> pubkey \<Rightarrow> (redemption_failure, redemption_vault) result" where
  "load_redemption_vault env accs protocol k =
     and_then (load as_redemption_vault accs k) (\<lambda>v.
     and_then (check_seeds_bump env k (redemption_vault_seeds protocol) (rdv_bump v)) (\<lambda>_. Inr v))"

definition load_redemption_request ::
  "anchor_env \<Rightarrow> redemption_store \<Rightarrow> pubkey \<Rightarrow> pubkey \<Rightarrow> pubkey
    \<Rightarrow> (redemption_failure, redemption_request) result" where
  "load_redemption_request env accs protocol vault k =
     and_then (load as_redemption_request accs k) (\<lambda>rq.
     and_then (check_seeds_bump env k (redemption_request_seeds protocol (rdr_request_id rq)) (rdr_bump rq))
       (\<lambda>_.
     and_then (ensure (rdr_protocol rq = protocol) ConstraintHasOne) (\<lambda>_.
     and_then (ensure (rdr_vault rq = vault) ConstraintRaw) (\<lambda>_. Inr rq))))"

definition load_redemption_admin ::
  "anchor_env \<Rightarrow> pubkey list \<Rightarrow> redemption_store \<Rightarrow> pubkey \<Rightarrow> pubkey
    \<Rightarrow> (redemption_failure, redemption_protocol) result" where
  "load_redemption_admin env signers accs admin k =
     and_then (need_signer admin signers) (\<lambda>_.
     and_then (load_redemption_protocol env accs k) (\<lambda>pc.
     and_then (require (rdp_admin pc = admin) UnauthorizedRedemptionAdmin) (\<lambda>_. Inr pc)))"

text \<open>The \<open>init\<close> of the next log account; its bump.\<close>

definition init_admin_log ::
  "anchor_env \<Rightarrow> redemption_store \<Rightarrow> pubkey \<Rightarrow> redemption_protocol \<Rightarrow> pubkey
    \<Rightarrow> (redemption_failure, u8) result" where
  "init_admin_log env accs protocol pc k =
     and_then (check_seeds env k (admin_action_log_seeds protocol (rdp_next_admin_action_id pc))) (\<lambda>bump.
     and_then (init_fresh accs k ()) (\<lambda>_. Inr bump))"

section \<open>Initialisation, requests and cancellations\<close>

record initialize_redemption_accounts =
  ir_admin :: pubkey
  ir_protocol :: pubkey
  ir_vault :: pubkey

definition initialize_redemption ::
  "redemption_env \<Rightarrow> pubkey list \<Rightarrow> initialize_redemption_accounts \<Rightarrow> redemption_store
    \<Rightarrow> redemption_result" where
  "initialize_redemption env signers ctx accs =
     and_then (need_signer (ir_admin ctx) signers) (\<lambda>_.
     and_then (check_seeds (re_anchor env) (ir_protocol ctx) redemption_protocol_seeds) (\<lambda>protocol_bump.
     and_then (check_seeds (re_anchor env) (ir_vault ctx) (redemption_vault_seeds (ir_protocol ctx)))
       (\<lambda>vault_bump.
     and_then (init_both accs (ir_protocol ctx) (ir_vault ctx)) (\<lambda>_.
       Inr (accs(
         ir_protocol ctx \<mapsto> RedemptionProtocolAcc
           \<lparr>rdp_admin = ir_admin ctx, rdp_pending_admin = 0, rdp_redemptions_paused = False,
            rdp_next_request_id = 0, rdp_next_admin_action_id = 0, rdp_bump = protocol_bump\<rparr>,
         ir_vault ctx \<mapsto> RedemptionVaultAcc
           \<lparr>rdv_protocol = ir_protocol ctx, rdv_outstanding_amount = 0, rdv_total_requested = 0,
            rdv_total_completed = 0, rdv_total_cancelled = 0, rdv_total_rejected = 0,
            rdv_bump = vault_bump\<rparr>))))))"

record redemption_accounts =
  rq_owner :: pubkey
  rq_protocol :: pubkey
  rq_vault :: pubkey
  rq_request :: pubkey

definition request_redemption ::
  "redemption_env \<Rightarrow> pubkey list \<Rightarrow> redemption_accounts \<Rightarrow> u64 \<Rightarrow> redemption_store \<Rightarrow> redemption_result" where
  "request_redemption env signers ctx amount accs =
     (let anchor = re_anchor env in
     and_then (need_signer (rq_owner ctx) signers) (\<lambda>_.
     and_then (load_redemption_protocol anchor accs (rq_protocol ctx)) (\<lambda>pc.
     and_then (load_redemption_vault anchor accs (rq_protocol ctx) (rq_vault ctx)) (\<lambda>v.
     and_then (check_seeds anchor (rq_request ctx)
       (redemption_request_seeds (rq_protocol ctx) (rdp_next_request_id pc))) (\<lambda>bump.
     and_then (init_fresh accs (rq_request ctx) ()) (\<lambda>_.
     and_then (check_distinct_mut anchor [rq_protocol ctx, rq_vault ctx]) (\<lambda>_.
     and_then (require (amount > 0) InvalidRedemptionAmount) (\<lambda>_.
     and_then (require (\<not> rdp_redemptions_paused pc) RedemptionsPaused) (\<lambda>_.
     and_then (unix_timestamp env) (\<lambda>now.
     and_then (require_some (checked_add (rdv_outstanding_amount v) amount) VaultOutstandingTooLow)
       (\<lambda>outstanding.
     and_then (require_some (checked_add (rdv_total_requested v) amount) VaultOutstandingTooLow)
       (\<lambda>requested.
     and_then (require_some (checked_add (rdp_next_request_id pc) 1) InvalidRedemptionAmount) (\<lambda>next_id.
       Inr (accs(
         rq_protocol ctx \<mapsto> RedemptionProtocolAcc (pc\<lparr>rdp_next_request_id := next_id\<rparr>),
         rq_vault ctx \<mapsto> RedemptionVaultAcc
           (v\<lparr>rdv_outstanding_amount := outstanding, rdv_total_requested := requested\<rparr>),
         rq_request ctx \<mapsto> RedemptionRequestAcc
           \<lparr>rdr_protocol = rq_protocol ctx, rdr_vault = rq_vault ctx,
            rdr_request_id = rdp_next_request_id pc, rdr_owner = rq_owner ctx, rdr_amount = amount,
            rdr_status = RequestPending, rdr_created_at = now, rdr_updated_at = now,
            rdr_bump = bump\<rparr>)))))))))))))))"

definition cancel_redemption ::
  "redemption_env \<Rightarrow> pubkey list \<Rightarrow> redemption_accounts \<Rightarrow> redemption_store \<Rightarrow> redemption_result" where
  "cancel_redemption env signers ctx accs =
     (let anchor = re_anchor env in
     and_then (need_signer (rq_owner ctx) signers) (\<lambda>_.
     and_then (load_redemption_protocol anchor accs (rq_protocol ctx)) (\<lambda>pc.
     and_then (load_redemption_vault anchor accs (rq_protocol ctx) (rq_vault ctx)) (\<lambda>v.
     and_then (load_redemption_request anchor accs (rq_protocol ctx) (rq_vault ctx) (rq_request ctx)) (\<lambda>rq.
     and_then (check_distinct_mut anchor [rq_vault ctx, rq_request ctx]) (\<lambda>_.
     and_then (require (rdr_status rq = RequestPending) RequestNotPending) (\<lambda>_.
     and_then (require (rdr_owner rq = rq_owner ctx) UnauthorizedRequestOwner) (\<lambda>_.
     and_then (require_some (checked_sub (rdv_outstanding_amount v) (rdr_amount rq)) VaultOutstandingTooLow)
       (\<lambda>outstanding.
     and_then (require_some (checked_add (rdv_total_cancelled v) (rdr_amount rq)) VaultOutstandingTooLow)
       (\<lambda>cancelled.
     and_then (unix_timestamp env) (\<lambda>now.
       Inr (accs(
         rq_vault ctx \<mapsto> RedemptionVaultAcc
           (v\<lparr>rdv_outstanding_amount := outstanding, rdv_total_cancelled := cancelled\<rparr>),
         rq_request ctx \<mapsto> RedemptionRequestAcc
           (rq\<lparr>rdr_status := RequestCancelled, rdr_updated_at := now\<rparr>))))))))))))))"

section \<open>Admin actions\<close>

text \<open>The protocol account with the next action id, and the log entry.\<close>

definition write_admin_log ::
  "redemption_env \<Rightarrow> pubkey \<Rightarrow> redemption_protocol \<Rightarrow> pubkey \<Rightarrow> admin_action \<Rightarrow> pubkey \<Rightarrow> u64 \<Rightarrow> u8
    \<Rightarrow> (redemption_failure, redemption_protocol \<times> admin_action_log) result" where
  "write_admin_log env protocol pc admin action target amount bump =
     (let action_id = rdp_next_admin_action_id pc in
     and_then (unix_timestamp env) (\<lambda>now.
     and_then (require_some (checked_add action_id 1) InvalidPendingAdmin) (\<lambda>next_id.
       Inr (pc\<lparr>rdp_next_admin_action_id := next_id\<rparr>,
         \<lparr>aal_protocol = protocol, aal_action_id = action_id, aal_admin = admin, aal_action = action,
          aal_target = target, aal_amount = amount, aal_created_at = now, aal_bump = bump\<rparr>))))"

text \<open>The vault after a request of \<open>amount\<close> has been settled; \<open>unreachable!()\<close> panics.\<close>

definition settle_vault ::
  "redemption_status \<Rightarrow> u64 \<Rightarrow> redemption_vault \<Rightarrow> (redemption_failure, redemption_vault) result" where
  "settle_vault status amount v =
     and_then (require_some (checked_sub (rdv_outstanding_amount v) amount) VaultOutstandingTooLow)
       (\<lambda>outstanding.
     let v1 = v\<lparr>rdv_outstanding_amount := outstanding\<rparr> in
     (case status of
        RequestCompleted \<Rightarrow>
          and_then (require_some (checked_add (rdv_total_completed v1) amount) VaultOutstandingTooLow)
            (\<lambda>n. Inr (v1\<lparr>rdv_total_completed := n\<rparr>))
      | RequestRejected \<Rightarrow>
          and_then (require_some (checked_add (rdv_total_rejected v1) amount) VaultOutstandingTooLow)
            (\<lambda>n. Inr (v1\<lparr>rdv_total_rejected := n\<rparr>))
      | _ \<Rightarrow> Inl Panicked))"

record admin_redemption_accounts =
  ar_admin :: pubkey
  ar_protocol :: pubkey
  ar_vault :: pubkey
  ar_request :: pubkey
  ar_log :: pubkey

text \<open>The accounts of \<open>AdminRedemptionAction\<close>, then \<open>complete_redemption_handler\<close> or
  \<open>reject_redemption_handler\<close> with \<open>settle_request\<close>.\<close>

definition settle_request ::
  "redemption_env \<Rightarrow> pubkey list \<Rightarrow> admin_redemption_accounts \<Rightarrow> redemption_status \<Rightarrow> admin_action
    \<Rightarrow> redemption_store \<Rightarrow> redemption_result" where
  "settle_request env signers ctx status action accs =
     (let anchor = re_anchor env in
     and_then (load_redemption_admin anchor signers accs (ar_admin ctx) (ar_protocol ctx)) (\<lambda>pc.
     and_then (load_redemption_vault anchor accs (ar_protocol ctx) (ar_vault ctx)) (\<lambda>v.
     and_then (load_redemption_request anchor accs (ar_protocol ctx) (ar_vault ctx) (ar_request ctx)) (\<lambda>rq.
     and_then (init_admin_log anchor accs (ar_protocol ctx) pc (ar_log ctx)) (\<lambda>bump.
     and_then (check_distinct_mut anchor [ar_protocol ctx, ar_vault ctx, ar_request ctx]) (\<lambda>_.
     and_then (require (rdr_status rq = RequestPending) RequestNotPending) (\<lambda>_.
     and_then (settle_vault status (rdr_amount rq) v) (\<lambda>v1.
     and_then (unix_timestamp env) (\<lambda>now.
     and_then (write_admin_log env (ar_protocol ctx) pc (ar_admin ctx) action (ar_request ctx)
       (rdr_amount rq) bump) (\<lambda>(pc1, log).
       Inr (accs(
         ar_protocol ctx \<mapsto> RedemptionProtocolAcc pc1,
         ar_vault ctx \<mapsto> RedemptionVaultAcc v1,
         ar_request ctx \<mapsto> RedemptionRequestAcc (rq\<lparr>rdr_status := status, rdr_updated_at := now\<rparr>),
         ar_log ctx \<mapsto> AdminActionLogAcc log))))))))))))"

definition complete_redemption ::
  "redemption_env \<Rightarrow> pubkey list \<Rightarrow> admin_redemption_accounts \<Rightarrow> redemption_store \<Rightarrow> redemption_result" where
  "complete_redemption env signers ctx =
     settle_request env signers ctx RequestCompleted CompleteRedemption"

definition reject_redemption ::
  "redemption_env \<Rightarrow> pubkey list \<Rightarrow> admin_redemption_accounts \<Rightarrow> redemption_store \<Rightarrow> redemption_result" where
  "reject_redemption env signers ctx = settle_request env signers ctx RequestRejected RejectRedemption"

record admin_log_accounts =
  al_admin :: pubkey
  al_protocol :: pubkey
  al_log :: pubkey

definition set_redemptions_paused ::
  "redemption_env \<Rightarrow> pubkey list \<Rightarrow> admin_log_accounts \<Rightarrow> bool \<Rightarrow> redemption_store \<Rightarrow> redemption_result" where
  "set_redemptions_paused env signers ctx paused accs =
     and_then (load_redemption_admin (re_anchor env) signers accs (al_admin ctx) (al_protocol ctx)) (\<lambda>pc.
     and_then (init_admin_log (re_anchor env) accs (al_protocol ctx) pc (al_log ctx)) (\<lambda>bump.
     and_then (write_admin_log env (al_protocol ctx) (pc\<lparr>rdp_redemptions_paused := paused\<rparr>) (al_admin ctx)
       SetRedemptionsPaused 0 (of_bool paused) bump) (\<lambda>(pc1, log).
       Inr (accs(al_protocol ctx \<mapsto> RedemptionProtocolAcc pc1, al_log ctx \<mapsto> AdminActionLogAcc log)))))"

definition begin_admin_transfer ::
  "redemption_env \<Rightarrow> pubkey list \<Rightarrow> admin_log_accounts \<Rightarrow> pubkey \<Rightarrow> redemption_store \<Rightarrow> redemption_result" where
  "begin_admin_transfer env signers ctx new_admin accs =
     and_then (load_redemption_admin (re_anchor env) signers accs (al_admin ctx) (al_protocol ctx)) (\<lambda>pc.
     and_then (init_admin_log (re_anchor env) accs (al_protocol ctx) pc (al_log ctx)) (\<lambda>bump.
     and_then (require (new_admin \<noteq> 0 \<and> new_admin \<noteq> rdp_admin pc) InvalidPendingAdmin) (\<lambda>_.
     and_then (write_admin_log env (al_protocol ctx) (pc\<lparr>rdp_pending_admin := new_admin\<rparr>) (al_admin ctx)
       BeginAdminTransfer new_admin 0 bump) (\<lambda>(pc1, log).
       Inr (accs(al_protocol ctx \<mapsto> RedemptionProtocolAcc pc1, al_log ctx \<mapsto> AdminActionLogAcc log))))))"

text \<open>Here \<open>al_admin\<close> is the \<open>pending_admin\<close> of the accounts.\<close>

definition accept_admin_transfer ::
  "redemption_env \<Rightarrow> pubkey list \<Rightarrow> admin_log_accounts \<Rightarrow> redemption_store \<Rightarrow> redemption_result" where
  "accept_admin_transfer env signers ctx accs =
     and_then (need_signer (al_admin ctx) signers) (\<lambda>_.
     and_then (load_redemption_protocol (re_anchor env) accs (al_protocol ctx)) (\<lambda>pc.
     and_then (init_admin_log (re_anchor env) accs (al_protocol ctx) pc (al_log ctx)) (\<lambda>bump.
     and_then (require (rdp_pending_admin pc \<noteq> 0) MissingPendingAdmin) (\<lambda>_.
     and_then (require (rdp_pending_admin pc = al_admin ctx) UnauthorizedPendingAdmin) (\<lambda>_.
     and_then (write_admin_log env (al_protocol ctx)
       (pc\<lparr>rdp_admin := al_admin ctx, rdp_pending_admin := 0\<rparr>) (al_admin ctx)
       AcceptAdminTransfer (rdp_admin pc) 0 bump) (\<lambda>(pc1, log).
       Inr (accs(al_protocol ctx \<mapsto> RedemptionProtocolAcc pc1, al_log ctx \<mapsto> AdminActionLogAcc log))))))))"

section \<open>The program\<close>

datatype redemption_instruction =
    InitializeRedemption initialize_redemption_accounts
  | RequestRedemption redemption_accounts u64
  | CancelRedemption redemption_accounts
  | CompleteRequest admin_redemption_accounts
  | RejectRequest admin_redemption_accounts
  | PauseRedemptions admin_log_accounts bool
  | BeginTransfer admin_log_accounts pubkey
  | AcceptTransfer admin_log_accounts

fun stablecoin_redemption ::
  "redemption_env \<Rightarrow> pubkey list \<Rightarrow> redemption_instruction \<Rightarrow> redemption_store \<Rightarrow> redemption_result" where
  "stablecoin_redemption env signers (InitializeRedemption ctx) accs = initialize_redemption env signers ctx accs"
| "stablecoin_redemption env signers (RequestRedemption ctx amount) accs =
     request_redemption env signers ctx amount accs"
| "stablecoin_redemption env signers (CancelRedemption ctx) accs = cancel_redemption env signers ctx accs"
| "stablecoin_redemption env signers (CompleteRequest ctx) accs = complete_redemption env signers ctx accs"
| "stablecoin_redemption env signers (RejectRequest ctx) accs = reject_redemption env signers ctx accs"
| "stablecoin_redemption env signers (PauseRedemptions ctx paused) accs =
     set_redemptions_paused env signers ctx paused accs"
| "stablecoin_redemption env signers (BeginTransfer ctx new_admin) accs =
     begin_admin_transfer env signers ctx new_admin accs"
| "stablecoin_redemption env signers (AcceptTransfer ctx) accs = accept_admin_transfer env signers ctx accs"

end
