(* ===== verification/Redemption_Safety.thy ===== *)
theory Redemption_Safety
  imports Redemption_Program
begin

text \<open>
  What a successful instruction of the redemption program has checked and done, the invariant of its
  accounts (addresses, and the vault's totals as sums over the requests) and how accounts evolve:
  requests settle once, log entries are never rewritten.
\<close>

section \<open>What a successful instruction did\<close>

lemma as_redemption_accounts [simp]:
  "as_redemption_protocol a = Some pc \<longleftrightarrow> a = RedemptionProtocolAcc pc"
  "as_redemption_vault a = Some v \<longleftrightarrow> a = RedemptionVaultAcc v"
  "as_redemption_request a = Some rq \<longleftrightarrow> a = RedemptionRequestAcc rq"
  by (cases a; auto)+

lemma load_redemption_protocol_ok [checked_ok]:
  "load_redemption_protocol env accs k = Inr pc \<longleftrightarrow> accs k = Some (RedemptionProtocolAcc pc) \<and>
     create_pda env redemption_protocol_seeds (rdp_bump pc) = Some k"
  by (auto simp: load_redemption_protocol_def checked_ok)

lemma load_redemption_vault_ok [checked_ok]:
  "load_redemption_vault env accs protocol k = Inr v \<longleftrightarrow> accs k = Some (RedemptionVaultAcc v) \<and>
     create_pda env (redemption_vault_seeds protocol) (rdv_bump v) = Some k"
  by (auto simp: load_redemption_vault_def checked_ok)

lemma load_redemption_request_ok [checked_ok]:
  "load_redemption_request env accs protocol vault k = Inr rq \<longleftrightarrow>
     accs k = Some (RedemptionRequestAcc rq) \<and>
     create_pda env (redemption_request_seeds protocol (rdr_request_id rq)) (rdr_bump rq) = Some k \<and>
     rdr_protocol rq = protocol \<and> rdr_vault rq = vault"
  by (auto simp: load_redemption_request_def checked_ok)

lemma load_redemption_admin_ok [checked_ok]:
  "load_redemption_admin env signers accs admin k = Inr pc \<longleftrightarrow> admin \<in> set signers \<and>
     rdp_admin pc = admin \<and> load_redemption_protocol env accs k = Inr pc"
  by (auto simp: load_redemption_admin_def checked_ok)

lemma init_admin_log_ok [checked_ok]:
  "init_admin_log env accs protocol pc k = Inr b \<longleftrightarrow> accs k = None \<and>
     find_pda env (admin_action_log_seeds protocol (rdp_next_admin_action_id pc)) = (k, b)"
  by (auto simp: init_admin_log_def checked_ok)

lemma unix_timestamp_ok [checked_ok]: "unix_timestamp env = Inr now \<longleftrightarrow> re_clock env = Some now"
  by (simp add: unix_timestamp_def checked_ok)

lemma write_admin_log_ok [checked_ok]:
  "write_admin_log env protocol pc admin action target amount bump = Inr p \<longleftrightarrow>
     (\<exists>now next_id. re_clock env = Some now \<and>
       unat next_id = unat (rdp_next_admin_action_id pc) + 1 \<and>
       p = (pc\<lparr>rdp_next_admin_action_id := next_id\<rparr>,
         \<lparr>aal_protocol = protocol, aal_action_id = rdp_next_admin_action_id pc, aal_admin = admin,
          aal_action = action, aal_target = target, aal_amount = amount, aal_created_at = now,
          aal_bump = bump\<rparr>))"
  by (auto simp: write_admin_log_def Let_def checked_ok)

lemma settle_vault_ok [checked_ok]:
  "settle_vault status amount v = Inr v' \<longleftrightarrow>
     unat (rdv_outstanding_amount v) = unat amount + unat (rdv_outstanding_amount v') \<and>
     (status = RequestCompleted \<and> unat (rdv_total_completed v') = unat (rdv_total_completed v) + unat amount \<and>
        v' = v\<lparr>rdv_outstanding_amount := rdv_outstanding_amount v', rdv_total_completed := rdv_total_completed v'\<rparr> \<or>
      status = RequestRejected \<and> unat (rdv_total_rejected v') = unat (rdv_total_rejected v) + unat amount \<and>
        v' = v\<lparr>rdv_outstanding_amount := rdv_outstanding_amount v', rdv_total_rejected := rdv_total_rejected v'\<rparr>)"
  by (cases status; cases v; cases v') (auto simp: settle_vault_def Let_def checked_ok)

lemma initialize_redemption_ok:
  assumes "initialize_redemption env signers ctx accs = Inr accs'"
  shows "\<exists>pb vb. ir_admin ctx \<in> set signers \<and> accs (ir_protocol ctx) = None \<and> accs (ir_vault ctx) = None \<and>
    ir_protocol ctx \<noteq> ir_vault ctx \<and>
    find_pda (re_anchor env) redemption_protocol_seeds = (ir_protocol ctx, pb) \<and>
    find_pda (re_anchor env) (redemption_vault_seeds (ir_protocol ctx)) = (ir_vault ctx, vb) \<and>
    accs' = accs(
         ir_protocol ctx \<mapsto> RedemptionProtocolAcc
           \<lparr>rdp_admin = ir_admin ctx, rdp_pending_admin = 0, rdp_redemptions_paused = False,
            rdp_next_request_id = 0, rdp_next_admin_action_id = 0, rdp_bump = pb\<rparr>,
         ir_vault ctx \<mapsto> RedemptionVaultAcc
           \<lparr>rdv_protocol = ir_protocol ctx, rdv_outstanding_amount = 0, rdv_total_requested = 0,
            rdv_total_completed = 0, rdv_total_cancelled = 0, rdv_total_rejected = 0, rdv_bump = vb\<rparr>)"
  using assms unfolding initialize_redemption_def
  by (auto simp only: and_then_ok need_signer_ok init_both_ok check_seeds_ok sum.inject)

lemma request_redemption_ok:
  assumes "request_redemption env signers ctx amount accs = Inr accs'"
  shows "\<exists>pc v bump now outstanding requested next_id. rq_owner ctx \<in> set signers \<and>
    load_redemption_protocol (re_anchor env) accs (rq_protocol ctx) = Inr pc \<and>
    load_redemption_vault (re_anchor env) accs (rq_protocol ctx) (rq_vault ctx) = Inr v \<and>
    find_pda (re_anchor env) (redemption_request_seeds (rq_protocol ctx) (rdp_next_request_id pc)) =
      (rq_request ctx, bump) \<and>
    accs (rq_request ctx) = None \<and> amount \<noteq> 0 \<and> \<not> rdp_redemptions_paused pc \<and>
    unat outstanding = unat (rdv_outstanding_amount v) + unat amount \<and>
    unat requested = unat (rdv_total_requested v) + unat amount \<and>
    unat next_id = unat (rdp_next_request_id pc) + 1 \<and> unix_timestamp env = Inr now \<and>
    accs' = accs(
         rq_protocol ctx \<mapsto> RedemptionProtocolAcc (pc\<lparr>rdp_next_request_id := next_id\<rparr>),
         rq_vault ctx \<mapsto> RedemptionVaultAcc
           (v\<lparr>rdv_outstanding_amount := outstanding, rdv_total_requested := requested\<rparr>),
         rq_request ctx \<mapsto> RedemptionRequestAcc
           \<lparr>rdr_protocol = rq_protocol ctx, rdr_vault = rq_vault ctx,
            rdr_request_id = rdp_next_request_id pc, rdr_owner = rq_owner ctx, rdr_amount = amount,
            rdr_status = RequestPending, rdr_created_at = now, rdr_updated_at = now, rdr_bump = bump\<rparr>)"
  using assms unfolding request_redemption_def Let_def
  apply (simp only: and_then_ok need_signer_ok require_ok check_seeds_ok init_fresh_ok require_some_ok
      checked_add_Some word_gt_0 sum.inject unat_1)
  apply (elim exE conjE)
  subgoal by (intro exI conjI) (assumption | simp)+
  done

lemma cancel_redemption_ok:
  assumes "cancel_redemption env signers ctx accs = Inr accs'"
  shows "\<exists>pc v rq now outstanding cancelled. rq_owner ctx \<in> set signers \<and>
    load_redemption_protocol (re_anchor env) accs (rq_protocol ctx) = Inr pc \<and>
    load_redemption_vault (re_anchor env) accs (rq_protocol ctx) (rq_vault ctx) = Inr v \<and>
    load_redemption_request (re_anchor env) accs (rq_protocol ctx) (rq_vault ctx) (rq_request ctx) = Inr rq \<and>
    rdr_status rq = RequestPending \<and> rdr_owner rq = rq_owner ctx \<and>
    unat (rdv_outstanding_amount v) = unat (rdr_amount rq) + unat outstanding \<and>
    unat cancelled = unat (rdv_total_cancelled v) + unat (rdr_amount rq) \<and>
    unix_timestamp env = Inr now \<and>
    accs' = accs(
         rq_vault ctx \<mapsto> RedemptionVaultAcc
           (v\<lparr>rdv_outstanding_amount := outstanding, rdv_total_cancelled := cancelled\<rparr>),
         rq_request ctx \<mapsto> RedemptionRequestAcc
           (rq\<lparr>rdr_status := RequestCancelled, rdr_updated_at := now\<rparr>))"
  using assms unfolding cancel_redemption_def Let_def
  apply (simp only: and_then_ok need_signer_ok require_ok require_some_ok checked_add_Some checked_sub_Some
      sum.inject)
  apply (elim exE conjE)
  subgoal by (intro exI conjI) (assumption | simp)+
  done

lemma settle_request_ok:
  assumes "settle_request env signers ctx status action accs = Inr accs'"
  shows "\<exists>pc v rq bump now v1 pc1 log.
    load_redemption_admin (re_anchor env) signers accs (ar_admin ctx) (ar_protocol ctx) = Inr pc \<and>
    load_redemption_vault (re_anchor env) accs (ar_protocol ctx) (ar_vault ctx) = Inr v \<and>
    load_redemption_request (re_anchor env) accs (ar_protocol ctx) (ar_vault ctx) (ar_request ctx) = Inr rq \<and>
    init_admin_log (re_anchor env) accs (ar_protocol ctx) pc (ar_log ctx) = Inr bump \<and>
    rdr_status rq = RequestPending \<and> settle_vault status (rdr_amount rq) v = Inr v1 \<and>
    write_admin_log env (ar_protocol ctx) pc (ar_admin ctx) action (ar_request ctx)
       (rdr_amount rq) bump = Inr (pc1, log) \<and> unix_timestamp env = Inr now \<and>
    accs' = accs(
         ar_protocol ctx \<mapsto> RedemptionProtocolAcc pc1,
         ar_vault ctx \<mapsto> RedemptionVaultAcc v1,
         ar_request ctx \<mapsto> RedemptionRequestAcc (rq\<lparr>rdr_status := status, rdr_updated_at := now\<rparr>),
         ar_log ctx \<mapsto> AdminActionLogAcc log)"
  using assms unfolding settle_request_def Let_def
  apply (simp only: and_then_ok require_ok split_paired_Ex prod.case sum.inject)
  apply (elim exE conjE)
  subgoal by (intro exI conjI) (assumption | simp)+
  done

text \<open>The three instructions that change the protocol account and write a log entry only.\<close>

definition logged_change ::
  "redemption_env \<Rightarrow> admin_log_accounts \<Rightarrow> redemption_protocol \<Rightarrow> redemption_protocol \<Rightarrow> admin_action
    \<Rightarrow> redemption_store \<Rightarrow> redemption_store \<Rightarrow> bool" where
  "logged_change env ctx pc pc' action accs accs' \<longleftrightarrow>
     (\<exists>bump target amount pc1 log.
       load_redemption_protocol (re_anchor env) accs (al_protocol ctx) = Inr pc \<and>
       init_admin_log (re_anchor env) accs (al_protocol ctx) pc (al_log ctx) = Inr bump \<and>
       write_admin_log env (al_protocol ctx) pc' (al_admin ctx) action target amount bump = Inr (pc1, log) \<and>
       accs' = accs(al_protocol ctx \<mapsto> RedemptionProtocolAcc pc1, al_log ctx \<mapsto> AdminActionLogAcc log))"

lemma set_redemptions_paused_ok:
  assumes "set_redemptions_paused env signers ctx paused accs = Inr accs'"
  shows "\<exists>pc. al_admin ctx \<in> set signers \<and> rdp_admin pc = al_admin ctx \<and>
    logged_change env ctx pc (pc\<lparr>rdp_redemptions_paused := paused\<rparr>) SetRedemptionsPaused accs accs'"
  using assms unfolding set_redemptions_paused_def logged_change_def
  apply (simp only: and_then_ok load_redemption_admin_ok split_paired_Ex prod.case sum.inject)
  apply (elim exE conjE)
  subgoal by (intro exI conjI) (assumption | simp)+
  done

lemma begin_admin_transfer_ok:
  assumes "begin_admin_transfer env signers ctx new_admin accs = Inr accs'"
  shows "\<exists>pc. al_admin ctx \<in> set signers \<and> rdp_admin pc = al_admin ctx \<and>
    new_admin \<noteq> 0 \<and> new_admin \<noteq> rdp_admin pc \<and>
    logged_change env ctx pc (pc\<lparr>rdp_pending_admin := new_admin\<rparr>) BeginAdminTransfer accs accs'"
  using assms unfolding begin_admin_transfer_def logged_change_def
  apply (simp only: and_then_ok require_ok load_redemption_admin_ok split_paired_Ex prod.case sum.inject)
  apply (elim exE conjE)
  subgoal by (intro exI conjI) (assumption | simp)+
  done

lemma accept_admin_transfer_ok:
  assumes "accept_admin_transfer env signers ctx accs = Inr accs'"
  shows "\<exists>pc. al_admin ctx \<in> set signers \<and> rdp_pending_admin pc \<noteq> 0 \<and>
    rdp_pending_admin pc = al_admin ctx \<and>
    logged_change env ctx pc (pc\<lparr>rdp_admin := al_admin ctx, rdp_pending_admin := 0\<rparr>)
      AcceptAdminTransfer accs accs'"
  using assms unfolding accept_admin_transfer_def logged_change_def
  apply (simp only: and_then_ok require_ok need_signer_ok split_paired_Ex prod.case sum.inject)
  apply (elim exE conjE)
  subgoal by (intro exI conjI) (assumption | simp)+
  done

end
