(* ===== verification/Redemption_Invariant.thy ===== *)
theory Redemption_Invariant
  imports Redemption_Safety Security_Invariants
begin

text \<open>
  The invariant of the redemption program: every account is at the address derived for it, requests
  and log entries are numbered without gaps, and the vault's totals are the sums of the requests'
  amounts by status.  Then how accounts evolve, and the reference models of
  \<open>crates/security_invariants\<close>.
\<close>

section \<open>The invariant\<close>

definition redemption_protocol_key :: "anchor_env \<Rightarrow> pubkey" where
  "redemption_protocol_key env = fst (find_pda env redemption_protocol_seeds)"

definition redemption_vault_key :: "anchor_env \<Rightarrow> pubkey" where
  "redemption_vault_key env = fst (find_pda env (redemption_vault_seeds (redemption_protocol_key env)))"

definition redemption_request_key :: "anchor_env \<Rightarrow> u64 \<Rightarrow> pubkey" where
  "redemption_request_key env i =
     fst (find_pda env (redemption_request_seeds (redemption_protocol_key env) i))"

definition admin_log_key :: "anchor_env \<Rightarrow> u64 \<Rightarrow> pubkey" where
  "admin_log_key env i = fst (find_pda env (admin_action_log_seeds (redemption_protocol_key env) i))"

fun redemption_typed_at :: "anchor_env \<Rightarrow> pubkey \<Rightarrow> redemption_account \<Rightarrow> bool" where
  "redemption_typed_at env k (RedemptionProtocolAcc pc) \<longleftrightarrow>
     find_pda env redemption_protocol_seeds = (k, rdp_bump pc)"
| "redemption_typed_at env k (RedemptionVaultAcc v) \<longleftrightarrow>
     find_pda env (redemption_vault_seeds (redemption_protocol_key env)) = (k, rdv_bump v) \<and>
     rdv_protocol v = redemption_protocol_key env"
| "redemption_typed_at env k (RedemptionRequestAcc rq) \<longleftrightarrow>
     find_pda env (redemption_request_seeds (redemption_protocol_key env) (rdr_request_id rq)) =
       (k, rdr_bump rq) \<and>
     rdr_protocol rq = redemption_protocol_key env \<and> rdr_vault rq = redemption_vault_key env \<and>
     rdr_amount rq \<noteq> 0"
| "redemption_typed_at env k (AdminActionLogAcc l) \<longleftrightarrow>
     find_pda env (admin_action_log_seeds (redemption_protocol_key env) (aal_action_id l)) = (k, aal_bump l) \<and>
     aal_protocol l = redemption_protocol_key env"

definition redemption_typed :: "anchor_env \<Rightarrow> redemption_store \<Rightarrow> bool" where
  "redemption_typed env accs \<longleftrightarrow> (\<forall>k a. accs k = Some a \<longrightarrow> redemption_typed_at env k a)"

text \<open>The total of the vault for a status, and the sum of the requests with that status.\<close>

fun vault_total :: "redemption_status \<Rightarrow> redemption_vault \<Rightarrow> nat" where
  "vault_total RequestPending v = unat (rdv_outstanding_amount v)"
| "vault_total RequestCompleted v = unat (rdv_total_completed v)"
| "vault_total RequestCancelled v = unat (rdv_total_cancelled v)"
| "vault_total RequestRejected v = unat (rdv_total_rejected v)"

fun amount_in :: "redemption_status \<Rightarrow> redemption_account option \<Rightarrow> nat" where
  "amount_in s (Some (RedemptionRequestAcc rq)) = (if rdr_status rq = s then unat (rdr_amount rq) else 0)"
| "amount_in s _ = 0"

definition requests_sum :: "redemption_status \<Rightarrow> redemption_store \<Rightarrow> nat" where
  "requests_sum s = account_sum (amount_in s)"

definition vault_sound :: "redemption_vault \<Rightarrow> redemption_store \<Rightarrow> bool" where
  "vault_sound v accs \<longleftrightarrow> (\<forall>s. vault_total s v = requests_sum s accs) \<and>
     unat (rdv_total_requested v) = vault_total RequestPending v + vault_total RequestCompleted v +
       vault_total RequestCancelled v + vault_total RequestRejected v"

definition numbered :: "anchor_env \<Rightarrow> redemption_protocol \<Rightarrow> redemption_store \<Rightarrow> bool" where
  "numbered env pc accs \<longleftrightarrow>
     (\<forall>i<rdp_next_request_id pc. \<exists>rq. accs (redemption_request_key env i) = Some (RedemptionRequestAcc rq) \<and>
        rdr_request_id rq = i) \<and>
     (\<forall>i<rdp_next_admin_action_id pc. \<exists>l. accs (admin_log_key env i) = Some (AdminActionLogAcc l) \<and>
        aal_action_id l = i)"

definition redemption_inv :: "anchor_env \<Rightarrow> redemption_store \<Rightarrow> bool" where
  "redemption_inv env accs \<longleftrightarrow> redemption_typed env accs \<and>
     (accs = (\<lambda>_. None) \<or>
      (\<exists>pc v. accs (redemption_protocol_key env) = Some (RedemptionProtocolAcc pc) \<and>
         accs (redemption_vault_key env) = Some (RedemptionVaultAcc v) \<and>
         vault_sound v accs \<and> numbered env pc accs))"

lemma redemption_inv_empty: "redemption_inv env (\<lambda>_. None)"
  by (simp add: redemption_inv_def redemption_typed_def)

lemma redemption_typed_upd:
  "redemption_typed env accs \<Longrightarrow> redemption_typed_at env k a \<Longrightarrow> redemption_typed env (accs(k \<mapsto> a))"
  by (simp add: redemption_typed_def)

text \<open>What the invariant says of accounts an instruction has loaded.\<close>

lemma redemption_loaded:
  assumes inv: "redemption_inv env accs" and p: "accs p = Some (RedemptionProtocolAcc pc)"
    and v: "accs vk = Some (RedemptionVaultAcc v)"
  shows "p = redemption_protocol_key env" "vk = redemption_vault_key env" "vault_sound v accs"
    "numbered env pc accs"
proof -
  have t: "redemption_typed env accs" using inv by (simp add: redemption_inv_def)
  have "redemption_typed_at env p (RedemptionProtocolAcc pc)" using t p by (simp only: redemption_typed_def)
  then show pe: "p = redemption_protocol_key env" by (simp add: redemption_protocol_key_def)
  have "redemption_typed_at env vk (RedemptionVaultAcc v)" using t v by (simp only: redemption_typed_def)
  then show ve: "vk = redemption_vault_key env" by (simp add: redemption_vault_key_def)
  show "vault_sound v accs" "numbered env pc accs" using inv p v pe ve by (auto simp: redemption_inv_def)
qed

lemma redemption_invI:
  assumes "redemption_typed env accs"
    and "accs (redemption_protocol_key env) = Some (RedemptionProtocolAcc pc)"
    and "accs (redemption_vault_key env) = Some (RedemptionVaultAcc v)"
    and "vault_sound v accs" and "numbered env pc accs"
  shows "redemption_inv env accs"
  using assms by (auto simp: redemption_inv_def)

lemma requests_sum_upd:
  "requests_sum s (accs(k \<mapsto> a)) + amount_in s (accs k) = requests_sum s accs + amount_in s (Some a)"
  by (simp add: requests_sum_def account_sum_upd)

section \<open>Log entries\<close>

text \<open>A change of the protocol account with a new log entry.\<close>

lemma log_update_inv:
  assumes inv: "redemption_inv env accs" and p: "accs p = Some (RedemptionProtocolAcc pc)"
    and v: "accs vk = Some (RedemptionVaultAcc v)"
    and pc': "rdp_bump pc' = rdp_bump pc" "rdp_next_request_id pc' = rdp_next_request_id pc"
      "unat (rdp_next_admin_action_id pc') = unat (rdp_next_admin_action_id pc) + 1"
    and l: "accs lk = None"
      "find_pda env (admin_action_log_seeds p (rdp_next_admin_action_id pc)) = (lk, aal_bump log)"
      "aal_protocol log = p" "aal_action_id log = rdp_next_admin_action_id pc"
  shows "redemption_inv env (accs(p \<mapsto> RedemptionProtocolAcc pc', lk \<mapsto> AdminActionLogAcc log))"
proof -
  let ?accs = "accs(p \<mapsto> RedemptionProtocolAcc pc', lk \<mapsto> AdminActionLogAcc log)"
  note ld = redemption_loaded [OF inv p v]
  have t: "redemption_typed env accs" using inv by (simp add: redemption_inv_def)
  have tp: "redemption_typed_at env p (RedemptionProtocolAcc pc)" using t p by (simp only: redemption_typed_def)
  have ne: "p \<noteq> lk" "vk \<noteq> lk" "p \<noteq> vk" using p v l(1) by auto
  have lk: "lk = admin_log_key env (rdp_next_admin_action_id pc)"
    using l(2) ld(1) by (simp add: admin_log_key_def)
  have other: "?accs k = accs k" if "accs k = Some (RedemptionRequestAcc rq) \<or> accs k = Some (AdminActionLogAcc la)" for k rq la
    using that p l(1) by auto
  show ?thesis
  proof (rule redemption_invI)
    show "redemption_typed env ?accs"
      by (intro redemption_typed_upd t) (use tp pc'(1) l ld(1) in simp_all)
    show "?accs (redemption_protocol_key env) = Some (RedemptionProtocolAcc pc')"
      using ne ld(1) by simp
    show "?accs (redemption_vault_key env) = Some (RedemptionVaultAcc v)"
      using ne ld(2) v by simp
    have sums: "requests_sum s ?accs = requests_sum s accs" for s
      unfolding requests_sum_def by (rule account_sum_cong) (use p l(1) in auto)
    show "vault_sound v ?accs" using ld(3) unfolding vault_sound_def sums .
    have less: "i < rdp_next_admin_action_id pc' \<longleftrightarrow>
        i < rdp_next_admin_action_id pc \<or> i = rdp_next_admin_action_id pc" for i
      using pc'(3) by (simp add: word_less_nat_alt less_Suc_eq) (metis word_unat_eq_iff)
    show "numbered env pc' ?accs"
      unfolding numbered_def pc'(2)
    proof (intro conjI allI impI)
      fix i assume "i < rdp_next_request_id pc"
      then obtain rq where "accs (redemption_request_key env i) = Some (RedemptionRequestAcc rq)"
          "rdr_request_id rq = i" using ld(4) by (auto simp: numbered_def)
      then show "\<exists>rq. ?accs (redemption_request_key env i) = Some (RedemptionRequestAcc rq) \<and>
          rdr_request_id rq = i" using other by metis
    next
      fix i assume i: "i < rdp_next_admin_action_id pc'"
      show "\<exists>la. ?accs (admin_log_key env i) = Some (AdminActionLogAcc la) \<and> aal_action_id la = i"
      proof (cases "i = rdp_next_admin_action_id pc")
        case True
        then show ?thesis using lk l(4) by simp
      next
        case False
        with i less have "i < rdp_next_admin_action_id pc" by blast
        then obtain la where "accs (admin_log_key env i) = Some (AdminActionLogAcc la)"
            "aal_action_id la = i" using ld(4) by (auto simp: numbered_def)
        then show ?thesis using other by metis
      qed
    qed
  qed
qed

section \<open>Settling a request\<close>

lemma settle_update_inv:
  assumes inv: "redemption_inv env accs" and p: "accs p = Some (RedemptionProtocolAcc pc)"
    and v: "accs vk = Some (RedemptionVaultAcc v)"
    and rq: "accs k = Some (RedemptionRequestAcc rq)" "rdr_status rq = RequestPending"
    and s: "s \<noteq> RequestPending"
      "vault_total RequestPending v = unat (rdr_amount rq) + vault_total RequestPending v'"
      "vault_total s v' = vault_total s v + unat (rdr_amount rq)"
      "\<And>s'. s' \<noteq> RequestPending \<Longrightarrow> s' \<noteq> s \<Longrightarrow> vault_total s' v' = vault_total s' v"
    and ids: "rdv_bump v' = rdv_bump v" "rdv_protocol v' = rdv_protocol v"
      "rdv_total_requested v' = rdv_total_requested v"
  shows "redemption_inv env (accs(vk \<mapsto> RedemptionVaultAcc v',
    k \<mapsto> RedemptionRequestAcc (rq\<lparr>rdr_status := s, rdr_updated_at := now\<rparr>)))" (is "redemption_inv env ?accs")
proof -
  let ?rq = "rq\<lparr>rdr_status := s, rdr_updated_at := now\<rparr>"
  note ld = redemption_loaded [OF inv p v]
  have t: "redemption_typed env accs" using inv by (simp add: redemption_inv_def)
  have tv: "redemption_typed_at env vk (RedemptionVaultAcc v)" using t v by (simp only: redemption_typed_def)
  have tr: "redemption_typed_at env k (RedemptionRequestAcc rq)" using t rq by (simp only: redemption_typed_def)
  have ne: "p \<noteq> vk" "p \<noteq> k" "vk \<noteq> k" using p v rq(1) by auto
  have sums: "requests_sum s' ?accs + amount_in s' (accs k) = requests_sum s' accs +
      amount_in s' (Some (RedemptionRequestAcc ?rq))" for s'
    using requests_sum_upd [of s' "accs(vk \<mapsto> RedemptionVaultAcc v')" k "RedemptionRequestAcc ?rq"]
      requests_sum_upd [of s' accs vk "RedemptionVaultAcc v'"] ne v by simp
  show ?thesis
  proof (rule redemption_invI)
    show "redemption_typed env ?accs"
      by (intro redemption_typed_upd t) (use tv tr ids in simp_all)
    show "?accs (redemption_protocol_key env) = Some (RedemptionProtocolAcc pc)"
      using ne p ld(1) by simp
    show "?accs (redemption_vault_key env) = Some (RedemptionVaultAcc v')"
      using ne ld(2) by simp
    have old: "vault_total s' v = requests_sum s' accs" for s' using ld(3) by (simp add: vault_sound_def)
    have "vault_total s' v' = requests_sum s' ?accs" for s'
      using sums [of s'] old [of s'] rq s by (cases "s' = RequestPending"; cases "s' = s") auto
    moreover have "vault_total RequestPending v' + vault_total RequestCompleted v' +
        vault_total RequestCancelled v' + vault_total RequestRejected v' =
      vault_total RequestPending v + vault_total RequestCompleted v +
        vault_total RequestCancelled v + vault_total RequestRejected v"
      using s(1-3) s(4) [of RequestCompleted] s(4) [of RequestCancelled] s(4) [of RequestRejected]
      by (cases s) simp_all
    ultimately show "vault_sound v' ?accs"
      using ld(3) ids(3) unfolding vault_sound_def by (simp del: vault_total.simps)
    show "numbered env pc ?accs"
      using ld(4) v rq(1) unfolding numbered_def by (auto 0 4)
  qed
qed

section \<open>Every instruction keeps the invariant\<close>

lemma initialize_redemption_inv:
  assumes inv: "redemption_inv (re_anchor env) accs"
    and i: "initialize_redemption env signers ctx accs = Inr accs'"
  shows "redemption_inv (re_anchor env) accs'"
proof -
  let ?env = "re_anchor env"
  from initialize_redemption_ok [OF i] obtain pb vb where
    n: "accs (ir_protocol ctx) = None" "ir_protocol ctx \<noteq> ir_vault ctx"
      "find_pda ?env redemption_protocol_seeds = (ir_protocol ctx, pb)"
      "find_pda ?env (redemption_vault_seeds (ir_protocol ctx)) = (ir_vault ctx, vb)"
    and a: "accs' = accs(
         ir_protocol ctx \<mapsto> RedemptionProtocolAcc
           \<lparr>rdp_admin = ir_admin ctx, rdp_pending_admin = 0, rdp_redemptions_paused = False,
            rdp_next_request_id = 0, rdp_next_admin_action_id = 0, rdp_bump = pb\<rparr>,
         ir_vault ctx \<mapsto> RedemptionVaultAcc
           \<lparr>rdv_protocol = ir_protocol ctx, rdv_outstanding_amount = 0, rdv_total_requested = 0,
            rdv_total_completed = 0, rdv_total_cancelled = 0, rdv_total_rejected = 0, rdv_bump = vb\<rparr>)"
      (is "_ = accs(_ \<mapsto> RedemptionProtocolAcc ?pc, _ \<mapsto> RedemptionVaultAcc ?v)")
    by (elim exE conjE)
  have pk: "redemption_protocol_key ?env = ir_protocol ctx" using n by (simp add: redemption_protocol_key_def)
  then have vk: "redemption_vault_key ?env = ir_vault ctx" using n by (simp add: redemption_vault_key_def)
  have empty: "accs = (\<lambda>_. None)" using inv n pk by (auto simp: redemption_inv_def)
  show ?thesis
  proof (rule redemption_invI)
    show "redemption_typed ?env accs'"
      unfolding a by (intro redemption_typed_upd) (use n pk in \<open>simp_all add: empty redemption_typed_def\<close>)
    show "accs' (redemption_protocol_key ?env) = Some (RedemptionProtocolAcc ?pc)"
      using n pk by (simp add: a)
    show "accs' (redemption_vault_key ?env) = Some (RedemptionVaultAcc ?v)" using vk by (simp add: a)
    have "requests_sum s accs' = 0" for s
      unfolding requests_sum_def account_sum_def by (rule sum.neutral) (simp add: a empty)
    moreover have "vault_total s ?v = 0" for s by (cases s) simp_all
    ultimately show "vault_sound ?v accs'" by (simp add: vault_sound_def)
    show "numbered ?env ?pc accs'" by (simp add: numbered_def)
  qed
qed

lemma request_redemption_inv:
  assumes inv: "redemption_inv (re_anchor env) accs"
    and i: "request_redemption env signers ctx amount accs = Inr accs'"
  shows "redemption_inv (re_anchor env) accs'"
proof -
  let ?env = "re_anchor env"
  from request_redemption_ok [OF i] obtain pc v bump now outstanding requested next_id where
    ldp: "load_redemption_protocol ?env accs (rq_protocol ctx) = Inr pc"
    and ldv: "load_redemption_vault ?env accs (rq_protocol ctx) (rq_vault ctx) = Inr v"
    and n: "find_pda ?env (redemption_request_seeds (rq_protocol ctx) (rdp_next_request_id pc)) =
        (rq_request ctx, bump)" "accs (rq_request ctx) = None" "amount \<noteq> 0"
      "unat outstanding = unat (rdv_outstanding_amount v) + unat amount"
      "unat requested = unat (rdv_total_requested v) + unat amount"
      "unat next_id = unat (rdp_next_request_id pc) + 1"
    and a: "accs' = accs(
         rq_protocol ctx \<mapsto> RedemptionProtocolAcc (pc\<lparr>rdp_next_request_id := next_id\<rparr>),
         rq_vault ctx \<mapsto> RedemptionVaultAcc
           (v\<lparr>rdv_outstanding_amount := outstanding, rdv_total_requested := requested\<rparr>),
         rq_request ctx \<mapsto> RedemptionRequestAcc
           \<lparr>rdr_protocol = rq_protocol ctx, rdr_vault = rq_vault ctx,
            rdr_request_id = rdp_next_request_id pc, rdr_owner = rq_owner ctx, rdr_amount = amount,
            rdr_status = RequestPending, rdr_created_at = now, rdr_updated_at = now, rdr_bump = bump\<rparr>)"
      (is "_ = accs(?p \<mapsto> RedemptionProtocolAcc ?pc, ?vk \<mapsto> RedemptionVaultAcc ?v, ?k \<mapsto> RedemptionRequestAcc ?rq)")
    by (elim exE conjE)
  have p: "accs ?p = Some (RedemptionProtocolAcc pc)" and v: "accs ?vk = Some (RedemptionVaultAcc v)"
    using ldp ldv by (simp_all add: load_redemption_protocol_ok load_redemption_vault_ok)
  note ld = redemption_loaded [OF inv p v]
  have t: "redemption_typed ?env accs" using inv by (simp add: redemption_inv_def)
  have tp: "redemption_typed_at ?env ?p (RedemptionProtocolAcc pc)" using t p by (simp only: redemption_typed_def)
  have tv: "redemption_typed_at ?env ?vk (RedemptionVaultAcc v)" using t v by (simp only: redemption_typed_def)
  have ne: "?p \<noteq> ?vk" "?p \<noteq> ?k" "?vk \<noteq> ?k" using p v n(2) by auto
  have k: "?k = redemption_request_key ?env (rdp_next_request_id pc)"
    using n(1) ld(1) by (simp add: redemption_request_key_def)
  have other: "accs' j = accs j" if "accs j = Some (RedemptionRequestAcc rq) \<or> accs j = Some (AdminActionLogAcc la)" for j rq la
    using that p v n(2) by (auto simp: a)
  show ?thesis
  proof (rule redemption_invI)
    show "redemption_typed ?env accs'"
      unfolding a by (intro redemption_typed_upd t) (use tp tv n ld(1,2) in simp_all)
    show "accs' (redemption_protocol_key ?env) = Some (RedemptionProtocolAcc ?pc)"
      using ne ld(1) by (simp add: a)
    show "accs' (redemption_vault_key ?env) = Some (RedemptionVaultAcc ?v)"
      using ne ld(2) by (simp add: a)
    have sums: "requests_sum s accs' = requests_sum s accs + amount_in s (Some (RedemptionRequestAcc ?rq))" for s
    proof -
      have "amount_in s (accs' j) = amount_in s (accs j)" if "j \<noteq> ?k" for j
        using that p v by (simp add: a)
      from account_sum_change [of ?k "amount_in s" accs' accs, OF this] show ?thesis
        by (simp add: requests_sum_def a n(2))
    qed
    have old: "vault_total s v = requests_sum s accs" for s using ld(3) by (simp add: vault_sound_def)
    have "vault_total s ?v = requests_sum s accs'" for s
      using n(4) old [of s] sums [of s] by (cases s) simp_all
    moreover have "vault_total RequestPending ?v + vault_total RequestCompleted ?v +
        vault_total RequestCancelled ?v + vault_total RequestRejected ?v = unat (rdv_total_requested ?v)"
      using ld(3) n(4,5) by (simp add: vault_sound_def)
    ultimately show "vault_sound ?v accs'" by (simp add: vault_sound_def del: vault_total.simps)
    have less: "i < next_id \<longleftrightarrow> i < rdp_next_request_id pc \<or> i = rdp_next_request_id pc" for i
      using n(6) by (simp add: word_less_nat_alt less_Suc_eq) (metis word_unat_eq_iff)
    show "numbered ?env ?pc accs'"
      unfolding numbered_def
    proof (intro conjI allI impI)
      fix i assume i: "i < rdp_next_request_id ?pc"
      show "\<exists>rq. accs' (redemption_request_key ?env i) = Some (RedemptionRequestAcc rq) \<and> rdr_request_id rq = i"
      proof (cases "i = rdp_next_request_id pc")
        case True
        then show ?thesis using k by (simp add: a)
      next
        case False
        with i less have "i < rdp_next_request_id pc" by simp
        then obtain rq where "accs (redemption_request_key ?env i) = Some (RedemptionRequestAcc rq)"
            "rdr_request_id rq = i" using ld(4) by (auto simp: numbered_def)
        then show ?thesis using other by metis
      qed
    next
      fix i assume "i < rdp_next_admin_action_id ?pc"
      then obtain la where "accs (admin_log_key ?env i) = Some (AdminActionLogAcc la)" "aal_action_id la = i"
        using ld(4) by (auto simp: numbered_def)
      then show "\<exists>la. accs' (admin_log_key ?env i) = Some (AdminActionLogAcc la) \<and> aal_action_id la = i"
        using other by metis
    qed
  qed
qed

lemma cancel_redemption_inv:
  assumes inv: "redemption_inv (re_anchor env) accs"
    and i: "cancel_redemption env signers ctx accs = Inr accs'"
  shows "redemption_inv (re_anchor env) accs'"
proof -
  from cancel_redemption_ok [OF i] obtain pc v rq now outstanding cancelled where
    ldp: "load_redemption_protocol (re_anchor env) accs (rq_protocol ctx) = Inr pc"
    and ldv: "load_redemption_vault (re_anchor env) accs (rq_protocol ctx) (rq_vault ctx) = Inr v"
    and ldr: "load_redemption_request (re_anchor env) accs (rq_protocol ctx) (rq_vault ctx) (rq_request ctx) = Inr rq"
    and n: "rdr_status rq = RequestPending"
      "unat (rdv_outstanding_amount v) = unat (rdr_amount rq) + unat outstanding"
      "unat cancelled = unat (rdv_total_cancelled v) + unat (rdr_amount rq)"
    and a: "accs' = accs(
         rq_vault ctx \<mapsto> RedemptionVaultAcc
           (v\<lparr>rdv_outstanding_amount := outstanding, rdv_total_cancelled := cancelled\<rparr>),
         rq_request ctx \<mapsto> RedemptionRequestAcc
           (rq\<lparr>rdr_status := RequestCancelled, rdr_updated_at := now\<rparr>))"
    by (elim exE conjE)
  have l: "accs (rq_protocol ctx) = Some (RedemptionProtocolAcc pc)"
    "accs (rq_vault ctx) = Some (RedemptionVaultAcc v)"
    "accs (rq_request ctx) = Some (RedemptionRequestAcc rq)"
    using ldp ldv ldr by (simp_all add: load_redemption_protocol_ok load_redemption_vault_ok load_redemption_request_ok)
  show ?thesis
    unfolding a
  proof (rule settle_update_inv [OF inv l n(1)])
    fix s' :: redemption_status
    assume "s' \<noteq> RequestPending" "s' \<noteq> RequestCancelled"
    then show "vault_total s' (v\<lparr>rdv_outstanding_amount := outstanding, rdv_total_cancelled := cancelled\<rparr>) =
        vault_total s' v" by (cases s') simp_all
  qed (use n in simp_all)
qed

lemma settle_request_split:
  assumes "settle_request env signers ctx status action accs = Inr accs'"
  shows "\<exists>pc v rq bump now v1 pc1 log.
    load_redemption_admin (re_anchor env) signers accs (ar_admin ctx) (ar_protocol ctx) = Inr pc \<and>
    accs (ar_protocol ctx) = Some (RedemptionProtocolAcc pc) \<and>
    accs (ar_vault ctx) = Some (RedemptionVaultAcc v) \<and>
    accs (ar_request ctx) = Some (RedemptionRequestAcc rq) \<and>
    init_admin_log (re_anchor env) accs (ar_protocol ctx) pc (ar_log ctx) = Inr bump \<and>
    rdr_status rq = RequestPending \<and> settle_vault status (rdr_amount rq) v = Inr v1 \<and>
    write_admin_log env (ar_protocol ctx) pc (ar_admin ctx) action (ar_request ctx)
       (rdr_amount rq) bump = Inr (pc1, log) \<and>
    accs' = (accs(
         ar_vault ctx \<mapsto> RedemptionVaultAcc v1,
         ar_request ctx \<mapsto> RedemptionRequestAcc (rq\<lparr>rdr_status := status, rdr_updated_at := now\<rparr>)))
       (ar_protocol ctx \<mapsto> RedemptionProtocolAcc pc1, ar_log ctx \<mapsto> AdminActionLogAcc log)"
proof -
  from settle_request_ok [OF assms] obtain pc v rq bump now v1 pc1 log where
    f: "load_redemption_admin (re_anchor env) signers accs (ar_admin ctx) (ar_protocol ctx) = Inr pc"
      "load_redemption_vault (re_anchor env) accs (ar_protocol ctx) (ar_vault ctx) = Inr v"
      "load_redemption_request (re_anchor env) accs (ar_protocol ctx) (ar_vault ctx) (ar_request ctx) = Inr rq"
      "init_admin_log (re_anchor env) accs (ar_protocol ctx) pc (ar_log ctx) = Inr bump"
      "rdr_status rq = RequestPending" "settle_vault status (rdr_amount rq) v = Inr v1"
      "write_admin_log env (ar_protocol ctx) pc (ar_admin ctx) action (ar_request ctx)
       (rdr_amount rq) bump = Inr (pc1, log)"
    and a: "accs' = accs(
         ar_protocol ctx \<mapsto> RedemptionProtocolAcc pc1,
         ar_vault ctx \<mapsto> RedemptionVaultAcc v1,
         ar_request ctx \<mapsto> RedemptionRequestAcc (rq\<lparr>rdr_status := status, rdr_updated_at := now\<rparr>),
         ar_log ctx \<mapsto> AdminActionLogAcc log)"
    by (elim exE conjE)
  have l: "accs (ar_protocol ctx) = Some (RedemptionProtocolAcc pc)"
    "accs (ar_vault ctx) = Some (RedemptionVaultAcc v)"
    "accs (ar_request ctx) = Some (RedemptionRequestAcc rq)"
    using f by (simp_all add: load_redemption_admin_ok load_redemption_protocol_ok
        load_redemption_vault_ok load_redemption_request_ok)
  then have ne: "ar_protocol ctx \<noteq> ar_vault ctx" "ar_protocol ctx \<noteq> ar_request ctx" by auto
  have e: "accs' = (accs(
         ar_vault ctx \<mapsto> RedemptionVaultAcc v1,
         ar_request ctx \<mapsto> RedemptionRequestAcc (rq\<lparr>rdr_status := status, rdr_updated_at := now\<rparr>)))
       (ar_protocol ctx \<mapsto> RedemptionProtocolAcc pc1, ar_log ctx \<mapsto> AdminActionLogAcc log)"
    unfolding a using ne by (auto intro!: ext)
  show ?thesis
    by (intro exI conjI) (rule f l e)+
qed

lemma settle_request_inv:
  assumes inv: "redemption_inv (re_anchor env) accs"
    and i: "settle_request env signers ctx status action accs = Inr accs'"
  shows "redemption_inv (re_anchor env) accs'"
proof -
  from settle_request_split [OF i] obtain pc v rq bump now v1 pc1 log where
    l: "accs (ar_protocol ctx) = Some (RedemptionProtocolAcc pc)"
      "accs (ar_vault ctx) = Some (RedemptionVaultAcc v)"
      "accs (ar_request ctx) = Some (RedemptionRequestAcc rq)"
    and g: "init_admin_log (re_anchor env) accs (ar_protocol ctx) pc (ar_log ctx) = Inr bump"
    and n: "rdr_status rq = RequestPending" and s: "settle_vault status (rdr_amount rq) v = Inr v1"
    and w: "write_admin_log env (ar_protocol ctx) pc (ar_admin ctx) action (ar_request ctx)
       (rdr_amount rq) bump = Inr (pc1, log)"
    and a: "accs' = (accs(
         ar_vault ctx \<mapsto> RedemptionVaultAcc v1,
         ar_request ctx \<mapsto> RedemptionRequestAcc (rq\<lparr>rdr_status := status, rdr_updated_at := now\<rparr>)))
       (ar_protocol ctx \<mapsto> RedemptionProtocolAcc pc1, ar_log ctx \<mapsto> AdminActionLogAcc log)"
      (is "_ = ?accs1(_ \<mapsto> _, _ \<mapsto> _)")
    by (elim exE conjE)
  have ne: "ar_protocol ctx \<noteq> ar_vault ctx" "ar_protocol ctx \<noteq> ar_request ctx" "ar_vault ctx \<noteq> ar_request ctx"
    "ar_log ctx \<noteq> ar_vault ctx" "ar_log ctx \<noteq> ar_request ctx"
    using l g by (auto simp: init_admin_log_ok)
  have cases: "status = RequestCompleted \<or> status = RequestRejected" using s by (auto simp: settle_vault_ok)
  have v1: "v1 = v\<lparr>rdv_outstanding_amount := rdv_outstanding_amount v1, rdv_total_completed := rdv_total_completed v1\<rparr> \<or>
      v1 = v\<lparr>rdv_outstanding_amount := rdv_outstanding_amount v1, rdv_total_rejected := rdv_total_rejected v1\<rparr>"
    using s by (auto simp: settle_vault_ok)
  have "redemption_inv (re_anchor env) ?accs1"
  proof (rule settle_update_inv [OF inv l n])
    show "rdv_bump v1 = rdv_bump v"
      using v1 by (elim disjE) (drule arg_cong [where f = rdv_bump], simp)+
    show "rdv_protocol v1 = rdv_protocol v"
      using v1 by (elim disjE) (drule arg_cong [where f = rdv_protocol], simp)+
    show "rdv_total_requested v1 = rdv_total_requested v"
      using v1 by (elim disjE) (drule arg_cong [where f = rdv_total_requested], simp)+
    fix s' assume "s' \<noteq> RequestPending" "s' \<noteq> status"
    then show "vault_total s' v1 = vault_total s' v"
      using s by (cases s'; cases v; cases v1) (auto simp: settle_vault_ok)
  qed (use cases s in \<open>auto simp: settle_vault_ok\<close>)
  then show ?thesis
    unfolding a by (rule log_update_inv [where pc = pc and v = v1 and vk = "ar_vault ctx"])
      (use ne l g w in \<open>auto simp: init_admin_log_ok write_admin_log_ok\<close>)
qed

lemma logged_change_inv:
  assumes inv: "redemption_inv (re_anchor env) accs" and c: "logged_change env ctx pc pc' action accs accs'"
    and ids: "rdp_bump pc' = rdp_bump pc" "rdp_next_request_id pc' = rdp_next_request_id pc"
      "rdp_next_admin_action_id pc' = rdp_next_admin_action_id pc"
  shows "redemption_inv (re_anchor env) accs'"
proof -
  from c obtain bump target amount pc1 log where
    p: "accs (al_protocol ctx) = Some (RedemptionProtocolAcc pc)"
    and g: "init_admin_log (re_anchor env) accs (al_protocol ctx) pc (al_log ctx) = Inr bump"
    and w: "write_admin_log env (al_protocol ctx) pc' (al_admin ctx) action target amount bump = Inr (pc1, log)"
    and a: "accs' = accs(al_protocol ctx \<mapsto> RedemptionProtocolAcc pc1, al_log ctx \<mapsto> AdminActionLogAcc log)"
    by (auto simp: logged_change_def load_redemption_protocol_ok)
  from inv p obtain v where v: "accs (redemption_vault_key (re_anchor env)) = Some (RedemptionVaultAcc v)"
    by (auto simp: redemption_inv_def)
  show ?thesis
    unfolding a by (rule log_update_inv [OF inv p v])
      (use g w ids in \<open>auto simp: init_admin_log_ok write_admin_log_ok\<close>)
qed

lemma stablecoin_redemption_inv:
  assumes inv: "redemption_inv (re_anchor env) accs"
    and s: "stablecoin_redemption env signers i accs = Inr accs'"
  shows "redemption_inv (re_anchor env) accs'"
proof (cases i)
  case (PauseRedemptions ctx paused)
  with s set_redemptions_paused_ok [of env signers ctx paused accs accs'] show ?thesis
    by (auto elim: logged_change_inv [OF inv])
next
  case (BeginTransfer ctx new_admin)
  with s begin_admin_transfer_ok [of env signers ctx new_admin accs accs'] show ?thesis
    by (auto elim: logged_change_inv [OF inv])
next
  case (AcceptTransfer ctx)
  with s accept_admin_transfer_ok [of env signers ctx accs accs'] show ?thesis
    by (auto elim: logged_change_inv [OF inv])
qed (use s in \<open>auto simp: complete_redemption_def reject_redemption_def
      intro: initialize_redemption_inv [OF inv] request_redemption_inv [OF inv] cancel_redemption_inv [OF inv]
        settle_request_inv [OF inv]\<close>)

end
