(* ===== verification/Redemption_Runs.thy ===== *)
theory Redemption_Runs
  imports Redemption_Invariant
begin

text \<open>
  Runs of the redemption program: how each account evolves, the views of a request and of the
  protocol account as states of the reference models, and when settling a request succeeds.
\<close>

section \<open>How accounts evolve\<close>

text \<open>A request changes in its status and time stamp only and not at all once it is settled; a log
  entry never changes; the counters and the total of all requests only grow.\<close>

fun redemption_evolves_at :: "redemption_account option \<Rightarrow> redemption_account option \<Rightarrow> bool" where
  "redemption_evolves_at None _ \<longleftrightarrow> True"
| "redemption_evolves_at (Some (RedemptionProtocolAcc pc)) (Some (RedemptionProtocolAcc pc')) \<longleftrightarrow>
     rdp_bump pc' = rdp_bump pc \<and> rdp_next_request_id pc \<le> rdp_next_request_id pc' \<and>
     rdp_next_admin_action_id pc \<le> rdp_next_admin_action_id pc'"
| "redemption_evolves_at (Some (RedemptionVaultAcc v)) (Some (RedemptionVaultAcc v')) \<longleftrightarrow>
     rdv_bump v' = rdv_bump v \<and> rdv_protocol v' = rdv_protocol v \<and>
     rdv_total_requested v \<le> rdv_total_requested v'"
| "redemption_evolves_at (Some (RedemptionRequestAcc rq)) (Some (RedemptionRequestAcc rq')) \<longleftrightarrow>
     rq' = rq\<lparr>rdr_status := rdr_status rq', rdr_updated_at := rdr_updated_at rq'\<rparr> \<and>
     (rdr_status rq \<noteq> RequestPending \<longrightarrow> rq' = rq)"
| "redemption_evolves_at (Some (AdminActionLogAcc l)) (Some (AdminActionLogAcc l')) \<longleftrightarrow> l' = l"
| "redemption_evolves_at _ _ \<longleftrightarrow> False"

definition redemption_evolves :: "redemption_store \<Rightarrow> redemption_store \<Rightarrow> bool" where
  "redemption_evolves accs accs' \<longleftrightarrow> (\<forall>k. redemption_evolves_at (accs k) (accs' k))"

lemma redemption_evolves_at_refl [simp]: "redemption_evolves_at a a"
  by (cases "(a, a)" rule: redemption_evolves_at.cases) auto

lemma redemption_evolves_at_trans:
  "redemption_evolves_at a b \<Longrightarrow> redemption_evolves_at b c \<Longrightarrow> redemption_evolves_at a c"
proof (cases a)
  case (Some x)
  assume ab: "redemption_evolves_at a b" and bc: "redemption_evolves_at b c"
  show ?thesis
  proof (cases x)
    case (RedemptionRequestAcc rq)
    with ab Some obtain rq1 where b: "b = Some (RedemptionRequestAcc rq1)"
      "rq1 = rq\<lparr>rdr_status := rdr_status rq1, rdr_updated_at := rdr_updated_at rq1\<rparr>"
      "rdr_status rq \<noteq> RequestPending \<longrightarrow> rq1 = rq"
      by (cases b; cases "the b") auto
    with bc obtain rq2 where c: "c = Some (RedemptionRequestAcc rq2)"
      "rq2 = rq1\<lparr>rdr_status := rdr_status rq2, rdr_updated_at := rdr_updated_at rq2\<rparr>"
      "rdr_status rq1 \<noteq> RequestPending \<longrightarrow> rq2 = rq1"
      by (cases c; cases "the c") auto
    have "rq2 = rq\<lparr>rdr_status := rdr_status rq2, rdr_updated_at := rdr_updated_at rq2\<rparr>"
      by (subst c(2), subst b(2)) simp
    with b(3) c(1,3) show ?thesis by (auto simp: Some RedemptionRequestAcc)
  qed (use ab bc Some in \<open>cases b; cases "the b"; cases c; cases "the c"; auto\<close>)+
qed simp

lemma redemption_evolves_upd:
  assumes "redemption_evolves accs accs1" and "accs1 k = None \<or> redemption_evolves_at (accs1 k) (Some a)"
  shows "redemption_evolves accs (accs1(k \<mapsto> a))"
  unfolding redemption_evolves_def
proof
  fix j
  have old: "redemption_evolves_at (accs j) (accs1 j)" using assms(1) by (simp add: redemption_evolves_def)
  show "redemption_evolves_at (accs j) ((accs1(k \<mapsto> a)) j)"
  proof (cases "j = k")
    case True
    from assms(2) show ?thesis
    proof
      assume n: "accs1 k = None"
      with old True have "accs k = None" by (cases "accs k"; cases "the (accs k)") auto
      with True show ?thesis by simp
    next
      assume "redemption_evolves_at (accs1 k) (Some a)"
      with old True show ?thesis by (auto intro: redemption_evolves_at_trans)
    qed
  next
    case False
    with old show ?thesis by simp
  qed
qed

lemma redemption_evolves_refl [simp]: "redemption_evolves accs accs"
  by (simp add: redemption_evolves_def)

lemma counter_grows: "unat (b :: u64) = unat a + n \<Longrightarrow> a \<le> b"
  by (simp add: word_le_nat_alt)

lemma logged_change_evolves:
  assumes "logged_change env ctx pc pc' action accs accs'" and "rdp_bump pc' = rdp_bump pc"
    "rdp_next_request_id pc' = rdp_next_request_id pc"
    "rdp_next_admin_action_id pc' = rdp_next_admin_action_id pc"
  shows "redemption_evolves accs accs'"
  using assms unfolding logged_change_def
  by (auto simp: load_redemption_protocol_ok init_admin_log_ok write_admin_log_ok
      intro!: redemption_evolves_upd counter_grows [where n = 1])

lemma settle_request_evolves:
  assumes "settle_request env signers ctx status action accs = Inr accs'"
  shows "redemption_evolves accs accs'"
proof -
  from settle_request_split [OF assms] obtain pc v rq bump now v1 pc1 log where
    l: "accs (ar_protocol ctx) = Some (RedemptionProtocolAcc pc)"
      "accs (ar_vault ctx) = Some (RedemptionVaultAcc v)"
      "accs (ar_request ctx) = Some (RedemptionRequestAcc rq)"
    and g: "init_admin_log (re_anchor env) accs (ar_protocol ctx) pc (ar_log ctx) = Inr bump"
    and n: "rdr_status rq = RequestPending" and s: "settle_vault status (rdr_amount rq) v = Inr v1"
    and w: "write_admin_log env (ar_protocol ctx) pc (ar_admin ctx) action (ar_request ctx)
       (rdr_amount rq) bump = Inr (pc1, log)"
    and a: "accs' = (accs(
         ar_vault ctx \<mapsto> RedemptionVaultAcc v1,
         ar_request ctx \<mapsto> RedemptionRequestAcc (rq\<lparr>rdr_status := status, rdr_updated_at := now\<rparr>)))
       (ar_protocol ctx \<mapsto> RedemptionProtocolAcc pc1, ar_log ctx \<mapsto> AdminActionLogAcc log)"
    by (elim exE conjE)
  have ne: "ar_protocol ctx \<noteq> ar_vault ctx" "ar_protocol ctx \<noteq> ar_request ctx" "ar_vault ctx \<noteq> ar_request ctx"
    "ar_log ctx \<noteq> ar_vault ctx" "ar_log ctx \<noteq> ar_request ctx" "ar_log ctx \<noteq> ar_protocol ctx"
    using l g by (auto simp: init_admin_log_ok)
  have v: "redemption_evolves_at (Some (RedemptionVaultAcc v)) (Some (RedemptionVaultAcc v1))"
    using s by (cases v; cases v1) (auto simp: settle_vault_ok)
  have pc: "redemption_evolves_at (Some (RedemptionProtocolAcc pc)) (Some (RedemptionProtocolAcc pc1))"
    using w by (auto simp: write_admin_log_ok intro: counter_grows [where n = 1])
  show ?thesis
    unfolding a by (intro redemption_evolves_upd redemption_evolves_refl)
      (use l g ne n v pc in \<open>auto simp: init_admin_log_ok\<close>)
qed

lemma stablecoin_redemption_evolves:
  assumes s: "stablecoin_redemption env signers i accs = Inr accs'"
  shows "redemption_evolves accs accs'"
proof (cases i)
  case (InitializeRedemption ctx)
  with s initialize_redemption_ok [of env signers ctx accs accs'] show ?thesis
    by (auto intro!: redemption_evolves_upd)
next
  case (RequestRedemption ctx amount)
  with s have "request_redemption env signers ctx amount accs = Inr accs'" by simp
  from request_redemption_ok [OF this] obtain pc v bump now outstanding requested next_id where
    l: "load_redemption_protocol (re_anchor env) accs (rq_protocol ctx) = Inr pc"
      "load_redemption_vault (re_anchor env) accs (rq_protocol ctx) (rq_vault ctx) = Inr v"
      "accs (rq_request ctx) = None"
    and n: "unat requested = unat (rdv_total_requested v) + unat amount"
      "unat next_id = unat (rdp_next_request_id pc) + 1"
    and a: "accs' = accs(
         rq_protocol ctx \<mapsto> RedemptionProtocolAcc (pc\<lparr>rdp_next_request_id := next_id\<rparr>),
         rq_vault ctx \<mapsto> RedemptionVaultAcc
           (v\<lparr>rdv_outstanding_amount := outstanding, rdv_total_requested := requested\<rparr>),
         rq_request ctx \<mapsto> RedemptionRequestAcc
           \<lparr>rdr_protocol = rq_protocol ctx, rdr_vault = rq_vault ctx,
            rdr_request_id = rdp_next_request_id pc, rdr_owner = rq_owner ctx, rdr_amount = amount,
            rdr_status = RequestPending, rdr_created_at = now, rdr_updated_at = now, rdr_bump = bump\<rparr>)"
    by (elim exE conjE)
  note e = counter_grows [OF n(1)] counter_grows [OF n(2)]
  have k: "accs (rq_protocol ctx) = Some (RedemptionProtocolAcc pc)"
    "accs (rq_vault ctx) = Some (RedemptionVaultAcc v)"
    using l by (simp_all add: load_redemption_protocol_ok load_redemption_vault_ok)
  then have "rq_protocol ctx \<noteq> rq_vault ctx" "rq_protocol ctx \<noteq> rq_request ctx" "rq_vault ctx \<noteq> rq_request ctx"
    using l by auto
  with k l e show ?thesis
    unfolding a by (intro redemption_evolves_upd redemption_evolves_refl) auto
next
  case (CancelRedemption ctx)
  with s have "cancel_redemption env signers ctx accs = Inr accs'" by simp
  from cancel_redemption_ok [OF this] obtain v rq now outstanding cancelled where
    l: "load_redemption_vault (re_anchor env) accs (rq_protocol ctx) (rq_vault ctx) = Inr v"
      "load_redemption_request (re_anchor env) accs (rq_protocol ctx) (rq_vault ctx) (rq_request ctx) = Inr rq"
      "rdr_status rq = RequestPending"
    and a: "accs' = accs(
         rq_vault ctx \<mapsto> RedemptionVaultAcc
           (v\<lparr>rdv_outstanding_amount := outstanding, rdv_total_cancelled := cancelled\<rparr>),
         rq_request ctx \<mapsto> RedemptionRequestAcc
           (rq\<lparr>rdr_status := RequestCancelled, rdr_updated_at := now\<rparr>))"
    by (elim exE conjE)
  have k: "accs (rq_vault ctx) = Some (RedemptionVaultAcc v)"
    "accs (rq_request ctx) = Some (RedemptionRequestAcc rq)"
    using l by (simp_all add: load_redemption_vault_ok load_redemption_request_ok)
  then have "rq_vault ctx \<noteq> rq_request ctx" by auto
  with k l(3) show ?thesis
    unfolding a by (intro redemption_evolves_upd redemption_evolves_refl) auto
next
  case (PauseRedemptions ctx paused)
  with s set_redemptions_paused_ok [of env signers ctx paused accs accs'] show ?thesis
    by (auto elim: logged_change_evolves)
next
  case (BeginTransfer ctx new_admin)
  with s begin_admin_transfer_ok [of env signers ctx new_admin accs accs'] show ?thesis
    by (auto elim: logged_change_evolves)
next
  case (AcceptTransfer ctx)
  with s accept_admin_transfer_ok [of env signers ctx accs accs'] show ?thesis
    by (auto elim: logged_change_evolves)
qed (use s in \<open>auto simp: complete_redemption_def reject_redemption_def intro: settle_request_evolves\<close>)

section \<open>Runs\<close>

text \<open>A transaction carries the clock's reading; the program owns all of these accounts.\<close>

type_synonym redemption_transaction = "int option \<times> pubkey list \<times> redemption_instruction"

fun redemption_exec :: "anchor_env \<Rightarrow> redemption_transaction \<Rightarrow> redemption_store \<Rightarrow> redemption_result" where
  "redemption_exec env (clock, signers, i) accs =
     stablecoin_redemption \<lparr>re_anchor = env, re_clock = clock\<rparr> signers i accs"

interpretation redemption: evolving_program "redemption_exec env" "redemption_inv env" redemption_evolves for env
proof
  show "redemption_inv env accs'" if "redemption_inv env accs" "redemption_exec env tx accs = Inr accs'"
    for accs tx accs'
  proof -
    obtain clock signers i where "tx = (clock, signers, i)" by (cases tx)
    then show ?thesis
      using that stablecoin_redemption_inv [of "\<lparr>re_anchor = env, re_clock = clock\<rparr>"] by simp
  qed
  show "redemption_evolves accs accs'" if "redemption_exec env tx accs = Inr accs'" for accs tx accs'
    using that by (cases tx) (auto intro: stablecoin_redemption_evolves)
  show "redemption_evolves a c" if "redemption_evolves a b" "redemption_evolves b c" for a b c
    using that unfolding redemption_evolves_def by (blast intro: redemption_evolves_at_trans)
qed simp

lemma request_evolves:
  assumes "redemption_evolves accs accs'" and "accs k = Some (RedemptionRequestAcc rq)"
  obtains rq' where "accs' k = Some (RedemptionRequestAcc rq')"
    "rq' = rq\<lparr>rdr_status := rdr_status rq', rdr_updated_at := rdr_updated_at rq'\<rparr>"
    "rdr_status rq \<noteq> RequestPending \<longrightarrow> rq' = rq"
proof -
  have e: "redemption_evolves_at (Some (RedemptionRequestAcc rq)) (accs' k)"
    using assms by (metis redemption_evolves_def)
  then obtain rq' where "accs' k = Some (RedemptionRequestAcc rq')"
    by (cases "accs' k"; cases "the (accs' k)") auto
  with e that show thesis by auto
qed

lemma log_evolves:
  assumes "redemption_evolves accs accs'" and "accs k = Some (AdminActionLogAcc l)"
  shows "accs' k = Some (AdminActionLogAcc l)"
proof -
  have "redemption_evolves_at (Some (AdminActionLogAcc l)) (accs' k)"
    using assms by (metis redemption_evolves_def)
  then show ?thesis by (cases "accs' k"; cases "the (accs' k)") auto
qed

section \<open>The reference models\<close>

fun model_status_of :: "redemption_status \<Rightarrow> model_status" where
  "model_status_of RequestPending = ModelPending"
| "model_status_of RequestCancelled = ModelCancelled"
| "model_status_of RequestCompleted = ModelCompleted"
| "model_status_of RequestRejected = ModelRejected"

definition request_view :: "redemption_request \<Rightarrow> redemption_model" where
  "request_view rq =
     \<lparr>rdm_amount = rdr_amount rq, rdm_status = model_status_of (rdr_status rq),
      rdm_outstanding = (if rdr_status rq = RequestPending then rdr_amount rq else 0),
      rdm_total_completed = (if rdr_status rq = RequestCompleted then rdr_amount rq else 0),
      rdm_total_cancelled = (if rdr_status rq = RequestCancelled then rdr_amount rq else 0),
      rdm_total_rejected = (if rdr_status rq = RequestRejected then rdr_amount rq else 0)\<rparr>"

text \<open>A pending admin is absent when its key is the default key.\<close>

definition admin_view :: "redemption_protocol \<Rightarrow> pubkey admin_transfer_model" where
  "admin_view pc =
     \<lparr>atm_admin = rdp_admin pc,
      atm_pending_admin = (if rdp_pending_admin pc = 0 then None else Some (rdp_pending_admin pc))\<rparr>"

lemma request_view_asserts: "redemption_asserts (request_view rq)"
proof -
  have "checked_add w 0 = Some w" "checked_add 0 w = Some w" for w :: u64
    by (simp_all add: checked_add_Some)
  then show ?thesis
    by (cases "rdr_status rq") (simp_all add: redemption_asserts_def request_view_def)
qed

lemma model_settle_view:
  assumes "rdr_status rq = RequestPending" and "s \<noteq> RequestPending"
  shows "model_settle (model_status_of s) (request_view rq) =
    (Inr (), request_view (rq\<lparr>rdr_status := s, rdr_updated_at := now\<rparr>))"
proof -
  have "checked_sub w w = Some 0" for w :: u64 by (simp add: checked_sub_def)
  then show ?thesis
    using assms by (cases s) (simp_all add: model_settle_def request_view_def Let_def)
qed

lemma model_settle_settled:
  "rdr_status rq \<noteq> RequestPending \<Longrightarrow>
     model_settle s (request_view rq) = (Inl ModelRequestNotPending, request_view rq)"
  by (cases "rdr_status rq") (simp_all add: model_settle_def request_view_def)

section \<open>Consequences for single instructions\<close>

lemma redemption_reachable_inv: "redemption_inv env (run_transactions (redemption_exec env) txs (\<lambda>_. None))"
  by (rule redemption.run_inv) (rule redemption_inv_empty)

lemma reachable_vault:
  assumes inv: "redemption_inv env accs" and v: "accs k = Some (RedemptionVaultAcc v)"
  shows "vault_sound v accs"
proof -
  from inv v obtain pc where "accs (redemption_protocol_key env) = Some (RedemptionProtocolAcc pc)"
    by (auto simp: redemption_inv_def)
  from redemption_loaded(3) [OF inv this v] show ?thesis .
qed

lemma pending_le_outstanding:
  assumes "accs k = Some (RedemptionRequestAcc rq)"
  shows "rdr_status rq = s \<Longrightarrow> unat (rdr_amount rq) \<le> requests_sum s accs"
  using account_sum_upd [of "amount_in s" accs k None] assms by (simp add: requests_sum_def)

text \<open>The vault can always take a pending request out.\<close>

lemma settle_vault_succeeds:
  assumes v: "vault_sound v accs" and rq: "accs k = Some (RedemptionRequestAcc rq)"
    "rdr_status rq = RequestPending" and s: "s = RequestCompleted \<or> s = RequestRejected"
  shows "is_ok (settle_vault s (rdr_amount rq) v)"
proof -
  have le: "unat (rdr_amount rq) \<le> unat (rdv_outstanding_amount v)"
    using v pending_le_outstanding [of accs k rq RequestPending] rq
    by (auto simp: vault_sound_def dest: spec [of _ RequestPending])
  have "unat (rdv_total_requested v) < 2 ^ 64"
    using unsigned_less [of "rdv_total_requested v", where ?'a = nat] by simp
  then have "unat (rdv_total_completed v) + unat (rdr_amount rq) < 2 ^ 64"
      "unat (rdv_total_rejected v) + unat (rdr_amount rq) < 2 ^ 64"
    using v le by (simp_all add: vault_sound_def)
  then show ?thesis
    using s le by (auto simp: settle_vault_def checked_sub_def checked_add_def word_le_nat_alt)
qed

fun settled_request :: "redemption_instruction \<Rightarrow> (pubkey \<times> redemption_model model_call) option" where
  "settled_request (CompleteRequest ctx) = Some (ar_request ctx, model_complete)"
| "settled_request (RejectRequest ctx) = Some (ar_request ctx, model_reject)"
| "settled_request (CancelRedemption ctx) = Some (rq_request ctx, model_cancel)"
| "settled_request _ = None"

lemma settle_request_view:
  assumes "settle_request env signers ctx s action accs = Inr accs'"
    and rq: "accs (ar_request ctx) = Some (RedemptionRequestAcc rq)"
  shows "\<exists>rq'. accs' (ar_request ctx) = Some (RedemptionRequestAcc rq') \<and>
    model_settle (model_status_of s) (request_view rq) = (Inr (), request_view rq')"
proof -
  from settle_request_split [OF assms(1)] obtain pc v rq1 bump now v1 pc1 log where
    l: "accs (ar_protocol ctx) = Some (RedemptionProtocolAcc pc)"
      "accs (ar_request ctx) = Some (RedemptionRequestAcc rq1)"
    and g: "init_admin_log (re_anchor env) accs (ar_protocol ctx) pc (ar_log ctx) = Inr bump"
    and n: "rdr_status rq1 = RequestPending" and s: "settle_vault s (rdr_amount rq1) v = Inr v1"
    and a: "accs' = (accs(
         ar_vault ctx \<mapsto> RedemptionVaultAcc v1,
         ar_request ctx \<mapsto> RedemptionRequestAcc (rq1\<lparr>rdr_status := s, rdr_updated_at := now\<rparr>)))
       (ar_protocol ctx \<mapsto> RedemptionProtocolAcc pc1, ar_log ctx \<mapsto> AdminActionLogAcc log)"
    by (elim exE conjE)
  have "rq1 = rq" using l rq by simp
  moreover have "s \<noteq> RequestPending" using s by (auto simp: settle_vault_ok)
  moreover have "ar_request ctx \<noteq> ar_protocol ctx" "ar_request ctx \<noteq> ar_log ctx"
    using l g by (auto simp: init_admin_log_ok)
  ultimately show ?thesis using n model_settle_view [of rq s now] by (simp add: a)
qed

lemma logged_change_admin:
  assumes "logged_change env ctx pc pc' action accs accs'" and "accs p = Some (RedemptionProtocolAcc q)"
    and "redemption_inv (re_anchor env) accs"
  shows "q = pc \<and> (\<exists>q'. accs' p = Some (RedemptionProtocolAcc q') \<and> admin_view q' = admin_view pc')"
proof -
  from assms(1) obtain bump target amount pc1 log where
    l: "accs (al_protocol ctx) = Some (RedemptionProtocolAcc pc)"
    and g: "init_admin_log (re_anchor env) accs (al_protocol ctx) pc (al_log ctx) = Inr bump"
    and w: "write_admin_log env (al_protocol ctx) pc' (al_admin ctx) action target amount bump = Inr (pc1, log)"
    and a: "accs' = accs(al_protocol ctx \<mapsto> RedemptionProtocolAcc pc1, al_log ctx \<mapsto> AdminActionLogAcc log)"
    by (auto simp: logged_change_def load_redemption_protocol_ok)
  from assms(3) l obtain vk v where v: "accs vk = Some (RedemptionVaultAcc v)"
    by (auto simp: redemption_inv_def)
  have "p = al_protocol ctx"
    using redemption_loaded(1) [OF assms(3) assms(2) v] redemption_loaded(1) [OF assms(3) l v] by simp
  moreover have "al_protocol ctx \<noteq> al_log ctx" using l g by (auto simp: init_admin_log_ok)
  ultimately show ?thesis using l w assms(2) by (auto simp: a write_admin_log_ok admin_view_def)
qed

lemma settle_keeps_admin:
  assumes "settle_request env signers ctx s action accs = Inr accs'"
    and "accs p = Some (RedemptionProtocolAcc q)"
  shows "\<exists>q'. accs' p = Some (RedemptionProtocolAcc q') \<and> admin_view q' = admin_view q"
proof -
  from settle_request_split [OF assms(1)] obtain pc v rq v1 rq1 bump pc1 log where
    l: "accs (ar_protocol ctx) = Some (RedemptionProtocolAcc pc)"
      "accs (ar_vault ctx) = Some (RedemptionVaultAcc v)"
      "accs (ar_request ctx) = Some (RedemptionRequestAcc rq)"
    and g: "init_admin_log (re_anchor env) accs (ar_protocol ctx) pc (ar_log ctx) = Inr bump"
    and w: "write_admin_log env (ar_protocol ctx) pc (ar_admin ctx) action (ar_request ctx)
       (rdr_amount rq) bump = Inr (pc1, log)"
    and a: "accs' = (accs(ar_vault ctx \<mapsto> v1, ar_request ctx \<mapsto> rq1))
       (ar_protocol ctx \<mapsto> RedemptionProtocolAcc pc1, ar_log ctx \<mapsto> AdminActionLogAcc log)"
    by (elim exE conjE) (rule that; assumption)
  have ne: "p \<noteq> ar_vault ctx" "p \<noteq> ar_request ctx" "p \<noteq> ar_log ctx"
    using l g assms(2) by (auto simp: init_admin_log_ok)
  show ?thesis
  proof (cases "p = ar_protocol ctx")
    case True
    with l assms(2) have "q = pc" by simp
    moreover have "admin_view pc1 = admin_view pc" using w by (auto simp: write_admin_log_ok admin_view_def)
    ultimately show ?thesis using True ne by (simp add: a)
  next
    case False
    with ne assms(2) show ?thesis by (simp add: a)
  qed
qed

lemma other_instruction_admin:
  assumes "stablecoin_redemption env signers i accs = Inr accs'" and "accs p = Some (RedemptionProtocolAcc q)"
    and "\<And>ctx n. i \<noteq> BeginTransfer ctx n" "\<And>ctx. i \<noteq> AcceptTransfer ctx"
    and inv: "redemption_inv (re_anchor env) accs"
  shows "\<exists>q'. accs' p = Some (RedemptionProtocolAcc q') \<and> admin_view q' = admin_view q"
proof (cases i)
  case (PauseRedemptions ctx b)
  with assms(1) have "set_redemptions_paused env signers ctx b accs = Inr accs'" by simp
  from set_redemptions_paused_ok [OF this] obtain pc where
    "logged_change env ctx pc (pc\<lparr>rdp_redemptions_paused := b\<rparr>) SetRedemptionsPaused accs accs'" by blast
  from logged_change_admin [OF this assms(2) inv]
  have "q = pc" "\<exists>q'. accs' p = Some (RedemptionProtocolAcc q') \<and>
      admin_view q' = admin_view (pc\<lparr>rdp_redemptions_paused := b\<rparr>)" by simp_all
  moreover have "admin_view (pc\<lparr>rdp_redemptions_paused := b\<rparr>) = admin_view pc" by (simp add: admin_view_def)
  ultimately show ?thesis by simp
next
  case (InitializeRedemption ctx)
  with assms(1) have "initialize_redemption env signers ctx accs = Inr accs'" by simp
  from initialize_redemption_ok [OF this] obtain x y where
    "accs (ir_protocol ctx) = None" "accs (ir_vault ctx) = None"
    "accs' = accs(ir_protocol ctx \<mapsto> x, ir_vault ctx \<mapsto> y)"
    by (elim exE conjE) (rule that; assumption)
  moreover from this assms(2) have "p \<noteq> ir_protocol ctx" "p \<noteq> ir_vault ctx" by auto
  ultimately show ?thesis using assms(2) by simp
next
  case (RequestRedemption ctx amount)
  with assms(1) have "request_redemption env signers ctx amount accs = Inr accs'" by simp
  from request_redemption_ok [OF this] obtain pc v v1 n rq where
    l: "load_redemption_protocol (re_anchor env) accs (rq_protocol ctx) = Inr pc"
      "load_redemption_vault (re_anchor env) accs (rq_protocol ctx) (rq_vault ctx) = Inr v"
      "accs (rq_request ctx) = None"
    and a: "accs' = accs(rq_protocol ctx \<mapsto> RedemptionProtocolAcc (pc\<lparr>rdp_next_request_id := n\<rparr>),
      rq_vault ctx \<mapsto> v1, rq_request ctx \<mapsto> rq)"
    by (elim exE conjE) (rule that; assumption)
  have ne: "p \<noteq> rq_vault ctx" "p \<noteq> rq_request ctx"
    using l assms(2) by (auto simp: load_redemption_vault_ok)
  show ?thesis
  proof (cases "p = rq_protocol ctx")
    case True
    with l assms(2) have "q = pc" by (simp add: load_redemption_protocol_ok)
    with True ne show ?thesis by (simp add: a admin_view_def)
  next
    case False
    with ne assms(2) show ?thesis by (simp add: a)
  qed
next
  case (CancelRedemption ctx)
  with assms(1) have "cancel_redemption env signers ctx accs = Inr accs'" by simp
  from cancel_redemption_ok [OF this] obtain v rq v1 rq1 where
    l: "load_redemption_vault (re_anchor env) accs (rq_protocol ctx) (rq_vault ctx) = Inr v"
      "load_redemption_request (re_anchor env) accs (rq_protocol ctx) (rq_vault ctx) (rq_request ctx) = Inr rq"
    and a: "accs' = accs(rq_vault ctx \<mapsto> v1, rq_request ctx \<mapsto> rq1)"
    by (elim exE conjE) (rule that; assumption)
  then have "p \<noteq> rq_vault ctx" "p \<noteq> rq_request ctx"
    using assms(2) by (auto simp: load_redemption_vault_ok load_redemption_request_ok)
  then show ?thesis using assms(2) by (simp add: a)
next
  case (CompleteRequest ctx)
  note settled = this
  with assms(1) have "settle_request env signers ctx RequestCompleted CompleteRedemption accs = Inr accs'"
    by (simp add: complete_redemption_def)
  then show ?thesis using settle_keeps_admin assms(2) by blast
next
  case (RejectRequest ctx)
  with assms(1) have "settle_request env signers ctx RequestRejected RejectRedemption accs = Inr accs'"
    by (simp add: reject_redemption_def)
  then show ?thesis using settle_keeps_admin assms(2) by blast
qed (use assms(3,4) in auto)

end
