(* ===== verification/Redemption_Demo.thy ===== *)
theory Redemption_Demo
  imports Redemption_Runs Anchor_Demo
begin

text \<open>
  A run of the redemption program for the witnesses: two requests, of which the admin completes one
  and the owner cancels the other, and a transfer of the admin role.
\<close>

lemma demo_redemption_addresses [simp]:
  "demo_hash redemption_protocol_seeds = 248073"
  "demo_hash (redemption_vault_seeds 248073) = 16250"
  "demo_hash (redemption_request_seeds 248073 0) = 213942"
  "demo_hash (redemption_request_seeds 248073 1) = 745517"
  "demo_hash (admin_action_log_seeds 248073 0) = 935702"
  "demo_hash (admin_action_log_seeds 248073 1) = 467274"
  "demo_hash (admin_action_log_seeds 248073 2) = 998849"
  by code_simp+

definition demo_settlement :: admin_redemption_accounts where
  "demo_settlement = \<lparr>ar_admin = 1, ar_protocol = 248073, ar_vault = 16250, ar_request = 213942, ar_log = 935702\<rparr>"

definition demo_redemption_run :: "redemption_transaction list" where
  "demo_redemption_run =
     [(Some 10, [1], InitializeRedemption \<lparr>ir_admin = 1, ir_protocol = 248073, ir_vault = 16250\<rparr>),
      (Some 20, [7], RequestRedemption
        \<lparr>rq_owner = 7, rq_protocol = 248073, rq_vault = 16250, rq_request = 213942\<rparr> 100),
      (Some 30, [8], RequestRedemption
        \<lparr>rq_owner = 8, rq_protocol = 248073, rq_vault = 16250, rq_request = 745517\<rparr> 40),
      (Some 40, [1], CompleteRequest demo_settlement),
      (Some 50, [8], CancelRedemption
        \<lparr>rq_owner = 8, rq_protocol = 248073, rq_vault = 16250, rq_request = 745517\<rparr>),
      (Some 60, [1], BeginTransfer \<lparr>al_admin = 1, al_protocol = 248073, al_log = 467274\<rparr> 2),
      (Some 70, [2], AcceptTransfer \<lparr>al_admin = 2, al_protocol = 248073, al_log = 998849\<rparr>)]"

definition demo_rdp :: "pubkey \<Rightarrow> pubkey \<Rightarrow> u64 \<Rightarrow> u64 \<Rightarrow> redemption_protocol" where
  "demo_rdp admin pending requests actions =
     \<lparr>rdp_admin = admin, rdp_pending_admin = pending, rdp_redemptions_paused = False,
      rdp_next_request_id = requests, rdp_next_admin_action_id = actions, rdp_bump = 255\<rparr>"

definition demo_rdv :: "u64 \<Rightarrow> u64 \<Rightarrow> u64 \<Rightarrow> u64 \<Rightarrow> redemption_vault" where
  "demo_rdv outstanding requested completed cancelled =
     \<lparr>rdv_protocol = 248073, rdv_outstanding_amount = outstanding, rdv_total_requested = requested,
      rdv_total_completed = completed, rdv_total_cancelled = cancelled, rdv_total_rejected = 0,
      rdv_bump = 255\<rparr>"

definition demo_rdr :: "u64 \<Rightarrow> pubkey \<Rightarrow> u64 \<Rightarrow> redemption_status \<Rightarrow> int \<Rightarrow> int \<Rightarrow> redemption_request" where
  "demo_rdr i owner amount status created updated =
     \<lparr>rdr_protocol = 248073, rdr_vault = 16250, rdr_request_id = i, rdr_owner = owner, rdr_amount = amount,
      rdr_status = status, rdr_created_at = created, rdr_updated_at = updated, rdr_bump = 255\<rparr>"

definition demo_aal :: "u64 \<Rightarrow> pubkey \<Rightarrow> admin_action \<Rightarrow> pubkey \<Rightarrow> u64 \<Rightarrow> int \<Rightarrow> admin_action_log" where
  "demo_aal i admin action target amount now =
     \<lparr>aal_protocol = 248073, aal_action_id = i, aal_admin = admin, aal_action = action, aal_target = target,
      aal_amount = amount, aal_created_at = now, aal_bump = 255\<rparr>"

text \<open>The store after each transaction.\<close>

definition demo_redeem1 :: redemption_store where
  "demo_redeem1 = [248073 \<mapsto> RedemptionProtocolAcc (demo_rdp 1 0 0 0), 16250 \<mapsto> RedemptionVaultAcc (demo_rdv 0 0 0 0)]"
definition demo_redeem2 :: redemption_store where
  "demo_redeem2 = [248073 \<mapsto> RedemptionProtocolAcc (demo_rdp 1 0 1 0), 16250 \<mapsto> RedemptionVaultAcc (demo_rdv 100 100 0 0),
     213942 \<mapsto> RedemptionRequestAcc (demo_rdr 0 7 100 RequestPending 20 20)]"
definition demo_redeem3 :: redemption_store where
  "demo_redeem3 = [248073 \<mapsto> RedemptionProtocolAcc (demo_rdp 1 0 2 0), 16250 \<mapsto> RedemptionVaultAcc (demo_rdv 140 140 0 0),
     213942 \<mapsto> RedemptionRequestAcc (demo_rdr 0 7 100 RequestPending 20 20),
     745517 \<mapsto> RedemptionRequestAcc (demo_rdr 1 8 40 RequestPending 30 30)]"
definition demo_redeem4 :: redemption_store where
  "demo_redeem4 = [248073 \<mapsto> RedemptionProtocolAcc (demo_rdp 1 0 2 1), 16250 \<mapsto> RedemptionVaultAcc (demo_rdv 40 140 100 0),
     213942 \<mapsto> RedemptionRequestAcc (demo_rdr 0 7 100 RequestCompleted 20 40),
     745517 \<mapsto> RedemptionRequestAcc (demo_rdr 1 8 40 RequestPending 30 30),
     935702 \<mapsto> AdminActionLogAcc (demo_aal 0 1 CompleteRedemption 213942 100 40)]"
definition demo_redeem5 :: redemption_store where
  "demo_redeem5 = demo_redeem4(16250 \<mapsto> RedemptionVaultAcc (demo_rdv 0 140 100 40),
     745517 \<mapsto> RedemptionRequestAcc (demo_rdr 1 8 40 RequestCancelled 30 50))"
definition demo_redeem6 :: redemption_store where
  "demo_redeem6 = demo_redeem5(248073 \<mapsto> RedemptionProtocolAcc (demo_rdp 1 2 2 2),
     467274 \<mapsto> AdminActionLogAcc (demo_aal 1 1 BeginAdminTransfer 2 0 60))"
definition demo_redeem7 :: redemption_store where
  "demo_redeem7 = demo_redeem6(248073 \<mapsto> RedemptionProtocolAcc (demo_rdp 2 0 2 3),
     998849 \<mapsto> AdminActionLogAcc (demo_aal 2 2 AcceptAdminTransfer 1 0 70))"

lemmas demo_redemption_defs = demo_rdp_def demo_rdv_def demo_rdr_def demo_aal_def demo_redeem1_def
  demo_redeem2_def demo_redeem3_def demo_redeem4_def demo_redeem5_def demo_redeem6_def demo_redeem7_def
  demo_settlement_def

lemmas demo_redemption_eval = need_signer_def check_seeds_def check_seeds_bump_def load_def init_fresh_def
  init_both_def check_distinct_mut_def load_redemption_protocol_def load_redemption_vault_def
  load_redemption_request_def load_redemption_admin_def init_admin_log_def unix_timestamp_def
  write_admin_log_def settle_vault_def checked_add_def checked_sub_def

lemma demo_rtx1: "redemption_exec demo_env (demo_redemption_run ! 0) (\<lambda>_. None) = Inr demo_redeem1"
  by (simp add: demo_redemption_run_def initialize_redemption_def demo_redemption_defs demo_redemption_eval)

lemma demo_rtx2: "redemption_exec demo_env (demo_redemption_run ! 1) demo_redeem1 = Inr demo_redeem2"
  by (simp add: demo_redemption_run_def request_redemption_def demo_redemption_defs demo_redemption_eval)

lemma demo_rtx3: "redemption_exec demo_env (demo_redemption_run ! 2) demo_redeem2 = Inr demo_redeem3"
  by (simp add: demo_redemption_run_def request_redemption_def demo_redemption_defs demo_redemption_eval)
    (rule ext, simp)

lemma demo_rtx4: "redemption_exec demo_env (demo_redemption_run ! 3) demo_redeem3 = Inr demo_redeem4"
  by (simp add: demo_redemption_run_def complete_redemption_def settle_request_def demo_redemption_defs
      demo_redemption_eval) (rule ext, simp)

lemma demo_rtx5: "redemption_exec demo_env (demo_redemption_run ! 4) demo_redeem4 = Inr demo_redeem5"
  by (simp add: demo_redemption_run_def cancel_redemption_def demo_redemption_defs demo_redemption_eval)

lemma demo_rtx6: "redemption_exec demo_env (demo_redemption_run ! 5) demo_redeem5 = Inr demo_redeem6"
  by (simp add: demo_redemption_run_def begin_admin_transfer_def demo_redemption_defs demo_redemption_eval)

lemma demo_rtx7: "redemption_exec demo_env (demo_redemption_run ! 6) demo_redeem6 = Inr demo_redeem7"
  by (simp add: demo_redemption_run_def accept_admin_transfer_def demo_redemption_defs demo_redemption_eval)

lemmas demo_rtxs = demo_rtx1 demo_rtx2 demo_rtx3 demo_rtx4 demo_rtx5 demo_rtx6 demo_rtx7

lemma demo_redemption_run_list:
  "demo_redemption_run = map ((!) demo_redemption_run) [0, 1, 2, 3, 4, 5, 6]"
  by (simp add: demo_redemption_run_def)

lemma demo_redemption_final:
  "run_transactions (redemption_exec demo_env) demo_redemption_run (\<lambda>_. None) = demo_redeem7"
  by (subst demo_redemption_run_list) (simp only: list.map run_transactions.simps demo_rtxs sum.case)

lemma demo_redemption_prefix:
  "run_transactions (redemption_exec demo_env) (map ((!) demo_redemption_run) [0, 1, 2]) (\<lambda>_. None) = demo_redeem3"
  "run_transactions (redemption_exec demo_env) (map ((!) demo_redemption_run) [0, 1, 2, 3]) (\<lambda>_. None) = demo_redeem4"
  "run_transactions (redemption_exec demo_env) (map ((!) demo_redemption_run) [4, 5, 6]) demo_redeem4 = demo_redeem7"
  by (simp_all only: list.map run_transactions.simps demo_rtxs sum.case)

end
