(* ===== verification/Redemption_Properties.thy ===== *)
theory Redemption_Properties
  imports Redemption_Demo
begin

text \<open>
  The properties of the redemption program over all runs from an empty store: conservation in the
  vault, settlement at most once, an audit log without gaps, settlements that cannot fail, and the
  reference models of redemption and of admin transfer.
\<close>

text \<open>C16: After any run the vault's outstanding, completed, cancelled and rejected amounts are the sums of
  the amounts of the requests with that status, and they add up to everything ever requested.\<close>

theorem redemption_vault_accounts:
  assumes "accs = run_transactions (redemption_exec env) txs (\<lambda>_. None)"
    and "accs k = Some (RedemptionVaultAcc v)"
  shows "unat (rdv_outstanding_amount v) = requests_sum RequestPending accs \<and>
    unat (rdv_total_completed v) = requests_sum RequestCompleted accs \<and>
    unat (rdv_total_cancelled v) = requests_sum RequestCancelled accs \<and>
    unat (rdv_total_rejected v) = requests_sum RequestRejected accs \<and>
    unat (rdv_total_requested v) = unat (rdv_outstanding_amount v) + unat (rdv_total_completed v) +
      unat (rdv_total_cancelled v) + unat (rdv_total_rejected v)"
proof -
  have v: "vault_sound v accs"
    by (rule reachable_vault [of env accs k]) (use redemption_reachable_inv [of env txs] assms in simp_all)
  then have "vault_total s v = requests_sum s accs" for s by (simp add: vault_sound_def)
  from this [of RequestPending] this [of RequestCompleted] this [of RequestCancelled]
    this [of RequestRejected] v
  show ?thesis by (simp add: vault_sound_def)
qed

theorem redemption_vault_accounts_witness:
  "requests_sum RequestCompleted demo_redeem7 = 100 \<and> requests_sum RequestCancelled demo_redeem7 = 40"
  using redemption_vault_accounts [of demo_redeem7 demo_env demo_redemption_run 16250 "demo_rdv 0 140 100 40"]
  by (simp add: demo_redemption_final) (simp add: demo_redemption_defs)

text \<open>C17: Once made, a request keeps its identity, owner and amount over any further run, and once it is
  completed, cancelled or rejected it does not change at all; a log entry never changes.\<close>

theorem redemption_settles_once:
  assumes "accs = run_transactions (redemption_exec env) txs (\<lambda>_. None)"
    and "accs' = run_transactions (redemption_exec env) later accs"
  shows "(\<forall>k rq. accs k = Some (RedemptionRequestAcc rq) \<longrightarrow>
      (\<exists>s t. accs' k = Some (RedemptionRequestAcc (rq\<lparr>rdr_status := s, rdr_updated_at := t\<rparr>)) \<and>
         (rdr_status rq \<noteq> RequestPending \<longrightarrow> accs' k = accs k))) \<and>
    (\<forall>k l. accs k = Some (AdminActionLogAcc l) \<longrightarrow> accs' k = accs k)"
proof -
  have inv: "redemption_inv env accs" unfolding assms(1) by (rule redemption_reachable_inv)
  have e: "redemption_evolves accs accs'" unfolding assms(2) by (rule redemption.run_evolves [OF inv])
  show ?thesis
  proof (intro conjI allI impI)
    fix k rq assume k: "accs k = Some (RedemptionRequestAcc rq)"
    from request_evolves [OF e k] obtain rq' where r: "accs' k = Some (RedemptionRequestAcc rq')"
      "rq' = rq\<lparr>rdr_status := rdr_status rq', rdr_updated_at := rdr_updated_at rq'\<rparr>"
      "rdr_status rq \<noteq> RequestPending \<longrightarrow> rq' = rq" .
    from r(1,3) k have "rdr_status rq \<noteq> RequestPending \<longrightarrow> accs' k = accs k" by simp
    moreover from r(1,2) have "accs' k = Some (RedemptionRequestAcc
        (rq\<lparr>rdr_status := rdr_status rq', rdr_updated_at := rdr_updated_at rq'\<rparr>))" by simp
    ultimately show "\<exists>s t. accs' k = Some (RedemptionRequestAcc (rq\<lparr>rdr_status := s, rdr_updated_at := t\<rparr>)) \<and>
        (rdr_status rq \<noteq> RequestPending \<longrightarrow> accs' k = accs k)" by blast
  next
    fix k l assume k: "accs k = Some (AdminActionLogAcc l)"
    with log_evolves [OF e k] show "accs' k = accs k" by simp
  qed
qed

theorem redemption_settles_once_witness:
  "demo_redeem7 213942 = demo_redeem4 213942 \<and> demo_redeem7 935702 = demo_redeem4 935702"
proof -
  note r = redemption_settles_once [of demo_redeem4 demo_env "map ((!) demo_redemption_run) [0, 1, 2, 3]"
      demo_redeem7 "map ((!) demo_redemption_run) [4, 5, 6]", OF demo_redemption_prefix(2,3) [symmetric]]
  have "demo_redeem4 213942 = Some (RedemptionRequestAcc (demo_rdr 0 7 100 RequestCompleted 20 40))"
    "demo_redeem4 935702 = Some (AdminActionLogAcc (demo_aal 0 1 CompleteRedemption 213942 100 40))"
    by (simp_all add: demo_redeem4_def)
  moreover have "rdr_status (demo_rdr 0 7 100 RequestCompleted 20 40) \<noteq> RequestPending"
    by (simp add: demo_rdr_def)
  ultimately show ?thesis using r by blast
qed

text \<open>C18: The requests and the admin's log entries are numbered without gaps: after any run every number
  below the counters has its account, at the address derived from the number.\<close>

theorem redemption_log_complete:
  assumes "accs = run_transactions (redemption_exec env) txs (\<lambda>_. None)"
    and "accs k = Some (RedemptionProtocolAcc pc)"
  shows "(\<forall>i<rdp_next_request_id pc. \<exists>rq. accs (redemption_request_key env i) = Some (RedemptionRequestAcc rq) \<and>
      rdr_request_id rq = i) \<and>
    (\<forall>i<rdp_next_admin_action_id pc. \<exists>l. accs (admin_log_key env i) = Some (AdminActionLogAcc l) \<and>
      aal_action_id l = i)"
proof -
  have inv: "redemption_inv env accs" unfolding assms(1) by (rule redemption_reachable_inv)
  with assms(2) obtain v where "accs (redemption_vault_key env) = Some (RedemptionVaultAcc v)"
    by (auto simp: redemption_inv_def)
  from redemption_loaded(4) [OF inv assms(2) this] show ?thesis by (simp add: numbered_def)
qed

theorem redemption_log_complete_witness:
  "\<exists>l. demo_redeem7 (admin_log_key demo_env 2) = Some (AdminActionLogAcc l) \<and> aal_action_id l = 2"
  using redemption_log_complete [of demo_redeem7 demo_env demo_redemption_run 248073 "demo_rdp 2 0 2 3"]
  by (simp add: demo_redemption_final) (simp add: demo_redeem7_def demo_rdp_def)



text \<open>C20: Settling a pending request cannot fail on the vault's arithmetic: after any run, with the accounts
  valid, the admin's signature, a clock and a log number left, both completing and rejecting a pending
  request succeed.\<close>

theorem pending_request_settles:
  assumes "accs = run_transactions (redemption_exec (re_anchor env)) txs (\<lambda>_. None)"
    and "load_redemption_admin (re_anchor env) signers accs (ar_admin ctx) (ar_protocol ctx) = Inr pc"
    and "load_redemption_vault (re_anchor env) accs (ar_protocol ctx) (ar_vault ctx) = Inr v"
    and "load_redemption_request (re_anchor env) accs (ar_protocol ctx) (ar_vault ctx) (ar_request ctx) = Inr rq"
    and "rdr_status rq = RequestPending"
    and "init_admin_log (re_anchor env) accs (ar_protocol ctx) pc (ar_log ctx) = Inr bump"
    and "re_clock env = Some now" and "unat (rdp_next_admin_action_id pc) + 1 < 2 ^ 64"
  shows "is_ok (complete_redemption env signers ctx accs) \<and> is_ok (reject_redemption env signers ctx accs)"
proof -
  have inv: "redemption_inv (re_anchor env) accs" unfolding assms(1) by (rule redemption_reachable_inv)
  have l: "accs (ar_protocol ctx) = Some (RedemptionProtocolAcc pc)"
    "accs (ar_vault ctx) = Some (RedemptionVaultAcc v)"
    "accs (ar_request ctx) = Some (RedemptionRequestAcc rq)"
    using assms(2-4) by (simp_all add: load_redemption_admin_ok load_redemption_protocol_ok
        load_redemption_vault_ok load_redemption_request_ok)
  then have d: "check_distinct_mut (re_anchor env) [ar_protocol ctx, ar_vault ctx, ar_request ctx] =
      (Inr () :: (redemption_failure, unit) result)"
    by (auto simp: check_distinct_mut_ok)
  have settles: "is_ok (settle_vault s (rdr_amount rq) v)" if "s = RequestCompleted \<or> s = RequestRejected" for s
    by (rule settle_vault_succeeds [of _ accs "ar_request ctx"])
      (use reachable_vault [of "re_anchor env" accs "ar_vault ctx" v] inv l assms(5) that in simp_all)
  obtain v1 v2 where "settle_vault RequestCompleted (rdr_amount rq) v = Inr v1"
    "settle_vault RequestRejected (rdr_amount rq) v = Inr v2"
    using settles [of RequestCompleted] settles [of RequestRejected] by (auto simp: is_ok_iff)
  moreover have "checked_add (rdp_next_admin_action_id pc) 1 = Some (rdp_next_admin_action_id pc + 1)"
    using assms(8) by (simp add: checked_add_def)
  ultimately show ?thesis
    using assms(2-7) d
    by (simp add: complete_redemption_def reject_redemption_def settle_request_def
        unix_timestamp_def write_admin_log_def Let_def)
qed

theorem pending_request_settles_witness:
  "is_ok (reject_redemption \<lparr>re_anchor = demo_env, re_clock = Some 40\<rparr> [1] demo_settlement demo_redeem3)"
  using pending_request_settles [of demo_redeem3 "\<lparr>re_anchor = demo_env, re_clock = Some 40\<rparr>"
      "map ((!) demo_redemption_run) [0, 1, 2]" "[1]" demo_settlement "demo_rdp 1 0 2 0" "demo_rdv 140 140 0 0"
      "demo_rdr 0 7 100 RequestPending 20 20" 255 40]
  by (simp only: demo_redemption_prefix(1) redemption_env.select_convs)
    (simp add: demo_redemption_defs demo_redemption_eval)

text \<open>The admin changes in two steps only: an instruction leaves the admin and the pending admin alone,
  or is a \<open>begin\<close> or an \<open>accept\<close> of the reference model by one of its signers.\<close>

theorem admin_transfer_implements_model:
  assumes "redemption_inv (re_anchor env) accs"
    and "stablecoin_redemption env signers i accs = Inr accs'"
    and "accs p = Some (RedemptionProtocolAcc pc)"
  shows "\<exists>pc'. accs' p = Some (RedemptionProtocolAcc pc') \<and>
    (admin_view pc' = admin_view pc \<or>
     list_ex (\<lambda>s. model_accept s (admin_view pc) = (Inr (), admin_view pc')) signers \<or>
     list_ex (\<lambda>s. \<exists>new. model_begin s new (admin_view pc) = (Inr (), admin_view pc')) signers)"
proof (cases "(\<exists>ctx n. i = BeginTransfer ctx n) \<or> (\<exists>ctx. i = AcceptTransfer ctx)")
  case False
  then show ?thesis using other_instruction_admin [OF assms(2,3) _ _ assms(1)] by blast
next
  case True
  then show ?thesis
  proof (elim disjE exE)
    fix ctx n assume i: "i = BeginTransfer ctx n"
    with assms(2) have "begin_admin_transfer env signers ctx n accs = Inr accs'" by simp
    from begin_admin_transfer_ok [OF this] obtain pc1 where
      b: "al_admin ctx \<in> set signers" "rdp_admin pc1 = al_admin ctx" "n \<noteq> 0"
        "logged_change env ctx pc1 (pc1\<lparr>rdp_pending_admin := n\<rparr>) BeginAdminTransfer accs accs'" by blast
    from logged_change_admin [OF b(4) assms(3,1)] obtain q' where
      q: "pc = pc1" "accs' p = Some (RedemptionProtocolAcc q')"
        "admin_view q' = admin_view (pc1\<lparr>rdp_pending_admin := n\<rparr>)" by blast
    have "model_begin (al_admin ctx) n (admin_view pc) = (Inr (), admin_view q')"
      using b q(1,3) by (simp add: model_begin_def atomically_ok admin_view_def)
    with b(1) q(2) show ?thesis by (auto simp: list_ex_iff)
  next
    fix ctx assume i: "i = AcceptTransfer ctx"
    with assms(2) have "accept_admin_transfer env signers ctx accs = Inr accs'" by simp
    from accept_admin_transfer_ok [OF this] obtain pc1 where
      b: "al_admin ctx \<in> set signers" "rdp_pending_admin pc1 \<noteq> 0" "rdp_pending_admin pc1 = al_admin ctx"
        "logged_change env ctx pc1 (pc1\<lparr>rdp_admin := al_admin ctx, rdp_pending_admin := 0\<rparr>)
          AcceptAdminTransfer accs accs'" by blast
    from logged_change_admin [OF b(4) assms(3,1)] obtain q' where
      q: "pc = pc1" "accs' p = Some (RedemptionProtocolAcc q')"
        "admin_view q' = admin_view (pc1\<lparr>rdp_admin := al_admin ctx, rdp_pending_admin := 0\<rparr>)" by blast
    have "model_accept (al_admin ctx) (admin_view pc) = (Inr (), admin_view q')"
      using b q(1,3) by (simp add: model_accept_def atomically_ok admin_view_def)
    with b(1) q(2) show ?thesis by (auto simp: list_ex_iff)
  qed
qed

theorem admin_transfer_implements_model_witness:
  "\<exists>pc'. demo_redeem7 248073 = Some (RedemptionProtocolAcc pc') \<and>
    (admin_view pc' = admin_view (demo_rdp 1 2 2 2) \<or>
     list_ex (\<lambda>s. model_accept s (admin_view (demo_rdp 1 2 2 2)) = (Inr (), admin_view pc')) [2] \<or>
     list_ex (\<lambda>s. \<exists>new. model_begin s new (admin_view (demo_rdp 1 2 2 2)) = (Inr (), admin_view pc')) [2])"
proof (rule admin_transfer_implements_model)
  let ?env = "\<lparr>re_anchor = demo_env, re_clock = Some 70\<rparr>"
  show "redemption_inv (re_anchor ?env) demo_redeem6"
    using redemption_reachable_inv [of demo_env "map ((!) demo_redemption_run) [0, 1, 2, 3, 4, 5]"]
    by (simp only: list.map run_transactions.simps demo_rtxs sum.case redemption_env.select_convs)
  show "stablecoin_redemption ?env [2] (AcceptTransfer \<lparr>al_admin = 2, al_protocol = 248073, al_log = 998849\<rparr>)
      demo_redeem6 = Inr demo_redeem7"
    using demo_rtx7 by (simp add: demo_redemption_run_def)
  show "demo_redeem6 248073 = Some (RedemptionProtocolAcc (demo_rdp 1 2 2 2))"
    by (simp add: demo_redeem6_def)
qed

end
