(* ===== verification/Compliance_Hook.thy ===== *)
theory Compliance_Hook
  imports Anchor_Base "HOL-Library.Signed_Division"
begin

text \<open>
  \<open>programs/stablecoin_compliance_hook\<close>: the compliance configuration and the users' profiles
  (\<open>state.rs\<close>, \<open>error.rs\<close>, \<open>constants.rs\<close>), the admin's instructions (\<open>admin.rs\<close>) and the transfer
  hook itself (\<open>execute.rs\<close>).  The decoding of the hook instruction, the packing of the extra
  account list, the rent and the clock are fields of \<open>hook_env\<close>; time stamps are \<open>int\<close>, and dividing
  an \<open>i64\<close> by 86400 cannot overflow.
\<close>

section \<open>State\<close>

datatype hook_error =
    HookProtocolPaused
  | SourceNotAllowlisted
  | DestinationNotAllowlisted
  | SourceBlocked
  | DestinationBlocked
  | IssuerInactive
  | TransferLimitExceeded
  | DailyLimitExceeded
  | InvalidTransferLimit
  | InvalidTransferHookAccounts

record compliance_config =
  ccf_admin :: pubkey
  ccf_mint :: pubkey
  ccf_max_transfer_amount :: u64
  ccf_daily_transfer_limit :: u64
  ccf_paused :: bool
  ccf_bump :: u8

record user_compliance =
  ucp_config :: pubkey
  ucp_mint :: pubkey
  ucp_user :: pubkey
  ucp_allowlisted :: bool
  ucp_blocked :: bool
  ucp_issuer_active :: bool
  ucp_transferred_today :: u64
  ucp_current_day :: int
  ucp_bump :: u8

text \<open>An entry of the extra account list: seeds, \<open>is_signer\<close> and \<open>is_writable\<close>.\<close>

datatype meta_seed = SeedLiteral "u8 list" | SeedAccountKey nat

record extra_account_meta =
  eam_seeds :: "meta_seed list"
  eam_signer :: bool
  eam_writable :: bool

datatype hook_account =
    ComplianceConfigAcc compliance_config
  | UserComplianceAcc user_compliance
  | ExtraMetasAcc "extra_account_meta list"

fun as_compliance_config :: "hook_account \<Rightarrow> compliance_config option" where
  "as_compliance_config (ComplianceConfigAcc x) = Some x" | "as_compliance_config _ = None"
fun as_user_compliance :: "hook_account \<Rightarrow> user_compliance option" where
  "as_user_compliance (UserComplianceAcc x) = Some x" | "as_user_compliance _ = None"

text \<open>The accounts that the hook program owns.\<close>

type_synonym hook_store = "hook_account accounts"
type_synonym hook_failure = "hook_error program_error"
type_synonym hook_result = "(hook_failure, hook_store) result"

datatype transfer_hook_instruction = HookExecute u64 | HookOther

record hook_env =
  he_anchor :: anchor_env
  he_clock :: "int option"
  he_minimum_balance :: "u64 \<Rightarrow> u64 option"
  he_pack_seeds :: "meta_seed list \<Rightarrow> bool"
  he_init_metas :: "extra_account_meta list \<Rightarrow> bool"
  he_unpack :: "u8 list \<Rightarrow> transfer_hook_instruction option"

definition compliance_config_seed :: "u8 list" where "compliance_config_seed = ascii_bytes ''config''"
definition user_compliance_seed :: "u8 list" where "user_compliance_seed = ascii_bytes ''user''"
definition extra_account_metas_seed :: "u8 list" where
  "extra_account_metas_seed = ascii_bytes ''extra-account-metas''"
definition extra_account_meta_list_space :: u64 where "extra_account_meta_list_space = 256"
definition seconds_per_day :: int where "seconds_per_day = 86400"

definition compliance_config_seeds :: "pubkey \<Rightarrow> u8 list list" where
  "compliance_config_seeds mint = [compliance_config_seed, key_bytes mint]"
definition user_compliance_seeds :: "pubkey \<Rightarrow> pubkey \<Rightarrow> u8 list list" where
  "user_compliance_seeds mint user = [user_compliance_seed, key_bytes mint, key_bytes user]"
definition extra_account_metas_seeds :: "pubkey \<Rightarrow> u8 list list" where
  "extra_account_metas_seeds mint = [extra_account_metas_seed, key_bytes mint]"

section \<open>The admin's instructions\<close>

text \<open>\<open>config\<close> with the seeds of \<open>mint\<close> and \<open>has_one = admin\<close>.\<close>

definition load_compliance_config ::
  "anchor_env \<Rightarrow> pubkey list \<Rightarrow> hook_store \<Rightarrow> pubkey \<Rightarrow> pubkey \<Rightarrow> (compliance_config \<Rightarrow> pubkey)
    \<Rightarrow> (hook_failure, compliance_config) result" where
  "load_compliance_config env signers accs admin k mint =
     and_then (need_signer admin signers) (\<lambda>_.
     and_then (load as_compliance_config accs k) (\<lambda>c.
     and_then (check_seeds_bump env k (compliance_config_seeds (mint c)) (ccf_bump c)) (\<lambda>_.
     and_then (ensure (ccf_admin c = admin) ConstraintHasOne) (\<lambda>_. Inr c))))"

record initialize_config_accounts =
  ic_admin :: pubkey
  ic_config :: pubkey
  ic_mint :: pubkey

definition initialize_compliance_config ::
  "hook_env \<Rightarrow> pubkey list \<Rightarrow> initialize_config_accounts \<Rightarrow> u64 \<Rightarrow> u64 \<Rightarrow> hook_store \<Rightarrow> hook_result" where
  "initialize_compliance_config env signers ctx max_transfer_amount daily_transfer_limit accs =
     and_then (need_signer (ic_admin ctx) signers) (\<lambda>_.
     and_then (check_seeds (he_anchor env) (ic_config ctx) (compliance_config_seeds (ic_mint ctx))) (\<lambda>bump.
     and_then (init_fresh accs (ic_config ctx) ()) (\<lambda>_.
     and_then (require (max_transfer_amount > 0 \<and> daily_transfer_limit > 0) InvalidTransferLimit) (\<lambda>_.
       Inr (accs(ic_config ctx \<mapsto> ComplianceConfigAcc
         \<lparr>ccf_admin = ic_admin ctx, ccf_mint = ic_mint ctx,
          ccf_max_transfer_amount = max_transfer_amount,
          ccf_daily_transfer_limit = daily_transfer_limit, ccf_paused = False, ccf_bump = bump\<rparr>))))))"

record extra_metas_accounts =
  em_admin :: pubkey
  em_config :: pubkey
  em_list :: pubkey
  em_mint :: pubkey

definition meta_new_with_seeds ::
  "hook_env \<Rightarrow> meta_seed list \<Rightarrow> bool \<Rightarrow> bool \<Rightarrow> (hook_failure, extra_account_meta) result" where
  "meta_new_with_seeds env seeds signer writable =
     and_then (require (he_pack_seeds env seeds) InvalidTransferHookAccounts) (\<lambda>_.
       Inr \<lparr>eam_seeds = seeds, eam_signer = signer, eam_writable = writable\<rparr>)"

text \<open>The configuration, the source's profile (writable) and the destination's profile.\<close>

definition hook_extra_metas :: "hook_env \<Rightarrow> (hook_failure, extra_account_meta list) result" where
  "hook_extra_metas env =
     and_then (meta_new_with_seeds env [SeedLiteral compliance_config_seed, SeedAccountKey 1] False False) (\<lambda>m1.
     and_then (meta_new_with_seeds env
       [SeedLiteral user_compliance_seed, SeedAccountKey 1, SeedAccountKey 0] False True) (\<lambda>m2.
     and_then (meta_new_with_seeds env
       [SeedLiteral user_compliance_seed, SeedAccountKey 1, SeedAccountKey 2] False False) (\<lambda>m3.
       Inr [m1, m2, m3])))"

definition initialize_extra_account_meta_list ::
  "hook_env \<Rightarrow> pubkey list \<Rightarrow> extra_metas_accounts \<Rightarrow> hook_store \<Rightarrow> hook_result" where
  "initialize_extra_account_meta_list env signers ctx accs =
     and_then (load_compliance_config (he_anchor env) signers accs (em_admin ctx) (em_config ctx)
       (\<lambda>_. em_mint ctx)) (\<lambda>c.
     and_then (ensure (ccf_mint c = em_mint ctx) ConstraintHasOne) (\<lambda>_.
     and_then (check_seeds (he_anchor env) (em_list ctx) (extra_account_metas_seeds (em_mint ctx))) (\<lambda>bump.
     and_then (ok_or (he_minimum_balance env extra_account_meta_list_space) SysvarMissing) (\<lambda>rent.
     and_then (ensure (create_pda (he_anchor env) (extra_account_metas_seeds (em_mint ctx)) bump =
         Some (em_list ctx) \<and> accs (em_list ctx) = None) CpiFailed) (\<lambda>_.
     and_then (hook_extra_metas env) (\<lambda>metas.
     and_then (require (he_init_metas env metas) InvalidTransferHookAccounts) (\<lambda>_.
       Inr (accs(em_list ctx \<mapsto> ExtraMetasAcc metas)))))))))"

record set_user_accounts =
  su_admin :: pubkey
  su_config :: pubkey
  su_user_compliance :: pubkey
  su_user :: pubkey
  su_mint :: pubkey

definition zero_user_compliance :: user_compliance where
  "zero_user_compliance =
     \<lparr>ucp_config = 0, ucp_mint = 0, ucp_user = 0, ucp_allowlisted = False, ucp_blocked = False,
      ucp_issuer_active = False, ucp_transferred_today = 0, ucp_current_day = 0, ucp_bump = 0\<rparr>"

definition set_user_compliance ::
  "hook_env \<Rightarrow> pubkey list \<Rightarrow> set_user_accounts \<Rightarrow> bool \<Rightarrow> bool \<Rightarrow> bool \<Rightarrow> hook_store \<Rightarrow> hook_result" where
  "set_user_compliance env signers ctx allowlisted blocked issuer_active accs =
     and_then (load_compliance_config (he_anchor env) signers accs (su_admin ctx) (su_config ctx)
       (\<lambda>_. su_mint ctx)) (\<lambda>c.
     and_then (ensure (ccf_mint c = su_mint ctx) ConstraintHasOne) (\<lambda>_.
     and_then (check_seeds (he_anchor env) (su_user_compliance ctx)
       (user_compliance_seeds (su_mint ctx) (su_user ctx))) (\<lambda>bump.
     and_then (init_needed as_user_compliance accs (su_user_compliance ctx) zero_user_compliance) (\<lambda>u.
       Inr (accs(su_user_compliance ctx \<mapsto> UserComplianceAcc
         (u\<lparr>ucp_config := su_config ctx, ucp_mint := su_mint ctx, ucp_user := su_user ctx,
            ucp_allowlisted := allowlisted, ucp_blocked := blocked,
            ucp_issuer_active := issuer_active, ucp_bump := bump\<rparr>)))))))"

record config_admin_accounts =
  ca_admin :: pubkey
  ca_config :: pubkey

definition set_transfer_limits ::
  "hook_env \<Rightarrow> pubkey list \<Rightarrow> config_admin_accounts \<Rightarrow> u64 \<Rightarrow> u64 \<Rightarrow> hook_store \<Rightarrow> hook_result" where
  "set_transfer_limits env signers ctx max_transfer_amount daily_transfer_limit accs =
     and_then (load_compliance_config (he_anchor env) signers accs (ca_admin ctx) (ca_config ctx) ccf_mint) (\<lambda>c.
     and_then (require (max_transfer_amount > 0 \<and> daily_transfer_limit > 0) InvalidTransferLimit) (\<lambda>_.
       Inr (accs(ca_config ctx \<mapsto> ComplianceConfigAcc
         (c\<lparr>ccf_max_transfer_amount := max_transfer_amount,
            ccf_daily_transfer_limit := daily_transfer_limit\<rparr>)))))"

definition set_protocol_paused ::
  "hook_env \<Rightarrow> pubkey list \<Rightarrow> config_admin_accounts \<Rightarrow> bool \<Rightarrow> hook_store \<Rightarrow> hook_result" where
  "set_protocol_paused env signers ctx paused accs =
     and_then (load_compliance_config (he_anchor env) signers accs (ca_admin ctx) (ca_config ctx) ccf_mint) (\<lambda>c.
       Inr (accs(ca_config ctx \<mapsto> ComplianceConfigAcc (c\<lparr>ccf_paused := paused\<rparr>))))"

section \<open>The transfer hook\<close>

text \<open>What the hook sees of an account it is passed.\<close>

record account_info =
  ai_key :: pubkey
  ai_writable :: bool

text \<open>An account outside the store is owned by another program.\<close>

definition deserialize_account ::
  "(hook_account \<Rightarrow> 'b option) \<Rightarrow> hook_store \<Rightarrow> account_info \<Rightarrow> (hook_failure, 'b) result" where
  "deserialize_account sel accs info =
     and_then (require (accs (ai_key info) \<noteq> None) InvalidTransferHookAccounts) (\<lambda>_.
       load sel accs (ai_key info))"

definition serialize_account ::
  "hook_account \<Rightarrow> hook_store \<Rightarrow> account_info \<Rightarrow> hook_result" where
  "serialize_account a accs info =
     and_then (require (ai_writable info) InvalidTransferHookAccounts) (\<lambda>_. Inr (accs(ai_key info \<mapsto> a)))"

definition validate_profile ::
  "user_compliance \<Rightarrow> pubkey \<Rightarrow> compliance_config \<Rightarrow> pubkey \<Rightarrow> (hook_failure, unit) result" where
  "validate_profile profile config_key config user =
     and_then (require (ucp_config profile = config_key) InvalidTransferHookAccounts) (\<lambda>_.
     and_then (require (ucp_mint profile = ccf_mint config) InvalidTransferHookAccounts) (\<lambda>_.
     require (ucp_user profile = user) InvalidTransferHookAccounts))"

text \<open>The addresses the hook recomputes, in its order.\<close>

definition check_hook_addresses ::
  "hook_env \<Rightarrow> account_info list \<Rightarrow> u8 list \<Rightarrow> (hook_failure, unit) result" where
  "check_hook_addresses env infos data =
     (let source = ai_key (infos ! 0); mint = ai_key (infos ! 1); destination = ai_key (infos ! 2);
          expected = (\<lambda>seeds. fst (find_pda (he_anchor env) seeds)) in
     and_then (require (ai_key (infos ! 4) = expected (extra_account_metas_seeds mint))
       InvalidTransferHookAccounts) (\<lambda>_.
     and_then (require (he_unpack env data \<noteq> None) InvalidTransferHookAccounts) (\<lambda>_.
     and_then (require (ai_key (infos ! 5) = expected (compliance_config_seeds mint))
       InvalidTransferHookAccounts) (\<lambda>_.
     and_then (require (ai_key (infos ! 6) = expected (user_compliance_seeds mint source))
       InvalidTransferHookAccounts) (\<lambda>_.
     require (ai_key (infos ! 7) = expected (user_compliance_seeds mint destination))
       InvalidTransferHookAccounts)))))"

text \<open>The source's profile after a transfer on a day.\<close>

definition count_transfer ::
  "int \<Rightarrow> u64 \<Rightarrow> compliance_config \<Rightarrow> user_compliance \<Rightarrow> (hook_failure, user_compliance) result" where
  "count_transfer current_day amount config source =
     (let source1 = (if ucp_current_day source \<noteq> current_day
        then source\<lparr>ucp_current_day := current_day, ucp_transferred_today := 0\<rparr> else source) in
     and_then (require_some (checked_add (ucp_transferred_today source1) amount) DailyLimitExceeded)
       (\<lambda>new_daily_amount.
     and_then (require (new_daily_amount \<le> ccf_daily_transfer_limit config) DailyLimitExceeded) (\<lambda>_.
       Inr (source1\<lparr>ucp_transferred_today := new_daily_amount\<rparr>))))"

definition execute_transfer_hook ::
  "hook_env \<Rightarrow> account_info list \<Rightarrow> u8 list \<Rightarrow> u64 \<Rightarrow> hook_store \<Rightarrow> hook_result" where
  "execute_transfer_hook env infos data amount accs =
     and_then (require (length infos \<ge> 8) InvalidTransferHookAccounts) (\<lambda>_.
     let source = infos ! 0; mint = infos ! 1; destination = infos ! 2; config_info = infos ! 5;
         source_info = infos ! 6; destination_info = infos ! 7 in
     and_then (check_hook_addresses env infos data) (\<lambda>_.
     and_then (deserialize_account as_compliance_config accs config_info) (\<lambda>config.
     and_then (require (\<not> ccf_paused config) HookProtocolPaused) (\<lambda>_.
     and_then (require (ccf_mint config = ai_key mint) InvalidTransferHookAccounts) (\<lambda>_.
     and_then (require (amount \<le> ccf_max_transfer_amount config) TransferLimitExceeded) (\<lambda>_.
     and_then (deserialize_account as_user_compliance accs source_info) (\<lambda>source_compliance.
     and_then (deserialize_account as_user_compliance accs destination_info) (\<lambda>destination_compliance.
     and_then (validate_profile source_compliance (ai_key config_info) config (ai_key source)) (\<lambda>_.
     and_then (validate_profile destination_compliance (ai_key config_info) config (ai_key destination)) (\<lambda>_.
     and_then (require (ucp_allowlisted source_compliance) SourceNotAllowlisted) (\<lambda>_.
     and_then (require (ucp_allowlisted destination_compliance) DestinationNotAllowlisted) (\<lambda>_.
     and_then (require (\<not> ucp_blocked source_compliance) SourceBlocked) (\<lambda>_.
     and_then (require (\<not> ucp_blocked destination_compliance) DestinationBlocked) (\<lambda>_.
     and_then (require (ucp_issuer_active source_compliance) IssuerInactive) (\<lambda>_.
     and_then (ok_or (he_clock env) SysvarMissing) (\<lambda>now.
     and_then (count_transfer (now sdiv seconds_per_day) amount config source_compliance) (\<lambda>counted.
       serialize_account (UserComplianceAcc counted) accs source_info)))))))))))))))))"

definition execute_fallback ::
  "hook_env \<Rightarrow> account_info list \<Rightarrow> u8 list \<Rightarrow> hook_store \<Rightarrow> hook_result" where
  "execute_fallback env infos data accs =
     and_then (ok_or (he_unpack env data) InvalidInstructionData) (\<lambda>ins.
     (case ins of
        HookExecute amount \<Rightarrow> execute_transfer_hook env infos data amount accs
      | HookOther \<Rightarrow> Inl InvalidInstructionData))"

section \<open>The program\<close>

datatype hook_instruction =
    InitializeComplianceConfig initialize_config_accounts u64 u64
  | InitializeExtraMetas extra_metas_accounts
  | SetUserCompliance set_user_accounts bool bool bool
  | SetTransferLimits config_admin_accounts u64 u64
  | SetHookPaused config_admin_accounts bool
  | HookFallback "account_info list" "u8 list"

fun stablecoin_compliance_hook ::
  "hook_env \<Rightarrow> pubkey list \<Rightarrow> hook_instruction \<Rightarrow> hook_store \<Rightarrow> hook_result" where
  "stablecoin_compliance_hook env signers (InitializeComplianceConfig ctx max_amount daily) accs =
     initialize_compliance_config env signers ctx max_amount daily accs"
| "stablecoin_compliance_hook env signers (InitializeExtraMetas ctx) accs =
     initialize_extra_account_meta_list env signers ctx accs"
| "stablecoin_compliance_hook env signers (SetUserCompliance ctx allowlisted blocked active) accs =
     set_user_compliance env signers ctx allowlisted blocked active accs"
| "stablecoin_compliance_hook env signers (SetTransferLimits ctx max_amount daily) accs =
     set_transfer_limits env signers ctx max_amount daily accs"
| "stablecoin_compliance_hook env signers (SetHookPaused ctx paused) accs =
     set_protocol_paused env signers ctx paused accs"
| "stablecoin_compliance_hook env signers (HookFallback infos data) accs =
     execute_fallback env infos data accs"

end
