(* ===== verification/Compliance_Properties.thy ===== *)
theory Compliance_Properties
  imports Compliance_Hook Security_Invariants Anchor_Demo
begin

text \<open>
  The transfer hook against its policy, and the daily limit over whole runs of the hook program in
  which the admin's instructions and transfers of all users interleave.
\<close>

section \<open>The policy\<close>

text \<open>What a profile has already transferred on a day.\<close>

definition spent_on :: "int \<Rightarrow> user_compliance \<Rightarrow> nat" where
  "spent_on day u = (if ucp_current_day u = day then unat (ucp_transferred_today u) else 0)"

definition profile_matches :: "user_compliance \<Rightarrow> pubkey \<Rightarrow> compliance_config \<Rightarrow> pubkey \<Rightarrow> bool" where
  "profile_matches u config_key c user \<longleftrightarrow>
     ucp_config u = config_key \<and> ucp_mint u = ccf_mint c \<and> ucp_user u = user"

definition hook_addresses :: "hook_env \<Rightarrow> account_info list \<Rightarrow> bool" where
  "hook_addresses env infos \<longleftrightarrow>
     (let pda = (\<lambda>seeds. fst (find_pda (he_anchor env) seeds)); mint = ai_key (infos ! 1) in
      map ai_key (take 4 (drop 4 infos)) =
        [pda (extra_account_metas_seeds mint), pda (compliance_config_seeds mint),
         pda (user_compliance_seeds mint (ai_key (infos ! 0))),
         pda (user_compliance_seeds mint (ai_key (infos ! 2)))])"

text \<open>The policy: the accounts are the derived ones, the protocol runs, the limits hold and both sides may
  take part.\<close>

definition hook_allows ::
  "hook_env \<Rightarrow> account_info list \<Rightarrow> u64 \<Rightarrow> hook_store \<Rightarrow> compliance_config \<Rightarrow> user_compliance
    \<Rightarrow> user_compliance \<Rightarrow> int \<Rightarrow> bool" where
  "hook_allows env infos amount accs c s d now \<longleftrightarrow>
     8 \<le> length infos \<and> hook_addresses env infos \<and> ai_writable (infos ! 6) \<and>
     accs (ai_key (infos ! 5)) = Some (ComplianceConfigAcc c) \<and>
     accs (ai_key (infos ! 6)) = Some (UserComplianceAcc s) \<and>
     accs (ai_key (infos ! 7)) = Some (UserComplianceAcc d) \<and>
     ccf_mint c = ai_key (infos ! 1) \<and> \<not> ccf_paused c \<and>
     profile_matches s (ai_key (infos ! 5)) c (ai_key (infos ! 0)) \<and>
     profile_matches d (ai_key (infos ! 5)) c (ai_key (infos ! 2)) \<and>
     ucp_allowlisted s \<and> ucp_allowlisted d \<and> \<not> ucp_blocked s \<and> \<not> ucp_blocked d \<and> ucp_issuer_active s \<and>
     he_clock env = Some now \<and> amount \<le> ccf_max_transfer_amount c \<and>
     spent_on (now sdiv seconds_per_day) s + unat amount \<le> unat (ccf_daily_transfer_limit c)"

lemma as_hook_accounts [simp]:
  "as_compliance_config a = Some c \<longleftrightarrow> a = ComplianceConfigAcc c"
  "as_user_compliance a = Some u \<longleftrightarrow> a = UserComplianceAcc u"
  by (cases a; auto)+

lemma deserialize_ok [checked_ok]:
  "deserialize_account as_compliance_config accs info = Inr c \<longleftrightarrow>
     accs (ai_key info) = Some (ComplianceConfigAcc c)"
  "deserialize_account as_user_compliance accs info = Inr u \<longleftrightarrow> accs (ai_key info) = Some (UserComplianceAcc u)"
  by (auto simp: deserialize_account_def checked_ok)

lemma serialize_ok [checked_ok]:
  "serialize_account a accs info = Inr accs' \<longleftrightarrow> ai_writable info \<and> accs' = accs(ai_key info \<mapsto> a)"
  by (auto simp: serialize_account_def checked_ok)

lemma validate_profile_ok [checked_ok]:
  "validate_profile u k c user = Inr r \<longleftrightarrow> profile_matches u k c user"
  by (auto simp: validate_profile_def profile_matches_def checked_ok)

lemma count_transfer_ok [checked_ok]:
  "count_transfer day amount c u = Inr u' \<longleftrightarrow>
     spent_on day u + unat amount \<le> unat (ccf_daily_transfer_limit c) \<and>
     u' = u\<lparr>ucp_current_day := day, ucp_transferred_today := of_nat (spent_on day u + unat amount)\<rparr>"
proof -
  have lt: "unat (ccf_daily_transfer_limit c) < 2 ^ 64"
    using unsigned_less [of "ccf_daily_transfer_limit c", where ?'a = nat] by simp
  show ?thesis
  proof (cases "spent_on day u + unat amount < 2 ^ 64")
    case True
    then have u: "unat (of_nat (spent_on day u + unat amount) :: u64) = spent_on day u + unat amount"
      by (simp only: unat_of_nat) simp
    have a: "checked_add (ucp_transferred_today (if ucp_current_day u \<noteq> day
        then u\<lparr>ucp_current_day := day, ucp_transferred_today := 0\<rparr> else u)) amount =
        Some (of_nat (spent_on day u + unat amount))"
      unfolding checked_add_Some u by (simp add: spent_on_def)
    show ?thesis
      unfolding count_transfer_def Let_def a
      using u by (cases u) (auto simp: require_ok and_then_ok word_le_nat_alt)
  next
    case False
    then have "checked_add (ucp_transferred_today (if ucp_current_day u \<noteq> day
        then u\<lparr>ucp_current_day := day, ucp_transferred_today := 0\<rparr> else u)) amount = None"
      unfolding checked_add_None by (auto simp: spent_on_def)
    with False lt show ?thesis unfolding count_transfer_def Let_def by simp
  qed
qed

lemma check_hook_addresses_ok [checked_ok]:
  "8 \<le> length infos \<Longrightarrow>
     check_hook_addresses env infos data = Inr u \<longleftrightarrow> hook_addresses env infos \<and> he_unpack env data \<noteq> None"
proof -
  assume "8 \<le> length infos"
  then have "take 4 (drop 4 infos) = [infos ! 4, infos ! 5, infos ! 6, infos ! 7]"
    by (intro nth_equalityI) (auto simp: less_Suc_eq numeral_eq_Suc)
  then show ?thesis by (auto simp: check_hook_addresses_def hook_addresses_def Let_def checked_ok)
qed

lemma execute_ok:
  assumes "he_unpack env data = Some (HookExecute amount)"
  shows "execute_transfer_hook env infos data amount accs = Inr accs' \<longleftrightarrow>
    (\<exists>c s d now. hook_allows env infos amount accs c s d now \<and>
       accs' = accs(ai_key (infos ! 6) \<mapsto> UserComplianceAcc
         (s\<lparr>ucp_current_day := now sdiv seconds_per_day,
            ucp_transferred_today := of_nat (spent_on (now sdiv seconds_per_day) s + unat amount)\<rparr>)))"
proof (cases "8 \<le> length infos")
  case False
  then show ?thesis by (simp add: execute_transfer_hook_def hook_allows_def)
next
  case True
  show ?thesis
    unfolding execute_transfer_hook_def Let_def hook_allows_def
    using True assms
    by (simp add: and_then_ok require_ok check_hook_addresses_ok deserialize_ok validate_profile_ok ok_or_ok
        count_transfer_ok serialize_ok) blast
qed

text \<open>C22: The hook lets a transfer pass exactly when its policy allows it (the derived accounts, no pause, the
  per-transfer and daily limits, both profiles allowlisted and not blocked, the source's issuer active),
  and its only effect is to count the amount on the source's profile.\<close>

theorem hook_enforces_policy:
  "execute_fallback env infos data accs = Inr accs' \<longleftrightarrow>
    (\<exists>amount c s d now. he_unpack env data = Some (HookExecute amount) \<and>
       hook_allows env infos amount accs c s d now \<and>
       accs' = accs(ai_key (infos ! 6) \<mapsto> UserComplianceAcc
         (s\<lparr>ucp_current_day := now sdiv seconds_per_day,
            ucp_transferred_today := of_nat (spent_on (now sdiv seconds_per_day) s + unat amount)\<rparr>)))"
  by (cases "he_unpack env data"; cases "the (he_unpack env data)")
    (simp_all add: execute_fallback_def execute_ok)

section \<open>The daily limit over runs\<close>

text \<open>A transaction carries the clock's reading.\<close>

type_synonym hook_transaction = "int \<times> pubkey list \<times> hook_instruction"

fun hook_exec :: "hook_env \<Rightarrow> hook_transaction \<Rightarrow> hook_store \<Rightarrow> hook_result" where
  "hook_exec env (now, signers, i) accs = stablecoin_compliance_hook (env\<lparr>he_clock := Some now\<rparr>) signers i accs"

text \<open>What a transaction moves on a day from the account with the profile \<open>k\<close>, and a run in all.\<close>

definition transfer_of :: "hook_env \<Rightarrow> int \<Rightarrow> pubkey \<Rightarrow> hook_transaction \<Rightarrow> nat" where
  "transfer_of env day k tx =
     (case tx of
        (now, _, HookFallback infos data) \<Rightarrow>
          (case he_unpack env data of
             Some (HookExecute amount) \<Rightarrow>
               if ai_key (infos ! 6) = k \<and> now sdiv seconds_per_day = day then unat amount else 0
           | _ \<Rightarrow> 0)
      | _ \<Rightarrow> 0)"

fun moved_on :: "hook_env \<Rightarrow> int \<Rightarrow> pubkey \<Rightarrow> hook_transaction list \<Rightarrow> hook_store \<Rightarrow> nat" where
  "moved_on env day k [] accs = 0"
| "moved_on env day k (tx # rest) accs =
     (case hook_exec env tx accs of
        Inl _ \<Rightarrow> moved_on env day k rest accs
      | Inr accs' \<Rightarrow> transfer_of env day k tx + moved_on env day k rest accs')"

fun limits_within :: "nat \<Rightarrow> hook_instruction \<Rightarrow> bool" where
  "limits_within L (InitializeComplianceConfig _ _ daily) \<longleftrightarrow> unat daily \<le> L"
| "limits_within L (SetTransferLimits _ _ daily) \<longleftrightarrow> unat daily \<le> L"
| "limits_within L _ \<longleftrightarrow> True"

definition store_limits :: "nat \<Rightarrow> hook_store \<Rightarrow> bool" where
  "store_limits L accs \<longleftrightarrow>
     (\<forall>k c. accs k = Some (ComplianceConfigAcc c) \<longrightarrow> unat (ccf_daily_transfer_limit c) \<le> L)"

fun spent_in :: "int \<Rightarrow> hook_account option \<Rightarrow> nat" where
  "spent_in day (Some (UserComplianceAcc u)) = spent_on day u" | "spent_in day _ = 0"

fun day_in :: "hook_account option \<Rightarrow> int" where
  "day_in (Some (UserComplianceAcc u)) = ucp_current_day u" | "day_in _ = 0"

text \<open>The admin's instructions do not touch what a profile has counted.\<close>

lemma load_compliance_config_ok [checked_ok]:
  "load_compliance_config env signers accs admin k mint = Inr c \<longleftrightarrow> admin \<in> set signers \<and>
     accs k = Some (ComplianceConfigAcc c) \<and>
     create_pda env (compliance_config_seeds (mint c)) (ccf_bump c) = Some k \<and> ccf_admin c = admin"
  by (auto simp: load_compliance_config_def checked_ok)

lemma admin_instruction_keeps:
  assumes "stablecoin_compliance_hook env signers i accs = Inr accs'" and "\<And>infos data. i \<noteq> HookFallback infos data"
  shows "spent_in day (accs' k) = spent_in day (accs k) \<and> day_in (accs' k) = day_in (accs k)"
proof (cases i)
  case (InitializeComplianceConfig ctx m d)
  with assms(1) obtain c where "accs (ic_config ctx) = None" "accs' = accs(ic_config ctx \<mapsto> ComplianceConfigAcc c)"
    by (auto simp: initialize_compliance_config_def checked_ok)
  then show ?thesis by simp
next
  case (InitializeExtraMetas ctx)
  with assms(1) obtain ms where "accs (em_list ctx) = None" "accs' = accs(em_list ctx \<mapsto> ExtraMetasAcc ms)"
    by (auto simp: initialize_extra_account_meta_list_def checked_ok)
  then show ?thesis by simp
next
  case (SetUserCompliance ctx a b c)
  let ?k = "su_user_compliance ctx"
  from SetUserCompliance assms(1) obtain u bump where
    u: "accs ?k = None \<and> u = zero_user_compliance \<or> accs ?k = Some (UserComplianceAcc u)"
    and u': "accs' = accs(?k \<mapsto> UserComplianceAcc
         (u\<lparr>ucp_config := su_config ctx, ucp_mint := su_mint ctx, ucp_user := su_user ctx,
            ucp_allowlisted := a, ucp_blocked := b, ucp_issuer_active := c, ucp_bump := bump\<rparr>))"
    by (auto simp: set_user_compliance_def checked_ok)
  from u have "spent_in day (accs ?k) = spent_on day u \<and> day_in (accs ?k) = ucp_current_day u"
    by (auto simp: zero_user_compliance_def spent_on_def)
  then show ?thesis using u' by (simp add: spent_on_def)
next
  case (SetTransferLimits ctx m d)
  with assms(1) obtain c c' where "accs (ca_config ctx) = Some (ComplianceConfigAcc c)"
    "accs' = accs(ca_config ctx \<mapsto> ComplianceConfigAcc c')"
    by (auto simp: set_transfer_limits_def checked_ok)
  then show ?thesis by simp
next
  case (SetHookPaused ctx p)
  with assms(1) obtain c c' where "accs (ca_config ctx) = Some (ComplianceConfigAcc c)"
    "accs' = accs(ca_config ctx \<mapsto> ComplianceConfigAcc c')"
    by (auto simp: set_protocol_paused_def checked_ok)
  then show ?thesis by simp
qed (use assms(2) in auto)

lemma fallback_effect:
  assumes "execute_fallback env infos data accs = Inr accs'"
  obtains amount c s now u' where "he_unpack env data = Some (HookExecute amount)"
    "he_clock env = Some now" "accs (ai_key (infos ! 5)) = Some (ComplianceConfigAcc c)"
    "accs (ai_key (infos ! 6)) = Some (UserComplianceAcc s)"
    "spent_on (now sdiv seconds_per_day) s + unat amount \<le> unat (ccf_daily_transfer_limit c)"
    "accs' = accs(ai_key (infos ! 6) \<mapsto> UserComplianceAcc u')"
    "ucp_current_day u' = now sdiv seconds_per_day"
    "unat (ucp_transferred_today u') = spent_on (now sdiv seconds_per_day) s + unat amount"
proof -
  from assms obtain amount where a: "he_unpack env data = Some (HookExecute amount)"
    by (cases "he_unpack env data"; cases "the (he_unpack env data)") (simp_all add: execute_fallback_def)
  with assms obtain c s d now where al: "hook_allows env infos amount accs c s d now"
    and u: "accs' = accs(ai_key (infos ! 6) \<mapsto> UserComplianceAcc
         (s\<lparr>ucp_current_day := now sdiv seconds_per_day,
            ucp_transferred_today := of_nat (spent_on (now sdiv seconds_per_day) s + unat amount)\<rparr>))"
    by (auto simp: execute_fallback_def execute_ok)
  have le: "spent_on (now sdiv seconds_per_day) s + unat amount \<le> unat (ccf_daily_transfer_limit c)"
    using al by (simp add: hook_allows_def)
  then have lt: "spent_on (now sdiv seconds_per_day) s + unat amount < 2 ^ 64"
    using unsigned_less [of "ccf_daily_transfer_limit c", where ?'a = nat] by simp
  have n: "unat (of_nat (spent_on (now sdiv seconds_per_day) s + unat amount) :: u64) =
      spent_on (now sdiv seconds_per_day) s + unat amount"
    using lt by (simp only: unat_of_nat) simp
  from al have "he_clock env = Some now" "accs (ai_key (infos ! 5)) = Some (ComplianceConfigAcc c)"
    "accs (ai_key (infos ! 6)) = Some (UserComplianceAcc s)"
    unfolding hook_allows_def by blast+
  from that [OF a this le u] n show thesis by (simp del: of_nat_add)
qed

lemma store_limits_step:
  assumes "hook_exec env (now, signers, i) accs = Inr accs'" and "store_limits L accs" and "limits_within L i"
  shows "store_limits L accs'"
proof (cases i)
  case (HookFallback infos data)
  with assms(1) have "execute_fallback (env\<lparr>he_clock := Some now\<rparr>) infos data accs = Inr accs'" by simp
  then show ?thesis by (rule fallback_effect) (use assms(2) in \<open>auto simp: store_limits_def\<close>)
qed (use assms in \<open>auto simp: initialize_compliance_config_def initialize_extra_account_meta_list_def
      set_user_compliance_def set_transfer_limits_def set_protocol_paused_def checked_ok store_limits_def
      split: if_splits\<close>)

lemma spent_step:
  assumes "hook_exec env (now, signers, i) accs = Inr accs'" and "store_limits L accs"
  shows "transfer_of env day k (now, signers, i) = 0 \<and> spent_in day (accs' k) = spent_in day (accs k) \<and>
      day_in (accs' k) = day_in (accs k) \<or>
    day_in (accs' k) = now sdiv seconds_per_day \<and>
      (if now sdiv seconds_per_day = day
       then spent_in day (accs' k) = spent_in day (accs k) + transfer_of env day k (now, signers, i) \<and>
         spent_in day (accs' k) \<le> L
       else spent_in day (accs' k) = 0 \<and> transfer_of env day k (now, signers, i) = 0)"
proof (cases i)
  case (HookFallback infos data)
  with assms(1) have e: "execute_fallback (env\<lparr>he_clock := Some now\<rparr>) infos data accs = Inr accs'" by simp
  obtain amount c s u' where
    f: "he_unpack env data = Some (HookExecute amount)"
      "accs (ai_key (infos ! 5)) = Some (ComplianceConfigAcc c)"
      "accs (ai_key (infos ! 6)) = Some (UserComplianceAcc s)"
      "spent_on (now sdiv seconds_per_day) s + unat amount \<le> unat (ccf_daily_transfer_limit c)"
      "accs' = accs(ai_key (infos ! 6) \<mapsto> UserComplianceAcc u')"
      "ucp_current_day u' = now sdiv seconds_per_day"
      "unat (ucp_transferred_today u') = spent_on (now sdiv seconds_per_day) s + unat amount"
    by (rule fallback_effect [OF e]) (rule that; simp)
  have L: "unat (ccf_daily_transfer_limit c) \<le> L" using assms(2) f(2) by (simp add: store_limits_def)
  show ?thesis
  proof (cases "k = ai_key (infos ! 6)")
    case True
    with f L show ?thesis by (auto simp: HookFallback transfer_of_def spent_on_def)
  next
    case False
    with f show ?thesis by (simp add: HookFallback transfer_of_def)
  qed
qed (use assms(1) admin_instruction_keeps [of "env\<lparr>he_clock := Some now\<rparr>" signers i accs accs' day k] in
    \<open>auto simp: transfer_of_def\<close>)

lemma day_nonneg: "0 \<le> t \<Longrightarrow> t sdiv seconds_per_day = t div seconds_per_day"
  by (cases "t = 0") (simp_all add: seconds_per_day_def signed_divide_int_def)

lemma days_ordered: "0 \<le> t \<Longrightarrow> t \<le> t' \<Longrightarrow> t sdiv seconds_per_day \<le> t' sdiv seconds_per_day"
  using zdiv_mono1 [of t t' seconds_per_day] by (simp add: day_nonneg) (simp add: seconds_per_day_def)

lemma moved_later:
  assumes "\<And>tx. tx \<in> set txs \<Longrightarrow> day < fst tx sdiv seconds_per_day"
  shows "moved_on env day k txs accs = 0"
  using assms
proof (induction txs arbitrary: accs)
  case (Cons tx txs)
  have "transfer_of env day k tx = 0"
    using Cons.prems [of tx] by (auto simp: transfer_of_def split: prod.split hook_instruction.split option.split
        transfer_hook_instruction.split)
  then show ?case using Cons by (auto split: sum.split)
qed simp

lemma moved_bounded:
  assumes "store_limits L accs" and "list_all (\<lambda>(now, signers, i). limits_within L i) txs"
    and "sorted (map fst txs)" and "list_all (\<lambda>tx. 0 \<le> fst tx \<and> day_in (accs k) \<le> fst tx sdiv seconds_per_day) txs"
  shows "moved_on env day k txs accs = 0 \<or> moved_on env day k txs accs + spent_in day (accs k) \<le> L"
  using assms
proof (induction txs arbitrary: accs)
  case (Cons tx txs)
  obtain now signers i where tx: "tx = (now, signers, i)" by (cases tx)
  show ?case
  proof (cases "hook_exec env tx accs")
    case (Inl e)
    then show ?thesis using Cons by auto
  next
    case (Inr accs')
    have later: "now sdiv seconds_per_day \<le> fst t sdiv seconds_per_day" "0 \<le> fst t" if "t \<in> set txs" for t
      using Cons.prems(3,4) that tx by (auto simp: list_all_iff intro: days_ordered)
    have lim: "store_limits L accs'"
      by (rule store_limits_step) (use Inr Cons.prems tx in auto)
    note step = spent_step [OF Inr [unfolded tx] Cons.prems(1), of day k]
    have days: "list_all (\<lambda>t. 0 \<le> fst t \<and> day_in (accs' k) \<le> fst t sdiv seconds_per_day) txs"
      using step later Cons.prems(4) by (auto simp: list_all_iff split: if_splits)
    have IH: "moved_on env day k txs accs' = 0 \<or> moved_on env day k txs accs' + spent_in day (accs' k) \<le> L"
      by (rule Cons.IH [OF lim _ _ days]) (use Cons.prems in auto)
    have m: "moved_on env day k (tx # txs) accs =
        transfer_of env day k (now, signers, i) + moved_on env day k txs accs'"
      using Inr by (simp add: tx)
    show ?thesis
    proof (cases "day < now sdiv seconds_per_day")
      case True
      then have "moved_on env day k (tx # txs) accs = 0"
        using later by (intro moved_later) (auto simp: tx intro: less_le_trans)
      then show ?thesis by simp
    next
      case False
      have "day_in (accs k) \<le> now sdiv seconds_per_day" using Cons.prems(4) by (simp add: tx)
      then have "now sdiv seconds_per_day \<noteq> day \<Longrightarrow> spent_in day (accs k) = 0"
        using False by (cases "accs k"; cases "the (accs k)") (auto simp: spent_on_def)
      with step IH show ?thesis unfolding m by (auto split: if_splits)
    qed
  qed
qed simp

section \<open>A run of the hook program\<close>

text \<open>Mint 50 with the limits 60 and 100, users 7 and 8, and transfers from 7 to 8 on days 3 and 4.\<close>

definition demo_hook :: hook_env where
  "demo_hook = \<lparr>he_anchor = demo_env, he_clock = None, he_minimum_balance = (\<lambda>_. Some 1),
     he_pack_seeds = (\<lambda>_. True), he_init_metas = (\<lambda>_. True),
     he_unpack = (\<lambda>data. case data of [] \<Rightarrow> None | b # _ \<Rightarrow> Some (HookExecute (ucast b)))\<rparr>"

definition demo_infos :: "account_info list" where
  "demo_infos = map (\<lambda>k. \<lparr>ai_key = k, ai_writable = k = 478234\<rparr>) [7, 50, 8, 7, 334967, 132267, 478234, 628829]"

definition demo_hook_run :: "hook_transaction list" where
  "demo_hook_run =
     [(0, [1], InitializeComplianceConfig \<lparr>ic_admin = 1, ic_config = 132267, ic_mint = 50\<rparr> 60 100),
      (0, [1], SetUserCompliance
        \<lparr>su_admin = 1, su_config = 132267, su_user_compliance = 478234, su_user = 7, su_mint = 50\<rparr> True False True),
      (0, [1], SetUserCompliance
        \<lparr>su_admin = 1, su_config = 132267, su_user_compliance = 628829, su_user = 8, su_mint = 50\<rparr> True False True),
      (259200, [], HookFallback demo_infos [60]),
      (259210, [], HookFallback demo_infos [60]),
      (259220, [], HookFallback demo_infos [40]),
      (345600, [], HookFallback demo_infos [60])]"

lemma demo_hook_addresses [simp]:
  "demo_hash (compliance_config_seeds 50) = 132267"
  "demo_hash (user_compliance_seeds 50 7) = 478234"
  "demo_hash (user_compliance_seeds 50 8) = 628829"
  "demo_hash (extra_account_metas_seeds 50) = 334967"
  by code_simp+

definition demo_ccf :: compliance_config where
  "demo_ccf = \<lparr>ccf_admin = 1, ccf_mint = 50, ccf_max_transfer_amount = 60, ccf_daily_transfer_limit = 100,
     ccf_paused = False, ccf_bump = 255\<rparr>"
definition demo_ucp :: "pubkey \<Rightarrow> int \<Rightarrow> u64 \<Rightarrow> user_compliance" where
  "demo_ucp user day spent = \<lparr>ucp_config = 132267, ucp_mint = 50, ucp_user = user, ucp_allowlisted = True,
     ucp_blocked = False, ucp_issuer_active = True, ucp_transferred_today = spent, ucp_current_day = day,
     ucp_bump = 255\<rparr>"

definition demo_hook0 :: hook_store where "demo_hook0 = [132267 \<mapsto> ComplianceConfigAcc demo_ccf]"
definition demo_hook1 :: hook_store where
  "demo_hook1 = demo_hook0(478234 \<mapsto> UserComplianceAcc (demo_ucp 7 0 0))"
text \<open>The store when the source has moved \<open>spent\<close> on \<open>day\<close>.\<close>
definition demo_hook2 :: "int \<Rightarrow> u64 \<Rightarrow> hook_store" where
  "demo_hook2 day spent = demo_hook0(628829 \<mapsto> UserComplianceAcc (demo_ucp 8 0 0),
     478234 \<mapsto> UserComplianceAcc (demo_ucp 7 day spent))"

lemmas demo_hook_eval = demo_hook_run_def demo_hook_def demo_infos_def demo_ccf_def demo_ucp_def demo_hook0_def demo_hook1_def demo_hook2_def
  need_signer_def check_seeds_def check_seeds_bump_def load_def init_fresh_def init_needed_def
  load_compliance_config_def zero_user_compliance_def

lemmas demo_transfer_eval = execute_fallback_def execute_transfer_hook_def check_hook_addresses_def
  deserialize_account_def validate_profile_def count_transfer_def serialize_account_def checked_add_def
  seconds_per_day_def signed_divide_int_def

lemma demo_hook_admin:
  "hook_exec demo_hook (demo_hook_run ! 0) (\<lambda>_. None) = Inr demo_hook0"
  "hook_exec demo_hook (demo_hook_run ! 1) demo_hook0 = Inr demo_hook1"
  "hook_exec demo_hook (demo_hook_run ! 2) demo_hook1 = Inr (demo_hook2 0 0)"
    apply (simp add: demo_hook_eval initialize_compliance_config_def)
   apply (simp add: demo_hook_eval set_user_compliance_def)
  by (simp add: demo_hook_eval set_user_compliance_def fun_upd_twist)

lemma demo_hook_transfers:
  "hook_exec demo_hook (demo_hook_run ! 3) (demo_hook2 0 0) = Inr (demo_hook2 3 60)"
  "hook_exec demo_hook (demo_hook_run ! 4) (demo_hook2 3 60) = Inl (Custom DailyLimitExceeded)"
  "hook_exec demo_hook (demo_hook_run ! 5) (demo_hook2 3 60) = Inr (demo_hook2 3 100)"
  "hook_exec demo_hook (demo_hook_run ! 6) (demo_hook2 3 100) = Inr (demo_hook2 4 60)"
  by (simp_all add: demo_hook_eval demo_transfer_eval)

lemma demo_hook_moved: "moved_on demo_hook 3 478234 demo_hook_run (\<lambda>_. None) = 100"
proof -
  have "demo_hook_run = map ((!) demo_hook_run) [0, 1, 2, 3, 4, 5, 6]" by (simp add: demo_hook_run_def)
  then have "moved_on demo_hook 3 478234 demo_hook_run (\<lambda>_. None) =
      moved_on demo_hook 3 478234 (map ((!) demo_hook_run) [0, 1, 2, 3, 4, 5, 6]) (\<lambda>_. None)" by (rule arg_cong)
  also have "\<dots> = sum_list (map (\<lambda>n. transfer_of demo_hook 3 478234 (demo_hook_run ! n)) [0, 1, 2, 3, 5, 6])"
    by (simp only: list.map moved_on.simps demo_hook_admin demo_hook_transfers sum.case sum_list.Cons
        sum_list.Nil)
  also have "\<dots> = 100"
    by (simp add: transfer_of_def demo_hook_eval seconds_per_day_def signed_divide_int_def)
  finally show ?thesis .
qed

text \<open>C23: Over any run from deployment, with the clock going forward and every daily limit ever set at most
  \<open>L\<close>, what an account moves through the hook on one day is at most \<open>L\<close>, however transfers, limits,
  pauses and profile changes interleave.\<close>

theorem hook_daily_limit:
  assumes "sorted (0 # map fst txs)" and "list_all (\<lambda>(now, signers, i). limits_within L i) txs"
  shows "moved_on env day k txs (\<lambda>_. None) \<le> L"
proof -
  have "list_all (\<lambda>tx. 0 \<le> fst tx \<and> day_in None \<le> fst tx sdiv seconds_per_day) txs"
    unfolding list_all_iff
  proof (intro ballI conjI)
    fix tx assume "tx \<in> set txs"
    then show "0 \<le> fst tx" using assms(1) by auto
    then show "day_in None \<le> fst tx sdiv seconds_per_day"
      by (simp add: day_nonneg) (simp add: seconds_per_day_def pos_imp_zdiv_nonneg_iff)
  qed
  then have "moved_on env day k txs (\<lambda>_. None) = 0 \<or> moved_on env day k txs (\<lambda>_. None) + spent_in day None \<le> L"
    using moved_bounded [of L "\<lambda>_. None" txs k env day] assms by (simp add: store_limits_def)
  then show ?thesis by auto
qed

theorem hook_daily_limit_witness:
  "moved_on demo_hook 3 478234 demo_hook_run (\<lambda>_. None) \<le> 100 \<and>
   moved_on demo_hook 3 478234 demo_hook_run (\<lambda>_. None) = 100"
proof
  show "moved_on demo_hook 3 478234 demo_hook_run (\<lambda>_. None) \<le> 100"
    by (rule hook_daily_limit) (simp_all add: demo_hook_run_def)
qed (rule demo_hook_moved)

end
