(* ===== verification/Hook_Resolution.thy ===== *)
theory Hook_Resolution
  imports Compliance_Properties
begin

text \<open>
  The two halves of \<open>stablecoin_compliance_hook\<close> meet in the token program: \<open>admin.rs\<close> writes the
  list of extra accounts, the token program resolves the list in every transfer, and \<open>execute.rs\<close>
  recomputes the addresses of the accounts it gets.  The resolution is code of other packages; what
  it is documented to do is the predicate \<open>resolved\<close>.
\<close>

section \<open>Resolving the extra accounts\<close>

fun seed_bytes :: "account_info list \<Rightarrow> meta_seed \<Rightarrow> u8 list" where
  "seed_bytes infos (SeedLiteral bs) = bs"
| "seed_bytes infos (SeedAccountKey i) = key_bytes (ai_key (infos ! i))"

text \<open>The accounts of a hook call: source, mint, destination, authority, the validation account and one
  account for each entry, at the address of the hook program that the seeds derive, with the flag
  of the entry.\<close>

definition resolved :: "hook_env \<Rightarrow> extra_account_meta list \<Rightarrow> account_info list \<Rightarrow> bool" where
  "resolved env metas infos \<longleftrightarrow> length infos = 5 + length metas \<and>
     (\<forall>i < length metas.
        ai_key (infos ! (5 + i)) =
          fst (find_pda (he_anchor env) (map (seed_bytes infos) (eam_seeds (metas ! i)))) \<and>
        ai_writable (infos ! (5 + i)) = eam_writable (metas ! i))"

section \<open>What the accounts of the hook hold\<close>

definition hook_pda :: "hook_env \<Rightarrow> u8 list list \<Rightarrow> pubkey" where
  "hook_pda env seeds = fst (find_pda (he_anchor env) seeds)"

fun hook_account_typed :: "hook_env \<Rightarrow> pubkey \<Rightarrow> hook_account \<Rightarrow> bool" where
  "hook_account_typed env k (ComplianceConfigAcc c) \<longleftrightarrow> k = hook_pda env (compliance_config_seeds (ccf_mint c))"
| "hook_account_typed env k (UserComplianceAcc u) \<longleftrightarrow>
     k = hook_pda env (user_compliance_seeds (ucp_mint u) (ucp_user u)) \<and>
     ucp_config u = hook_pda env (compliance_config_seeds (ucp_mint u))"
| "hook_account_typed env k (ExtraMetasAcc metas) \<longleftrightarrow> hook_extra_metas env = Inr metas"

definition hook_typed :: "hook_env \<Rightarrow> hook_store \<Rightarrow> bool" where
  "hook_typed env accs \<longleftrightarrow> (\<forall>k a. accs k = Some a \<longrightarrow> hook_account_typed env k a)"

lemma hook_typed_update: "hook_typed env accs \<Longrightarrow> hook_account_typed env k a \<Longrightarrow> hook_typed env (accs(k \<mapsto> a))"
  by (simp add: hook_typed_def)

lemma clock_pda [simp]: "hook_pda (env\<lparr>he_clock := t\<rparr>) seeds = hook_pda env seeds"
  by (simp add: hook_pda_def)

lemma clock_metas [simp]: "hook_extra_metas (env\<lparr>he_clock := t\<rparr>) = hook_extra_metas env"
  by (simp add: hook_extra_metas_def meta_new_with_seeds_def)

lemma clock_account_typed [simp]: "hook_account_typed (env\<lparr>he_clock := t\<rparr>) k a = hook_account_typed env k a"
  by (cases a) (simp_all only: hook_account_typed.simps clock_pda clock_metas)

lemma clock_typed [simp]: "hook_typed (env\<lparr>he_clock := t\<rparr>) accs = hook_typed env accs"
  by (simp add: hook_typed_def)

lemma typed_config:
  "hook_typed env accs \<Longrightarrow> accs k = Some (ComplianceConfigAcc c) \<Longrightarrow>
     k = hook_pda env (compliance_config_seeds (ccf_mint c))"
  by (fastforce simp: hook_typed_def)

lemma typed_user:
  "hook_typed env accs \<Longrightarrow> accs k = Some (UserComplianceAcc u) \<Longrightarrow>
     k = hook_pda env (user_compliance_seeds (ucp_mint u) (ucp_user u)) \<and>
     ucp_config u = hook_pda env (compliance_config_seeds (ucp_mint u))"
  by (fastforce simp: hook_typed_def)

lemma hook_typed_step:
  assumes "stablecoin_compliance_hook env signers i accs = Inr accs'" and "hook_typed env accs"
  shows "hook_typed env accs'"
proof (cases i)
  case (InitializeComplianceConfig ctx m d)
  with assms show ?thesis
    by (auto simp: initialize_compliance_config_def checked_ok hook_pda_def intro!: hook_typed_update)
next
  case (InitializeExtraMetas ctx)
  with assms show ?thesis
    by (auto simp: initialize_extra_account_meta_list_def checked_ok intro!: hook_typed_update)
next
  case (SetUserCompliance ctx a b c)
  with assms(1) obtain cf u bump where cf: "accs (su_config ctx) = Some (ComplianceConfigAcc cf)"
      "ccf_mint cf = su_mint ctx"
    and k: "find_pda (he_anchor env) (user_compliance_seeds (su_mint ctx) (su_user ctx)) = (su_user_compliance ctx, bump)"
    and accs': "accs' = accs(su_user_compliance ctx \<mapsto> UserComplianceAcc
         (u\<lparr>ucp_config := su_config ctx, ucp_mint := su_mint ctx, ucp_user := su_user ctx,
            ucp_allowlisted := a, ucp_blocked := b, ucp_issuer_active := c, ucp_bump := bump\<rparr>))"
    by (auto simp: set_user_compliance_def checked_ok)
  from typed_config [OF assms(2) cf(1)] cf(2) k show ?thesis
    unfolding accs' by (intro hook_typed_update [OF assms(2)]) (simp add: hook_pda_def)
next
  case (SetTransferLimits ctx m d)
  with assms typed_config [OF assms(2)] show ?thesis
    by (auto simp: set_transfer_limits_def checked_ok intro!: hook_typed_update)
next
  case (SetHookPaused ctx p)
  with assms typed_config [OF assms(2)] show ?thesis
    by (auto simp: set_protocol_paused_def checked_ok intro!: hook_typed_update)
next
  case (HookFallback infos data)
  with assms(1) obtain amount c s d now where "hook_allows env infos amount accs c s d now"
    "accs' = accs(ai_key (infos ! 6) \<mapsto> UserComplianceAcc
         (s\<lparr>ucp_current_day := now sdiv seconds_per_day,
            ucp_transferred_today := of_nat (spent_on (now sdiv seconds_per_day) s + unat amount)\<rparr>))"
    by (cases "he_unpack env data"; cases "the (he_unpack env data)") (auto simp: execute_fallback_def execute_ok)
  with assms(2) typed_user [OF assms(2), of "ai_key (infos ! 6)" s] show ?thesis
    by (auto simp: hook_allows_def simp del: of_nat_add intro!: hook_typed_update)
qed

interpretation hook_types: stable_program "hook_exec env" "hook_typed env" for env
proof
  fix s s' i
  assume "hook_typed env s" "hook_exec env i s = Inr s'"
  then show "hook_typed env s'"
    using hook_typed_step [of "env\<lparr>he_clock := Some (fst i)\<rparr>" "fst (snd i)" "snd (snd i)" s s'] by (cases i) simp
qed

section \<open>A resolved list satisfies the hook\<close>

lemma hook_extra_metas_ok [checked_ok]:
  "hook_extra_metas env = Inr metas \<Longrightarrow> metas =
     [\<lparr>eam_seeds = [SeedLiteral compliance_config_seed, SeedAccountKey 1], eam_signer = False, eam_writable = False\<rparr>,
      \<lparr>eam_seeds = [SeedLiteral user_compliance_seed, SeedAccountKey 1, SeedAccountKey 0],
       eam_signer = False, eam_writable = True\<rparr>,
      \<lparr>eam_seeds = [SeedLiteral user_compliance_seed, SeedAccountKey 1, SeedAccountKey 2],
       eam_signer = False, eam_writable = False\<rparr>]"
  by (auto simp: hook_extra_metas_def meta_new_with_seeds_def checked_ok)

lemma resolved_addresses:
  assumes "hook_extra_metas env = Inr metas" and "resolved env metas infos"
    and "ai_key (infos ! 4) = hook_pda env (extra_account_metas_seeds (ai_key (infos ! 1)))"
  shows "8 \<le> length infos \<and> hook_addresses env infos \<and> ai_writable (infos ! 6)"
proof -
  note m = hook_extra_metas_ok [OF assms(1)]
  have l: "length infos = 8" using assms(2) by (simp add: resolved_def m)
  have r: "ai_key (infos ! (5 + i)) = fst (find_pda (he_anchor env) (map (seed_bytes infos) (eam_seeds (metas ! i)))) \<and>
      ai_writable (infos ! (5 + i)) = eam_writable (metas ! i)" if "i < 3" for i
    using assms(2) that by (simp add: resolved_def m)
  have "take 4 (drop 4 infos) = [infos ! 4, infos ! 5, infos ! 6, infos ! 7]"
    using l by (intro nth_equalityI) (auto simp: less_Suc_eq numeral_eq_Suc)
  then show ?thesis
    using r [of 0] r [of 1] r [of 2] assms(3) l
    by (simp add: hook_addresses_def hook_pda_def m compliance_config_seeds_def user_compliance_seeds_def)
qed

text \<open>What is left to decide once the accounts are the right ones: the policy of the mint for the source
  and the destination.\<close>

definition may_transfer ::
  "compliance_config \<Rightarrow> user_compliance \<Rightarrow> user_compliance \<Rightarrow> u64 \<Rightarrow> int \<Rightarrow> bool" where
  "may_transfer c s d amount now \<longleftrightarrow>
     \<not> ccf_paused c \<and> ucp_allowlisted s \<and> ucp_allowlisted d \<and> \<not> ucp_blocked s \<and> \<not> ucp_blocked d \<and>
     ucp_issuer_active s \<and> amount \<le> ccf_max_transfer_amount c \<and>
     spent_on (now sdiv seconds_per_day) s + unat amount \<le> unat (ccf_daily_transfer_limit c)"

definition profile_of :: "hook_env \<Rightarrow> hook_store \<Rightarrow> pubkey \<Rightarrow> pubkey \<Rightarrow> user_compliance \<Rightarrow> bool" where
  "profile_of env accs mint user u \<longleftrightarrow>
     accs (hook_pda env (user_compliance_seeds mint user)) = Some (UserComplianceAcc u) \<and>
     ucp_mint u = mint \<and> ucp_user u = user"

definition config_of :: "hook_env \<Rightarrow> hook_store \<Rightarrow> pubkey \<Rightarrow> compliance_config \<Rightarrow> bool" where
  "config_of env accs mint c \<longleftrightarrow>
     accs (hook_pda env (compliance_config_seeds mint)) = Some (ComplianceConfigAcc c) \<and> ccf_mint c = mint"

lemma resolved_allows:
  assumes "hook_typed env accs" and "8 \<le> length infos \<and> hook_addresses env infos \<and> ai_writable (infos ! 6)"
    and "he_clock env = Some now"
  shows "hook_allows env infos amount accs c s d now \<longleftrightarrow>
    config_of env accs (ai_key (infos ! 1)) c \<and>
    profile_of env accs (ai_key (infos ! 1)) (ai_key (infos ! 0)) s \<and>
    profile_of env accs (ai_key (infos ! 1)) (ai_key (infos ! 2)) d \<and> may_transfer c s d amount now"
proof -
  have t: "take 4 (drop 4 infos) = [infos ! 4, infos ! 5, infos ! 6, infos ! 7]"
    using assms(2) by (intro nth_equalityI) (auto simp: less_Suc_eq numeral_eq_Suc)
  have k: "ai_key (infos ! 5) = hook_pda env (compliance_config_seeds (ai_key (infos ! 1)))"
    "ai_key (infos ! 6) = hook_pda env (user_compliance_seeds (ai_key (infos ! 1)) (ai_key (infos ! 0)))"
    "ai_key (infos ! 7) = hook_pda env (user_compliance_seeds (ai_key (infos ! 1)) (ai_key (infos ! 2)))"
    using assms(2) by (simp_all add: hook_addresses_def Let_def t hook_pda_def)
  have u: "ucp_config u = hook_pda env (compliance_config_seeds (ucp_mint u))"
    if "accs a = Some (UserComplianceAcc u)" for a u
    using typed_user [OF assms(1) that] by simp
  show ?thesis
    unfolding hook_allows_def config_of_def profile_of_def may_transfer_def profile_matches_def k [symmetric]
    using assms(2,3) k(1) u by auto
qed

text \<open>C25: The accounts that the admin lists are the accounts that the hook wants.  Take any run of the hook
  program, and a transfer for which the token program resolves the list that is stored at the
  validation address of the mint.  Then the hook finds every derived account it recomputes, with the
  source's profile writable, so that the transfer passes exactly when the policy of this mint for
  this source and destination allows it; in particular an approved user is never turned away for
  the accounts.\<close>

theorem listed_accounts_serve_hook:
  assumes "accs = run_transactions (hook_exec env) txs (\<lambda>_. None)"
    and "ai_key (infos ! 4) = hook_pda env (extra_account_metas_seeds (ai_key (infos ! 1)))"
    and "accs (ai_key (infos ! 4)) = Some (ExtraMetasAcc metas)" and "resolved env metas infos"
    and "he_unpack env data = Some (HookExecute amount)"
  shows "(\<exists>accs'. hook_exec env (now, signers, HookFallback infos data) accs = Inr accs') \<longleftrightarrow>
    (\<exists>c s d. config_of env accs (ai_key (infos ! 1)) c \<and>
       profile_of env accs (ai_key (infos ! 1)) (ai_key (infos ! 0)) s \<and>
       profile_of env accs (ai_key (infos ! 1)) (ai_key (infos ! 2)) d \<and> may_transfer c s d amount now)"
proof -
  let ?env = "env\<lparr>he_clock := Some now\<rparr>"
  have t: "hook_typed env accs"
    unfolding assms(1) by (rule hook_types.run_inv) (simp add: hook_typed_def)
  then have "hook_extra_metas env = Inr metas" using assms(3) by (fastforce simp: hook_typed_def)
  from resolved_addresses [OF this assms(4,2)]
  have a: "8 \<le> length infos \<and> hook_addresses ?env infos \<and> ai_writable (infos ! 6)"
    by (simp add: hook_addresses_def)
  have "(\<exists>accs'. hook_exec env (now, signers, HookFallback infos data) accs = Inr accs') \<longleftrightarrow>
      (\<exists>c s d. hook_allows ?env infos amount accs c s d now)"
    using assms(5) execute_ok [of ?env data amount infos accs] by (auto simp: execute_fallback_def hook_allows_def)
  also have "\<dots> \<longleftrightarrow> (\<exists>c s d. config_of ?env accs (ai_key (infos ! 1)) c \<and>
       profile_of ?env accs (ai_key (infos ! 1)) (ai_key (infos ! 0)) s \<and>
       profile_of ?env accs (ai_key (infos ! 1)) (ai_key (infos ! 2)) d \<and> may_transfer c s d amount now)"
    using resolved_allows [of ?env accs infos now amount] t a by simp
  finally show ?thesis by (simp add: config_of_def profile_of_def)
qed

section \<open>A listed transfer\<close>

definition demo_list_run :: "hook_transaction list" where
  "demo_list_run =
     [demo_hook_run ! 0,
      (0, [1], InitializeExtraMetas \<lparr>em_admin = 1, em_config = 132267, em_list = 334967, em_mint = 50\<rparr>),
      demo_hook_run ! 1, demo_hook_run ! 2]"

definition demo_metas :: "extra_account_meta list" where
  "demo_metas = projr (hook_extra_metas demo_hook)"

lemma demo_metas: "hook_extra_metas demo_hook = Inr demo_metas"
  by (simp add: demo_metas_def hook_extra_metas_def meta_new_with_seeds_def demo_hook_def)

definition demo_listed :: hook_store where
  "demo_listed = demo_hook0(334967 \<mapsto> ExtraMetasAcc demo_metas, 478234 \<mapsto> UserComplianceAcc (demo_ucp 7 0 0),
     628829 \<mapsto> UserComplianceAcc (demo_ucp 8 0 0))"

lemma demo_list_store: "run_transactions (hook_exec demo_hook) demo_list_run (\<lambda>_. None) = demo_listed"
proof -
  have 1: "hook_exec demo_hook (demo_hook_run ! 0) (\<lambda>_. None) = Inr demo_hook0" by (rule demo_hook_admin)
  have 2: "hook_exec demo_hook (demo_list_run ! 1) demo_hook0 = Inr (demo_hook0(334967 \<mapsto> ExtraMetasAcc demo_metas))"
    using demo_metas by (simp add: demo_list_run_def initialize_extra_account_meta_list_def)
      (simp add: demo_hook_eval)
  have 3: "hook_exec demo_hook (demo_hook_run ! 1) (demo_hook0(334967 \<mapsto> ExtraMetasAcc demo_metas)) =
      Inr (demo_hook0(334967 \<mapsto> ExtraMetasAcc demo_metas, 478234 \<mapsto> UserComplianceAcc (demo_ucp 7 0 0)))"
    by (simp add: demo_hook_eval set_user_compliance_def)
  have 4: "hook_exec demo_hook (demo_hook_run ! 2)
      (demo_hook0(334967 \<mapsto> ExtraMetasAcc demo_metas, 478234 \<mapsto> UserComplianceAcc (demo_ucp 7 0 0))) = Inr demo_listed"
    by (simp add: demo_hook_eval set_user_compliance_def demo_listed_def)
  have "demo_list_run = [demo_hook_run ! 0, demo_list_run ! 1, demo_hook_run ! 1, demo_hook_run ! 2]"
    by (simp add: demo_list_run_def)
  then have "run_transactions (hook_exec demo_hook) demo_list_run (\<lambda>_. None) =
      run_transactions (hook_exec demo_hook) [demo_hook_run ! 0, demo_list_run ! 1, demo_hook_run ! 1, demo_hook_run ! 2] (\<lambda>_. None)"
    by (rule arg_cong)
  also have "\<dots> = demo_listed" by (simp only: run_transactions.simps 1 2 3 4 sum.case)
  finally show ?thesis .
qed

lemma demo_pda: "hook_pda demo_hook seeds = demo_hash seeds"
  by (simp add: hook_pda_def demo_hook_def)

lemma demo_resolved: "resolved demo_hook demo_metas demo_infos"
proof -
  have pda: "fst (find_pda (he_anchor demo_hook) seeds) = demo_hash seeds" for seeds by (simp add: demo_hook_def)
  note m = hook_extra_metas_ok [OF demo_metas]
  have three: "(\<forall>i < length demo_metas. P i) \<longleftrightarrow> P 0 \<and> P 1 \<and> P 2" for P
    by (simp add: m) (metis less_2_cases_iff less_antisym less_Suc_eq numeral_2_eq_2 numeral_3_eq_3 zero_less_Suc One_nat_def lessI less_trans)
  show ?thesis
    using demo_hook_addresses
    unfolding resolved_def three pda
    by (simp add: m demo_infos_def compliance_config_seeds_def user_compliance_seeds_def)
qed

theorem listed_accounts_serve_hook_witness:
  "\<exists>accs'. hook_exec demo_hook (259200, [], HookFallback demo_infos [60]) demo_listed = Inr accs'"
proof -
  have k: "ai_key (demo_infos ! 4) = hook_pda demo_hook (extra_account_metas_seeds (ai_key (demo_infos ! 1)))"
    by (simp add: demo_pda) (simp add: demo_infos_def)
  have m: "demo_listed (ai_key (demo_infos ! 4)) = Some (ExtraMetasAcc demo_metas)"
    by (simp add: demo_infos_def demo_listed_def)
  have u: "he_unpack demo_hook [60] = Some (HookExecute 60)" by (simp add: demo_hook_def)
  have "config_of demo_hook demo_listed (ai_key (demo_infos ! 1)) demo_ccf \<and>
     profile_of demo_hook demo_listed (ai_key (demo_infos ! 1)) (ai_key (demo_infos ! 0)) (demo_ucp 7 0 0) \<and>
     profile_of demo_hook demo_listed (ai_key (demo_infos ! 1)) (ai_key (demo_infos ! 2)) (demo_ucp 8 0 0) \<and>
     may_transfer demo_ccf (demo_ucp 7 0 0) (demo_ucp 8 0 0) 60 259200"
    unfolding config_of_def profile_of_def may_transfer_def demo_pda
    by (simp add: demo_infos_def demo_listed_def demo_hook0_def demo_ccf_def demo_ucp_def spent_on_def)
  then show ?thesis
    using listed_accounts_serve_hook [OF demo_list_store [symmetric] k m demo_resolved u, of 259200 "[]"] by blast
qed

end
