(* ===== verification/Bridge_Receiver.thy ===== *)
theory Bridge_Receiver
  imports Anchor_Base
begin

text \<open>
  \<open>programs/stablecoin_bridge_receiver\<close>: the receiver of cross-chain mint messages.  An admin
  registers a mint with a bridge authority and a limit per message (\<open>initialize.rs\<close>); the authority
  delivers messages, each of which leaves a record at an address derived from its chain and nonce
  (\<open>consume.rs\<close>).  The program records messages; it mints nothing.
\<close>

section \<open>State\<close>

datatype receiver_error =
    InvalidDestinationChain
  | UnregisteredMint
  | BridgeLimitExceeded
  | InvalidMessageAmount
  | InvalidRecipient
  | UnauthorizedBridgeAuthority

record cross_chain_mint_message =
  xm_source_chain_id :: u16
  xm_destination_chain_id :: u16
  xm_nonce :: u64
  xm_mint :: pubkey
  xm_recipient :: pubkey
  xm_amount :: u64

record bridge_config =
  brc_admin :: pubkey
  brc_bridge_authority :: pubkey
  brc_registered_mint :: pubkey
  brc_per_message_limit :: u64
  brc_bump :: u8

record consumed_message =
  com_bridge_config :: pubkey
  com_source_chain_id :: u16
  com_nonce :: u64
  com_mint :: pubkey
  com_recipient :: pubkey
  com_amount :: u64
  com_bump :: u8

datatype bridge_account = BridgeConfigAcc bridge_config | ConsumedMessageAcc consumed_message

fun as_bridge_config :: "bridge_account \<Rightarrow> bridge_config option" where
  "as_bridge_config (BridgeConfigAcc c) = Some c" | "as_bridge_config _ = None"

type_synonym bridge_store = "bridge_account accounts"
type_synonym bridge_result = "(receiver_error program_error, bridge_store) result"

definition bridge_config_seed :: "u8 list" where "bridge_config_seed = ascii_bytes ''bridge_config''"
definition consumed_message_seed :: "u8 list" where
  "consumed_message_seed = ascii_bytes ''consumed_message''"
definition solana_chain_id :: u16 where "solana_chain_id = 1"

definition bridge_config_seeds :: "pubkey \<Rightarrow> u8 list list" where
  "bridge_config_seeds mint = [bridge_config_seed, key_bytes mint]"
definition consumed_message_seeds :: "pubkey \<Rightarrow> u16 \<Rightarrow> u64 \<Rightarrow> u8 list list" where
  "consumed_message_seeds config chain nonce =
     [consumed_message_seed, key_bytes config, le_bytes 2 chain, u64_bytes nonce]"

section \<open>Instructions\<close>

record initialize_bridge_accounts =
  ib_admin :: pubkey
  ib_bridge_config :: pubkey
  ib_bridge_authority :: pubkey
  ib_registered_mint :: pubkey

definition initialize_bridge_config ::
  "anchor_env \<Rightarrow> pubkey list \<Rightarrow> initialize_bridge_accounts \<Rightarrow> u64 \<Rightarrow> bridge_store \<Rightarrow> bridge_result" where
  "initialize_bridge_config env signers ctx per_message_limit accs =
     and_then (need_signer (ib_admin ctx) signers) (\<lambda>_.
     and_then (check_seeds env (ib_bridge_config ctx) (bridge_config_seeds (ib_registered_mint ctx))) (\<lambda>bump.
     and_then (init_fresh accs (ib_bridge_config ctx) ()) (\<lambda>_.
     and_then (require (per_message_limit > 0) BridgeLimitExceeded) (\<lambda>_.
       Inr (accs(ib_bridge_config ctx \<mapsto> BridgeConfigAcc
         \<lparr>brc_admin = ib_admin ctx, brc_bridge_authority = ib_bridge_authority ctx,
          brc_registered_mint = ib_registered_mint ctx, brc_per_message_limit = per_message_limit,
          brc_bump = bump\<rparr>))))))"

record consume_accounts =
  cm_bridge_authority :: pubkey
  cm_bridge_config :: pubkey
  cm_consumed_message :: pubkey
  cm_payer :: pubkey

text \<open>\<open>bridge_config\<close> with its seeds and \<open>has_one = bridge_authority\<close>.\<close>

definition load_bridge_config ::
  "anchor_env \<Rightarrow> consume_accounts \<Rightarrow> bridge_store \<Rightarrow> (receiver_error program_error, bridge_config) result" where
  "load_bridge_config env ctx accs =
     and_then (load as_bridge_config accs (cm_bridge_config ctx)) (\<lambda>c.
     and_then (check_seeds_bump env (cm_bridge_config ctx) (bridge_config_seeds (brc_registered_mint c))
       (brc_bump c)) (\<lambda>_.
     and_then (require (brc_bridge_authority c = cm_bridge_authority ctx) UnauthorizedBridgeAuthority) (\<lambda>_.
       Inr c)))"

definition validate_message ::
  "bridge_config \<Rightarrow> cross_chain_mint_message \<Rightarrow> (receiver_error program_error, unit) result" where
  "validate_message c message =
     and_then (require (xm_destination_chain_id message = solana_chain_id) InvalidDestinationChain) (\<lambda>_.
     and_then (require (xm_amount message > 0) InvalidMessageAmount) (\<lambda>_.
     and_then (require (xm_recipient message \<noteq> 0) InvalidRecipient) (\<lambda>_.
     and_then (require (xm_mint message = brc_registered_mint c) UnregisteredMint) (\<lambda>_.
     require (xm_amount message \<le> brc_per_message_limit c) BridgeLimitExceeded))))"

definition consume_cross_chain_mint_message ::
  "anchor_env \<Rightarrow> pubkey list \<Rightarrow> consume_accounts \<Rightarrow> cross_chain_mint_message \<Rightarrow> bridge_store \<Rightarrow> bridge_result" where
  "consume_cross_chain_mint_message env signers ctx message accs =
     and_then (need_signer (cm_bridge_authority ctx) signers) (\<lambda>_.
     and_then (load_bridge_config env ctx accs) (\<lambda>c.
     and_then (check_seeds env (cm_consumed_message ctx) (consumed_message_seeds (cm_bridge_config ctx)
       (xm_source_chain_id message) (xm_nonce message))) (\<lambda>bump.
     and_then (init_fresh accs (cm_consumed_message ctx) ()) (\<lambda>_.
     and_then (need_signer (cm_payer ctx) signers) (\<lambda>_.
     and_then (validate_message c message) (\<lambda>_.
       Inr (accs(cm_consumed_message ctx \<mapsto> ConsumedMessageAcc
         \<lparr>com_bridge_config = cm_bridge_config ctx, com_source_chain_id = xm_source_chain_id message,
          com_nonce = xm_nonce message, com_mint = xm_mint message,
          com_recipient = xm_recipient message, com_amount = xm_amount message, com_bump = bump\<rparr>))))))))"

datatype bridge_instruction =
    InitializeBridgeConfig initialize_bridge_accounts u64
  | ConsumeMessage consume_accounts cross_chain_mint_message

fun stablecoin_bridge_receiver ::
  "anchor_env \<Rightarrow> pubkey list \<Rightarrow> bridge_instruction \<Rightarrow> bridge_store \<Rightarrow> bridge_result" where
  "stablecoin_bridge_receiver env signers (InitializeBridgeConfig ctx per_message_limit) accs =
     initialize_bridge_config env signers ctx per_message_limit accs"
| "stablecoin_bridge_receiver env signers (ConsumeMessage ctx message) accs =
     consume_cross_chain_mint_message env signers ctx message accs"

section \<open>Records are final\<close>

type_synonym bridge_transaction = "pubkey list \<times> bridge_instruction"

fun bridge_exec :: "anchor_env \<Rightarrow> bridge_transaction \<Rightarrow> bridge_store \<Rightarrow> bridge_result" where
  "bridge_exec env (signers, i) accs = stablecoin_bridge_receiver env signers i accs"

text \<open>What a message must be for its record, relative to the configuration.\<close>

definition record_sound :: "anchor_env \<Rightarrow> bridge_store \<Rightarrow> pubkey \<Rightarrow> consumed_message \<Rightarrow> bool" where
  "record_sound env accs k r \<longleftrightarrow>
     (\<exists>c. accs (com_bridge_config r) = Some (BridgeConfigAcc c) \<and> com_mint r = brc_registered_mint c \<and>
        com_amount r \<le> brc_per_message_limit c) \<and>
     0 < com_amount r \<and> com_recipient r \<noteq> 0 \<and>
     find_pda env (consumed_message_seeds (com_bridge_config r) (com_source_chain_id r) (com_nonce r)) =
       (k, com_bump r)"

definition bridge_inv :: "anchor_env \<Rightarrow> bridge_store \<Rightarrow> bool" where
  "bridge_inv env accs \<longleftrightarrow>
     (\<forall>k r. accs k = Some (ConsumedMessageAcc r) \<longrightarrow> record_sound env accs k r)"

text \<open>What an accepted message writes.\<close>

lemma consume_ok:
  "consume_cross_chain_mint_message env signers ctx m accs = Inr accs' \<longleftrightarrow>
    (\<exists>c bump. cm_bridge_authority ctx \<in> set signers \<and> cm_payer ctx \<in> set signers \<and>
       accs (cm_bridge_config ctx) = Some (BridgeConfigAcc c) \<and>
       create_pda env (bridge_config_seeds (brc_registered_mint c)) (brc_bump c) = Some (cm_bridge_config ctx) \<and>
       brc_bridge_authority c = cm_bridge_authority ctx \<and>
       find_pda env (consumed_message_seeds (cm_bridge_config ctx) (xm_source_chain_id m) (xm_nonce m)) =
         (cm_consumed_message ctx, bump) \<and>
       accs (cm_consumed_message ctx) = None \<and>
       xm_destination_chain_id m = 1 \<and> 0 < xm_amount m \<and> xm_recipient m \<noteq> 0 \<and>
       xm_mint m = brc_registered_mint c \<and> xm_amount m \<le> brc_per_message_limit c \<and>
       accs' = accs(cm_consumed_message ctx \<mapsto> ConsumedMessageAcc
         \<lparr>com_bridge_config = cm_bridge_config ctx, com_source_chain_id = xm_source_chain_id m,
          com_nonce = xm_nonce m, com_mint = xm_mint m, com_recipient = xm_recipient m,
          com_amount = xm_amount m, com_bump = bump\<rparr>))"
proof -
  have sel: "as_bridge_config a = Some c \<longleftrightarrow> a = BridgeConfigAcc c" for a c by (cases a) auto
  show ?thesis
    unfolding consume_cross_chain_mint_message_def load_bridge_config_def validate_message_def
    by (simp add: checked_ok sel solana_chain_id_def) blast
qed

lemma initialize_bridge_ok:
  "initialize_bridge_config env signers ctx limit accs = Inr accs' \<longleftrightarrow>
    (\<exists>bump. ib_admin ctx \<in> set signers \<and> accs (ib_bridge_config ctx) = None \<and> 0 < limit \<and>
       find_pda env (bridge_config_seeds (ib_registered_mint ctx)) = (ib_bridge_config ctx, bump) \<and>
       accs' = accs(ib_bridge_config ctx \<mapsto> BridgeConfigAcc
         \<lparr>brc_admin = ib_admin ctx, brc_bridge_authority = ib_bridge_authority ctx,
          brc_registered_mint = ib_registered_mint ctx, brc_per_message_limit = limit, brc_bump = bump\<rparr>))"
  unfolding initialize_bridge_config_def by (simp add: checked_ok) blast

lemma bridge_exec_appends:
  assumes "bridge_exec env tx accs = Inr accs'"
  shows "accs \<subseteq>\<^sub>m accs'"
  using assms
  by (cases tx; cases "snd tx") (auto simp: consume_ok initialize_bridge_ok map_le_def)

lemma record_sound_mono:
  "record_sound env accs k r \<Longrightarrow> accs \<subseteq>\<^sub>m accs' \<Longrightarrow> record_sound env accs' k r"
  unfolding record_sound_def map_le_def by (metis domI)

lemma bridge_exec_inv:
  assumes "bridge_inv env accs" and "bridge_exec env tx accs = Inr accs'"
  shows "bridge_inv env accs'"
proof -
  note le = bridge_exec_appends [OF assms(2)]
  obtain signers i where tx: "tx = (signers, i)" by (cases tx)
  show ?thesis
    unfolding bridge_inv_def
  proof (intro allI impI)
    fix k r assume k: "accs' k = Some (ConsumedMessageAcc r)"
    show "record_sound env accs' k r"
    proof (cases "accs k = Some (ConsumedMessageAcc r)")
      case True
      then show ?thesis using assms(1) le by (auto simp: bridge_inv_def intro: record_sound_mono)
    next
      case False
      then show ?thesis
        using assms(2) k unfolding tx
        by (cases i) (auto simp: consume_ok initialize_bridge_ok record_sound_def split: if_splits)
    qed
  qed
qed

interpretation bridge: evolving_program "bridge_exec env" "bridge_inv env" "(\<subseteq>\<^sub>m)" for env
  by unfold_locales (auto intro: bridge_exec_inv bridge_exec_appends map_le_trans)

section \<open>Accepted messages\<close>

text \<open>The transaction delivers the message of a chain with a nonce to a configuration.\<close>

fun delivers :: "pubkey \<Rightarrow> u16 \<Rightarrow> u64 \<Rightarrow> bridge_transaction \<Rightarrow> bool" where
  "delivers k chain nonce (_, ConsumeMessage ctx m) \<longleftrightarrow>
     cm_bridge_config ctx = k \<and> xm_source_chain_id m = chain \<and> xm_nonce m = nonce"
| "delivers _ _ _ (_, InitializeBridgeConfig _ _) \<longleftrightarrow> False"

fun message_amount :: "bridge_transaction \<Rightarrow> nat" where
  "message_amount (_, ConsumeMessage ctx m) = unat (xm_amount m)"
| "message_amount (_, InitializeBridgeConfig _ _) = 0"

fun recorded_amount :: "bridge_account option \<Rightarrow> nat" where
  "recorded_amount (Some (ConsumedMessageAcc r)) = unat (com_amount r)" | "recorded_amount _ = 0"

lemma delivered_address:
  assumes "bridge_exec env tx accs = Inr accs'" and "delivers k chain nonce tx"
  shows "accs (fst (find_pda env (consumed_message_seeds k chain nonce))) = None \<and>
    accs' (fst (find_pda env (consumed_message_seeds k chain nonce))) \<noteq> None"
  using assms by (cases tx; cases "snd tx") (auto simp: consume_ok)

lemma not_delivered_again:
  "accs (fst (find_pda env (consumed_message_seeds k chain nonce))) \<noteq> None \<Longrightarrow>
     filter (delivers k chain nonce) (accepted (bridge_exec env) txs accs) = []"
proof (induction txs arbitrary: accs)
  case (Cons tx txs)
  show ?case
  proof (cases "bridge_exec env tx accs")
    case (Inl e)
    then show ?thesis using Cons by simp
  next
    case (Inr accs')
    have "accs' (fst (find_pda env (consumed_message_seeds k chain nonce))) \<noteq> None"
      using bridge_exec_appends [OF Inr] Cons.prems by (metis domIff map_le_implies_dom_le subsetD)
    then show ?thesis using Cons.IH [of accs'] delivered_address [OF Inr, of k chain nonce] Cons.prems Inr by auto
  qed
qed simp

lemma delivered_once: "length (filter (delivers k chain nonce) (accepted (bridge_exec env) txs accs)) \<le> 1"
proof (induction txs arbitrary: accs)
  case (Cons tx txs)
  show ?case
  proof (cases "bridge_exec env tx accs")
    case (Inl e)
    then show ?thesis using Cons by simp
  next
    case (Inr accs')
    then show ?thesis
      using Cons.IH [of accs'] delivered_address [OF Inr, of k chain nonce]
        not_delivered_again [of accs' env k chain nonce txs] by auto
  qed
qed simp

lemma exec_recorded:
  assumes "bridge_exec env tx accs = Inr accs'"
  shows "account_sum recorded_amount accs' = account_sum recorded_amount accs + message_amount tx"
proof -
  obtain signers i where tx: "tx = (signers, i)" by (cases tx)
  have "\<exists>k v. accs' = accs(k \<mapsto> v) \<and> accs k = None \<and> recorded_amount (Some v) = message_amount tx"
  proof (cases i)
    case (ConsumeMessage ctx m)
    from assms obtain c bump where "accs (cm_consumed_message ctx) = None"
      "accs' = accs(cm_consumed_message ctx \<mapsto> ConsumedMessageAcc
         \<lparr>com_bridge_config = cm_bridge_config ctx, com_source_chain_id = xm_source_chain_id m,
          com_nonce = xm_nonce m, com_mint = xm_mint m, com_recipient = xm_recipient m,
          com_amount = xm_amount m, com_bump = bump\<rparr>)"
      unfolding tx ConsumeMessage by (simp add: consume_ok) blast
    then show ?thesis
      unfolding tx ConsumeMessage by (intro exI conjI) (assumption | simp)+
  next
    case (InitializeBridgeConfig ctx limit)
    from assms obtain c where "accs (ib_bridge_config ctx) = None"
      "accs' = accs(ib_bridge_config ctx \<mapsto> BridgeConfigAcc c)"
      unfolding tx InitializeBridgeConfig by (simp add: initialize_bridge_ok) blast
    then show ?thesis
      unfolding tx InitializeBridgeConfig by (intro exI conjI) (assumption | simp)+
  qed
  then obtain k v where "accs' = accs(k \<mapsto> v)" "accs k = None" "recorded_amount (Some v) = message_amount tx"
    by blast
  then show ?thesis using account_sum_upd [of recorded_amount accs k "Some v"] by simp
qed

lemma run_recorded:
  assumes "bridge_inv env accs"
  shows "account_sum recorded_amount (run_transactions (bridge_exec env) txs accs) =
     account_sum recorded_amount accs + sum_list (map message_amount (accepted (bridge_exec env) txs accs))"
  by (rule bridge.run_adds [of env "account_sum recorded_amount"]) (auto intro: exec_recorded assms)

end
