(* ===== verification/Bridge_Receiver_Properties.thy ===== *)
theory Bridge_Receiver_Properties
  imports Bridge_Receiver Anchor_Demo
begin

text \<open>
  What the bridge receiver guarantees over runs: no message is accepted twice, and the records are
  exactly the accepted messages and stay as they are.
\<close>

section \<open>A run of the receiver\<close>

text \<open>Mint 50 is registered with authority 2; the message with nonce 5 of chain 2 is delivered twice.\<close>

definition demo_message :: "u64 \<Rightarrow> u64 \<Rightarrow> cross_chain_mint_message" where
  "demo_message nonce amount = \<lparr>xm_source_chain_id = 2, xm_destination_chain_id = 1, xm_nonce = nonce,
     xm_mint = 50, xm_recipient = 7, xm_amount = amount\<rparr>"

definition demo_consume :: "pubkey \<Rightarrow> consume_accounts" where
  "demo_consume k = \<lparr>cm_bridge_authority = 2, cm_bridge_config = 703612, cm_consumed_message = k, cm_payer = 2\<rparr>"

definition demo_bridge_run :: "bridge_transaction list" where
  "demo_bridge_run =
     [([1], InitializeBridgeConfig \<lparr>ib_admin = 1, ib_bridge_config = 703612, ib_bridge_authority = 2,
         ib_registered_mint = 50\<rparr> 1000),
      ([2], ConsumeMessage (demo_consume 327757) (demo_message 5 500)),
      ([2], ConsumeMessage (demo_consume 327757) (demo_message 5 500)),
      ([2], ConsumeMessage (demo_consume 859332) (demo_message 6 1001))]"

definition demo_consumed :: consumed_message where
  "demo_consumed = \<lparr>com_bridge_config = 703612, com_source_chain_id = 2, com_nonce = 5, com_mint = 50,
     com_recipient = 7, com_amount = 500, com_bump = 255\<rparr>"

definition demo_bridge1 :: bridge_store where
  "demo_bridge1 = [703612 \<mapsto> BridgeConfigAcc \<lparr>brc_admin = 1, brc_bridge_authority = 2,
     brc_registered_mint = 50, brc_per_message_limit = 1000, brc_bump = 255\<rparr>]"
definition demo_bridge2 :: bridge_store where
  "demo_bridge2 = demo_bridge1(327757 \<mapsto> ConsumedMessageAcc demo_consumed)"

lemma demo_bridge_addresses [simp]:
  "demo_hash (bridge_config_seeds 50) = 703612"
  "demo_hash (consumed_message_seeds 703612 2 5) = 327757"
  "demo_hash (consumed_message_seeds 703612 2 6) = 859332"
  by code_simp+

lemma demo_bridge_txs:
  "bridge_exec demo_env (demo_bridge_run ! 0) (\<lambda>_. None) = Inr demo_bridge1"
  "bridge_exec demo_env (demo_bridge_run ! 1) demo_bridge1 = Inr demo_bridge2"
  "bridge_exec demo_env (demo_bridge_run ! 2) demo_bridge2 = Inl AccountInUse"
  "bridge_exec demo_env (demo_bridge_run ! 3) demo_bridge2 = Inl (Custom BridgeLimitExceeded)"
  by (simp_all add: demo_bridge_run_def initialize_bridge_config_def consume_cross_chain_mint_message_def
      load_bridge_config_def validate_message_def demo_consume_def demo_message_def demo_consumed_def
      demo_bridge1_def demo_bridge2_def need_signer_def check_seeds_def check_seeds_bump_def load_def
      init_fresh_def solana_chain_id_def)

lemma demo_bridge_final: "run_transactions (bridge_exec demo_env) demo_bridge_run (\<lambda>_. None) = demo_bridge2"
proof -
  have "demo_bridge_run = map ((!) demo_bridge_run) [0, 1, 2, 3]" by (simp add: demo_bridge_run_def)
  then have "run_transactions (bridge_exec demo_env) demo_bridge_run (\<lambda>_. None) =
      run_transactions (bridge_exec demo_env) (map ((!) demo_bridge_run) [0, 1, 2, 3]) (\<lambda>_. None)"
    by (rule arg_cong)
  then show ?thesis by (simp only: list.map run_transactions.simps demo_bridge_txs sum.case)
qed

section \<open>The receiver over runs\<close>

text \<open>C24: Replays are refused: whatever transactions run, in whatever order, at most one message with a given
  source chain and nonce is ever accepted by a configuration, and the amounts recorded are exactly the
  amounts of the accepted messages.\<close>

theorem bridge_consumes_once:
  "length (filter (delivers config chain nonce) (accepted (bridge_exec env) txs accs)) \<le> 1 \<and>
   account_sum recorded_amount (run_transactions (bridge_exec env) txs (\<lambda>_. None)) =
     sum_list (map message_amount (accepted (bridge_exec env) txs (\<lambda>_. None)))"
  using delivered_once run_recorded [of env "\<lambda>_. None" txs] by (simp add: account_sum_def bridge_inv_def)

text \<open>Every record that a run leaves is of a message for a registered mint, to a recipient, of a positive
  amount within the limit of its configuration, at the address derived from its configuration, chain and
  nonce; and no later transaction changes the record or the configuration.\<close>

theorem bridge_records_final:
  assumes "accs = run_transactions (bridge_exec env) txs (\<lambda>_. None)"
    and "accs k = Some (ConsumedMessageAcc r)"
  shows "record_sound env accs k r \<and>
    run_transactions (bridge_exec env) later accs k = accs k \<and>
    run_transactions (bridge_exec env) later accs (com_bridge_config r) = accs (com_bridge_config r)"
proof -
  have inv: "bridge_inv env accs"
    unfolding assms(1) by (rule bridge.run_inv) (simp add: bridge_inv_def)
  then have r: "record_sound env accs k r" using assms(2) by (simp add: bridge_inv_def)
  have "accs \<subseteq>\<^sub>m run_transactions (bridge_exec env) later accs" by (rule bridge.run_evolves [OF inv])
  then show ?thesis using r assms(2) unfolding map_le_def record_sound_def by (metis domI)
qed

theorem bridge_records_final_witness:
  "record_sound demo_env demo_bridge2 327757 demo_consumed \<and>
   run_transactions (bridge_exec demo_env) demo_bridge_run demo_bridge2 327757 =
     Some (ConsumedMessageAcc demo_consumed)"
  using bridge_records_final [of demo_bridge2 demo_env demo_bridge_run 327757 demo_consumed demo_bridge_run]
    demo_bridge_final by (simp add: demo_bridge2_def)

end
