(* ===== verification/Vault_Authority.thy ===== *)
theory Vault_Authority
  imports Anchor_Base
begin

text \<open>
  \<open>src/02-pda-authority-lab/programs/vault_authority\<close>: a vault of lamports for each user, with a
  limit.  The account of the vault holds the lamports itself.  The system program's transfer and
  the funding of a new account are parameters; a withdrawal and the closing of the vault move
  lamports directly.
\<close>

section \<open>State\<close>

datatype vault_error = DepositOverflow | VaultLimitExceeded | InsufficientVaultBalance | VaultNotEmpty

record vault_config =
  vlt_user :: pubkey
  vlt_bump :: u8
  vlt_limit_lamports :: u64
  vlt_total_deposited_lamports :: u64

text \<open>The accounts of the program and the lamports of all accounts.\<close>

record vault_store =
  vs_configs :: "vault_config accounts"
  vs_lamports :: "pubkey \<Rightarrow> u64"

type_synonym vault_result = "(vault_error program_error, vault_store) result"

text \<open>
  \<open>ve_create payer k\<close> is the funding of the new account \<open>k\<close> by \<open>init\<close>, \<open>ve_transfer from to amount\<close>
  the system program's transfer.
\<close>

record vault_env =
  ve_anchor :: anchor_env
  ve_create :: "pubkey \<Rightarrow> pubkey \<Rightarrow> vault_store \<Rightarrow> vault_store option"
  ve_transfer :: "pubkey \<Rightarrow> pubkey \<Rightarrow> u64 \<Rightarrow> vault_store \<Rightarrow> vault_store option"

definition vault_seeds :: "pubkey \<Rightarrow> u8 list list" where
  "vault_seeds user = [ascii_bytes ''vault'', key_bytes user]"

section \<open>Instructions\<close>

text \<open>The accounts of every instruction: the user and the user's configuration.\<close>

record vault_accounts =
  va_user :: pubkey
  va_config :: pubkey

definition load_vault ::
  "vault_env \<Rightarrow> pubkey list \<Rightarrow> vault_accounts \<Rightarrow> vault_store \<Rightarrow> (vault_error program_error, vault_config) result"
  where
  "load_vault env signers ctx s =
     and_then (need_signer (va_user ctx) signers) (\<lambda>_.
     and_then (load Some (vs_configs s) (va_config ctx)) (\<lambda>v.
     and_then (check_seeds_bump (ve_anchor env) (va_config ctx) (vault_seeds (va_user ctx)) (vlt_bump v)) (\<lambda>_.
     and_then (ensure (vlt_user v = va_user ctx) ConstraintHasOne) (\<lambda>_. Inr v))))"

definition put_vault :: "pubkey \<Rightarrow> vault_config \<Rightarrow> vault_store \<Rightarrow> vault_store" where
  "put_vault k v s = s\<lparr>vs_configs := (vs_configs s)(k \<mapsto> v)\<rparr>"

definition initialize_vault ::
  "vault_env \<Rightarrow> pubkey list \<Rightarrow> vault_accounts \<Rightarrow> u64 \<Rightarrow> vault_store \<Rightarrow> vault_result" where
  "initialize_vault env signers ctx limit_lamports s =
     and_then (need_signer (va_user ctx) signers) (\<lambda>_.
     and_then (check_seeds (ve_anchor env) (va_config ctx) (vault_seeds (va_user ctx))) (\<lambda>bump.
     and_then (init_fresh (vs_configs s) (va_config ctx) ()) (\<lambda>_.
     and_then (ok_or (ve_create env (va_user ctx) (va_config ctx) s) CpiFailed) (\<lambda>s1.
       Inr (put_vault (va_config ctx)
         \<lparr>vlt_user = va_user ctx, vlt_bump = bump, vlt_limit_lamports = limit_lamports,
          vlt_total_deposited_lamports = 0\<rparr> s1)))))"

definition set_vault_limit ::
  "vault_env \<Rightarrow> pubkey list \<Rightarrow> vault_accounts \<Rightarrow> u64 \<Rightarrow> vault_store \<Rightarrow> vault_result" where
  "set_vault_limit env signers ctx limit_lamports s =
     and_then (load_vault env signers ctx s) (\<lambda>v.
       Inr (put_vault (va_config ctx) (v\<lparr>vlt_limit_lamports := limit_lamports\<rparr>) s))"

definition deposit_lamports ::
  "vault_env \<Rightarrow> pubkey list \<Rightarrow> vault_accounts \<Rightarrow> u64 \<Rightarrow> vault_store \<Rightarrow> vault_result" where
  "deposit_lamports env signers ctx amount s =
     and_then (load_vault env signers ctx s) (\<lambda>v.
     and_then (require_some (checked_add (vlt_total_deposited_lamports v) amount) DepositOverflow)
       (\<lambda>new_total.
     and_then (require (new_total \<le> vlt_limit_lamports v) VaultLimitExceeded) (\<lambda>_.
     and_then (ok_or (ve_transfer env (va_user ctx) (va_config ctx) amount s) CpiFailed) (\<lambda>s1.
       Inr (put_vault (va_config ctx) (v\<lparr>vlt_total_deposited_lamports := new_total\<rparr>) s1)))))"

text \<open>A subtraction or addition that overflows panics.\<close>

definition take_lamports :: "pubkey \<Rightarrow> u64 \<Rightarrow> vault_store \<Rightarrow> vault_result" where
  "take_lamports k amount s =
     and_then (ok_or (checked_sub (vs_lamports s k) amount) Panicked) (\<lambda>n.
       Inr (s\<lparr>vs_lamports := (vs_lamports s)(k := n)\<rparr>))"

definition give_lamports :: "pubkey \<Rightarrow> u64 \<Rightarrow> vault_store \<Rightarrow> vault_result" where
  "give_lamports k amount s =
     and_then (ok_or (checked_add (vs_lamports s k) amount) Panicked) (\<lambda>n.
       Inr (s\<lparr>vs_lamports := (vs_lamports s)(k := n)\<rparr>))"

definition withdraw_lamports ::
  "vault_env \<Rightarrow> pubkey list \<Rightarrow> vault_accounts \<Rightarrow> u64 \<Rightarrow> vault_store \<Rightarrow> vault_result" where
  "withdraw_lamports env signers ctx amount s =
     and_then (load_vault env signers ctx s) (\<lambda>v.
     and_then (require (amount \<le> vlt_total_deposited_lamports v) InsufficientVaultBalance) (\<lambda>_.
     and_then (take_lamports (va_config ctx) amount s) (\<lambda>s1.
     and_then (give_lamports (va_user ctx) amount s1) (\<lambda>s2.
     and_then (ok_or (checked_sub (vlt_total_deposited_lamports v) amount) Panicked) (\<lambda>new_total.
       Inr (put_vault (va_config ctx) (v\<lparr>vlt_total_deposited_lamports := new_total\<rparr>) s2))))))"

text \<open>\<open>close = user\<close> pays out all lamports of the account and removes it, after the handler.\<close>

definition close_vault :: "vault_env \<Rightarrow> pubkey list \<Rightarrow> vault_accounts \<Rightarrow> vault_store \<Rightarrow> vault_result" where
  "close_vault env signers ctx s =
     and_then (load_vault env signers ctx s) (\<lambda>v.
     and_then (ensure (va_config ctx \<noteq> va_user ctx) ConstraintClose) (\<lambda>_.
     and_then (require (vlt_total_deposited_lamports v = 0) VaultNotEmpty) (\<lambda>_.
     and_then (give_lamports (va_user ctx) (vs_lamports s (va_config ctx)) s) (\<lambda>s1.
       Inr \<lparr>vs_configs = (vs_configs s1)(va_config ctx := None),
            vs_lamports = (vs_lamports s1)(va_config ctx := 0)\<rparr>))))"

datatype vault_instruction =
    InitializeVault vault_accounts u64
  | SetVaultLimit vault_accounts u64
  | DepositLamports vault_accounts u64
  | WithdrawLamports vault_accounts u64
  | CloseVault vault_accounts

fun vault_authority ::
  "vault_env \<Rightarrow> pubkey list \<Rightarrow> vault_instruction \<Rightarrow> vault_store \<Rightarrow> vault_result" where
  "vault_authority env signers (InitializeVault ctx limit) s = initialize_vault env signers ctx limit s"
| "vault_authority env signers (SetVaultLimit ctx limit) s = set_vault_limit env signers ctx limit s"
| "vault_authority env signers (DepositLamports ctx amount) s = deposit_lamports env signers ctx amount s"
| "vault_authority env signers (WithdrawLamports ctx amount) s = withdraw_lamports env signers ctx amount s"
| "vault_authority env signers (CloseVault ctx) s = close_vault env signers ctx s"

section \<open>The chain around the program\<close>

text \<open>
  What the runtime documents.  The system program moves lamports from accounts that hold no data
  only; \<open>init\<close> leaves the new account with at least the rent-exempt minimum and takes lamports
  from no account of the program.
\<close>

definition system_ok :: "vault_env \<Rightarrow> u64 \<Rightarrow> bool" where
  "system_ok env rent \<longleftrightarrow>
     (\<forall>payer k s s'. ve_create env payer k s = Some s' \<longrightarrow>
        vs_configs s' = vs_configs s \<and> rent \<le> vs_lamports s' k \<and>
        (\<forall>j. vs_configs s j \<noteq> None \<longrightarrow> vs_lamports s j \<le> vs_lamports s' j)) \<and>
     (\<forall>a b amount s s'. ve_transfer env a b amount s = Some s' \<longrightarrow>
        vs_configs s' = vs_configs s \<and> vs_configs s a = None \<and>
        (a \<noteq> b \<longrightarrow> unat (vs_lamports s' b) = unat (vs_lamports s b) + unat amount) \<and>
        (\<forall>j. j \<noteq> a \<and> j \<noteq> b \<longrightarrow> vs_lamports s' j = vs_lamports s j))"

text \<open>A step is an instruction, or anything else on the chain: only the program takes lamports from its
  accounts.\<close>

inductive vault_step :: "vault_env \<Rightarrow> vault_store \<Rightarrow> vault_store \<Rightarrow> bool" for env where
  vault_instruction: "vault_authority env signers i s = Inr s' \<Longrightarrow> vault_step env s s'"
| rest_of_chain: "(\<And>j. vs_configs s j \<noteq> None \<Longrightarrow> vs_lamports s j \<le> l j) \<Longrightarrow>
    vault_step env s (s\<lparr>vs_lamports := l\<rparr>)"

text \<open>Every vault holds the rent and what its user has deposited.\<close>

definition vault_covered :: "anchor_env \<Rightarrow> u64 \<Rightarrow> vault_store \<Rightarrow> bool" where
  "vault_covered env rent s \<longleftrightarrow>
     (\<forall>k v. vs_configs s k = Some v \<longrightarrow>
        find_pda env (vault_seeds (vlt_user v)) = (k, vlt_bump v) \<and>
        unat rent + unat (vlt_total_deposited_lamports v) \<le> unat (vs_lamports s k))"

lemma load_vault_ok [checked_ok]:
  "load_vault env signers ctx s = Inr v \<longleftrightarrow> va_user ctx \<in> set signers \<and>
     vs_configs s (va_config ctx) = Some v \<and> vlt_user v = va_user ctx \<and>
     create_pda (ve_anchor env) (vault_seeds (va_user ctx)) (vlt_bump v) = Some (va_config ctx)"
  by (auto simp: load_vault_def checked_ok)

lemma take_lamports_ok [checked_ok]:
  "take_lamports k amount s = Inr s' \<longleftrightarrow>
     amount \<le> vs_lamports s k \<and> s' = s\<lparr>vs_lamports := (vs_lamports s)(k := vs_lamports s k - amount)\<rparr>"
  by (auto simp: take_lamports_def checked_ok checked_sub_def split: if_splits)

lemma give_lamports_ok [checked_ok]:
  "give_lamports k amount s = Inr s' \<longleftrightarrow> unat (vs_lamports s k) + unat amount < 2 ^ 64 \<and>
     s' = s\<lparr>vs_lamports := (vs_lamports s)(k := vs_lamports s k + amount)\<rparr>"
  by (auto simp: give_lamports_def ok_or_ok and_then_ok checked_add_def split: if_splits)

lemma vault_covered_put:
  assumes "vault_covered env rent s" and "find_pda env (vault_seeds (vlt_user v)) = (k, vlt_bump v)"
    and "vs_configs s' = (vs_configs s)(k \<mapsto> v)"
    and "unat rent + unat (vlt_total_deposited_lamports v) \<le> unat (vs_lamports s' k)"
    and "\<And>j. j \<noteq> k \<Longrightarrow> vs_configs s j \<noteq> None \<Longrightarrow> vs_lamports s j \<le> vs_lamports s' j"
  shows "vault_covered env rent s'"
  unfolding vault_covered_def
proof (intro allI impI)
  fix j w assume j: "vs_configs s' j = Some w"
  show "find_pda env (vault_seeds (vlt_user w)) = (j, vlt_bump w) \<and>
      unat rent + unat (vlt_total_deposited_lamports w) \<le> unat (vs_lamports s' j)"
  proof (cases "j = k")
    case True
    then show ?thesis using assms j by simp
  next
    case False
    with j assms(1,3) have w: "vs_configs s j = Some w" "find_pda env (vault_seeds (vlt_user w)) = (j, vlt_bump w)"
      "unat rent + unat (vlt_total_deposited_lamports w) \<le> unat (vs_lamports s j)"
      by (auto simp: vault_covered_def)
    moreover have "unat (vs_lamports s j) \<le> unat (vs_lamports s' j)"
      using assms(5) [OF False] w(1) by (simp add: word_le_nat_alt)
    ultimately show ?thesis by linarith
  qed
qed

lemma put_vault_simps [simp]:
  "vs_configs (put_vault k v s) = (vs_configs s)(k \<mapsto> v)" "vs_lamports (put_vault k v s) = vs_lamports s"
  by (simp_all add: put_vault_def)

lemma vault_at:
  assumes "vault_covered env rent s" and "vs_configs s k = Some v"
  shows "find_pda env (vault_seeds (vlt_user v)) = (k, vlt_bump v)"
    and "unat rent + unat (vlt_total_deposited_lamports v) \<le> unat (vs_lamports s k)"
  using assms by (auto simp: vault_covered_def)

lemma initialize_covered:
  assumes "system_ok env rent" and "vault_covered (ve_anchor env) rent s"
    and "initialize_vault env signers ctx limit s = Inr s'"
  shows "vault_covered (ve_anchor env) rent s'"
proof -
  from assms(3) obtain bump s1 where i: "find_pda (ve_anchor env) (vault_seeds (va_user ctx)) = (va_config ctx, bump)"
    "ve_create env (va_user ctx) (va_config ctx) s = Some s1"
    "s' = put_vault (va_config ctx) \<lparr>vlt_user = va_user ctx, vlt_bump = bump, vlt_limit_lamports = limit,
        vlt_total_deposited_lamports = 0\<rparr> s1"
    by (auto simp: initialize_vault_def checked_ok)
  have c: "vs_configs s1 = vs_configs s" "rent \<le> vs_lamports s1 (va_config ctx)"
    "\<And>j. vs_configs s j \<noteq> None \<Longrightarrow> vs_lamports s j \<le> vs_lamports s1 j"
    using assms(1) i(2) unfolding system_ok_def by blast+
  show ?thesis
    by (rule vault_covered_put [OF assms(2), of "\<lparr>vlt_user = va_user ctx, vlt_bump = bump,
        vlt_limit_lamports = limit, vlt_total_deposited_lamports = 0\<rparr>" "va_config ctx"])
      (use i c in \<open>simp_all add: word_le_nat_alt\<close>)
qed

lemma deposit_covered:
  assumes "system_ok env rent" and "vault_covered (ve_anchor env) rent s"
    and "deposit_lamports env signers ctx amount s = Inr s'"
  shows "vault_covered (ve_anchor env) rent s'"
proof -
  let ?k = "va_config ctx"
  from assms(3) obtain v n s1 where d: "vs_configs s ?k = Some v"
    "unat n = unat (vlt_total_deposited_lamports v) + unat amount"
    "ve_transfer env (va_user ctx) ?k amount s = Some s1"
    "s' = put_vault ?k (v\<lparr>vlt_total_deposited_lamports := n\<rparr>) s1"
    by (auto simp: deposit_lamports_def checked_ok)
  have t: "vs_configs s1 = vs_configs s" "vs_configs s (va_user ctx) = None"
    "va_user ctx \<noteq> ?k \<longrightarrow> unat (vs_lamports s1 ?k) = unat (vs_lamports s ?k) + unat amount"
    "\<And>j. j \<noteq> va_user ctx \<and> j \<noteq> ?k \<Longrightarrow> vs_lamports s1 j = vs_lamports s j"
    using assms(1) d(3) unfolding system_ok_def by blast+
  then have u: "va_user ctx \<noteq> ?k" using d(1) by auto
  have others: "vs_lamports s j \<le> vs_lamports s1 j" if "j \<noteq> ?k" "vs_configs s j \<noteq> None" for j
    using t(2,4) that by (cases "j = va_user ctx") auto
  show ?thesis
    by (rule vault_covered_put [OF assms(2), of "v\<lparr>vlt_total_deposited_lamports := n\<rparr>" ?k])
      (use d t(1,3) u others vault_at [OF assms(2) d(1)] in simp_all)
qed

lemma withdraw_covered:
  assumes "vault_covered (ve_anchor env) rent s"
    and "withdraw_lamports env signers ctx amount s = Inr s'"
  shows "vault_covered (ve_anchor env) rent s'"
proof -
  let ?k = "va_config ctx" and ?u = "va_user ctx"
  from assms(2) obtain v where w: "vs_configs s ?k = Some v" "amount \<le> vlt_total_deposited_lamports v"
    "amount \<le> vs_lamports s ?k"
    "unat (((vs_lamports s)(?k := vs_lamports s ?k - amount)) ?u) + unat amount < 2 ^ 64"
    "s' = put_vault ?k (v\<lparr>vlt_total_deposited_lamports := vlt_total_deposited_lamports v - amount\<rparr>)
       (s\<lparr>vs_lamports := ((vs_lamports s)(?k := vs_lamports s ?k - amount))
          (?u := ((vs_lamports s)(?k := vs_lamports s ?k - amount)) ?u + amount)\<rparr>)"
    unfolding withdraw_lamports_def
    by (auto simp: checked_ok checked_sub_def simp del: fun_upd_apply split: if_splits)
  have u: "vs_lamports s ?u \<le> vs_lamports s ?u + amount" if "?u \<noteq> ?k"
    using w(4) that by (simp add: word_le_nat_alt unat_add_exact)
  have k: "unat (vs_lamports s ?k) - unat amount \<le> unat (vs_lamports s' ?k)"
    using w(3) unfolding w(5) by (simp add: unat_sub_exact word_le_nat_alt)
  show ?thesis
  proof (rule vault_covered_put [OF assms(1)])
    show "vs_configs s' = (vs_configs s)(?k \<mapsto> v\<lparr>vlt_total_deposited_lamports := vlt_total_deposited_lamports v - amount\<rparr>)"
      unfolding w(5) by simp
    show "unat rent + unat (vlt_total_deposited_lamports
        (v\<lparr>vlt_total_deposited_lamports := vlt_total_deposited_lamports v - amount\<rparr>)) \<le> unat (vs_lamports s' ?k)"
      using k w(2) vault_at(2) [OF assms(1) w(1)] by (simp add: unat_sub_exact word_le_nat_alt)
    show "vs_lamports s j \<le> vs_lamports s' j" if "j \<noteq> ?k" "vs_configs s j \<noteq> None" for j
      using that u unfolding w(5) by (cases "j = ?u") auto
  qed (use vault_at(1) [OF assms(1) w(1)] in simp)
qed

lemma close_covered:
  assumes "vault_covered (ve_anchor env) rent s" and "close_vault env signers ctx s = Inr s'"
  shows "vault_covered (ve_anchor env) rent s'"
proof -
  let ?k = "va_config ctx" and ?u = "va_user ctx"
  from assms(2) have c: "?k \<noteq> ?u" "unat (vs_lamports s ?u) + unat (vs_lamports s ?k) < 2 ^ 64"
    "s' = \<lparr>vs_configs = (vs_configs s)(?k := None),
        vs_lamports = (vs_lamports s)(?u := vs_lamports s ?u + vs_lamports s ?k, ?k := 0)\<rparr>"
    by (auto simp: close_vault_def checked_ok)
  show ?thesis
    unfolding vault_covered_def
  proof (intro allI impI)
    fix j w assume "vs_configs s' j = Some w"
    then have j: "j \<noteq> ?k" "vs_configs s j = Some w" using c(3) by (auto split: if_splits)
    then have "unat (vs_lamports s j) \<le> unat (vs_lamports s' j)" using c by (simp add: unat_add_exact)
    then show "find_pda (ve_anchor env) (vault_seeds (vlt_user w)) = (j, vlt_bump w) \<and>
        unat rent + unat (vlt_total_deposited_lamports w) \<le> unat (vs_lamports s' j)"
      using vault_at [OF assms(1) j(2)] by simp
  qed
qed

lemma vault_step_covered:
  assumes "system_ok env rent" and "vault_step env s s'" and "vault_covered (ve_anchor env) rent s"
  shows "vault_covered (ve_anchor env) rent s'"
  using assms(2)
proof cases
  case (vault_instruction signers i)
  then show ?thesis
  proof (cases i)
    case (SetVaultLimit ctx limit)
    with vault_instruction obtain v where v: "vs_configs s (va_config ctx) = Some v"
      "s' = put_vault (va_config ctx) (v\<lparr>vlt_limit_lamports := limit\<rparr>) s"
      by (auto simp: set_vault_limit_def checked_ok)
    then show ?thesis
      by (intro vault_covered_put [OF assms(3), of "v\<lparr>vlt_limit_lamports := limit\<rparr>" "va_config ctx"])
        (use vault_at [OF assms(3) v(1)] v in simp_all)
  qed (use assms(1,3) in \<open>auto intro: initialize_covered deposit_covered withdraw_covered close_covered\<close>)
next
  case (rest_of_chain l)
  then show ?thesis
    using assms(3) by (fastforce simp: vault_covered_def word_le_nat_alt)
qed

lemma vault_reachable_covered:
  assumes "system_ok env rent" and "(vault_step env)\<^sup>*\<^sup>* s s'" and "vs_configs s = (\<lambda>_. None)"
  shows "vault_covered (ve_anchor env) rent s'"
  using assms(2)
proof (induction rule: rtranclp_induct)
  case base
  then show ?case using assms(3) by (simp add: vault_covered_def)
next
  case (step t u)
  then show ?case using vault_step_covered [OF assms(1)] by blast
qed

lemma vault_withdraw_pays:
  assumes "finds_its_bump (ve_anchor env)" and "vault_covered (ve_anchor env) rent s"
    and "vs_configs s k = Some v" and "vlt_user v \<in> set signers" and "vlt_user v \<noteq> k"
    and "amount \<le> vlt_total_deposited_lamports v"
    and "unat (vs_lamports s (vlt_user v)) + unat amount < 2 ^ 64"
  shows "withdraw_lamports env signers \<lparr>va_user = vlt_user v, va_config = k\<rparr> amount s = Inr
    \<lparr>vs_configs = (vs_configs s)(k \<mapsto> v\<lparr>vlt_total_deposited_lamports := vlt_total_deposited_lamports v - amount\<rparr>),
     vs_lamports = (vs_lamports s)(k := vs_lamports s k - amount,
       vlt_user v := vs_lamports s (vlt_user v) + amount)\<rparr>"
proof -
  note at = vault_at [OF assms(2,3)]
  have le: "amount \<le> vs_lamports s k"
    using assms(6) at(2) by (simp add: word_le_nat_alt)
  moreover have "create_pda (ve_anchor env) (vault_seeds (vlt_user v)) (vlt_bump v) = Some k"
    using assms(1) at(1) unfolding finds_its_bump_def by (metis fst_conv snd_conv)
  ultimately have "load_vault env signers \<lparr>va_user = vlt_user v, va_config = k\<rparr> s = Inr v"
    using assms(3,4) by (simp add: load_vault_ok)
  then show ?thesis
    unfolding withdraw_lamports_def take_lamports_def give_lamports_def put_vault_def
    using le assms(5-7) by (simp add: checked_sub_def checked_add_def)
qed

end
