(* ===== verification/Vault_Properties.thy ===== *)
theory Vault_Properties
  imports Vault_Authority Anchor_Demo
begin

text \<open>
  A vault always pays: in every state that the chain can reach, a vault holds what its user has
  deposited on top of the rent, and the user can take it out.
\<close>

section \<open>A concrete chain\<close>

definition demo_vault_env :: vault_env where
  "demo_vault_env = \<lparr>ve_anchor = demo_env,
     ve_create = (\<lambda>payer k s.
       if vs_configs s payer = None \<and> vs_configs s k = None \<and> payer \<noteq> k \<and> 10 \<le> vs_lamports s payer
       then Some (s\<lparr>vs_lamports := (vs_lamports s)(payer := vs_lamports s payer - 10, k := 10)\<rparr>) else None),
     ve_transfer = (\<lambda>a b amount s.
       if vs_configs s a = None \<and> a \<noteq> b \<and> amount \<le> vs_lamports s a \<and>
         unat (vs_lamports s b) + unat amount < 2 ^ 64
       then Some (s\<lparr>vs_lamports := (vs_lamports s)(a := vs_lamports s a - amount, b := vs_lamports s b + amount)\<rparr>)
       else None)\<rparr>"

lemma demo_system_ok: "system_ok demo_vault_env 10"
  unfolding system_ok_def
proof (intro conjI allI impI)
  fix payer k s s' assume "ve_create demo_vault_env payer k s = Some s'"
  then show "vs_configs s' = vs_configs s" "10 \<le> vs_lamports s' k"
    "\<And>j. vs_configs s j \<noteq> None \<Longrightarrow> vs_lamports s j \<le> vs_lamports s' j"
    by (auto simp: demo_vault_env_def split: if_splits)
next
  fix a b amount s s' assume "ve_transfer demo_vault_env a b amount s = Some s'"
  then show "vs_configs s' = vs_configs s" "vs_configs s a = None"
    "a \<noteq> b \<Longrightarrow> unat (vs_lamports s' b) = unat (vs_lamports s b) + unat amount"
    "\<And>j. j \<noteq> a \<and> j \<noteq> b \<Longrightarrow> vs_lamports s' j = vs_lamports s j"
    by (auto simp: demo_vault_env_def unat_add_exact split: if_splits)
qed

definition demo_vault :: "u64 \<Rightarrow> vault_config" where
  "demo_vault deposited = \<lparr>vlt_user = 7, vlt_bump = 255, vlt_limit_lamports = 500, vlt_total_deposited_lamports = deposited\<rparr>"

definition demo_vaults :: "u64 \<Rightarrow> u64 \<Rightarrow> u64 \<Rightarrow> vault_store" where
  "demo_vaults wallet held deposited = \<lparr>vs_configs = [580979 \<mapsto> demo_vault deposited],
     vs_lamports = (\<lambda>_. 0)(7 := wallet, 580979 := held)\<rparr>"

definition demo_vault_start :: vault_store where
  "demo_vault_start = \<lparr>vs_configs = (\<lambda>_. None), vs_lamports = (\<lambda>_. 0)(7 := 1000)\<rparr>"

lemma demo_vault_address [simp]: "demo_hash (vault_seeds 7) = 580979"
  by code_simp

lemma demo_vault_txs:
  "vault_authority demo_vault_env [7] (InitializeVault \<lparr>va_user = 7, va_config = 580979\<rparr> 500) demo_vault_start =
     Inr (demo_vaults 990 10 0)"
  "vault_authority demo_vault_env [7] (DepositLamports \<lparr>va_user = 7, va_config = 580979\<rparr> 300) (demo_vaults 990 10 0) =
     Inr (demo_vaults 690 310 300)"
  by (simp_all add: initialize_vault_def deposit_lamports_def load_vault_def need_signer_def check_seeds_def
      check_seeds_bump_def load_def init_fresh_def demo_vault_env_def demo_vault_start_def demo_vaults_def
      demo_vault_def put_vault_def checked_add_def)

lemma demo_vault_reached: "(vault_step demo_vault_env)\<^sup>*\<^sup>* demo_vault_start (demo_vaults 690 310 300)"
  by (rule rtranclp.rtrancl_into_rtrancl [OF r_into_rtranclp])
    (rule vault_step.vault_instruction, rule demo_vault_txs)+

section \<open>The property\<close>

text \<open>C37: In every state the chain can reach from deployment, whatever else happens on it, a vault holds the
  rent and everything its user has deposited and not withdrawn, and a withdrawal of any part of it that
  the user signs succeeds and pays exactly that part, to the user.\<close>

theorem vault_always_pays:
  assumes "system_ok env rent" and "finds_its_bump (ve_anchor env)"
    and "(vault_step env)\<^sup>*\<^sup>* start s" and "vs_configs start = (\<lambda>_. None)"
    and "vs_configs s k = Some v" and "vlt_user v \<in> set signers" and "vlt_user v \<noteq> k"
    and "amount \<le> vlt_total_deposited_lamports v"
    and "unat (vs_lamports s (vlt_user v)) + unat amount < 2 ^ 64"
  shows "unat rent + unat (vlt_total_deposited_lamports v) \<le> unat (vs_lamports s k) \<and>
    withdraw_lamports env signers \<lparr>va_user = vlt_user v, va_config = k\<rparr> amount s = Inr
    \<lparr>vs_configs = (vs_configs s)(k \<mapsto> v\<lparr>vlt_total_deposited_lamports := vlt_total_deposited_lamports v - amount\<rparr>),
     vs_lamports = (vs_lamports s)(k := vs_lamports s k - amount,
       vlt_user v := vs_lamports s (vlt_user v) + amount)\<rparr>"
proof -
  have c: "vault_covered (ve_anchor env) rent s" by (rule vault_reachable_covered [OF assms(1,3,4)])
  show ?thesis using vault_at(2) [OF c assms(5)] vault_withdraw_pays [OF assms(2) c assms(5-9)] by blast
qed

theorem vault_always_pays_witness:
  "withdraw_lamports demo_vault_env [7] \<lparr>va_user = 7, va_config = 580979\<rparr> 300 (demo_vaults 690 310 300) =
     Inr (demo_vaults 990 10 0)"
  using vault_always_pays [of demo_vault_env 10 demo_vault_start "demo_vaults 690 310 300" 580979
      "demo_vault 300" "[7]" 300] demo_system_ok demo_vault_reached
  by (simp add: finds_its_bump_def demo_vaults_def demo_vault_start_def demo_vault_def demo_vault_env_def
      fun_upd_twist)

end
