(* ===== verification/Cpi_Counter.thy ===== *)
theory Cpi_Counter
  imports Anchor_Base Anchor_Demo
begin

text \<open>
  \<open>src/05-anchor-cpi-lab\<close>: the program \<open>cpi_counter\<close>, a counter for each authority, and the program
  \<open>cpi_proxy\<close>, which calls it for its users, either with the user as the authority or with an
  address of its own that it derives from the user and signs for.
\<close>

section \<open>The counter\<close>

datatype counter_error = CounterOverflow

record counter =
  ctr_authority :: pubkey
  ctr_count :: u64
  ctr_bump :: u8

type_synonym counter_store = "counter accounts"
type_synonym counter_result = "(counter_error program_error, counter_store) result"

definition counter_seeds :: "pubkey \<Rightarrow> u8 list list" where
  "counter_seeds authority = [ascii_bytes ''counter'', key_bytes authority]"

record initialize_counter_accounts =
  ict_payer :: pubkey
  ict_authority :: pubkey
  ict_counter :: pubkey

definition initialize_counter ::
  "anchor_env \<Rightarrow> pubkey list \<Rightarrow> initialize_counter_accounts \<Rightarrow> counter_store \<Rightarrow> counter_result" where
  "initialize_counter env signers ctx accs =
     and_then (need_signer (ict_payer ctx) signers) (\<lambda>_.
     and_then (need_signer (ict_authority ctx) signers) (\<lambda>_.
     and_then (check_seeds env (ict_counter ctx) (counter_seeds (ict_authority ctx))) (\<lambda>bump.
     and_then (init_fresh accs (ict_counter ctx) ()) (\<lambda>_.
       Inr (accs(ict_counter ctx \<mapsto>
         \<lparr>ctr_authority = ict_authority ctx, ctr_count = 0, ctr_bump = bump\<rparr>))))))"

record increment_accounts =
  inc_authority :: pubkey
  inc_counter :: pubkey

definition increment ::
  "anchor_env \<Rightarrow> pubkey list \<Rightarrow> increment_accounts \<Rightarrow> counter_store \<Rightarrow> counter_result" where
  "increment env signers ctx accs =
     and_then (need_signer (inc_authority ctx) signers) (\<lambda>_.
     and_then (load Some accs (inc_counter ctx)) (\<lambda>c.
     and_then (check_seeds_bump env (inc_counter ctx) (counter_seeds (inc_authority ctx)) (ctr_bump c)) (\<lambda>_.
     and_then (ensure (ctr_authority c = inc_authority ctx) ConstraintHasOne) (\<lambda>_.
     and_then (require_some (checked_add (ctr_count c) 1) CounterOverflow) (\<lambda>n.
       Inr (accs(inc_counter ctx \<mapsto> c\<lparr>ctr_count := n\<rparr>)))))))"

datatype counter_instruction =
    InitializeScaffold
  | InitializeCounter initialize_counter_accounts
  | Increment increment_accounts

fun cpi_counter ::
  "anchor_env \<Rightarrow> pubkey list \<Rightarrow> counter_instruction \<Rightarrow> counter_store \<Rightarrow> counter_result" where
  "cpi_counter env signers InitializeScaffold accs = Inr accs"
| "cpi_counter env signers (InitializeCounter ctx) accs = initialize_counter env signers ctx accs"
| "cpi_counter env signers (Increment ctx) accs = increment env signers ctx accs"

section \<open>The proxy\<close>

text \<open>The addresses that the two programs derive.\<close>

record proxy_env =
  px_counter :: anchor_env
  px_proxy :: anchor_env

definition proxy_authority_seeds :: "pubkey \<Rightarrow> u8 list list" where
  "proxy_authority_seeds user = [ascii_bytes ''proxy-authority'', key_bytes user]"

record proxy_increment_accounts =
  pi_authority :: pubkey
  pi_counter :: pubkey

text \<open>The signatures of the transaction hold in the call.\<close>

definition proxy_increment ::
  "proxy_env \<Rightarrow> pubkey list \<Rightarrow> proxy_increment_accounts \<Rightarrow> counter_store \<Rightarrow> counter_result" where
  "proxy_increment env signers ctx accs =
     and_then (need_signer (pi_authority ctx) signers) (\<lambda>_.
     and_then (load Some accs (pi_counter ctx)) (\<lambda>_.
       cpi_counter (px_counter env) signers
         (Increment \<lparr>inc_authority = pi_authority ctx, inc_counter = pi_counter ctx\<rparr>) accs))"

record proxy_user_accounts =
  pu_user :: pubkey
  pu_proxy_authority :: pubkey
  pu_counter :: pubkey

text \<open>A call signed for the derived authority: the runtime derives the signer from the seeds.\<close>

definition signed_counter_call ::
  "proxy_env \<Rightarrow> pubkey list \<Rightarrow> pubkey \<Rightarrow> u8 \<Rightarrow> counter_instruction \<Rightarrow> counter_store \<Rightarrow> counter_result" where
  "signed_counter_call env signers user bump i accs =
     and_then (ok_or (create_pda (px_proxy env) (proxy_authority_seeds user) bump) CpiFailed) (\<lambda>pda.
       cpi_counter (px_counter env) (signers @ [pda]) i accs)"

definition proxy_initialize_counter ::
  "proxy_env \<Rightarrow> pubkey list \<Rightarrow> proxy_user_accounts \<Rightarrow> counter_store \<Rightarrow> counter_result" where
  "proxy_initialize_counter env signers ctx accs =
     and_then (need_signer (pu_user ctx) signers) (\<lambda>_.
     and_then (check_seeds (px_proxy env) (pu_proxy_authority ctx) (proxy_authority_seeds (pu_user ctx)))
       (\<lambda>bump.
       signed_counter_call env signers (pu_user ctx) bump
         (InitializeCounter \<lparr>ict_payer = pu_user ctx, ict_authority = pu_proxy_authority ctx,
            ict_counter = pu_counter ctx\<rparr>) accs))"

definition proxy_increment_with_signer ::
  "proxy_env \<Rightarrow> pubkey list \<Rightarrow> proxy_user_accounts \<Rightarrow> counter_store \<Rightarrow> counter_result" where
  "proxy_increment_with_signer env signers ctx accs =
     and_then (need_signer (pu_user ctx) signers) (\<lambda>_.
     and_then (check_seeds (px_proxy env) (pu_proxy_authority ctx) (proxy_authority_seeds (pu_user ctx)))
       (\<lambda>bump.
     and_then (load Some accs (pu_counter ctx)) (\<lambda>_.
       signed_counter_call env signers (pu_user ctx) bump
         (Increment \<lparr>inc_authority = pu_proxy_authority ctx, inc_counter = pu_counter ctx\<rparr>) accs)))"

datatype proxy_instruction =
    InitializeProxy
  | ProxyIncrement proxy_increment_accounts
  | ProxyInitializeCounter proxy_user_accounts
  | ProxyIncrementWithSigner proxy_user_accounts

fun cpi_proxy :: "proxy_env \<Rightarrow> pubkey list \<Rightarrow> proxy_instruction \<Rightarrow> counter_store \<Rightarrow> counter_result" where
  "cpi_proxy env signers InitializeProxy accs = Inr accs"
| "cpi_proxy env signers (ProxyIncrement ctx) accs = proxy_increment env signers ctx accs"
| "cpi_proxy env signers (ProxyInitializeCounter ctx) accs = proxy_initialize_counter env signers ctx accs"
| "cpi_proxy env signers (ProxyIncrementWithSigner ctx) accs =
     proxy_increment_with_signer env signers ctx accs"

section \<open>Both programs on one chain\<close>

type_synonym counter_transaction = "pubkey list \<times> (counter_instruction + proxy_instruction)"

fun counter_exec :: "proxy_env \<Rightarrow> counter_transaction \<Rightarrow> counter_store \<Rightarrow> counter_result" where
  "counter_exec env (signers, Inl i) accs = cpi_counter (px_counter env) signers i accs"
| "counter_exec env (signers, Inr i) accs = cpi_proxy env signers i accs"

text \<open>The counter that a transaction increments, and who may do it: the counter's authority, or the user
  whom the authority is derived from.\<close>

fun counter_target :: "counter_instruction \<Rightarrow> pubkey option" where
  "counter_target (Increment ctx) = Some (inc_counter ctx)"
| "counter_target _ = None"

fun increment_target :: "counter_transaction \<Rightarrow> pubkey option" where
  "increment_target (_, Inl i) = counter_target i"
| "increment_target (_, Inr (ProxyIncrement ctx)) = Some (pi_counter ctx)"
| "increment_target (_, Inr (ProxyIncrementWithSigner ctx)) = Some (pu_counter ctx)"
| "increment_target (_, Inr _) = None"

definition may_increment :: "proxy_env \<Rightarrow> pubkey \<Rightarrow> pubkey list \<Rightarrow> bool" where
  "may_increment env authority signers \<longleftrightarrow> authority \<in> set signers \<or>
     (\<exists>user \<in> set signers. fst (find_pda (px_proxy env) (proxy_authority_seeds user)) = authority)"

definition count_at :: "pubkey \<Rightarrow> counter_store \<Rightarrow> nat" where
  "count_at k accs = (case accs k of None \<Rightarrow> 0 | Some c \<Rightarrow> unat (ctr_count c))"

lemma increment_ok [checked_ok]:
  "increment env signers ctx accs = Inr accs' \<longleftrightarrow>
    (\<exists>c n. inc_authority ctx \<in> set signers \<and> accs (inc_counter ctx) = Some c \<and>
       create_pda env (counter_seeds (inc_authority ctx)) (ctr_bump c) = Some (inc_counter ctx) \<and>
       ctr_authority c = inc_authority ctx \<and> unat n = Suc (unat (ctr_count c)) \<and>
       accs' = accs(inc_counter ctx \<mapsto> c\<lparr>ctr_count := n\<rparr>))"
  unfolding increment_def by (auto simp: checked_ok)

lemma initialize_counter_ok [checked_ok]:
  "initialize_counter env signers ctx accs = Inr accs' \<longleftrightarrow>
    (\<exists>bump. ict_payer ctx \<in> set signers \<and> ict_authority ctx \<in> set signers \<and>
       find_pda env (counter_seeds (ict_authority ctx)) = (ict_counter ctx, bump) \<and>
       accs (ict_counter ctx) = None \<and>
       accs' = accs(ict_counter ctx \<mapsto> \<lparr>ctr_authority = ict_authority ctx, ctr_count = 0, ctr_bump = bump\<rparr>))"
  unfolding initialize_counter_def by (simp add: checked_ok) blast

lemmas proxy_defs = proxy_increment_def proxy_initialize_counter_def proxy_increment_with_signer_def
  signed_counter_call_def

text \<open>What an accepted transaction does: nothing, a new counter, or one increment by someone who may.\<close>

definition counter_effect ::
  "(pubkey \<Rightarrow> bool) \<Rightarrow> pubkey option \<Rightarrow> counter_store \<Rightarrow> counter_store \<Rightarrow> bool" where
  "counter_effect may target accs accs' \<longleftrightarrow>
     (case target of
        None \<Rightarrow> accs' = accs \<or> (\<exists>k authority bump. accs k = None \<and>
          accs' = accs(k \<mapsto> \<lparr>ctr_authority = authority, ctr_count = 0, ctr_bump = bump\<rparr>))
      | Some k \<Rightarrow> \<exists>c n. accs k = Some c \<and> accs' = accs(k \<mapsto> c\<lparr>ctr_count := n\<rparr>) \<and>
          unat n = Suc (unat (ctr_count c)) \<and> may (ctr_authority c))"

lemma counter_effect_mono:
  "counter_effect p t accs accs' \<Longrightarrow> (\<And>a. p a \<Longrightarrow> q a) \<Longrightarrow> counter_effect q t accs accs'"
  by (cases t) (auto simp: counter_effect_def)

lemma cpi_counter_effect:
  assumes "cpi_counter env signers i accs = Inr accs'"
  shows "counter_effect (\<lambda>a. a \<in> set signers \<and> (\<forall>ctx. i = Increment ctx \<longrightarrow> a = inc_authority ctx))
    (counter_target i) accs accs'"
  using assms by (cases i) (auto simp: counter_effect_def checked_ok)

lemma signed_counter_effect:
  assumes "finds_its_bump (px_proxy env)"
    and "find_pda (px_proxy env) (proxy_authority_seeds user) = (p, bump)" and "user \<in> set signers"
    and "signed_counter_call env signers user bump i accs = Inr accs'"
  shows "counter_effect (\<lambda>a. may_increment env a signers) (counter_target i) accs accs'"
proof -
  have "create_pda (px_proxy env) (proxy_authority_seeds user) bump = Some p"
    using assms(1,2) unfolding finds_its_bump_def by (metis fst_conv snd_conv)
  with assms(4) have "cpi_counter (px_counter env) (signers @ [p]) i accs = Inr accs'"
    by (simp add: signed_counter_call_def ok_or_def)
  from cpi_counter_effect [OF this] show ?thesis
    by (rule counter_effect_mono) (use assms(2,3) in \<open>auto simp: may_increment_def intro!: bexI [of _ user]\<close>)
qed

lemma counter_exec_effect:
  assumes "finds_its_bump (px_proxy env)" and "counter_exec env tx accs = Inr accs'"
  shows "counter_effect (\<lambda>a. may_increment env a (fst tx)) (increment_target tx) accs accs'"
proof -
  obtain signers i where tx: "tx = (signers, i)" by (cases tx)
  have direct: "counter_effect (\<lambda>a. may_increment env a signers) (counter_target ci) accs accs'"
    if "cpi_counter (px_counter env) signers ci accs = Inr accs'" for ci
    using cpi_counter_effect [OF that] by (rule counter_effect_mono) (simp add: may_increment_def)
  show ?thesis
  proof (cases i)
    case (Inl ci)
    with assms(2) tx direct show ?thesis by simp
  next
    case (Inr pi)
    show ?thesis
    proof (cases pi)
      case InitializeProxy
      with assms(2) tx Inr show ?thesis by (simp add: counter_effect_def)
    next
      case (ProxyIncrement ctx)
      with assms(2) tx Inr direct [of "Increment \<lparr>inc_authority = pi_authority ctx, inc_counter = pi_counter ctx\<rparr>"]
      show ?thesis by (auto simp: proxy_increment_def and_then_ok)
    next
      case (ProxyInitializeCounter ctx)
      with assms(2) tx Inr show ?thesis
        by (auto simp: proxy_initialize_counter_def and_then_ok need_signer_ok check_seeds_ok
            dest!: signed_counter_effect [OF assms(1), rotated 2])
    next
      case (ProxyIncrementWithSigner ctx)
      with assms(2) tx Inr show ?thesis
        by (auto simp: proxy_increment_with_signer_def and_then_ok need_signer_ok check_seeds_ok
            dest!: signed_counter_effect [OF assms(1), rotated 2])
    qed
  qed
qed

lemma count_at_effect:
  "counter_effect p t accs accs' \<Longrightarrow> count_at k accs' = count_at k accs + (if t = Some k then 1 else 0)"
  by (cases t) (auto simp: counter_effect_def count_at_def)

text \<open>Counters keep their authority.\<close>

definition counters_kept :: "counter_store \<Rightarrow> counter_store \<Rightarrow> bool" where
  "counters_kept accs accs' \<longleftrightarrow>
     (\<forall>k c. accs k = Some c \<longrightarrow> (\<exists>c'. accs' k = Some c' \<and> ctr_authority c' = ctr_authority c))"

lemma counters_kept_effect: "counter_effect p t accs accs' \<Longrightarrow> counters_kept accs accs'"
  by (cases t) (auto simp: counter_effect_def counters_kept_def)

interpretation counters: evolving_program "counter_exec env" "\<lambda>_. finds_its_bump (px_proxy env)" counters_kept for env
proof
  show "counters_kept a a" for a by (simp add: counters_kept_def)
  show "counters_kept a c" if "counters_kept a b" "counters_kept b c" for a b c
    using that unfolding counters_kept_def by metis
qed (use counter_exec_effect counters_kept_effect in blast)+

lemma run_counts:
  assumes "finds_its_bump (px_proxy env)"
  shows "count_at k (run_transactions (counter_exec env) txs accs) = count_at k accs +
    sum_list (map (\<lambda>tx. if increment_target tx = Some k then 1 else 0) (accepted (counter_exec env) txs accs))"
  by (rule counters.run_adds [of env "count_at k"]) (use assms count_at_effect counter_exec_effect in blast)+

lemma accepted_may:
  assumes "finds_its_bump (px_proxy env)" and "run_transactions (counter_exec env) txs accs k = Some c"
  shows "list_all (\<lambda>tx. increment_target tx = Some k \<longrightarrow> may_increment env (ctr_authority c) (fst tx))
    (accepted (counter_exec env) txs accs)"
  using assms(2)
proof (induction txs arbitrary: accs)
  case (Cons tx txs)
  show ?case
  proof (cases "counter_exec env tx accs")
    case (Inl e)
    then show ?thesis using Cons by simp
  next
    case (Inr accs')
    have "may_increment env (ctr_authority c) (fst tx)" if "increment_target tx = Some k"
    proof -
      from counter_exec_effect [OF assms(1) Inr] that obtain c0 n where
        c0: "accs' k = Some (c0\<lparr>ctr_count := n\<rparr>)" "may_increment env (ctr_authority c0) (fst tx)"
        by (auto simp: counter_effect_def)
      moreover have "counters_kept accs' (run_transactions (counter_exec env) txs accs')"
        by (rule counters.run_evolves [OF assms(1)])
      then have "ctr_authority c = ctr_authority (c0\<lparr>ctr_count := n\<rparr>)"
        using Cons.prems Inr c0(1) unfolding counters_kept_def by fastforce
      ultimately show ?thesis by simp
    qed
    then show ?thesis using Cons.IH [of accs'] Cons.prems Inr by simp
  qed
qed simp

section \<open>A run of both programs\<close>

text \<open>User 7 counts through the proxy, authority 9 directly; user 8 may not count for user 7.\<close>

definition demo_proxy :: proxy_env where "demo_proxy = \<lparr>px_counter = demo_env, px_proxy = demo_env\<rparr>"

definition demo_count_user :: "pubkey \<Rightarrow> proxy_user_accounts" where
  "demo_count_user user = \<lparr>pu_user = user, pu_proxy_authority = 13286, pu_counter = 843368\<rparr>"

definition demo_counter_run :: "counter_transaction list" where
  "demo_counter_run =
     [([7], Inr (ProxyInitializeCounter (demo_count_user 7))),
      ([7], Inr (ProxyIncrementWithSigner (demo_count_user 7))),
      ([8], Inr (ProxyIncrementWithSigner (demo_count_user 8))),
      ([9], Inl (InitializeCounter \<lparr>ict_payer = 9, ict_authority = 9, ict_counter = 927124\<rparr>)),
      ([9], Inr (ProxyIncrement \<lparr>pi_authority = 9, pi_counter = 927124\<rparr>)),
      ([7], Inr (ProxyIncrementWithSigner (demo_count_user 7)))]"

lemma demo_counter_addresses [simp]:
  "demo_hash (counter_seeds 9) = 927124" "demo_hash (counter_seeds 13286) = 843368"
  "demo_hash (proxy_authority_seeds 7) = 13286" "demo_hash (proxy_authority_seeds 8) \<noteq> 13286"
  by code_simp+

definition demo_counter :: "pubkey \<Rightarrow> u64 \<Rightarrow> counter" where
  "demo_counter authority n = \<lparr>ctr_authority = authority, ctr_count = n, ctr_bump = 255\<rparr>"

lemma demo_counter_final:
  "run_transactions (counter_exec demo_proxy) demo_counter_run (\<lambda>_. None) =
     [843368 \<mapsto> demo_counter 13286 2, 927124 \<mapsto> demo_counter 9 1]"
  by (simp add: demo_counter_run_def demo_counter_def demo_count_user_def demo_proxy_def proxy_defs
      initialize_counter_def increment_def need_signer_def check_seeds_def check_seeds_bump_def load_def
      init_fresh_def checked_add_def fun_upd_twist)

section \<open>The property\<close>

text \<open>C40: Over any run in which transactions of both programs interleave, a counter has counted exactly the
  accepted increments of it, and every one of them was signed by its authority or, through the proxy, by
  the user from whom its authority is derived.\<close>

theorem counter_counts_signed:
  assumes "finds_its_bump (px_proxy env)"
    and "accs = run_transactions (counter_exec env) txs (\<lambda>_. None)" and "accs k = Some c"
  shows "unat (ctr_count c) =
      length (filter (\<lambda>tx. increment_target tx = Some k) (accepted (counter_exec env) txs (\<lambda>_. None))) \<and>
    list_all (\<lambda>tx. increment_target tx = Some k \<longrightarrow> may_increment env (ctr_authority c) (fst tx))
      (accepted (counter_exec env) txs (\<lambda>_. None))"
proof -
  have "sum_list (map (\<lambda>tx. if P tx then 1 else 0) l) = length (filter P l)" for P and l :: "counter_transaction list"
    by (induction l) simp_all
  then show ?thesis
    using run_counts [OF assms(1), of k txs "\<lambda>_. None"] accepted_may [OF assms(1)] assms(2,3)
    by (simp add: count_at_def)
qed

theorem counter_counts_signed_witness:
  "length (filter (\<lambda>tx. increment_target tx = Some 843368)
     (accepted (counter_exec demo_proxy) demo_counter_run (\<lambda>_. None))) = 2"
  using counter_counts_signed [of demo_proxy "[843368 \<mapsto> demo_counter 13286 2, 927124 \<mapsto> demo_counter 9 1]"
      demo_counter_run 843368 "demo_counter 13286 2"] demo_counter_final
  by (simp add: finds_its_bump_def) (simp add: demo_proxy_def demo_counter_def)

end
