(* ===== verification/Token_Guard.thy ===== *)
theory Token_Guard
  imports Anchor_Base
begin

text \<open>
  Programs that sign calls of a token program with a derived authority.  The token program is a
  parameter over an abstract state \<open>'t\<close>; what it guards by the authority's signature is any
  \<open>watched\<close> of that state which only calls with the signature change.
\<close>

type_synonym ('c, 't) token_invoke = "'c \<Rightarrow> pubkey list \<Rightarrow> 't \<Rightarrow> 't option"

definition guarded_by ::
  "('c, 't) token_invoke \<Rightarrow> pubkey \<Rightarrow> ('c \<Rightarrow> bool) \<Rightarrow> ('t \<Rightarrow> 'v) \<Rightarrow> bool" where
  "guarded_by invoke authority concerns watched \<longleftrightarrow>
     (\<forall>call signers t t'. invoke call signers t = Some t' \<longrightarrow> watched t' \<noteq> watched t \<longrightarrow>
        concerns call \<and> authority \<in> set signers)"

lemma guarded_byD:
  assumes "guarded_by invoke authority concerns watched" and "invoke call signers t = Some t'"
    and "authority \<in> set signers \<Longrightarrow> \<not> concerns call"
  shows "watched t' = watched t"
  using assms unfolding guarded_by_def by blast

text \<open>
  The contract of such a program: the configuration of the authority stays, and a transaction
  without the signature of its admin leaves the guarded watched as it is.
\<close>

locale authority_program =
  fixes exec :: "'i \<Rightarrow> 's \<Rightarrow> ('e, 's) result" and config :: "'s \<Rightarrow> 'k option" and watched :: "'s \<Rightarrow> 'v"
    and signed_by_admin :: "'k \<Rightarrow> 'i \<Rightarrow> bool" and possible :: "'i \<Rightarrow> bool"
  assumes config_stays: "exec i s = Inr s' \<Longrightarrow> config s = Some c \<Longrightarrow> config s' = Some c"
    and admin_needed: "exec i s = Inr s' \<Longrightarrow> config s = Some c \<Longrightarrow> possible i \<Longrightarrow>
      \<not> signed_by_admin c i \<Longrightarrow> watched s' = watched s"
begin

lemma run_without_admin:
  assumes "config s = Some c" and "list_all possible txs" and "list_all (\<lambda>i. \<not> signed_by_admin c i) txs"
  shows "watched (run_transactions exec txs s) = watched s"
  using assms
proof (induction txs arbitrary: s)
  case (Cons i txs)
  show ?case
  proof (cases "exec i s")
    case (Inl e)
    then show ?thesis using Cons by simp
  next
    case (Inr t)
    then show ?thesis
      using Cons.IH [of t] config_stays [OF Inr Cons.prems(1)] admin_needed [OF Inr Cons.prems(1)] Cons.prems
      by simp
  qed
qed simp

end

end
