(* ===== verification/Reward_Token.thy ===== *)
theory Reward_Token
  imports Token_Guard Anchor_Demo
begin

text \<open>
  \<open>src/03-spl-token-lab/programs/reward_token\<close>: one reward mint, whose authority is an address of the
  program.  The token and associated token programs are parameters: \<open>rwe_invoke\<close> runs a call,
  the other fields are how Anchor reads an account as a mint or a token account.
\<close>

section \<open>State\<close>

datatype reward_error = RewardTokenError | InvalidAssociatedTokenAccount | InvalidRewardMint

record reward_mint_config =
  rmc_admin :: pubkey
  rmc_reward_mint :: pubkey
  rmc_mint_authority_bump :: u8
  rmc_decimals :: u8

text \<open>\<open>InitRewardMint\<close> is what \<open>init\<close> with \<open>mint::\<close> constraints does: payer, mint, decimals, authorities.\<close>

datatype reward_call =
    InitRewardMint pubkey pubkey u8 pubkey pubkey
  | CreateAtaIdempotent pubkey pubkey pubkey pubkey    \<comment> \<open>payer, account, authority, mint\<close>
  | RewardMintTo pubkey pubkey pubkey u64              \<comment> \<open>mint, account, authority, amount\<close>
  | RewardBurn pubkey pubkey pubkey u64                \<comment> \<open>mint, account, authority, amount\<close>
  | RewardTransfer pubkey pubkey pubkey u64            \<comment> \<open>from, to, authority, amount\<close>

record 't reward_env =
  rwe_anchor :: anchor_env
  rwe_invoke :: "(reward_call, 't) token_invoke"
  rwe_is_mint :: "'t \<Rightarrow> pubkey \<Rightarrow> bool"
  rwe_token_account :: "'t \<Rightarrow> pubkey \<Rightarrow> (pubkey \<times> pubkey) option"     \<comment> \<open>mint and authority\<close>
  rwe_data_is_empty :: "'t \<Rightarrow> pubkey \<Rightarrow> bool"
  rwe_associated_address :: "pubkey \<Rightarrow> pubkey \<Rightarrow> pubkey"

record 't reward_state =
  rws_configs :: "reward_mint_config accounts"
  rws_tokens :: 't

type_synonym 't reward_result = "(reward_error program_error, 't reward_state) result"

definition reward_authority_seeds :: "u8 list list" where
  "reward_authority_seeds = [ascii_bytes ''mint_authority'']"
definition reward_config_seeds :: "u8 list list" where
  "reward_config_seeds = [ascii_bytes ''reward_mint_config'']"

definition reward_call ::
  "'t reward_env \<Rightarrow> reward_call \<Rightarrow> pubkey list \<Rightarrow> 't reward_state \<Rightarrow> 't reward_result" where
  "reward_call env call signers s =
     and_then (ok_or (rwe_invoke env call signers (rws_tokens s)) CpiFailed) (\<lambda>t. Inr (s\<lparr>rws_tokens := t\<rparr>))"

section \<open>Account constraints\<close>

definition load_reward_config ::
  "'t reward_env \<Rightarrow> pubkey \<Rightarrow> 't reward_state \<Rightarrow> (reward_error program_error, reward_mint_config) result" where
  "load_reward_config env k s =
     and_then (load Some (rws_configs s) k) (\<lambda>c.
     and_then (check_seeds (rwe_anchor env) k reward_config_seeds) (\<lambda>_. Inr c))"

text \<open>\<open>reward_mint_config.reward_mint == reward_mint.key()\<close> and \<open>reward_mint: Account<Mint>\<close>.\<close>

definition check_reward_mint ::
  "'t reward_env \<Rightarrow> reward_mint_config \<Rightarrow> pubkey \<Rightarrow> 't reward_state \<Rightarrow> (reward_error program_error, unit) result" where
  "check_reward_mint env c mint s =
     and_then (require (rmc_reward_mint c = mint) InvalidRewardMint) (\<lambda>_.
     ensure (rwe_is_mint env (rws_tokens s) mint) AccountLoad)"

definition load_token_account ::
  "'t reward_env \<Rightarrow> pubkey \<Rightarrow> pubkey \<Rightarrow> 't reward_state \<Rightarrow> (reward_error program_error, pubkey) result" where
  "load_token_account env k mint s =
     and_then (ok_or (rwe_token_account env (rws_tokens s) k) AccountLoad) (\<lambda>(account_mint, authority).
     and_then (ensure (account_mint = mint) ConstraintRaw) (\<lambda>_. Inr authority))"

section \<open>Instructions\<close>

record initialize_reward_accounts =
  irm_admin :: pubkey
  irm_config :: pubkey
  irm_mint_authority :: pubkey
  irm_reward_mint :: pubkey

definition initialize_reward_mint ::
  "'t reward_env \<Rightarrow> pubkey list \<Rightarrow> initialize_reward_accounts \<Rightarrow> u8 \<Rightarrow> 't reward_state \<Rightarrow> 't reward_result" where
  "initialize_reward_mint env signers ctx decimals s =
     and_then (need_signer (irm_admin ctx) signers) (\<lambda>_.
     and_then (check_seeds (rwe_anchor env) (irm_config ctx) reward_config_seeds) (\<lambda>_.
     and_then (init_fresh (rws_configs s) (irm_config ctx) ()) (\<lambda>_.
     and_then (check_seeds (rwe_anchor env) (irm_mint_authority ctx) reward_authority_seeds) (\<lambda>authority_bump.
     and_then (need_signer (irm_reward_mint ctx) signers) (\<lambda>_.
     and_then (reward_call env (InitRewardMint (irm_admin ctx) (irm_reward_mint ctx) decimals
       (irm_mint_authority ctx) (irm_mint_authority ctx)) signers s) (\<lambda>s1.
       Inr (s1\<lparr>rws_configs := (rws_configs s1)(irm_config ctx \<mapsto>
         \<lparr>rmc_admin = irm_admin ctx, rmc_reward_mint = irm_reward_mint ctx,
          rmc_mint_authority_bump = authority_bump, rmc_decimals = decimals\<rparr>)\<rparr>)))))))"

record user_ata_accounts =
  uat_user :: pubkey
  uat_config :: pubkey
  uat_reward_mint :: pubkey
  uat_ata :: pubkey

definition ensure_user_ata ::
  "'t reward_env \<Rightarrow> pubkey list \<Rightarrow> user_ata_accounts \<Rightarrow> 't reward_state \<Rightarrow> 't reward_result" where
  "ensure_user_ata env signers ctx s =
     and_then (need_signer (uat_user ctx) signers) (\<lambda>_.
     and_then (load_reward_config env (uat_config ctx) s) (\<lambda>c.
     and_then (check_reward_mint env c (uat_reward_mint ctx) s) (\<lambda>_.
     and_then (require (uat_ata ctx = rwe_associated_address env (uat_user ctx) (uat_reward_mint ctx))
       InvalidAssociatedTokenAccount) (\<lambda>_.
     if \<not> rwe_data_is_empty env (rws_tokens s) (uat_ata ctx) then Inr s
     else reward_call env (CreateAtaIdempotent (uat_user ctx) (uat_ata ctx) (uat_user ctx)
       (uat_reward_mint ctx)) signers s))))"

record mint_reward_accounts =
  mrw_admin :: pubkey
  mrw_config :: pubkey
  mrw_reward_mint :: pubkey
  mrw_mint_authority :: pubkey
  mrw_recipient_ata :: pubkey

definition mint_reward ::
  "'t reward_env \<Rightarrow> pubkey list \<Rightarrow> mint_reward_accounts \<Rightarrow> u64 \<Rightarrow> 't reward_state \<Rightarrow> 't reward_result" where
  "mint_reward env signers ctx amount s =
     and_then (need_signer (mrw_admin ctx) signers) (\<lambda>_.
     and_then (load_reward_config env (mrw_config ctx) s) (\<lambda>c.
     and_then (ensure (rmc_admin c = mrw_admin ctx) ConstraintHasOne) (\<lambda>_.
     and_then (check_reward_mint env c (mrw_reward_mint ctx) s) (\<lambda>_.
     and_then (check_seeds_bump (rwe_anchor env) (mrw_mint_authority ctx) reward_authority_seeds
       (rmc_mint_authority_bump c)) (\<lambda>_.
     and_then (load_token_account env (mrw_recipient_ata ctx) (mrw_reward_mint ctx) s) (\<lambda>_.
     and_then (check_distinct_mut (rwe_anchor env) [mrw_reward_mint ctx, mrw_recipient_ata ctx]) (\<lambda>_.
     and_then (ok_or (create_pda (rwe_anchor env) reward_authority_seeds (rmc_mint_authority_bump c))
       CpiFailed) (\<lambda>pda_signer.
       reward_call env (RewardMintTo (mrw_reward_mint ctx) (mrw_recipient_ata ctx)
         (mrw_mint_authority ctx) amount) (signers @ [pda_signer]) s))))))))"

definition burn_reward ::
  "'t reward_env \<Rightarrow> pubkey list \<Rightarrow> user_ata_accounts \<Rightarrow> u64 \<Rightarrow> 't reward_state \<Rightarrow> 't reward_result" where
  "burn_reward env signers ctx amount s =
     and_then (need_signer (uat_user ctx) signers) (\<lambda>_.
     and_then (load_reward_config env (uat_config ctx) s) (\<lambda>c.
     and_then (check_reward_mint env c (uat_reward_mint ctx) s) (\<lambda>_.
     and_then (load_token_account env (uat_ata ctx) (uat_reward_mint ctx) s) (\<lambda>authority.
     and_then (ensure (authority = uat_user ctx) ConstraintRaw) (\<lambda>_.
     and_then (check_distinct_mut (rwe_anchor env) [uat_reward_mint ctx, uat_ata ctx]) (\<lambda>_.
       reward_call env (RewardBurn (uat_reward_mint ctx) (uat_ata ctx) (uat_user ctx) amount) signers s))))))"

record transfer_reward_accounts =
  trw_sender :: pubkey
  trw_config :: pubkey
  trw_reward_mint :: pubkey
  trw_sender_ata :: pubkey
  trw_recipient_ata :: pubkey

definition transfer_reward ::
  "'t reward_env \<Rightarrow> pubkey list \<Rightarrow> transfer_reward_accounts \<Rightarrow> u64 \<Rightarrow> 't reward_state \<Rightarrow> 't reward_result" where
  "transfer_reward env signers ctx amount s =
     and_then (need_signer (trw_sender ctx) signers) (\<lambda>_.
     and_then (load_reward_config env (trw_config ctx) s) (\<lambda>c.
     and_then (check_reward_mint env c (trw_reward_mint ctx) s) (\<lambda>_.
     and_then (load_token_account env (trw_sender_ata ctx) (trw_reward_mint ctx) s) (\<lambda>authority.
     and_then (ensure (authority = trw_sender ctx) ConstraintRaw) (\<lambda>_.
     and_then (load_token_account env (trw_recipient_ata ctx) (trw_reward_mint ctx) s) (\<lambda>_.
     and_then (check_distinct_mut (rwe_anchor env) [trw_sender_ata ctx, trw_recipient_ata ctx]) (\<lambda>_.
       reward_call env (RewardTransfer (trw_sender_ata ctx) (trw_recipient_ata ctx) (trw_sender ctx) amount)
         signers s)))))))"

datatype reward_instruction =
    InitializeReward
  | InitializeRewardMint initialize_reward_accounts u8
  | EnsureUserAta user_ata_accounts
  | MintReward mint_reward_accounts u64
  | BurnReward user_ata_accounts u64
  | TransferReward transfer_reward_accounts u64

fun reward_token ::
  "'t reward_env \<Rightarrow> pubkey list \<Rightarrow> reward_instruction \<Rightarrow> 't reward_state \<Rightarrow> 't reward_result" where
  "reward_token env signers InitializeReward s = Inr s"
| "reward_token env signers (InitializeRewardMint ctx decimals) s = initialize_reward_mint env signers ctx decimals s"
| "reward_token env signers (EnsureUserAta ctx) s = ensure_user_ata env signers ctx s"
| "reward_token env signers (MintReward ctx amount) s = mint_reward env signers ctx amount s"
| "reward_token env signers (BurnReward ctx amount) s = burn_reward env signers ctx amount s"
| "reward_token env signers (TransferReward ctx amount) s = transfer_reward env signers ctx amount s"

fun reward_exec ::
  "'t reward_env \<Rightarrow> pubkey list \<times> reward_instruction \<Rightarrow> 't reward_state \<Rightarrow> 't reward_result" where
  "reward_exec env (signers, i) s = reward_token env signers i s"

section \<open>Only the admin has rewards minted\<close>

definition reward_authority :: "'t reward_env \<Rightarrow> pubkey" where
  "reward_authority env = fst (find_pda (rwe_anchor env) reward_authority_seeds)"

definition the_reward_config :: "'t reward_env \<Rightarrow> 't reward_state \<Rightarrow> reward_mint_config option" where
  "the_reward_config env s = rws_configs s (fst (find_pda (rwe_anchor env) reward_config_seeds))"

lemma load_reward_config_ok [checked_ok]:
  "load_reward_config env k s = Inr c \<longleftrightarrow>
     fst (find_pda (rwe_anchor env) reward_config_seeds) = k \<and> the_reward_config env s = Some c"
  by (auto simp: load_reward_config_def checked_ok the_reward_config_def prod_eq_iff)

lemma reward_call_ok [checked_ok]:
  "reward_call env call signers s = Inr s' \<longleftrightarrow>
     (\<exists>t. rwe_invoke env call signers (rws_tokens s) = Some t \<and> s' = s\<lparr>rws_tokens := t\<rparr>)"
  by (auto simp: reward_call_def checked_ok)

lemmas reward_handlers = initialize_reward_mint_def ensure_user_ata_def mint_reward_def burn_reward_def
  transfer_reward_def

text \<open>Without the admin's signature a transaction makes at most one call, with the signatures it came with.\<close>

lemma reward_without_admin:
  assumes "reward_token env signers i s = Inr s'" and "the_reward_config env s = Some c"
    and "rmc_admin c \<notin> set signers"
  shows "s' = s \<or> (\<exists>call t. rwe_invoke env call signers (rws_tokens s) = Some t \<and> s' = s\<lparr>rws_tokens := t\<rparr>)"
  using assms
  by (cases i) (auto simp: reward_handlers checked_ok the_reward_config_def prod_eq_iff split: if_splits)

lemma reward_config_stays:
  assumes "reward_token env signers i s = Inr s'" and "the_reward_config env s = Some c"
  shows "the_reward_config env s' = Some c"
  using assms
  by (cases i) (auto simp: reward_handlers checked_ok the_reward_config_def prod_eq_iff split: if_splits)

interpretation reward: authority_program "reward_exec env" "the_reward_config env" "\<lambda>s. v (rws_tokens s)"
    "\<lambda>c tx. rmc_admin c \<in> set (fst tx)"
    "\<lambda>tx. guarded_by (rwe_invoke env) (reward_authority env) (\<lambda>_. True) v \<and> reward_authority env \<notin> set (fst tx)"
  for env v
proof
  fix i s s' c
  assume e: "reward_exec env i s = Inr s'" and c: "the_reward_config env s = Some c"
  obtain signers j where i: "i = (signers, j)" by (cases i)
  from e i have r: "reward_token env signers j s = Inr s'" by simp
  show "the_reward_config env s' = Some c" by (rule reward_config_stays [OF r c])
  assume g: "guarded_by (rwe_invoke env) (reward_authority env) (\<lambda>_. True) v \<and> reward_authority env \<notin> set (fst i)"
    and a: "rmc_admin c \<notin> set (fst i)"
  have "v t = v (rws_tokens s)" if "rwe_invoke env call signers (rws_tokens s) = Some t" for call t
    by (rule guarded_byD [OF conjunct1 [OF g] that]) (use g i in simp)
  then show "v (rws_tokens s') = v (rws_tokens s)"
    using reward_without_admin [OF r c] a i by auto
qed

section \<open>A concrete token program\<close>

text \<open>It counts what is minted and what is burnt.\<close>

fun demo_reward_invoke :: "(reward_call, nat \<times> nat) token_invoke" where
  "demo_reward_invoke (RewardMintTo _ _ authority amount) signers (minted, burnt) =
     (if authority = 350605 \<and> authority \<in> set signers then Some (minted + unat amount, burnt) else None)"
| "demo_reward_invoke (RewardBurn _ _ _ amount) signers (minted, burnt) = Some (minted, burnt + unat amount)"
| "demo_reward_invoke _ signers t = Some t"

definition demo_reward :: "(nat \<times> nat) reward_env" where
  "demo_reward = \<lparr>rwe_anchor = demo_env, rwe_invoke = demo_reward_invoke, rwe_is_mint = (\<lambda>_ k. k = 50),
     rwe_token_account = (\<lambda>_ k. if k = 60 then Some (50, 7) else None), rwe_data_is_empty = (\<lambda>_ _. False),
     rwe_associated_address = (\<lambda>_ _. 60)\<rparr>"

lemma demo_reward_addresses [simp]:
  "demo_hash reward_config_seeds = 462596" "demo_hash reward_authority_seeds = 350605"
  by code_simp+

definition demo_reward_setup :: "(pubkey list \<times> reward_instruction) list" where
  "demo_reward_setup =
     [([1, 50], InitializeRewardMint \<lparr>irm_admin = 1, irm_config = 462596, irm_mint_authority = 350605,
         irm_reward_mint = 50\<rparr> 6),
      ([1], MintReward \<lparr>mrw_admin = 1, mrw_config = 462596, mrw_reward_mint = 50, mrw_mint_authority = 350605,
         mrw_recipient_ata = 60\<rparr> 100)]"

text \<open>A burn by the holder, and an attempt to mint by somebody else.\<close>

definition demo_reward_rest :: "(pubkey list \<times> reward_instruction) list" where
  "demo_reward_rest =
     [([7], BurnReward \<lparr>uat_user = 7, uat_config = 462596, uat_reward_mint = 50, uat_ata = 60\<rparr> 30),
      ([8], MintReward \<lparr>mrw_admin = 8, mrw_config = 462596, mrw_reward_mint = 50, mrw_mint_authority = 350605,
         mrw_recipient_ata = 60\<rparr> 100)]"

definition demo_reward_state :: "nat \<Rightarrow> nat \<Rightarrow> (nat \<times> nat) reward_state" where
  "demo_reward_state minted burnt = \<lparr>rws_configs = [462596 \<mapsto> \<lparr>rmc_admin = 1, rmc_reward_mint = 50,
       rmc_mint_authority_bump = 255, rmc_decimals = 6\<rparr>], rws_tokens = (minted, burnt)\<rparr>"

lemmas demo_reward_eval = reward_handlers demo_reward_def demo_reward_state_def need_signer_def check_seeds_def
  check_seeds_bump_def load_def init_fresh_def load_reward_config_def check_reward_mint_def load_token_account_def
  check_distinct_mut_def reward_call_def

lemma demo_reward_runs:
  "run_transactions (reward_exec demo_reward) demo_reward_setup \<lparr>rws_configs = (\<lambda>_. None), rws_tokens = (0, 0)\<rparr> =
     demo_reward_state 100 0"
  "run_transactions (reward_exec demo_reward) demo_reward_rest (demo_reward_state 100 0) = demo_reward_state 100 30"
  by (simp_all add: demo_reward_setup_def demo_reward_rest_def demo_reward_eval)

lemma demo_reward_guarded: "guarded_by demo_reward_invoke 350605 (\<lambda>_. True) fst"
proof -
  have "fst t' = fst t \<or> 350605 \<in> set signers" if "demo_reward_invoke call signers t = Some t'" for call signers t t'
    using that by (cases t; cases call) (auto split: if_splits)
  then show ?thesis unfolding guarded_by_def by blast
qed

section \<open>The property\<close>

text \<open>C39: Once the reward mint is set up, no run of transactions without the admin's signature changes
  anything that the token program guards by the mint authority's signature, such as what has been
  minted, whatever else it does.\<close>

theorem rewards_minted_by_admin:
  assumes "guarded_by (rwe_invoke env) (reward_authority env) (\<lambda>_. True) watched"
    and "the_reward_config env s = Some c"
    and "list_all (\<lambda>(signers, i). reward_authority env \<notin> set signers \<and> rmc_admin c \<notin> set signers) txs"
  shows "watched (rws_tokens (run_transactions (reward_exec env) txs s)) = watched (rws_tokens s)"
  by (rule reward.run_without_admin [OF assms(2)]) (use assms(1,3) in \<open>auto simp: list_all_iff\<close>)

theorem rewards_minted_by_admin_witness:
  "fst (rws_tokens (run_transactions (reward_exec demo_reward) demo_reward_rest (demo_reward_state 100 0))) = 100"
  using rewards_minted_by_admin [of demo_reward fst "demo_reward_state 100 0"
      "\<lparr>rmc_admin = 1, rmc_reward_mint = 50, rmc_mint_authority_bump = 255, rmc_decimals = 6\<rparr>" demo_reward_rest]
    demo_reward_guarded
  by (simp add: reward_authority_def the_reward_config_def demo_reward_rest_def demo_reward_def demo_reward_state_def)

end
