(* ===== verification/Token_Factory.thy ===== *)
theory Token_Factory
  imports Token_Guard Anchor_Demo Issuer_Program
begin

text \<open>
  \<open>src/04-token-2022-lab/programs/token_2022_factory\<close>: anybody creates a Token-2022 mint with
  metadata, transfer fee and permanent delegate, and is then its admin.  One address of the program
  is the authority of all these mints.  The token program, the lengths and the rent are
  parameters.
\<close>

section \<open>State\<close>

datatype factory_error = Token2022FactoryError | InvalidMintSpace

record token_2022_mint_config =
  tmc_admin :: pubkey
  tmc_mint :: pubkey
  tmc_mint_authority_bump :: u8
  tmc_decimals :: u8

datatype factory_call =
    FactoryCreateAccount pubkey pubkey u64 u64               \<comment> \<open>payer, account, lamports, space\<close>
  | FactoryMetadataPointer pubkey pubkey pubkey              \<comment> \<open>mint, authority, metadata\<close>
  | FactoryTransferFee pubkey pubkey pubkey u16 u64          \<comment> \<open>mint, both authorities, fee\<close>
  | FactoryPermanentDelegate pubkey pubkey                   \<comment> \<open>mint, delegate\<close>
  | FactoryInitializeMint pubkey u8 pubkey pubkey            \<comment> \<open>mint, decimals, authorities\<close>
  | FactoryMetadata pubkey pubkey pubkey string string string
  | FactoryInitializeAccount pubkey pubkey pubkey            \<comment> \<open>account, mint, owner\<close>
  | FactoryMintTo pubkey pubkey pubkey u64 u8                \<comment> \<open>mint, account, authority\<close>
  | FactoryTransfer pubkey pubkey pubkey pubkey u64 u8 u64   \<comment> \<open>source, mint, destination, authority, fee last\<close>
  | FactoryBurn pubkey pubkey pubkey u64 u8                  \<comment> \<open>mint, account, authority\<close>
  | FactoryHarvest pubkey "pubkey list"                      \<comment> \<open>mint, sources\<close>
  | FactoryWithdrawWithheld pubkey pubkey pubkey             \<comment> \<open>mint, destination, authority\<close>
  | FactorySetFee pubkey pubkey u16 u64                      \<comment> \<open>mint, authority, fee\<close>

record 't factory_env =
  fce_anchor :: anchor_env
  fce_invoke :: "(factory_call, 't) token_invoke"
  fce_extended_mint_len :: "u64 option"
  fce_fee_account_len :: "u64 option"
  fce_metadata_tlv_len :: "pubkey \<Rightarrow> string \<Rightarrow> string \<Rightarrow> string \<Rightarrow> u64 option"
  fce_minimum_balance :: "u64 \<Rightarrow> u64 option"

record 't factory_state =
  fas_configs :: "token_2022_mint_config accounts"
  fas_tokens :: 't

type_synonym factory_failure = "factory_error program_error"
type_synonym 't factory_result = "(factory_failure, 't factory_state) result"

definition factory_authority_seeds :: "u8 list list" where
  "factory_authority_seeds = [ascii_bytes ''mint_authority'']"
definition factory_config_seeds :: "pubkey \<Rightarrow> u8 list list" where
  "factory_config_seeds mint = [ascii_bytes ''token_2022_mint_config'', key_bytes mint]"

definition factory_invoke ::
  "'t factory_env \<Rightarrow> factory_call \<Rightarrow> pubkey list \<Rightarrow> 't factory_state \<Rightarrow> 't factory_result" where
  "factory_invoke env call signers s =
     and_then (ok_or (fce_invoke env call signers (fas_tokens s)) CpiFailed) (\<lambda>t. Inr (s\<lparr>fas_tokens := t\<rparr>))"

text \<open>A call that the mint authority signs.\<close>

definition factory_invoke_signed ::
  "'t factory_env \<Rightarrow> u8 \<Rightarrow> factory_call \<Rightarrow> pubkey list \<Rightarrow> 't factory_state \<Rightarrow> 't factory_result" where
  "factory_invoke_signed env bump call signers s =
     and_then (ok_or (create_pda (fce_anchor env) factory_authority_seeds bump) CpiFailed) (\<lambda>pda_signer.
       factory_invoke env call (signers @ [pda_signer]) s)"

section \<open>Account constraints\<close>

text \<open>\<open>mint_config\<close> with \<open>has_one = mint\<close>, and with the admin and the mint authority.\<close>

definition load_factory_config ::
  "'t factory_env \<Rightarrow> pubkey \<Rightarrow> pubkey \<Rightarrow> 't factory_state \<Rightarrow> (factory_failure, token_2022_mint_config) result"
  where
  "load_factory_config env k mint s =
     and_then (load Some (fas_configs s) k) (\<lambda>c.
     and_then (check_seeds (fce_anchor env) k (factory_config_seeds mint)) (\<lambda>_.
     and_then (ensure (tmc_mint c = mint) ConstraintHasOne) (\<lambda>_. Inr c)))"

definition load_factory_admin ::
  "'t factory_env \<Rightarrow> pubkey list \<Rightarrow> pubkey \<Rightarrow> pubkey \<Rightarrow> pubkey \<Rightarrow> pubkey \<Rightarrow> 't factory_state
    \<Rightarrow> (factory_failure, token_2022_mint_config) result" where
  "load_factory_admin env signers admin k authority mint s =
     and_then (need_signer admin signers) (\<lambda>_.
     and_then (load_factory_config env k mint s) (\<lambda>c.
     and_then (ensure (tmc_admin c = admin) ConstraintHasOne) (\<lambda>_.
     and_then (check_seeds_bump (fce_anchor env) authority factory_authority_seeds
       (tmc_mint_authority_bump c)) (\<lambda>_. Inr c))))"

section \<open>Creating a mint\<close>

record create_2022_accounts =
  ctm_admin :: pubkey
  ctm_config :: pubkey
  ctm_mint_authority :: pubkey
  ctm_mint :: pubkey

record create_2022_args =
  ctg_decimals :: u8
  ctg_name :: string
  ctg_symbol :: string
  ctg_uri :: string
  ctg_fee_basis_points :: u16
  ctg_maximum_fee :: u64

text \<open>The space asked for now, and the rent of the final space.\<close>

definition factory_mint_space ::
  "'t factory_env \<Rightarrow> pubkey \<Rightarrow> create_2022_args \<Rightarrow> (factory_failure, u64 \<times> u64) result" where
  "factory_mint_space env mint args =
     and_then (ok_or (fce_extended_mint_len env) LibraryFailed) (\<lambda>fixed.
     and_then (ok_or (fce_metadata_tlv_len env mint (ctg_name args) (ctg_symbol args) (ctg_uri args))
       LibraryFailed) (\<lambda>tlv.
     and_then (ok_or (checked_sub tlv standalone_tlv_header_len) InvalidAccountData) (\<lambda>metadata.
     and_then (ok_or (checked_add fixed metadata) InvalidAccountData) (\<lambda>final.
     and_then (ok_or (fce_minimum_balance env final) SysvarMissing) (\<lambda>rent.
     and_then (require (fixed > pod_mint_size) InvalidMintSpace) (\<lambda>_. Inr (fixed, rent)))))))"

definition create_factory_mint ::
  "'t factory_env \<Rightarrow> pubkey list \<Rightarrow> create_2022_accounts \<Rightarrow> u8 \<Rightarrow> create_2022_args \<Rightarrow> 't factory_state
    \<Rightarrow> 't factory_result" where
  "create_factory_mint env signers ctx bump args s =
     (let mint = ctm_mint ctx; authority = ctm_mint_authority ctx in
     and_then (factory_mint_space env mint args) (\<lambda>(space, rent).
     and_then (factory_invoke env (FactoryCreateAccount (ctm_admin ctx) mint rent space) signers s) (\<lambda>s1.
     and_then (factory_invoke env (FactoryMetadataPointer mint authority mint) signers s1) (\<lambda>s2.
     and_then (factory_invoke env (FactoryTransferFee mint authority authority (ctg_fee_basis_points args)
       (ctg_maximum_fee args)) signers s2) (\<lambda>s3.
     and_then (factory_invoke env (FactoryPermanentDelegate mint authority) signers s3) (\<lambda>s4.
     and_then (factory_invoke env (FactoryInitializeMint mint (ctg_decimals args) authority authority)
       signers s4) (\<lambda>s5.
       factory_invoke_signed env bump (FactoryMetadata mint authority authority (ctg_name args)
         (ctg_symbol args) (ctg_uri args)) signers s5)))))))"

definition create_token_2022_mint ::
  "'t factory_env \<Rightarrow> pubkey list \<Rightarrow> create_2022_accounts \<Rightarrow> create_2022_args \<Rightarrow> 't factory_state
    \<Rightarrow> 't factory_result" where
  "create_token_2022_mint env signers ctx args s =
     and_then (need_signer (ctm_admin ctx) signers) (\<lambda>_.
     and_then (check_seeds (fce_anchor env) (ctm_config ctx) (factory_config_seeds (ctm_mint ctx))) (\<lambda>_.
     and_then (init_fresh (fas_configs s) (ctm_config ctx) ()) (\<lambda>_.
     and_then (check_seeds (fce_anchor env) (ctm_mint_authority ctx) factory_authority_seeds) (\<lambda>bump.
     and_then (need_signer (ctm_mint ctx) signers) (\<lambda>_.
     and_then (create_factory_mint env signers ctx bump args s) (\<lambda>s1.
       Inr (s1\<lparr>fas_configs := (fas_configs s1)(ctm_config ctx \<mapsto>
         \<lparr>tmc_admin = ctm_admin ctx, tmc_mint = ctm_mint ctx, tmc_mint_authority_bump = bump,
          tmc_decimals = ctg_decimals args\<rparr>)\<rparr>)))))))"

section \<open>The admin's instructions\<close>

record factory_admin_accounts =
  fad_admin :: pubkey
  fad_config :: pubkey
  fad_mint_authority :: pubkey
  fad_mint :: pubkey

record factory_mint_accounts = factory_admin_accounts +
  fam_user :: pubkey
  fam_user_token :: pubkey

definition mint_to_holder ::
  "'t factory_env \<Rightarrow> pubkey list \<Rightarrow> factory_mint_accounts \<Rightarrow> u64 \<Rightarrow> 't factory_state \<Rightarrow> 't factory_result" where
  "mint_to_holder env signers ctx amount s =
     and_then (load_factory_admin env signers (fad_admin ctx) (fad_config ctx) (fad_mint_authority ctx)
       (fad_mint ctx) s) (\<lambda>c.
     and_then (need_signer (fam_user_token ctx) signers) (\<lambda>_.
     and_then (ok_or (fce_fee_account_len env) LibraryFailed) (\<lambda>space.
     and_then (ok_or (fce_minimum_balance env space) SysvarMissing) (\<lambda>rent.
     and_then (ensure (space > token_account_size) InvalidAccountData) (\<lambda>_.
     and_then (factory_invoke env (FactoryCreateAccount (fad_admin ctx) (fam_user_token ctx) rent space)
       signers s) (\<lambda>s1.
     and_then (factory_invoke env (FactoryInitializeAccount (fam_user_token ctx) (fad_mint ctx) (fam_user ctx))
       signers s1) (\<lambda>s2.
       factory_invoke_signed env (tmc_mint_authority_bump c) (FactoryMintTo (fad_mint ctx)
         (fam_user_token ctx) (fad_mint_authority ctx) amount (tmc_decimals c)) signers s2)))))))"

definition set_transfer_fee_config ::
  "'t factory_env \<Rightarrow> pubkey list \<Rightarrow> factory_admin_accounts \<Rightarrow> u16 \<Rightarrow> u64 \<Rightarrow> 't factory_state
    \<Rightarrow> 't factory_result" where
  "set_transfer_fee_config env signers ctx basis_points maximum_fee s =
     and_then (load_factory_admin env signers (fad_admin ctx) (fad_config ctx) (fad_mint_authority ctx)
       (fad_mint ctx) s) (\<lambda>c.
       factory_invoke_signed env (tmc_mint_authority_bump c)
         (FactorySetFee (fad_mint ctx) (fad_mint_authority ctx) basis_points maximum_fee) signers s)"

record withdraw_fee_accounts = factory_admin_accounts +
  wfe_destination :: pubkey

definition withdraw_withheld_fees ::
  "'t factory_env \<Rightarrow> pubkey list \<Rightarrow> withdraw_fee_accounts \<Rightarrow> 't factory_state \<Rightarrow> 't factory_result" where
  "withdraw_withheld_fees env signers ctx s =
     and_then (load_factory_admin env signers (fad_admin ctx) (fad_config ctx) (fad_mint_authority ctx)
       (fad_mint ctx) s) (\<lambda>c.
       factory_invoke_signed env (tmc_mint_authority_bump c)
         (FactoryWithdrawWithheld (fad_mint ctx) (wfe_destination ctx) (fad_mint_authority ctx)) signers s)"

section \<open>The holders' instructions\<close>

record factory_transfer_accounts =
  fat_owner :: pubkey
  fat_config :: pubkey
  fat_mint :: pubkey
  fat_source :: pubkey
  fat_destination :: pubkey

definition transfer_with_fee ::
  "'t factory_env \<Rightarrow> pubkey list \<Rightarrow> factory_transfer_accounts \<Rightarrow> u64 \<Rightarrow> u64 \<Rightarrow> 't factory_state
    \<Rightarrow> 't factory_result" where
  "transfer_with_fee env signers ctx amount fee s =
     and_then (need_signer (fat_owner ctx) signers) (\<lambda>_.
     and_then (load_factory_config env (fat_config ctx) (fat_mint ctx) s) (\<lambda>c.
       factory_invoke env (FactoryTransfer (fat_source ctx) (fat_mint ctx) (fat_destination ctx)
         (fat_owner ctx) amount (tmc_decimals c) fee) signers s))"

record factory_burn_accounts =
  fab_owner :: pubkey
  fab_config :: pubkey
  fab_mint :: pubkey
  fab_user_token :: pubkey

definition burn_by_holder ::
  "'t factory_env \<Rightarrow> pubkey list \<Rightarrow> factory_burn_accounts \<Rightarrow> u64 \<Rightarrow> 't factory_state \<Rightarrow> 't factory_result" where
  "burn_by_holder env signers ctx amount s =
     and_then (need_signer (fab_owner ctx) signers) (\<lambda>_.
     and_then (load_factory_config env (fab_config ctx) (fab_mint ctx) s) (\<lambda>c.
       factory_invoke env (FactoryBurn (fab_mint ctx) (fab_user_token ctx) (fab_owner ctx) amount
         (tmc_decimals c)) signers s))"

text \<open>The sources are the remaining accounts of the instruction.\<close>

definition harvest_withheld_fees ::
  "'t factory_env \<Rightarrow> pubkey list \<Rightarrow> pubkey \<Rightarrow> pubkey \<Rightarrow> pubkey list \<Rightarrow> 't factory_state \<Rightarrow> 't factory_result" where
  "harvest_withheld_fees env signers config mint sources s =
     and_then (load_factory_config env config mint s) (\<lambda>_.
       factory_invoke env (FactoryHarvest mint sources) signers s)"

datatype factory_instruction =
    InitializeFactory
  | CreateToken2022Mint create_2022_accounts create_2022_args
  | MintToHolder factory_mint_accounts u64
  | TransferWithFee factory_transfer_accounts u64 u64
  | BurnByHolder factory_burn_accounts u64
  | HarvestWithheldFees pubkey pubkey "pubkey list"
  | WithdrawWithheldFees withdraw_fee_accounts
  | SetTransferFeeConfig factory_admin_accounts u16 u64

fun token_2022_factory ::
  "'t factory_env \<Rightarrow> pubkey list \<Rightarrow> factory_instruction \<Rightarrow> 't factory_state \<Rightarrow> 't factory_result" where
  "token_2022_factory env signers InitializeFactory s = Inr s"
| "token_2022_factory env signers (CreateToken2022Mint ctx args) s = create_token_2022_mint env signers ctx args s"
| "token_2022_factory env signers (MintToHolder ctx amount) s = mint_to_holder env signers ctx amount s"
| "token_2022_factory env signers (TransferWithFee ctx amount fee) s = transfer_with_fee env signers ctx amount fee s"
| "token_2022_factory env signers (BurnByHolder ctx amount) s = burn_by_holder env signers ctx amount s"
| "token_2022_factory env signers (HarvestWithheldFees config mint sources) s =
     harvest_withheld_fees env signers config mint sources s"
| "token_2022_factory env signers (WithdrawWithheldFees ctx) s = withdraw_withheld_fees env signers ctx s"
| "token_2022_factory env signers (SetTransferFeeConfig ctx basis_points maximum_fee) s =
     set_transfer_fee_config env signers ctx basis_points maximum_fee s"

fun factory_exec ::
  "'t factory_env \<Rightarrow> pubkey list \<times> factory_instruction \<Rightarrow> 't factory_state \<Rightarrow> 't factory_result" where
  "factory_exec env (signers, i) s = token_2022_factory env signers i s"

section \<open>The authority of a mint serves its admin\<close>

text \<open>The mint a call is about; the creation of an account is about none.\<close>

fun call_mint :: "factory_call \<Rightarrow> pubkey option" where
  "call_mint (FactoryCreateAccount _ _ _ _) = None"
| "call_mint (FactoryMetadataPointer mint _ _) = Some mint"
| "call_mint (FactoryTransferFee mint _ _ _ _) = Some mint"
| "call_mint (FactoryPermanentDelegate mint _) = Some mint"
| "call_mint (FactoryInitializeMint mint _ _ _) = Some mint"
| "call_mint (FactoryMetadata mint _ _ _ _ _) = Some mint"
| "call_mint (FactoryInitializeAccount _ mint _) = Some mint"
| "call_mint (FactoryMintTo mint _ _ _ _) = Some mint"
| "call_mint (FactoryTransfer _ mint _ _ _ _ _) = Some mint"
| "call_mint (FactoryBurn mint _ _ _ _) = Some mint"
| "call_mint (FactoryHarvest mint _) = Some mint"
| "call_mint (FactoryWithdrawWithheld mint _ _) = Some mint"
| "call_mint (FactorySetFee mint _ _ _) = Some mint"

definition factory_authority :: "'t factory_env \<Rightarrow> pubkey" where
  "factory_authority env = fst (find_pda (fce_anchor env) factory_authority_seeds)"

definition config_of :: "'t factory_env \<Rightarrow> pubkey \<Rightarrow> 't factory_state \<Rightarrow> token_2022_mint_config option" where
  "config_of env mint s = fas_configs s (fst (find_pda (fce_anchor env) (factory_config_seeds mint)))"

text \<open>A value of the token state that only calls about the mint with the authority's signature change.\<close>

abbreviation mint_guarded :: "'t factory_env \<Rightarrow> pubkey \<Rightarrow> ('t \<Rightarrow> 'v) \<Rightarrow> bool" where
  "mint_guarded env mint watched \<equiv>
     guarded_by (fce_invoke env) (factory_authority env) (\<lambda>call. call_mint call = Some mint) watched"

lemma factory_invoke_ok [checked_ok]:
  "factory_invoke env call signers s = Inr s' \<longleftrightarrow>
     (\<exists>t. fce_invoke env call signers (fas_tokens s) = Some t \<and> s' = s\<lparr>fas_tokens := t\<rparr>)"
  by (auto simp: factory_invoke_def checked_ok)

lemma load_factory_config_ok [checked_ok]:
  "load_factory_config env k mint s = Inr c \<longleftrightarrow>
     k = fst (find_pda (fce_anchor env) (factory_config_seeds mint)) \<and> config_of env mint s = Some c \<and>
     tmc_mint c = mint"
  by (auto simp: load_factory_config_def checked_ok config_of_def prod_eq_iff)

lemma load_factory_admin_ok [checked_ok]:
  "load_factory_admin env signers admin k authority mint s = Inr c \<longleftrightarrow>
     k = fst (find_pda (fce_anchor env) (factory_config_seeds mint)) \<and> config_of env mint s = Some c \<and>
     tmc_mint c = mint \<and> tmc_admin c = admin \<and> admin \<in> set signers \<and>
     create_pda (fce_anchor env) factory_authority_seeds (tmc_mint_authority_bump c) = Some authority"
  by (auto simp: load_factory_admin_def checked_ok)

text \<open>A single call keeps the value, unless it is about the mint and the authority signs it.\<close>

lemma factory_invoke_keeps:
  assumes "mint_guarded env mint watched" and "factory_invoke env call signers s = Inr s'"
    and "factory_authority env \<in> set signers \<Longrightarrow> call_mint call \<noteq> Some mint"
  shows "fas_configs s' = fas_configs s \<and> watched (fas_tokens s') = watched (fas_tokens s)"
proof -
  from assms(2) obtain t where t: "fce_invoke env call signers (fas_tokens s) = Some t"
    "s' = s\<lparr>fas_tokens := t\<rparr>" by (auto simp: factory_invoke_ok)
  with guarded_byD [OF assms(1) t(1)] assms(3) show ?thesis by simp
qed

lemma factory_invoke_signed_keeps:
  assumes "mint_guarded env mint watched" and "factory_invoke_signed env bump call signers s = Inr s'"
    and "call_mint call \<noteq> Some mint"
  shows "fas_configs s' = fas_configs s \<and> watched (fas_tokens s') = watched (fas_tokens s)"
  using assms by (auto simp: factory_invoke_signed_def and_then_ok dest: factory_invoke_keeps)

lemma create_factory_mint_keeps:
  assumes "mint_guarded env mint watched" and "create_factory_mint env signers ctx bump args s = Inr s'"
    and "factory_authority env \<notin> set signers" and "ctm_mint ctx \<noteq> mint"
  shows "fas_configs s' = fas_configs s \<and> watched (fas_tokens s') = watched (fas_tokens s)"
proof -
  note keeps = factory_invoke_keeps [OF assms(1) _ notE [OF assms(3)]]
  from assms(2) show ?thesis
    unfolding create_factory_mint_def Let_def
    using assms(4) by (auto simp: and_then_ok dest!: keeps factory_invoke_signed_keeps [OF assms(1)])
qed

lemma factory_invoke_configs:
  "factory_invoke env call signers s = Inr s' \<Longrightarrow> fas_configs s' = fas_configs s"
  "factory_invoke_signed env bump call signers s = Inr s' \<Longrightarrow> fas_configs s' = fas_configs s"
  "create_factory_mint env signers ctx bump args s = Inr s' \<Longrightarrow> fas_configs s' = fas_configs s"
  by (auto simp: factory_invoke_signed_def create_factory_mint_def Let_def and_then_ok factory_invoke_ok)

lemmas factory_handlers = create_token_2022_mint_def mint_to_holder_def set_transfer_fee_config_def
  withdraw_withheld_fees_def transfer_with_fee_def burn_by_holder_def harvest_withheld_fees_def

lemma factory_config_stays:
  assumes "token_2022_factory env signers i s = Inr s'" and "config_of env mint s = Some c"
  shows "config_of env mint s' = Some c"
  using assms
  by (cases i) (auto simp: factory_handlers and_then_ok check_seeds_ok init_fresh_ok config_of_def
      dest!: factory_invoke_configs)

lemma factory_without_admin:
  assumes "mint_guarded env mint watched" and "token_2022_factory env signers i s = Inr s'"
    and "config_of env mint s = Some c" and "factory_authority env \<notin> set signers"
    and "tmc_admin c \<notin> set signers"
  shows "watched (fas_tokens s') = watched (fas_tokens s)"
proof -
  note keeps = factory_invoke_keeps [OF assms(1) _ notE [OF assms(4)]]
    factory_invoke_signed_keeps [OF assms(1)]
  have other: "m \<noteq> mint" if "load_factory_admin env signers admin k authority m s = Inr c'" for admin k authority m c'
    using that assms(3,5) by (auto simp: load_factory_admin_ok)
  show ?thesis
  proof (cases i)
    case (CreateToken2022Mint ctx args)
    with assms(2) obtain bump s1 where f: "fas_configs s (ctm_config ctx) = None"
      "fst (find_pda (fce_anchor env) (factory_config_seeds (ctm_mint ctx))) = ctm_config ctx"
      "create_factory_mint env signers ctx bump args s = Inr s1" "fas_tokens s' = fas_tokens s1"
      by (auto simp: create_token_2022_mint_def checked_ok)
    with assms(3) have "ctm_mint ctx \<noteq> mint" by (auto simp: config_of_def)
    with create_factory_mint_keeps [OF assms(1) f(3) assms(4)] f(4) show ?thesis by simp
  next
    case (MintToHolder ctx amount)
    with assms(2) show ?thesis by (auto simp: mint_to_holder_def and_then_ok dest!: other keeps)
  next
    case (WithdrawWithheldFees ctx)
    with assms(2) show ?thesis by (auto simp: withdraw_withheld_fees_def and_then_ok dest!: other keeps)
  next
    case (SetTransferFeeConfig ctx b m)
    with assms(2) show ?thesis by (auto simp: set_transfer_fee_config_def and_then_ok dest!: other keeps)
  qed (use assms(2) in \<open>auto simp: transfer_with_fee_def burn_by_holder_def harvest_withheld_fees_def and_then_ok
      dest!: keeps(1)\<close>)
qed

interpretation factory: authority_program "factory_exec env" "config_of env mint" "\<lambda>s. v (fas_tokens s)"
    "\<lambda>c tx. tmc_admin c \<in> set (fst tx)"
    "\<lambda>tx. mint_guarded env mint v \<and> factory_authority env \<notin> set (fst tx)"
  for env mint v
proof
  fix i s s' c
  assume e: "factory_exec env i s = Inr s'" and c: "config_of env mint s = Some c"
  then have t: "token_2022_factory env (fst i) (snd i) s = Inr s'" by (cases i) simp
  show "config_of env mint s' = Some c" by (rule factory_config_stays [OF t c])
  assume "mint_guarded env mint v \<and> factory_authority env \<notin> set (fst i)" and "tmc_admin c \<notin> set (fst i)"
  then show "v (fas_tokens s') = v (fas_tokens s)" using factory_without_admin [OF _ t c] by blast
qed

section \<open>A concrete token program\<close>

text \<open>It keeps what has been minted of each mint.\<close>

fun demo_factory_invoke :: "(factory_call, pubkey \<Rightarrow> nat) token_invoke" where
  "demo_factory_invoke (FactoryMintTo mint _ authority amount _) signers t =
     (if authority = 350605 \<and> authority \<in> set signers then Some (t(mint := t mint + unat amount)) else None)"
| "demo_factory_invoke _ signers t = Some t"

definition demo_factory :: "(pubkey \<Rightarrow> nat) factory_env" where
  "demo_factory = \<lparr>fce_anchor = demo_env, fce_invoke = demo_factory_invoke, fce_extended_mint_len = Some 300,
     fce_fee_account_len = Some 178, fce_metadata_tlv_len = (\<lambda>_ _ _ _. Some 100),
     fce_minimum_balance = (\<lambda>_. Some 1000)\<rparr>"

lemma demo_factory_addresses [simp]:
  "demo_hash factory_authority_seeds = 350605"
  "demo_hash (factory_config_seeds 50) = 313320" "demo_hash (factory_config_seeds 51) = 463915"
  by code_simp+

definition demo_create :: "pubkey \<Rightarrow> pubkey \<Rightarrow> pubkey \<Rightarrow> factory_instruction" where
  "demo_create admin k mint = CreateToken2022Mint
     \<lparr>ctm_admin = admin, ctm_config = k, ctm_mint_authority = 350605, ctm_mint = mint\<rparr>
     \<lparr>ctg_decimals = 6, ctg_name = ''lab'', ctg_symbol = ''LAB'', ctg_uri = [], ctg_fee_basis_points = 100,
      ctg_maximum_fee = 10\<rparr>"

definition demo_mint_to :: "pubkey \<Rightarrow> pubkey \<Rightarrow> pubkey \<Rightarrow> factory_instruction" where
  "demo_mint_to admin k mint = MintToHolder \<lparr>fad_admin = admin, fad_config = k, fad_mint_authority = 350605,
     fad_mint = mint, fam_user = 7, fam_user_token = 60\<rparr> 100"

text \<open>Admin 1 creates mint 50; then user 2 creates mint 51, mints of it, and tries to mint of mint 50.\<close>

definition demo_factory_rest :: "(pubkey list \<times> factory_instruction) list" where
  "demo_factory_rest =
     [([2, 51], demo_create 2 463915 51), ([2, 60], demo_mint_to 2 463915 51),
      ([2, 60], demo_mint_to 2 313320 50)]"

definition demo_created :: "pubkey \<Rightarrow> pubkey \<Rightarrow> token_2022_mint_config" where
  "demo_created admin mint = \<lparr>tmc_admin = admin, tmc_mint = mint, tmc_mint_authority_bump = 255, tmc_decimals = 6\<rparr>"

definition demo_factory_state :: "(pubkey \<Rightarrow> nat) factory_state" where
  "demo_factory_state = \<lparr>fas_configs = [313320 \<mapsto> demo_created 1 50], fas_tokens = (\<lambda>_. 0)\<rparr>"

lemmas demo_factory_eval = demo_created_def demo_factory_state_def demo_factory_def demo_create_def
  demo_mint_to_def create_token_2022_mint_def create_factory_mint_def factory_mint_space_def mint_to_holder_def
  need_signer_def check_seeds_def check_seeds_bump_def load_def init_fresh_def load_factory_admin_def
  load_factory_config_def factory_invoke_def factory_invoke_signed_def checked_add_def checked_sub_def
  standalone_tlv_header_len_def pod_mint_size_def token_account_size_def

lemma demo_factory_setup:
  "factory_exec demo_factory ([1, 50], demo_create 1 313320 50) \<lparr>fas_configs = (\<lambda>_. None), fas_tokens = (\<lambda>_. 0)\<rparr> =
     Inr demo_factory_state"
  by (simp add: demo_factory_eval)

lemma demo_factory_run:
  "fas_tokens (run_transactions (factory_exec demo_factory) demo_factory_rest demo_factory_state) 51 = 100"
  by (simp add: demo_factory_rest_def demo_factory_eval)

lemma demo_factory_guarded: "mint_guarded demo_factory mint (\<lambda>t. t mint)"
proof -
  have "t' mint = t mint \<or> call_mint call = Some mint \<and> 350605 \<in> set signers"
    if "demo_factory_invoke call signers t = Some t'" for call signers t t'
    using that by (cases call) (auto split: if_splits)
  moreover have "fce_invoke demo_factory = demo_factory_invoke" "factory_authority demo_factory = 350605"
    by (simp_all add: demo_factory_def factory_authority_def)
  ultimately show ?thesis unfolding guarded_by_def by metis
qed

section \<open>The property\<close>

text \<open>C38: Although one address signs for all mints of the factory, no run of transactions without the
  signature of the admin who created a mint changes anything that the token program guards by the
  authority's signature for that mint, whatever the admins of other mints do.\<close>

theorem factory_authority_serves_admin:
  assumes "mint_guarded env mint watched" and "config_of env mint s = Some c"
    and "list_all (\<lambda>(signers, i). factory_authority env \<notin> set signers \<and> tmc_admin c \<notin> set signers) txs"
  shows "watched (fas_tokens (run_transactions (factory_exec env) txs s)) = watched (fas_tokens s)"
  by (rule factory.run_without_admin [OF assms(2)]) (use assms(1,3) in \<open>auto simp: list_all_iff\<close>)

theorem factory_authority_serves_admin_witness:
  "fas_tokens (run_transactions (factory_exec demo_factory) demo_factory_rest demo_factory_state) 50 = 0"
  using factory_authority_serves_admin [of demo_factory 50 "\<lambda>t. t 50" demo_factory_state "demo_created 1 50"
      demo_factory_rest] demo_factory_guarded [of 50]
  by (simp add: config_of_def factory_authority_def demo_factory_rest_def demo_factory_state_def demo_created_def)
    (simp add: demo_factory_def)

end
